(* ===== verification/Rust_Prelude.thy ===== *)
theory Rust_Prelude
  imports
    Main
    "HOL-Library.Word"
    "HOL-Library.AList"
    "HOL-Library.Monad_Syntax"
    "HOL-Library.List_Lexorder"
    "HOL-Library.Char_ord"
begin

unbundle bit_operations_syntax

text \<open>
  What the Rust sources use of their language and its standard library: machine integers with
  the saturating operations, \<open>Result\<close> and \<open>Option\<close>, indexing and slicing that panic out of
  range, iterator adapters, \<open>HashMap\<close>, UTF-8 strings with their decimal conversions, and the
  big- and little-endian byte conversions.  The collections \<open>wnat\<close> (words read as naturals)
  and \<open>exec_simps\<close> (computations that do not panic) carry the component proofs.
\<close>

named_theorems wnat
named_theorems exec_simps

section \<open>Machine integers\<close>

type_synonym u8 = "8 word"
type_synonym u16 = "16 word"
type_synonym u32 = "32 word"
type_synonym u64 = "64 word"
type_synonym usize = "64 word"
type_synonym bytes = "u8 list"

definition sat_add :: "'a::len word \<Rightarrow> 'a word \<Rightarrow> 'a word" where
  "sat_add a b = (if unat a + unat b < 2 ^ LENGTH('a) then a + b else - 1)"

definition sat_sub :: "'a::len word \<Rightarrow> 'a word \<Rightarrow> 'a word" where
  "sat_sub a b = (if b \<le> a then a - b else 0)"

lemma unat_sat_add:
  "unat (sat_add a b :: 'a::len word) = min (unat a + unat b) (2 ^ LENGTH('a) - 1)"
proof (cases "unat a + unat b < 2 ^ LENGTH('a)")
  case True
  then show ?thesis by (simp add: sat_add_def unat_word_ariths)
next
  case False
  then show ?thesis by (simp add: sat_add_def unsigned_minus_1_eq_mask mask_eq_exp_minus_1)
qed

lemma unat_sat_sub [wnat]: "unat (sat_sub a b) = unat a - unat b"
  by (auto simp: sat_sub_def unat_sub word_le_nat_alt)

lemma unat_sat_add_u64 [wnat]:
  "unat (sat_add a b :: u64) = min (unat a + unat b) 18446744073709551615"
  by (simp add: unat_sat_add)

lemma unat_sat_add_u16 [wnat]:
  "unat (sat_add a b :: u16) = min (unat a + unat b) 65535"
  by (simp add: unat_sat_add)

lemma unat_min [wnat]: "unat (min a b) = min (unat a) (unat b)"
  by (auto simp: min_def word_le_nat_alt)

lemma unat_max [wnat]: "unat (max a b) = max (unat a) (unat b)"
  by (auto simp: max_def word_le_nat_alt)

lemma unat_u64_bound: "unat (a :: u64) \<le> 18446744073709551615"
  using unsigned_less [of a, where ?'a = nat] by simp

lemma unat_u8_bound: "unat (a :: u8) \<le> 255"
  using unsigned_less [of a, where ?'a = nat] by simp

lemmas word_order_nat [wnat] = word_le_nat_alt word_less_nat_alt

section \<open>Results and errors\<close>

text \<open>
  One constructor per \<open>bail!\<close>, \<open>context\<close> or error conversion of the sources, grouped by
  component; payloads that only reach log lines are dropped.  \<open>External\<close> carries the failure of
  a foreign call (a tool, a socket, a third-party crate), \<open>Panic\<close> a panic inside a handler.
\<close>

datatype ticket_error =
    UnsupportedVersion u8 | ZeroEpoch | MissingPublicKey | MissingPeerId | IssuedInFuture
  | InvalidRenewalWindow | LeaseTooLong | TicketExpired
  | InvalidDelegationDepth | InvalidDelegationBudget | LineageTooLong

datatype control_error =
    ControlFrameTooLarge | InvalidControlFrame | AddressFamilyMismatch | NoControlAddress | InterfaceNotVisible | UnsupportedChannel

datatype manager_error =
    IssuerMismatch | NotAddressed | ConflictingTicket | UnknownSession | AuthenticatedAfterExpiry

datatype policy_error =
    RouteLockPoisoned | IpRuleAddFailed | IpRuleDelFailed | IpCommandFailed | IpRuleShowFailed
  | IpRouteFlushFailed | ControlBypassAddFailed | ControlBypassDelFailed

datatype cascade_error =
    EmptyIssuer | SelfConnection | EmptyPeerId | DelegationBudgetExhausted | DelegationLoop
  | ParentTooCloseToExpiry

datatype wireguard_error =
    WgShowFailed | WgSetFailed | NoPublicKey | InvalidListenPort | NoListenPort | NoSourceAddress

datatype transport_error =
    TunnelPacketFailed | ChannelClosed | AllPathsStopped

datatype management_error =
    EmptyRequest | RequestTooLarge | InvalidHeaders | MissingRequestLine | MissingMethod | MissingPath
  | TruncatedBody | InvalidSelection

datatype discovery_error =
    StunUnresolved | NoPublicAddress | InvalidStunResponse | NoXorMappedAddress | TrackerRejected | TrackerWithoutHost
  | TrackerUnresolved | InvalidConnectResponse | InvalidAnnounceResponse | UnsupportedScheme

datatype error =
    External nat
  | Panic
  | TicketError ticket_error
  | ControlError control_error
  | ManagerError manager_error
  | PolicyError policy_error
  | CascadeError cascade_error
  | WireguardError wireguard_error
  | TransportError transport_error
  | ManagementError management_error
  | DiscoveryError discovery_error

type_synonym 'a res = "error + 'a"

fun is_ok :: "'a res \<Rightarrow> bool" where
  "is_ok (Inl e) = False"
| "is_ok (Inr x) = True"

section \<open>Computations that may panic\<close>

datatype 'a exec = Panicked | Returned 'a

fun exec_bind :: "'a exec \<Rightarrow> ('a \<Rightarrow> 'b exec) \<Rightarrow> 'b exec" where
  "exec_bind Panicked f = Panicked"
| "exec_bind (Returned x) f = f x"

text \<open>\<open>xs[i]\<close> and \<open>&xs[a..b]\<close>.\<close>

definition index_at :: "'a list \<Rightarrow> nat \<Rightarrow> 'a exec" where
  "index_at xs i = (if i < length xs then Returned (xs ! i) else Panicked)"

definition slice :: "'a list \<Rightarrow> nat \<Rightarrow> nat \<Rightarrow> 'a list exec" where
  "slice xs a b = (if a \<le> b \<and> b \<le> length xs then Returned (take (b - a) (drop a xs)) else Panicked)"

lemma index_at_in_range [exec_simps]: "i < length xs \<Longrightarrow> index_at xs i = Returned (xs ! i)"
  by (simp add: index_at_def)

lemma slice_in_range [exec_simps]:
  "a \<le> b \<Longrightarrow> b \<le> length xs \<Longrightarrow> slice xs a b = Returned (take (b - a) (drop a xs))"
  by (simp add: slice_def)

lemma exec_bind_not_panicked:
  "exec_bind m f \<noteq> Panicked \<longleftrightarrow> (\<exists>x. m = Returned x \<and> f x \<noteq> Panicked)"
  by (cases m) auto

lemma exec_bind_Returned:
  "exec_bind m f = Returned y \<longleftrightarrow> (\<exists>x. m = Returned x \<and> f x = Returned y)"
  by (cases m) auto

section \<open>Iterator adapters\<close>

fun filter_map :: "('a \<Rightarrow> 'b option) \<Rightarrow> 'a list \<Rightarrow> 'b list" where
  "filter_map f [] = []"
| "filter_map f (x # xs) = (case f x of None \<Rightarrow> filter_map f xs | Some y \<Rightarrow> y # filter_map f xs)"

fun find_map :: "('a \<Rightarrow> 'b option) \<Rightarrow> 'a list \<Rightarrow> 'b option" where
  "find_map f [] = None"
| "find_map f (x # xs) = (case f x of None \<Rightarrow> find_map f xs | Some y \<Rightarrow> Some y)"

text \<open>\<open>Iterator::max_by_key\<close> keeps the last of several maximal elements.\<close>

fun max_by_key :: "('a \<Rightarrow> 'k::linorder) \<Rightarrow> 'a list \<Rightarrow> 'a option" where
  "max_by_key k [] = None"
| "max_by_key k (x # xs) = Some (fold (\<lambda>y m. if k m \<le> k y then y else m) xs x)"

text \<open>\<open>slice::windows(2)\<close>.\<close>

fun windows2 :: "'a list \<Rightarrow> ('a \<times> 'a) list" where
  "windows2 (x # y # xs) = (x, y) # windows2 (y # xs)"
| "windows2 _ = []"

lemma set_filter_map [simp]: "set (filter_map f xs) = {y. \<exists>x\<in>set xs. f x = Some y}"
  by (induction xs) (auto split: option.splits)

lemma filter_map_append [simp]: "filter_map f (xs @ ys) = filter_map f xs @ filter_map f ys"
  by (induction xs) (auto split: option.splits)

lemma find_map_SomeD: "find_map f xs = Some y \<Longrightarrow> \<exists>x\<in>set xs. f x = Some y"
  by (induction xs) (auto split: option.splits)

lemma find_map_None: "find_map f xs = None \<longleftrightarrow> (\<forall>x\<in>set xs. f x = None)"
  by (induction xs) (auto split: option.splits)

lemma find_SomeD: "find P xs = Some x \<Longrightarrow> x \<in> set xs \<and> P x"
  by (induction xs) (auto split: if_splits)

lemma fold_max_in: "fold (\<lambda>y m. if k m \<le> k y then y else m) xs x \<in> insert x (set xs)"
proof (induction xs arbitrary: x)
  case Nil
  then show ?case by simp
next
  case (Cons z xs)
  then show ?case using Cons.IH [of z] Cons.IH [of x] by auto
qed

lemma fold_max_ge:
  fixes k :: "'a \<Rightarrow> 'k::linorder"
  shows "y \<in> insert x (set xs) \<Longrightarrow> k y \<le> k (fold (\<lambda>y m. if k m \<le> k y then y else m) xs x)"
proof (induction xs arbitrary: x y)
  case Nil
  then show ?case by simp
next
  case (Cons z xs)
  let ?m = "if k x \<le> k z then z else x"
  have top: "k ?m \<le> k (fold (\<lambda>y m. if k m \<le> k y then y else m) xs ?m)"
    by (rule Cons.IH) simp
  have "k x \<le> k ?m" and "k z \<le> k ?m" by auto
  then show ?case
    using Cons.prems Cons.IH [of y ?m] top by (auto intro: order_trans)
qed

lemma max_by_key_SomeD:
  assumes "max_by_key k xs = Some x"
  shows "x \<in> set xs" and "\<And>y. y \<in> set xs \<Longrightarrow> k y \<le> k x"
proof -
  from assms obtain z zs where xs: "xs = z # zs"
    and x: "x = fold (\<lambda>y m. if k m \<le> k y then y else m) zs z"
    by (cases xs) auto
  show "x \<in> set xs" using fold_max_in [of k zs z] by (simp add: xs x)
  show "k y \<le> k x" if "y \<in> set xs" for y
    using that fold_max_ge [of y z zs k] by (simp add: xs x)
qed

lemma max_by_key_None [simp]: "max_by_key k xs = None \<longleftrightarrow> xs = []"
  by (cases xs) auto

section \<open>HashMap\<close>

text \<open>
  A \<open>HashMap\<close> is an association list with distinct keys whose order stands for the (unspecified)
  iteration order: \<open>get\<close> is \<open>map_of\<close>, \<open>insert\<close> is \<open>AList.update\<close>, \<open>remove\<close> is
  \<open>AList.delete\<close>, \<open>retain\<close> is \<open>filter\<close>.
\<close>

type_synonym ('k, 'v) hashmap = "('k \<times> 'v) list"

abbreviation hm_get :: "('k, 'v) hashmap \<Rightarrow> 'k \<Rightarrow> 'v option" where
  "hm_get m k \<equiv> map_of m k"

abbreviation hm_insert :: "'k \<Rightarrow> 'v \<Rightarrow> ('k, 'v) hashmap \<Rightarrow> ('k, 'v) hashmap" where
  "hm_insert k v m \<equiv> AList.update k v m"

abbreviation hm_remove :: "'k \<Rightarrow> ('k, 'v) hashmap \<Rightarrow> ('k, 'v) hashmap" where
  "hm_remove k m \<equiv> AList.delete k m"

definition hm_wf :: "('k, 'v) hashmap \<Rightarrow> bool" where
  "hm_wf m \<longleftrightarrow> distinct (map fst m)"

lemma hm_get_insert [simp]: "hm_get (hm_insert k v m) = (hm_get m)(k \<mapsto> v)"
  by (rule update_conv')

lemma hm_get_remove [simp]: "hm_get (hm_remove k m) = (hm_get m)(k := None)"
  by (rule delete_conv')

lemma hm_wf_Nil [simp, intro!]: "hm_wf []"
  by (simp add: hm_wf_def)

lemma hm_wf_insert [simp, intro]: "hm_wf m \<Longrightarrow> hm_wf (hm_insert k v m)"
  by (simp add: hm_wf_def distinct_update)

lemma hm_wf_remove [simp, intro]: "hm_wf m \<Longrightarrow> hm_wf (hm_remove k m)"
  by (simp add: hm_wf_def distinct_delete)

lemma hm_wf_filter [simp, intro]: "hm_wf m \<Longrightarrow> hm_wf (filter P m)"
  by (simp add: hm_wf_def distinct_map_filter)

lemma hm_get_in_set: "hm_wf m \<Longrightarrow> (k, v) \<in> set m \<longleftrightarrow> hm_get m k = Some v"
  by (simp add: hm_wf_def)

lemma hm_get_filter:
  "hm_wf m \<Longrightarrow> hm_get (filter P m) k =
     (case hm_get m k of None \<Rightarrow> None | Some v \<Rightarrow> if P (k, v) then Some v else None)"
proof (induction m)
  case Nil
  then show ?case by simp
next
  case (Cons a m)
  then have wf: "hm_wf m" and fresh: "fst a \<notin> fst ` set m" by (auto simp: hm_wf_def)
  show ?case
  proof (cases "fst a = k")
    case True
    with fresh have none: "hm_get m k = None" by (auto simp: map_of_eq_None_iff)
    from Cons.IH [OF wf] none have "hm_get (filter P m) k = None" by simp
    with True show ?thesis by (cases a) auto
  next
    case False
    with Cons.IH [OF wf] show ?thesis by (cases a) auto
  qed
qed

end
