(* ===== verification/Rust_Text.thy ===== *)
theory Rust_Text
  imports Rust_Prelude
begin

text \<open>
  Byte order conversions (\<open>to_be_bytes\<close>, \<open>from_be_bytes\<close>, \<open>to_le_bytes\<close>, \<open>from_le_bytes\<close>) and
  the string operations of the standard library that the sources use.  A Rust string is a
  \<open>string\<close> whose characters are its UTF-8 bytes, so \<open>length\<close> is \<open>str::len\<close>; white space is the
  ASCII white space of \<open>char::is_whitespace\<close>, which is all that the tools' output holds.
\<close>

section \<open>Byte order\<close>

primrec be_nat :: "nat \<Rightarrow> nat \<Rightarrow> bytes" where
  "be_nat 0 x = []"
| "be_nat (Suc n) x = be_nat n (x div 256) @ [word_of_nat x]"

definition nat_of_be :: "bytes \<Rightarrow> nat" where
  "nat_of_be bs = foldl (\<lambda>acc b. acc * 256 + unat b) 0 bs"

definition to_be_bytes :: "'a::len word \<Rightarrow> bytes" where
  "to_be_bytes w = be_nat (LENGTH('a) div 8) (unat w)"

definition from_be_bytes :: "bytes \<Rightarrow> 'a::len word" where
  "from_be_bytes bs = word_of_nat (nat_of_be bs)"

definition to_le_bytes :: "'a::len word \<Rightarrow> bytes" where
  "to_le_bytes w = rev (to_be_bytes w)"

definition from_le_bytes :: "bytes \<Rightarrow> 'a::len word" where
  "from_le_bytes bs = from_be_bytes (rev bs)"

lemma length_be_nat [simp]: "length (be_nat n x) = n"
  by (induction n arbitrary: x) auto

lemma nat_of_be_Nil [simp]: "nat_of_be [] = 0"
  by (simp add: nat_of_be_def)

lemma nat_of_be_snoc [simp]: "nat_of_be (bs @ [b]) = nat_of_be bs * 256 + unat b"
  by (simp add: nat_of_be_def)

lemma nat_of_be_be_nat: "nat_of_be (be_nat n x) = x mod 256 ^ n"
proof (induction n arbitrary: x)
  case 0
  then show ?case by simp
next
  case (Suc n)
  have "nat_of_be (be_nat (Suc n) x) = (x div 256) mod 256 ^ n * 256 + x mod 256"
    by (simp add: Suc.IH unsigned_of_nat take_bit_eq_mod)
  also have "\<dots> = x mod (256 * 256 ^ n)"
    by (simp add: mod_mult2_eq)
  finally show ?case by simp
qed

lemma nat_of_be_bound: "nat_of_be bs < 256 ^ length bs"
proof (induction bs rule: rev_induct)
  case Nil
  then show ?case by simp
next
  case (snoc b bs)
  have "unat b \<le> 255" by (rule unat_u8_bound)
  moreover have "Suc (nat_of_be bs) \<le> 256 ^ length bs" using snoc by simp
  then have "Suc (nat_of_be bs) * 256 \<le> 256 ^ length bs * 256" by (rule mult_right_mono) simp
  ultimately have "nat_of_be bs * 256 + unat b < 256 ^ length bs * 256"
    by (simp only: mult_Suc)
  then show ?case by (simp add: mult.commute)
qed

lemma be_nat_nat_of_be: "be_nat (length bs) (nat_of_be bs) = bs"
proof (induction bs rule: rev_induct)
  case Nil
  then show ?case by simp
next
  case (snoc b bs)
  have b: "unat b < 256" using unat_u8_bound [of b] by simp
  have "(256 :: u8) = 0" by (simp add: word_unat_eq_iff)
  then have "word_of_nat (nat_of_be bs * 256 + unat b) = b"
    by (simp only: of_nat_add of_nat_mult of_nat_numeral mult_zero_right add_0) simp
  with snoc b show ?case by simp
qed

lemma length_to_be_bytes [simp]: "length (to_be_bytes (w :: 'a::len word)) = LENGTH('a) div 8"
  by (simp add: to_be_bytes_def)

lemma length_to_le_bytes [simp]: "length (to_le_bytes (w :: 'a::len word)) = LENGTH('a) div 8"
  by (simp add: to_le_bytes_def)

lemma from_be_bytes_to_be_bytes:
  fixes w :: "'a::len word"
  assumes "LENGTH('a) = 8 * (LENGTH('a) div 8)"
  shows "from_be_bytes (to_be_bytes w) = w"
proof -
  have "(256 :: nat) ^ (LENGTH('a) div 8) = 2 ^ (8 * (LENGTH('a) div 8))"
    by (simp add: power_mult)
  then have "(256 :: nat) ^ (LENGTH('a) div 8) = 2 ^ LENGTH('a)"
    using assms by simp
  then show ?thesis
    by (simp add: from_be_bytes_def to_be_bytes_def nat_of_be_be_nat)
qed

lemma to_be_bytes_from_be_bytes:
  assumes "LENGTH('a::len) = 8 * length bs"
  shows "to_be_bytes (from_be_bytes bs :: 'a word) = bs"
proof -
  have "nat_of_be bs < 2 ^ LENGTH('a)"
    using nat_of_be_bound [of bs] by (simp add: assms power_mult)
  then have "unat (word_of_nat (nat_of_be bs) :: 'a word) = nat_of_be bs"
    by (simp add: unsigned_of_nat take_bit_eq_mod)
  then show ?thesis
    by (simp add: to_be_bytes_def from_be_bytes_def assms be_nat_nat_of_be)
qed

lemma be_round_trip_sizes [simp]:
  "from_be_bytes (to_be_bytes (a :: u16)) = a"
  "from_be_bytes (to_be_bytes (b :: u32)) = b"
  "from_be_bytes (to_be_bytes (c :: u64)) = c"
  "from_be_bytes (to_be_bytes (d :: 128 word)) = d"
  by (simp_all add: from_be_bytes_to_be_bytes)

lemma to_be_bytes_inj_u64: "to_be_bytes (a :: u64) = to_be_bytes b \<longleftrightarrow> a = b"
  using be_round_trip_sizes(3) by metis

section \<open>Strings\<close>

definition char_byte :: "char \<Rightarrow> u8" where
  "char_byte c = word_of_nat (of_char c)"

definition byte_char :: "u8 \<Rightarrow> char" where
  "byte_char b = char_of (unat b)"

definition as_bytes :: "string \<Rightarrow> bytes" where
  "as_bytes s = map char_byte s"

lemma byte_char_char_byte [simp]: "byte_char (char_byte c) = c"
proof -
  have "(of_char c :: nat) < 256" by (simp add: nat_of_char_less_256)
  then show ?thesis
    by (simp add: byte_char_def char_byte_def unsigned_of_nat take_bit_eq_mod)
qed

lemma char_byte_byte_char [simp]: "char_byte (byte_char b) = b"
proof -
  have "unat b < 256" using unat_u8_bound [of b] by simp
  then show ?thesis by (simp add: byte_char_def char_byte_def of_char_of)
qed

definition utf8_cont :: "u8 \<Rightarrow> bool" where
  "utf8_cont b \<longleftrightarrow> 128 \<le> b \<and> b \<le> 191"

fun utf8_valid :: "bytes \<Rightarrow> bool" where
  "utf8_valid [] = True"
| "utf8_valid (b0 # bs) =
    (if b0 < 128 then utf8_valid bs
     else if 194 \<le> b0 \<and> b0 \<le> 223 then
       (case bs of b1 # r \<Rightarrow> utf8_cont b1 \<and> utf8_valid r | _ \<Rightarrow> False)
     else if 224 \<le> b0 \<and> b0 \<le> 239 then
       (case bs of b1 # b2 # r \<Rightarrow>
          (if b0 = 224 then 160 \<le> b1 \<and> b1 \<le> 191
           else if b0 = 237 then 128 \<le> b1 \<and> b1 \<le> 159 else utf8_cont b1)
          \<and> utf8_cont b2 \<and> utf8_valid r
        | _ \<Rightarrow> False)
     else if 240 \<le> b0 \<and> b0 \<le> 244 then
       (case bs of b1 # b2 # b3 # r \<Rightarrow>
          (if b0 = 240 then 144 \<le> b1 \<and> b1 \<le> 191
           else if b0 = 244 then 128 \<le> b1 \<and> b1 \<le> 143 else utf8_cont b1)
          \<and> utf8_cont b2 \<and> utf8_cont b3 \<and> utf8_valid r
        | _ \<Rightarrow> False)
     else False)"

definition from_utf8 :: "bytes \<Rightarrow> string option" where
  "from_utf8 bs = (if utf8_valid bs then Some (map byte_char bs) else None)"

text \<open>The type invariant of \<open>str\<close> and \<open>String\<close>.\<close>

definition rust_str :: "string \<Rightarrow> bool" where
  "rust_str s \<longleftrightarrow> utf8_valid (as_bytes s)"

lemma length_as_bytes [simp]: "length (as_bytes s) = length s"
  by (simp add: as_bytes_def)

lemma map_byte_char_as_bytes [simp]: "map byte_char (as_bytes s) = s"
  by (simp add: as_bytes_def comp_def)

lemma as_bytes_inj [simp]: "as_bytes s = as_bytes t \<longleftrightarrow> s = t"
  using map_byte_char_as_bytes by metis

lemma from_utf8_as_bytes [simp]: "rust_str s \<Longrightarrow> from_utf8 (as_bytes s) = Some s"
  by (simp add: from_utf8_def rust_str_def)

lemma as_bytes_from_utf8: "from_utf8 bs = Some s \<Longrightarrow> as_bytes s = bs \<and> rust_str s"
proof -
  assume s: "from_utf8 bs = Some s"
  have "as_bytes (map byte_char bs) = bs"
    by (simp add: as_bytes_def comp_def)
  with s show ?thesis by (auto simp: from_utf8_def rust_str_def split: if_splits)
qed

definition starts_with :: "'a list \<Rightarrow> 'a list \<Rightarrow> bool" where
  "starts_with s p \<longleftrightarrow> take (length p) s = p"

definition ends_with :: "'a list \<Rightarrow> 'a list \<Rightarrow> bool" where
  "ends_with s p \<longleftrightarrow> length p \<le> length s \<and> drop (length s - length p) s = p"

fun contains_str :: "string \<Rightarrow> string \<Rightarrow> bool" where
  "contains_str [] p = (p = [])"
| "contains_str (c # cs) p = (starts_with (c # cs) p \<or> contains_str cs p)"

lemma starts_with_append [simp]: "starts_with (p @ s) p"
  by (simp add: starts_with_def)

lemma starts_with_length: "starts_with s p \<Longrightarrow> length p \<le> length s"
  by (metis starts_with_def length_take min.cobounded1)

text \<open>
  White space of ASCII.  Rust's \<open>char::is_whitespace\<close> also counts the Unicode spaces beyond ASCII; they do
  not occur in the output of \<open>wg\<close> and \<open>ip\<close> nor in the heads of well-formed HTTP requests, and texts with
  them are outside this model.
\<close>

definition is_ws :: "char \<Rightarrow> bool" where
  "is_ws c \<longleftrightarrow> (let n = (of_char c :: nat) in n = 32 \<or> (9 \<le> n \<and> n \<le> 13))"

definition trim_start :: "string \<Rightarrow> string" where
  "trim_start s = dropWhile is_ws s"

definition trim_end_by :: "(char \<Rightarrow> bool) \<Rightarrow> string \<Rightarrow> string" where
  "trim_end_by P s = rev (dropWhile P (rev s))"

definition trim :: "string \<Rightarrow> string" where
  "trim s = trim_end_by is_ws (trim_start s)"

definition newline :: char where
  "newline = char_of (10 :: nat)"

definition strip_cr :: "string \<Rightarrow> string" where
  "strip_cr s = (if s \<noteq> [] \<and> last s = char_of (13 :: nat) then butlast s else s)"

fun lines_from :: "string \<Rightarrow> string \<Rightarrow> string list" where
  "lines_from cur [] = (if cur = [] then [] else [cur])"
| "lines_from cur (c # cs) =
     (if c = newline then strip_cr cur # lines_from [] cs else lines_from (cur @ [c]) cs)"

definition str_lines :: "string \<Rightarrow> string list" where
  "str_lines s = lines_from [] s"

fun split_ws_from :: "string \<Rightarrow> string \<Rightarrow> string list" where
  "split_ws_from cur [] = (if cur = [] then [] else [cur])"
| "split_ws_from cur (c # cs) =
     (if is_ws c then (if cur = [] then split_ws_from [] cs else cur # split_ws_from [] cs)
      else split_ws_from (cur @ [c]) cs)"

definition split_whitespace :: "string \<Rightarrow> string list" where
  "split_whitespace s = split_ws_from [] s"

text \<open>\<open>str::split(pattern)\<close> for a set of separator characters: empty pieces are kept.\<close>

fun split_chars_from :: "(char \<Rightarrow> bool) \<Rightarrow> string \<Rightarrow> string \<Rightarrow> string list" where
  "split_chars_from P cur [] = [cur]"
| "split_chars_from P cur (c # cs) =
     (if P c then cur # split_chars_from P [] cs else split_chars_from P (cur @ [c]) cs)"

definition split_chars :: "(char \<Rightarrow> bool) \<Rightarrow> string \<Rightarrow> string list" where
  "split_chars P s = split_chars_from P [] s"

text \<open>\<open>str::split_once\<close>: the parts around the first separator.\<close>

fun split_once :: "(char \<Rightarrow> bool) \<Rightarrow> string \<Rightarrow> (string \<times> string) option" where
  "split_once P [] = None"
| "split_once P (c # cs) =
     (if P c then Some ([], cs)
      else case split_once P cs of None \<Rightarrow> None | Some (a, b) \<Rightarrow> Some (c # a, b))"

text \<open>\<open>std::process::Output\<close>, with the two streams decoded.\<close>

record process_output =
  out_success :: bool
  out_stdout :: string
  out_stderr :: string

section \<open>Decimal numbers\<close>

definition digit_char :: "nat \<Rightarrow> char" where
  "digit_char d = char_of (48 + d)"

definition digit_val :: "char \<Rightarrow> nat option" where
  "digit_val c = (let n = (of_char c :: nat) in if 48 \<le> n \<and> n \<le> 57 then Some (n - 48) else None)"

fun dec_string :: "nat \<Rightarrow> string" where
  "dec_string n = (if n < 10 then [digit_char n] else dec_string (n div 10) @ [digit_char (n mod 10)])"

declare dec_string.simps [simp del]

fun digits_val :: "nat \<Rightarrow> string \<Rightarrow> nat option" where
  "digits_val acc [] = Some acc"
| "digits_val acc (c # cs) =
     (case digit_val c of None \<Rightarrow> None | Some d \<Rightarrow> digits_val (acc * 10 + d) cs)"

definition parse_uint :: "nat \<Rightarrow> string \<Rightarrow> nat option" where
  "parse_uint bound s =
     (let ds = (case s of [] \<Rightarrow> [] | c # cs \<Rightarrow> if c = CHR ''+'' then cs else s)
      in if ds = [] then None
         else case digits_val 0 ds of
             None \<Rightarrow> None
           | Some n \<Rightarrow> if n \<le> bound then Some n else None)"

definition parse_word :: "string \<Rightarrow> 'a::len word option" where
  "parse_word s = map_option word_of_nat (parse_uint (2 ^ LENGTH('a) - 1) s)"

lemma digit_val_digit_char: "d < 10 \<Longrightarrow> digit_val (digit_char d) = Some d"
proof -
  assume d: "d < 10"
  then have "(of_char (char_of (48 + d)) :: nat) = 48 + d" by simp
  with d show ?thesis by (simp add: digit_val_def digit_char_def)
qed

lemma digits_val_append:
  "digits_val acc (xs @ ys) =
     (case digits_val acc xs of None \<Rightarrow> None | Some n \<Rightarrow> digits_val n ys)"
  by (induction xs arbitrary: acc) (auto split: option.splits)

lemma digits_val_dec_string: "digits_val 0 (dec_string n) = Some n"
proof (induction n rule: dec_string.induct)
  case (1 n)
  show ?case
  proof (cases "n < 10")
    case True
    then show ?thesis by (subst dec_string.simps) (simp add: digit_val_digit_char)
  next
    case False
    with 1 show ?thesis
      by (subst dec_string.simps) (simp add: digits_val_append digit_val_digit_char)
  qed
qed

lemma dec_string_ne [simp]: "dec_string n \<noteq> []"
  by (subst dec_string.simps) simp

lemma dec_string_chars: "c \<in> set (dec_string n) \<Longrightarrow> \<exists>d<10. c = digit_char d"
proof (induction n rule: dec_string.induct)
  case (1 n)
  show ?case
  proof (cases "n < 10")
    case True
    with "1.prems" show ?thesis by (subst (asm) dec_string.simps) auto
  next
    case False
    with "1.prems" have "c \<in> set (dec_string (n div 10)) \<or> c = digit_char (n mod 10)"
      by (subst (asm) dec_string.simps) auto
    with False "1.IH" show ?thesis by (metis mod_less_divisor zero_less_numeral)
  qed
qed

lemma digit_char_not_plus: "d < 10 \<Longrightarrow> digit_char d \<noteq> CHR ''+''"
  using digit_val_digit_char [of d] by (auto simp: digit_val_def)

lemma parse_uint_dec_string: "parse_uint bound (dec_string n) = (if n \<le> bound then Some n else None)"
proof -
  obtain c cs where s: "dec_string n = c # cs" by (cases "dec_string n") auto
  then have "c \<noteq> CHR ''+''"
    using dec_string_chars [of c n] digit_char_not_plus by auto
  with s digits_val_dec_string [of n] show ?thesis by (simp add: parse_uint_def)
qed

lemma parse_word_dec_string: "parse_word (dec_string (unat w)) = Some (w :: 'a::len word)"
proof -
  have "unat w < 2 ^ LENGTH('a)" by (rule unsigned_less)
  then have "unat w \<le> 2 ^ LENGTH('a) - 1" by linarith
  then show ?thesis by (simp add: parse_word_def parse_uint_dec_string)
qed

lemma dec_string_inj: "dec_string a = dec_string b \<longleftrightarrow> a = b"
  by (metis digits_val_dec_string option.inject)

end
