(* ===== verification/Net_Types.thy ===== *)
theory Net_Types
  imports Rust_Text
begin

text \<open>
  \<open>std::net\<close> addresses with their derived order and their \<open>Display\<close> output, and the data of the
  \<open>ipnet\<close> crate's \<open>IpNet\<close>.  The crate's functions are parameters of the model: \<open>contains\<close> is an
  argument of every routing definition and the locale \<open>ipnet_crate\<close> states what the crate
  documents about it; \<open>cidr_contains\<close> is the instance that evaluates examples.
\<close>

section \<open>Addresses\<close>

datatype ip_addr = V4 "32 word" | V6 "128 word"

datatype socket_addr = SocketAddr (sa_ip: ip_addr) (sa_port: u16)

datatype ipnet = IpNet (net_addr: ip_addr) (prefix_len: u8)

fun is_ipv4 :: "ip_addr \<Rightarrow> bool" where
  "is_ipv4 (V4 a) = True"
| "is_ipv4 (V6 a) = False"

definition is_ipv6 :: "ip_addr \<Rightarrow> bool" where
  "is_ipv6 a = (\<not> is_ipv4 a)"

definition v4_octets :: "32 word \<Rightarrow> bytes" where
  "v4_octets a = to_be_bytes a"

definition v6_octets :: "128 word \<Rightarrow> bytes" where
  "v6_octets a = to_be_bytes a"

definition v4_of_octets :: "bytes \<Rightarrow> ip_addr" where
  "v4_of_octets bs = V4 (from_be_bytes bs)"

definition v6_of_octets :: "bytes \<Rightarrow> ip_addr" where
  "v6_of_octets bs = V6 (from_be_bytes bs)"

fun pair_bytes :: "bytes \<Rightarrow> u16 list" where
  "pair_bytes (a # b # r) = from_be_bytes [a, b] # pair_bytes r"
| "pair_bytes _ = []"

definition v6_segments :: "128 word \<Rightarrow> u16 list" where
  "v6_segments a = pair_bytes (v6_octets a)"

instantiation ip_addr :: linorder
begin

fun less_eq_ip_addr :: "ip_addr \<Rightarrow> ip_addr \<Rightarrow> bool" where
  "less_eq_ip_addr (V4 a) (V4 b) = (a \<le> b)"
| "less_eq_ip_addr (V4 a) (V6 b) = True"
| "less_eq_ip_addr (V6 a) (V4 b) = False"
| "less_eq_ip_addr (V6 a) (V6 b) = (a \<le> b)"

definition less_ip_addr :: "ip_addr \<Rightarrow> ip_addr \<Rightarrow> bool" where
  "less_ip_addr a b = (a \<le> b \<and> \<not> b \<le> a)"

instance
proof
  fix x y z :: ip_addr
  show "x < y \<longleftrightarrow> x \<le> y \<and> \<not> y \<le> x" by (simp add: less_ip_addr_def)
  show "x \<le> x" by (cases x) auto
  show "x \<le> y \<Longrightarrow> y \<le> z \<Longrightarrow> x \<le> z" by (cases x; cases y; cases z) auto
  show "x \<le> y \<Longrightarrow> y \<le> x \<Longrightarrow> x = y" by (cases x; cases y) auto
  show "x \<le> y \<or> y \<le> x" by (cases x; cases y) auto
qed

end

instantiation socket_addr :: linorder
begin

definition less_eq_socket_addr :: "socket_addr \<Rightarrow> socket_addr \<Rightarrow> bool" where
  "less_eq_socket_addr a b =
     (sa_ip a < sa_ip b \<or> (sa_ip a = sa_ip b \<and> sa_port a \<le> sa_port b))"

definition less_socket_addr :: "socket_addr \<Rightarrow> socket_addr \<Rightarrow> bool" where
  "less_socket_addr a b = (a \<le> b \<and> \<not> b \<le> a)"

instance
  by standard (auto simp: less_eq_socket_addr_def less_socket_addr_def intro: socket_addr.expand)

end

section \<open>Display\<close>

definition hex_digit :: "nat \<Rightarrow> char" where
  "hex_digit d = (if d < 10 then char_of (48 + d) else char_of (87 + d))"

fun hex_string :: "nat \<Rightarrow> string" where
  "hex_string n = (if n < 16 then [hex_digit n] else hex_string (n div 16) @ [hex_digit (n mod 16)])"

declare hex_string.simps [simp del]

fun join :: "string \<Rightarrow> string list \<Rightarrow> string" where
  "join sep [] = []"
| "join sep [x] = x"
| "join sep (x # y # xs) = x @ sep @ join sep (y # xs)"

definition v4_string :: "32 word \<Rightarrow> string" where
  "v4_string a = join ''.'' (map (\<lambda>b. dec_string (unat b)) (v4_octets a))"

text \<open>The run of zero segments that \<open>Ipv6Addr\<close>'s \<open>Display\<close> abbreviates: the first longest one.\<close>

fun zero_span :: "nat \<Rightarrow> u16 list \<Rightarrow> nat \<times> nat \<Rightarrow> nat \<times> nat \<Rightarrow> nat \<times> nat" where
  "zero_span i [] cur best = best"
| "zero_span i (s # ss) (cs, cl) (bs, bl) =
     (if s = 0 then
        let cs' = (if cl = 0 then i else cs); cl' = cl + 1
        in zero_span (Suc i) ss (cs', cl') (if bl < cl' then (cs', cl') else (bs, bl))
      else zero_span (Suc i) ss (0, 0) (bs, bl))"

definition segs_string :: "u16 list \<Rightarrow> string" where
  "segs_string ss = join '':'' (map (\<lambda>s. hex_string (unat s)) ss)"

definition v6_string :: "128 word \<Rightarrow> string" where
  "v6_string a =
     (let o8 = v6_octets a; ss = v6_segments a in
      if take 12 o8 = [0, 0, 0, 0, 0, 0, 0, 0, 0, 0, 255, 255]
      then ''::ffff:'' @ join ''.'' (map (\<lambda>b. dec_string (unat b)) (drop 12 o8))
      else case zero_span 0 ss (0, 0) (0, 0) of (start, len) \<Rightarrow>
        if 1 < len then segs_string (take start ss) @ ''::'' @ segs_string (drop (start + len) ss)
        else segs_string ss)"

fun ip_string :: "ip_addr \<Rightarrow> string" where
  "ip_string (V4 a) = v4_string a"
| "ip_string (V6 a) = v6_string a"

fun socket_addr_string :: "socket_addr \<Rightarrow> string" where
  "socket_addr_string (SocketAddr (V4 a) p) = v4_string a @ '':'' @ dec_string (unat p)"
| "socket_addr_string (SocketAddr (V6 a) p) = ''['' @ v6_string a @ '']:'' @ dec_string (unat p)"

section \<open>The ipnet crate\<close>

definition host_net :: "ip_addr \<Rightarrow> ipnet" where
  "host_net a = IpNet a (case a of V4 _ \<Rightarrow> 32 | V6 _ \<Rightarrow> 128)"

text \<open>
  \<open>IpNet::contains\<close>, as documented: an address is in a network when both are of the same family
  and agree on the first \<open>prefix_len\<close> bits.
\<close>

fun cidr_contains :: "ipnet \<Rightarrow> ip_addr \<Rightarrow> bool" where
  "cidr_contains (IpNet (V4 a) n) (V4 b) = (drop_bit (32 - unat n) a = drop_bit (32 - unat n) b)"
| "cidr_contains (IpNet (V6 a) n) (V6 b) = (drop_bit (128 - unat n) a = drop_bit (128 - unat n) b)"
| "cidr_contains (IpNet _ n) _ = False"

locale ipnet_crate =
  fixes contains :: "ipnet \<Rightarrow> ip_addr \<Rightarrow> bool"
  assumes contains_addr: "contains (IpNet a n) a"
    and contains_host: "contains (host_net a) b \<Longrightarrow> a = b"
    and contains_family: "contains (IpNet a n) b \<Longrightarrow> is_ipv4 a = is_ipv4 b"
begin

lemma host_contains_iff: "contains (host_net a) b \<longleftrightarrow> a = b"
  using contains_host contains_addr by (metis host_net_def)

end

interpretation cidr: ipnet_crate cidr_contains
proof unfold_locales
  fix a b n
  show "cidr_contains (IpNet a n) a" by (cases a) auto
  show "a = b" if "cidr_contains (host_net a) b"
    using that by (cases a; cases b) (auto simp: host_net_def)
  show "is_ipv4 a = is_ipv4 b" if "cidr_contains (IpNet a n) b"
    using that by (cases a; cases b) auto
qed

end
