(* ===== verification/Control.thy ===== *)
theory Control
  imports Net_Types
begin

text \<open>
  \<open>src/src/shortcut/control.rs\<close>: shortcut tickets, their validation, the derivation of the
  ephemeral keys and the framing of control messages.  The crates it calls are parameters:
  \<open>kh\<close> is BLAKE3's keyed hash (key, concatenated updates), \<open>pub\<close> the X25519 public key of a
  private key, \<open>to_json\<close> and \<open>from_json\<close> the \<open>serde_json\<close> conversions.
\<close>

section \<open>Data\<close>

definition CONTROL_VERSION :: u8 where "CONTROL_VERSION = 1"
definition DEFAULT_RENEW_AFTER_SECONDS :: u64 where "DEFAULT_RENEW_AFTER_SECONDS = 120"
definition DEFAULT_EXPIRES_AFTER_SECONDS :: u64 where "DEFAULT_EXPIRES_AFTER_SECONDS = 180"
definition MAX_DELEGATION_DEPTH :: u8 where "MAX_DELEGATION_DEPTH = 8"
definition MAX_CLOCK_SKEW_SECONDS :: u64 where "MAX_CLOCK_SKEW_SECONDS = 30"
definition MAX_LEASE_SECONDS :: u64 where "MAX_LEASE_SECONDS = 300"
definition MAX_CONTROL_FRAME_SIZE :: nat where "MAX_CONTROL_FRAME_SIZE = 64 * 1024"
definition CONTROL_MAGIC :: bytes where "CONTROL_MAGIC = as_bytes ''WGLINKC1''"

lemmas control_consts = CONTROL_VERSION_def DEFAULT_RENEW_AFTER_SECONDS_def
  DEFAULT_EXPIRES_AFTER_SECONDS_def MAX_DELEGATION_DEPTH_def MAX_CLOCK_SKEW_SECONDS_def
  MAX_LEASE_SECONDS_def MAX_CONTROL_FRAME_SIZE_def

datatype shortcut_id = ShortcutId (id_bytes: bytes)

datatype shortcut_role = Left | Right

record shortcut_delegation =
  root_shortcut_id :: shortcut_id
  parent_shortcut_id :: shortcut_id
  depth :: u8
  remaining_delegations :: u8
  visited_issuers :: "bytes list"

datatype shortcut_status = Authenticated | Expired | Rejected

record shortcut_ticket =
  t_version :: u8
  t_shortcut_id :: shortcut_id
  t_epoch :: u64
  t_role :: shortcut_role
  t_issued_at :: u64
  t_renew_at :: u64
  t_expires_at :: u64
  t_selector :: ipnet
  t_issuer_public_key :: string
  t_recipient_public_key :: string
  t_remote_public_key :: string
  t_remote_peer_id :: string
  t_endpoint_candidates :: "socket_addr list"
  t_delegation :: "shortcut_delegation option"
  t_master_secret :: bytes

datatype control_message =
    Keepalive bool
  | Ticket shortcut_ticket
  | Revoke shortcut_id u64
  | Status shortcut_id u64 shortcut_status

record derived_keys =
  local_private :: bytes
  local_public :: bytes
  remote_public :: bytes
  preshared_key :: bytes

section \<open>Frames\<close>

definition encode_control :: "(control_message \<Rightarrow> bytes res) \<Rightarrow> control_message \<Rightarrow> bytes res" where
  "encode_control to_json m =
     (case to_json m of
        Inl e \<Rightarrow> Inl e
      | Inr body \<Rightarrow>
          if MAX_CONTROL_FRAME_SIZE < length body then Inl (ControlError ControlFrameTooLarge)
          else Inr (CONTROL_MAGIC @ body))"

definition decode_control :: "(bytes \<Rightarrow> control_message res) \<Rightarrow> bytes \<Rightarrow> control_message res" where
  "decode_control from_json frame =
     (if length frame \<le> length CONTROL_MAGIC
         \<or> length CONTROL_MAGIC + MAX_CONTROL_FRAME_SIZE < length frame
         \<or> \<not> starts_with frame CONTROL_MAGIC
      then Inl (ControlError InvalidControlFrame)
      else from_json (drop (length CONTROL_MAGIC) frame))"

section \<open>Tickets\<close>

fun local_label :: "shortcut_role \<Rightarrow> string" where
  "local_label Left = ''left-static''"
| "local_label Right = ''right-static''"

fun remote_label :: "shortcut_role \<Rightarrow> string" where
  "remote_label Left = ''right-static''"
| "remote_label Right = ''left-static''"

definition validate_delegation :: "shortcut_delegation \<Rightarrow> unit res" where
  "validate_delegation d =
     (if depth d = 0 \<or> MAX_DELEGATION_DEPTH < depth d then Inl (TicketError InvalidDelegationDepth)
      else if sat_sub MAX_DELEGATION_DEPTH (depth d) < remaining_delegations d
        then Inl (TicketError InvalidDelegationBudget)
      else if unat MAX_DELEGATION_DEPTH < length (visited_issuers d)
        then Inl (TicketError LineageTooLong)
      else Inr ())"

definition validate :: "shortcut_ticket \<Rightarrow> u64 \<Rightarrow> unit res" where
  "validate t now =
     (if t_version t \<noteq> CONTROL_VERSION then Inl (TicketError (UnsupportedVersion (t_version t)))
      else if t_epoch t = 0 then Inl (TicketError ZeroEpoch)
      else if t_issuer_public_key t = [] \<or> t_recipient_public_key t = []
          \<or> t_remote_public_key t = [] then Inl (TicketError MissingPublicKey)
      else if t_remote_peer_id t = [] then Inl (TicketError MissingPeerId)
      else if sat_add now MAX_CLOCK_SKEW_SECONDS < t_issued_at t
        then Inl (TicketError IssuedInFuture)
      else if t_renew_at t \<le> t_issued_at t \<or> t_expires_at t \<le> t_renew_at t
        then Inl (TicketError InvalidRenewalWindow)
      else if MAX_LEASE_SECONDS < sat_sub (t_expires_at t) (t_issued_at t)
        then Inl (TicketError LeaseTooLong)
      else if t_expires_at t \<le> now then Inl (TicketError TicketExpired)
      else case t_delegation t of None \<Rightarrow> Inr () | Some d \<Rightarrow> validate_delegation d)"

text \<open>The \<open>Debug\<close> output of a ticket, as the pairs its \<open>debug_struct\<close> writes.\<close>

datatype debug_value =
    DbgNum nat
  | DbgBytes bytes
  | DbgRole shortcut_role
  | DbgNet ipnet
  | DbgStr string
  | DbgAddrs "socket_addr list"
  | DbgDelegation "shortcut_delegation option"

definition ticket_debug :: "shortcut_ticket \<Rightarrow> (string \<times> debug_value) list" where
  "ticket_debug t =
     [(''version'', DbgNum (unat (t_version t))),
      (''shortcut_id'', DbgBytes (id_bytes (t_shortcut_id t))),
      (''epoch'', DbgNum (unat (t_epoch t))),
      (''role'', DbgRole (t_role t)),
      (''issued_at'', DbgNum (unat (t_issued_at t))),
      (''renew_at'', DbgNum (unat (t_renew_at t))),
      (''expires_at'', DbgNum (unat (t_expires_at t))),
      (''selector'', DbgNet (t_selector t)),
      (''issuer_public_key'', DbgStr (t_issuer_public_key t)),
      (''recipient_public_key'', DbgStr (t_recipient_public_key t)),
      (''remote_public_key'', DbgStr (t_remote_public_key t)),
      (''remote_peer_id'', DbgStr (t_remote_peer_id t)),
      (''endpoint_candidates'', DbgAddrs (t_endpoint_candidates t)),
      (''delegation'', DbgDelegation (t_delegation t)),
      (''master_secret'', DbgStr ''[redacted]'')]"

section \<open>Key derivation\<close>

definition kdf_message :: "shortcut_id \<Rightarrow> u64 \<Rightarrow> string \<Rightarrow> bytes" where
  "kdf_message sid ep label =
     as_bytes ''wg-link shortcut v1'' @ [0] @ id_bytes sid @ to_le_bytes ep @ as_bytes label"

definition derive_bytes ::
    "(bytes \<Rightarrow> bytes \<Rightarrow> bytes) \<Rightarrow> bytes \<Rightarrow> shortcut_id \<Rightarrow> u64 \<Rightarrow> string \<Rightarrow> bytes" where
  "derive_bytes kh secret sid ep label = kh secret (kdf_message sid ep label)"

definition clamp :: "bytes \<Rightarrow> bytes" where
  "clamp p = (let p1 = p[0 := p ! 0 AND 248]; p2 = p1[31 := p1 ! 31 AND 127]
              in p2[31 := p2 ! 31 OR 64])"

definition derive_private ::
    "(bytes \<Rightarrow> bytes \<Rightarrow> bytes) \<Rightarrow> bytes \<Rightarrow> shortcut_id \<Rightarrow> u64 \<Rightarrow> string \<Rightarrow> bytes" where
  "derive_private kh secret sid ep label = clamp (derive_bytes kh secret sid ep label)"

definition derive_keys ::
    "(bytes \<Rightarrow> bytes \<Rightarrow> bytes) \<Rightarrow> (bytes \<Rightarrow> bytes) \<Rightarrow> shortcut_ticket \<Rightarrow> derived_keys" where
  "derive_keys kh pub t =
     (let lp = derive_private kh (t_master_secret t) (t_shortcut_id t) (t_epoch t)
                 (local_label (t_role t));
          rp = derive_private kh (t_master_secret t) (t_shortcut_id t) (t_epoch t)
                 (remote_label (t_role t))
      in \<lparr> local_private = lp,
           local_public = pub lp,
           remote_public = pub rp,
           preshared_key = derive_bytes kh (t_master_secret t) (t_shortcut_id t) (t_epoch t)
                             ''preshared-key'' \<rparr>)"

section \<open>Validation\<close>

definition delegation_ok :: "shortcut_delegation \<Rightarrow> bool" where
  "delegation_ok d \<longleftrightarrow> depth d \<noteq> 0 \<and> unat (depth d) + unat (remaining_delegations d) \<le> 8
     \<and> length (visited_issuers d) \<le> 8"

lemma validate_delegation_ok: "validate_delegation d = Inr () \<longleftrightarrow> delegation_ok d"
  by (auto simp: validate_delegation_def delegation_ok_def control_consts wnat)

text \<open>What an accepted ticket satisfies, and nothing more: the contract of \<open>validate\<close>.\<close>

definition ticket_ok :: "shortcut_ticket \<Rightarrow> u64 \<Rightarrow> bool" where
  "ticket_ok t now \<longleftrightarrow>
     t_version t = 1 \<and> t_epoch t \<noteq> 0
     \<and> t_issuer_public_key t \<noteq> [] \<and> t_recipient_public_key t \<noteq> [] \<and> t_remote_public_key t \<noteq> []
     \<and> t_remote_peer_id t \<noteq> []
     \<and> unat (t_issued_at t) \<le> unat now + 30
     \<and> t_issued_at t < t_renew_at t \<and> t_renew_at t < t_expires_at t
     \<and> unat (t_expires_at t) \<le> unat (t_issued_at t) + 300
     \<and> now < t_expires_at t
     \<and> (case t_delegation t of None \<Rightarrow> True | Some d \<Rightarrow> delegation_ok d)"

lemma not_sat_add_less:
  "\<not> sat_add now MAX_CLOCK_SKEW_SECONDS < i \<longleftrightarrow> unat i \<le> unat now + 30"
  using unat_u64_bound [of i] by (auto simp: wnat control_consts)

lemma validate_ok_iff: "validate t now = Inr () \<longleftrightarrow> ticket_ok t now"
proof -
  have lease: "\<not> MAX_LEASE_SECONDS < sat_sub (t_expires_at t) (t_issued_at t) \<longleftrightarrow>
      unat (t_expires_at t) \<le> unat (t_issued_at t) + 300"
    by (auto simp: wnat control_consts)
  have deleg: "(case t_delegation t of None \<Rightarrow> Inr () | Some d \<Rightarrow> validate_delegation d) = Inr ()
      \<longleftrightarrow> (case t_delegation t of None \<Rightarrow> True | Some d \<Rightarrow> delegation_ok d)"
    by (auto simp: validate_delegation_ok split: option.splits)
  show ?thesis
    unfolding validate_def ticket_ok_def
    using not_sat_add_less [of now "t_issued_at t"] lease deleg
    by (auto simp: CONTROL_VERSION_def not_le not_less)
qed

lemma ticket_ok_order:
  "ticket_ok t now \<Longrightarrow> t_issued_at t < t_expires_at t"
  by (auto simp: ticket_ok_def)

lemma ticket_ok_later:
  "ticket_ok t now \<Longrightarrow> now \<le> now' \<Longrightarrow> now' < t_expires_at t \<Longrightarrow> ticket_ok t now'"
  by (auto simp: ticket_ok_def word_le_nat_alt)

section \<open>Keys\<close>

lemma kdf_message_inj:
  assumes "length (id_bytes s) = 16" and "length (id_bytes s') = 16"
    and "kdf_message s e l = kdf_message s' e' l'"
  shows "s = s' \<and> e = e' \<and> l = l'"
proof -
  from assms have id: "id_bytes s = id_bytes s'"
    and rest: "to_le_bytes e @ as_bytes l = to_le_bytes e' @ as_bytes l'"
    by (auto simp: kdf_message_def)
  from rest have "to_le_bytes e = to_le_bytes e'" and l: "as_bytes l = as_bytes l'"
    by auto
  then have "e = e'" by (simp add: to_le_bytes_def to_be_bytes_inj_u64)
  with id l show ?thesis by (auto intro: shortcut_id.expand)
qed

lemma clamp_length [simp]: "length (clamp p) = length p"
  by (simp add: clamp_def Let_def)

lemma clamp_nth:
  assumes "length p = 32"
  shows "clamp p ! 0 = p ! 0 AND 248"
    and "clamp p ! 31 = (p ! 31 AND 127) OR 64"
    and "0 < i \<Longrightarrow> i < 31 \<Longrightarrow> clamp p ! i = p ! i"
  using assms by (auto simp: clamp_def Let_def nth_list_update)

lemma clamp_low_bits: "(b AND 248 :: u8) AND 7 = 0"
  by (simp add: and.assoc)

lemma clamp_high_bits: "((b AND 127) OR 64 :: u8) AND 192 = 64"
proof -
  have "((b AND 127) OR 64) AND 192 = (b AND (127 AND 192)) OR (64 AND 192 :: u8)"
    by (simp only: bit.conj_disj_distrib2 and.assoc)
  also have "\<dots> = 64" by (simp add: word_ao_absorbs)
  finally show ?thesis .
qed

section \<open>Properties\<close>

text \<open>A ticket used in concrete instances below: one end of a shortcut for \<open>10.0.0.2/32\<close>.\<close>

definition sample_ticket :: "shortcut_role \<Rightarrow> u64 \<Rightarrow> u64 \<Rightarrow> shortcut_ticket" where
  "sample_ticket role ep issued =
     \<lparr> t_version = 1, t_shortcut_id = ShortcutId (replicate 16 7), t_epoch = ep, t_role = role,
       t_issued_at = issued, t_renew_at = issued + 120, t_expires_at = issued + 180,
       t_selector = IpNet (V4 0x0a000002) 32, t_issuer_public_key = ''hub'',
       t_recipient_public_key = (case role of Left \<Rightarrow> ''alice'' | Right \<Rightarrow> ''bob''),
       t_remote_public_key = (case role of Left \<Rightarrow> ''bob'' | Right \<Rightarrow> ''alice''),
       t_remote_peer_id = ''17'', t_endpoint_candidates = [], t_delegation = None,
       t_master_secret = replicate 32 9 \<rparr>"

text \<open>
  C27.  Acceptance of a ticket: \<open>validate\<close> returns \<open>Ok\<close> exactly when the version is 1, the epoch is
  not zero, the names are present, the ticket was issued at most 30 seconds ahead of the local
  clock, issue, renewal and expiry are in strict order, the lease is at most 300 seconds, the
  ticket has not expired, and a delegation stays within eight hops; all on the integers, with no
  wrap-around.  So an accepted ticket expires at most 330 seconds from now.
\<close>

theorem validate_accepts:
  "(validate t now = Inr () \<longleftrightarrow>
      t_version t = 1 \<and> t_epoch t \<noteq> 0
      \<and> t_issuer_public_key t \<noteq> [] \<and> t_recipient_public_key t \<noteq> [] \<and> t_remote_public_key t \<noteq> []
      \<and> t_remote_peer_id t \<noteq> []
      \<and> unat (t_issued_at t) \<le> unat now + 30
      \<and> unat (t_issued_at t) < unat (t_renew_at t) \<and> unat (t_renew_at t) < unat (t_expires_at t)
      \<and> unat (t_expires_at t) \<le> unat (t_issued_at t) + 300
      \<and> unat now < unat (t_expires_at t)
      \<and> (case t_delegation t of None \<Rightarrow> True
         | Some d \<Rightarrow> depth d \<noteq> 0 \<and> unat (depth d) + unat (remaining_delegations d) \<le> 8
             \<and> length (visited_issuers d) \<le> 8))
   \<and> \<not> (validate t now = Inr () \<and> unat now + 330 < unat (t_expires_at t))"
  by (auto simp: validate_ok_iff ticket_ok_def delegation_ok_def word_less_nat_alt
      split: option.splits)

text \<open>
  The two ends of a shortcut agree: two tickets that carry the same shortcut id, epoch and
  master secret and opposite roles derive each other's public key and the same preshared key.
\<close>

theorem opposite_roles_agree:
  assumes "t_shortcut_id l = t_shortcut_id r" and "t_epoch l = t_epoch r"
    and "t_master_secret l = t_master_secret r" and "t_role l \<noteq> t_role r"
  shows "remote_public (derive_keys kh pub l) = local_public (derive_keys kh pub r)
    \<and> remote_public (derive_keys kh pub r) = local_public (derive_keys kh pub l)
    \<and> preshared_key (derive_keys kh pub l) = preshared_key (derive_keys kh pub r)
    \<and> local_public (derive_keys kh pub l) = pub (local_private (derive_keys kh pub l))"
  using assms by (cases "t_role l"; cases "t_role r"; simp add: derive_keys_def Let_def)

theorem opposite_roles_agree_witness:
  "remote_public (derive_keys (\<lambda>k m. take 32 (m @ k)) rev (sample_ticket Left 1 0)) =
   local_public (derive_keys (\<lambda>k m. take 32 (m @ k)) rev (sample_ticket Right 1 0))"
  using opposite_roles_agree [of "sample_ticket Left 1 0" "sample_ticket Right 1 0"
      "\<lambda>k m. take 32 (m @ k)" rev] by (simp add: sample_ticket_def)

text \<open>
  Key separation: for 16-byte ids, the input of the keyed hash determines id, epoch and
  label, so the left key, the right key and the preshared key of all sessions under one secret
  are derived from pairwise different inputs.
\<close>

theorem kdf_message_separates:
  assumes "length (id_bytes s) = 16" and "length (id_bytes s') = 16"
  shows "kdf_message s e l = kdf_message s' e' l' \<longleftrightarrow> s = s' \<and> e = e' \<and> l = l'"
  using kdf_message_inj [OF assms] by auto

theorem kdf_message_separates_witness:
  "kdf_message (ShortcutId (replicate 16 7)) 1 (local_label Left)
     \<noteq> kdf_message (ShortcutId (replicate 16 7)) 1 (remote_label Left)"
  using kdf_message_separates [of "ShortcutId (replicate 16 7)" "ShortcutId (replicate 16 7)" 1
      "local_label Left" 1 "remote_label Left"] by simp

text \<open>
  Derived private keys are X25519 scalars: for a 32-byte hash, the private key has 32 bytes,
  the three low bits of the first byte are clear, and of the last byte the top bit is clear and
  the next one set; the bytes between are the hash's.
\<close>

theorem derive_private_is_scalar:
  assumes "\<And>k m. length (kh k m) = 32"
  shows "length (derive_private kh secret sid ep label) = 32
    \<and> derive_private kh secret sid ep label ! 0 AND 7 = 0
    \<and> derive_private kh secret sid ep label ! 31 AND 192 = 64
    \<and> (\<forall>i. 0 < i \<and> i < 31 \<longrightarrow>
         derive_private kh secret sid ep label ! i = derive_bytes kh secret sid ep label ! i)"
proof -
  have len: "length (derive_bytes kh secret sid ep label) = 32"
    using assms by (simp add: derive_bytes_def)
  show ?thesis
    using len clamp_nth [OF len] by (simp add: derive_private_def clamp_low_bits clamp_high_bits)
qed

theorem derive_private_is_scalar_witness:
  "derive_private (\<lambda>k m. replicate 32 255) [] (ShortcutId []) 1 ''left-static'' ! 31 AND 192 = 64"
  using derive_private_is_scalar [of "\<lambda>k m. replicate 32 255" "[]" "ShortcutId []" 1 "''left-static''"]
  by simp

text \<open>
  Control frames: when the JSON conversions are inverse and no message serialises to nothing,
  a frame that \<open>encode\<close> produced is decoded to the message it was made from, and \<open>encode\<close> refuses
  only what the serialiser refuses or what is longer than 64 KiB.
\<close>

theorem control_frame_round_trip:
  assumes json: "\<And>m b. to_json m = Inr b \<Longrightarrow> b \<noteq> [] \<and> from_json b = Inr m"
  shows "(encode_control to_json m = Inr frame \<longrightarrow> decode_control from_json frame = Inr m)
    \<and> (encode_control to_json m = Inl e \<longleftrightarrow>
         to_json m = Inl e
         \<or> (\<exists>b. to_json m = Inr b \<and> 65536 < length b \<and> e = ControlError ControlFrameTooLarge))"
  using json [of m]
  by (auto simp: encode_control_def decode_control_def control_consts CONTROL_MAGIC_def
      starts_with_def split: sum.splits if_splits)

theorem control_frame_round_trip_witness:
  "decode_control (\<lambda>b. case b of [x] \<Rightarrow> Inr (Keepalive (x = 1)) | _ \<Rightarrow> Inl (External 0))
     (CONTROL_MAGIC @ [1]) = Inr (Keepalive True)"
proof -
  let ?to = "\<lambda>m. case m of Keepalive b \<Rightarrow> Inr [if b then 1 else 0] | _ \<Rightarrow> Inl (External 0)"
  let ?from = "\<lambda>b. case b of [x] \<Rightarrow> Inr (Keepalive (x = 1)) | _ \<Rightarrow> Inl (External 0)"
  have "b \<noteq> [] \<and> ?from b = Inr m" if "?to m = Inr b" for m and b :: bytes
    using that by (auto split: control_message.splits)
  then have "encode_control ?to (Keepalive True) = Inr (CONTROL_MAGIC @ [1]) \<longrightarrow>
      decode_control ?from (CONTROL_MAGIC @ [1]) = Inr (Keepalive True)"
    using control_frame_round_trip [of ?to ?from "Keepalive True" "CONTROL_MAGIC @ [1]"] by blast
  then show ?thesis by (simp add: encode_control_def control_consts)
qed

text \<open>
  The secret stays out of the logs: the \<open>Debug\<close> output of a ticket does not depend on its
  master secret.
\<close>

theorem ticket_debug_redacts:
  "ticket_debug (t\<lparr> t_master_secret := s \<rparr>) = ticket_debug t"
  by (simp add: ticket_debug_def)

end
