(* ===== verification/Engine.thy ===== *)
theory Engine
  imports Control
begin

text \<open>
  \<open>src/src/shortcut/engine.rs\<close>: a \<open>ShortcutTunnel\<close> drives one \<open>boringtun\<close> tunnel.  The crate's
  \<open>Tunn\<close> is the parameter record \<open>tunn_api\<close> over a tunnel state \<open>'w\<close>; the locale \<open>noise_tunnel\<close>
  states the one thing the receive loop needs of it, that its queue of pending packets drains.
\<close>

section \<open>The boringtun interface\<close>

datatype tunn_result =
    Done
  | TunnErr
  | WriteToNetwork bytes
  | WriteToTunnelV4 bytes ip_addr
  | WriteToTunnelV6 bytes ip_addr

text \<open>
  \<open>Tunn::new\<close> takes the private key, the peer's public key, the preshared key, the keepalive
  interval and the index; the other three return the changed tunnel with a result.
\<close>

record 'w tunn_api =
  tunn_new :: "bytes \<Rightarrow> bytes \<Rightarrow> bytes option \<Rightarrow> u16 option \<Rightarrow> u32 \<Rightarrow> 'w"
  tunn_encapsulate :: "'w \<Rightarrow> bytes \<Rightarrow> 'w \<times> tunn_result"
  tunn_decapsulate :: "'w \<Rightarrow> ip_addr option \<Rightarrow> bytes \<Rightarrow> 'w \<times> tunn_result"
  tunn_update_timers :: "'w \<Rightarrow> 'w \<times> tunn_result"

section \<open>ShortcutTunnel\<close>

definition HANDSHAKE_INITIATION :: u32 where "HANDSHAKE_INITIATION = 1"
definition HANDSHAKE_RESPONSE :: u32 where "HANDSHAKE_RESPONSE = 2"
definition COOKIE_REPLY :: u32 where "COOKIE_REPLY = 3"
definition TRANSPORT_DATA :: u32 where "TRANSPORT_DATA = 4"

record tunnel_output =
  network_packets :: "bytes list"
  tunnel_packets :: "bytes list"
  authenticated_flag :: bool

definition empty_output :: tunnel_output where
  "empty_output = \<lparr> network_packets = [], tunnel_packets = [], authenticated_flag = False \<rparr>"

definition tunnel_new :: "'w tunn_api \<Rightarrow> derived_keys \<Rightarrow> u32 \<Rightarrow> 'w" where
  "tunnel_new api keys index =
     tunn_new api (local_private keys) (remote_public keys) (Some (preshared_key keys)) (Some 25) index"

fun collect_result :: "tunn_result \<Rightarrow> tunnel_output \<Rightarrow> tunnel_output res" where
  "collect_result Done out = Inr out"
| "collect_result TunnErr out = Inl (TransportError TunnelPacketFailed)"
| "collect_result (WriteToNetwork p) out = Inr (out\<lparr> network_packets := network_packets out @ [p] \<rparr>)"
| "collect_result (WriteToTunnelV4 p a) out = Inr (out\<lparr> tunnel_packets := tunnel_packets out @ [p] \<rparr>)"
| "collect_result (WriteToTunnelV6 p a) out = Inr (out\<lparr> tunnel_packets := tunnel_packets out @ [p] \<rparr>)"

definition wireguard_message_type :: "bytes \<Rightarrow> u32 option" where
  "wireguard_message_type datagram =
     (if 4 \<le> length datagram then Some (from_le_bytes (take 4 datagram)) else None)"

definition tunnel_encapsulate :: "'w tunn_api \<Rightarrow> 'w \<Rightarrow> bytes \<Rightarrow> 'w \<times> tunnel_output res" where
  "tunnel_encapsulate api w packet =
     (case tunn_encapsulate api w packet of (w', r) \<Rightarrow> (w', collect_result r empty_output))"

definition tunnel_update_timers :: "'w tunn_api \<Rightarrow> 'w \<Rightarrow> 'w \<times> tunnel_output res" where
  "tunnel_update_timers api w =
     (case tunn_update_timers api w of (w', r) \<Rightarrow> (w', collect_result r empty_output))"

text \<open>
  The loop of \<open>receive\<close>: \<open>None\<close> stands for a loop that never ends.  The first call gets the
  datagram, every later one the empty slice.
\<close>

partial_function (option) receive_loop ::
    "('w \<Rightarrow> ip_addr option \<Rightarrow> bytes \<Rightarrow> 'w \<times> tunn_result) \<Rightarrow> ip_addr option \<Rightarrow> 'w \<Rightarrow> bytes
     \<Rightarrow> tunnel_output \<Rightarrow> ('w \<times> tunnel_output res) option" where
  "receive_loop dec source w datagram out =
     (case dec w source datagram of (w', r) \<Rightarrow>
        (case collect_result r out of
           Inl e \<Rightarrow> Some (w', Inl e)
         | Inr out' \<Rightarrow>
             if r = Done then Some (w', Inr out') else receive_loop dec source w' [] out'))"

definition authenticates :: "u32 option \<Rightarrow> bytes list \<Rightarrow> bool" where
  "authenticates message_type packets =
     (if message_type = Some HANDSHAKE_INITIATION
        then list_ex (\<lambda>p. wireguard_message_type p = Some HANDSHAKE_RESPONSE) packets
      else if message_type = Some HANDSHAKE_RESPONSE
        then list_ex (\<lambda>p. wireguard_message_type p = Some TRANSPORT_DATA) packets
      else False)"

definition tunnel_receive ::
    "'w tunn_api \<Rightarrow> 'w \<Rightarrow> ip_addr option \<Rightarrow> bytes \<Rightarrow> ('w \<times> tunnel_output res) option" where
  "tunnel_receive api w source datagram =
     (case receive_loop (tunn_decapsulate api) source w datagram empty_output of
        None \<Rightarrow> None
      | Some (w', Inl e) \<Rightarrow> Some (w', Inl e)
      | Some (w', Inr out) \<Rightarrow>
          Some (w', Inr (out\<lparr> authenticated_flag :=
            authenticates (wireguard_message_type datagram) (network_packets out) \<rparr>)))"

section \<open>The receive loop\<close>

lemmas receive_loop_unfold = receive_loop.simps

text \<open>\<open>drains\<close>: the results the tunnel delivers, up to and including the one that ends the loop.\<close>

inductive drains ::
    "('w \<Rightarrow> ip_addr option \<Rightarrow> bytes \<Rightarrow> 'w \<times> tunn_result) \<Rightarrow> ip_addr option
     \<Rightarrow> 'w \<Rightarrow> bytes \<Rightarrow> tunn_result list \<Rightarrow> 'w \<Rightarrow> bool"
  for dec source where
  drains_stop: "dec w source d = (w', r) \<Longrightarrow> r \<in> {Done, TunnErr} \<Longrightarrow> drains dec source w d [r] w'"
| drains_more: "dec w source d = (w', r) \<Longrightarrow> r \<notin> {Done, TunnErr} \<Longrightarrow> drains dec source w' [] rs w''
     \<Longrightarrow> drains dec source w d (r # rs) w''"

fun to_network :: "tunn_result \<Rightarrow> bytes option" where
  "to_network (WriteToNetwork p) = Some p"
| "to_network _ = None"

fun to_tunnel :: "tunn_result \<Rightarrow> bytes option" where
  "to_tunnel (WriteToTunnelV4 p a) = Some p"
| "to_tunnel (WriteToTunnelV6 p a) = Some p"
| "to_tunnel _ = None"

definition loop_result :: "tunn_result list \<Rightarrow> tunnel_output \<Rightarrow> tunnel_output res" where
  "loop_result rs out =
     (if last rs = TunnErr then Inl (TransportError TunnelPacketFailed)
      else Inr (out\<lparr> network_packets := network_packets out @ filter_map to_network rs,
                     tunnel_packets := tunnel_packets out @ filter_map to_tunnel rs \<rparr>))"

lemma drains_nonempty: "drains dec source w d rs w' \<Longrightarrow> rs \<noteq> []"
  by (induction rule: drains.induct) auto

lemma loop_result_Cons:
  assumes "rs \<noteq> []" and "r \<notin> {Done, TunnErr}" and "collect_result r out = Inr out'"
  shows "loop_result (r # rs) out = loop_result rs out'"
  using assms by (cases r) (auto simp: loop_result_def)

lemma receive_loop_drains:
  "drains dec source w d rs w' \<Longrightarrow> receive_loop dec source w d out = Some (w', loop_result rs out)"
proof (induction arbitrary: out rule: drains.induct)
  case (drains_stop w d w' r)
  then show ?case by (subst receive_loop_unfold) (auto simp: loop_result_def)
next
  case (drains_more w d w' r rs w'')
  then obtain out' where out': "collect_result r out = Inr out'" by (cases r) auto
  with drains_more show ?case
    by (subst receive_loop_unfold) (simp add: loop_result_Cons [OF drains_nonempty])
qed

text \<open>
  \<open>Tunn::decapsulate\<close> documents that after a \<open>WriteToNetwork\<close> it is to be called with an empty
  datagram until it returns \<open>Done\<close>, because the tunnel may hold queued packets.  \<open>pending\<close> counts
  them: each such call that delivers a packet takes one from the queue.
\<close>

locale noise_tunnel =
  fixes dec :: "'w \<Rightarrow> ip_addr option \<Rightarrow> bytes \<Rightarrow> 'w \<times> tunn_result"
    and pending :: "'w \<Rightarrow> nat"
  assumes queue_drains:
    "dec w source [] = (w', r) \<Longrightarrow> r \<notin> {Done, TunnErr} \<Longrightarrow> pending w' < pending w"
begin

lemma drains_empty: "\<exists>rs w'. drains dec source w [] rs w'"
proof (induction w rule: measure_induct_rule [of pending])
  case (less w)
  obtain w' r where d: "dec w source [] = (w', r)" by (rule prod.exhaust)
  show ?case
  proof (cases "r \<in> {Done, TunnErr}")
    case True
    with d show ?thesis by (blast intro: drains_stop)
  next
    case False
    with queue_drains [OF d False] less d show ?thesis by (blast intro: drains_more)
  qed
qed

lemma drains_total: "\<exists>rs w'. drains dec source w d rs w'"
proof -
  obtain w' r where d: "dec w source d = (w', r)" by (rule prod.exhaust)
  show ?thesis
  proof (cases "r \<in> {Done, TunnErr}")
    case True
    with d show ?thesis by (blast intro: drains_stop)
  next
    case False
    with d drains_empty [of source w'] show ?thesis by (blast intro: drains_more)
  qed
qed

lemma receive_returns:
  "\<exists>rs w'. drains dec source w d rs w' \<and> receive_loop dec source w d out = Some (w', loop_result rs out)"
proof -
  obtain rs w' where "drains dec source w d rs w'" using drains_total [of source w d] by blast
  with receive_loop_drains [OF this, of out] show ?thesis by blast
qed

end

text \<open>A tunnel that answers from a queue: the instance that evaluates examples.\<close>

fun queue_decapsulate :: "bytes list \<Rightarrow> ip_addr option \<Rightarrow> bytes \<Rightarrow> bytes list \<times> tunn_result" where
  "queue_decapsulate [] source [] = ([], Done)"
| "queue_decapsulate (p # ps) source [] = (ps, WriteToNetwork p)"
| "queue_decapsulate ps source (b # bs) =
     (if b = 0 then (ps, TunnErr) else (ps @ [b # bs], WriteToNetwork [2, 0, 0, 0]))"

interpretation queue: noise_tunnel queue_decapsulate length
proof unfold_locales
  fix w source w' r
  show "length w' < length w" if "queue_decapsulate w source [] = (w', r)" "r \<notin> {Done, TunnErr}"
    using that by (cases w) auto
qed

definition queue_api :: "bytes list tunn_api" where
  "queue_api = \<lparr> tunn_new = (\<lambda>_ _ _ _ _. []), tunn_encapsulate = (\<lambda>w p. (w, WriteToNetwork [1, 0, 0, 0])),
     tunn_decapsulate = queue_decapsulate, tunn_update_timers = (\<lambda>w. (w, Done)) \<rparr>"

section \<open>Properties\<close>

text \<open>
  Receiving a datagram terminates and loses nothing: when the tunnel's queue drains, \<open>receive\<close>
  returns; it has called the tunnel until it was done or failed; on success it hands out exactly
  the network and tunnel packets the tunnel delivered, in order, and reports an authenticated
  handshake exactly when an initiation was answered by a response, or a response by transport
  data.
\<close>

theorem tunnel_receive_total:
  assumes "noise_tunnel (tunn_decapsulate api) pending"
  shows "\<exists>rs w'. drains (tunn_decapsulate api) source w d rs w'
    \<and> tunnel_receive api w source d = Some (w',
        if last rs = TunnErr then Inl (TransportError TunnelPacketFailed)
        else Inr \<lparr> network_packets = filter_map to_network rs,
                   tunnel_packets = filter_map to_tunnel rs,
                   authenticated_flag =
                     (wireguard_message_type d = Some 1
                        \<and> (\<exists>p. WriteToNetwork p \<in> set rs \<and> wireguard_message_type p = Some 2))
                     \<or> (wireguard_message_type d = Some 2
                        \<and> (\<exists>p. WriteToNetwork p \<in> set rs \<and> wireguard_message_type p = Some 4)) \<rparr>)"
proof -
  have net: "p \<in> set (filter_map to_network rs) \<longleftrightarrow> WriteToNetwork p \<in> set rs" for p rs
  proof -
    have "to_network r = Some p \<longleftrightarrow> r = WriteToNetwork p" for r by (cases r) auto
    then show ?thesis by simp
  qed
  from noise_tunnel.receive_returns [OF assms] obtain rs w'
    where d: "drains (tunn_decapsulate api) source w d rs w'"
      and l: "receive_loop (tunn_decapsulate api) source w d empty_output
        = Some (w', loop_result rs empty_output)" by blast
  have "authenticates (wireguard_message_type d) (filter_map to_network rs) \<longleftrightarrow>
      (wireguard_message_type d = Some 1
         \<and> (\<exists>p. WriteToNetwork p \<in> set rs \<and> wireguard_message_type p = Some 2))
      \<or> (wireguard_message_type d = Some 2
         \<and> (\<exists>p. WriteToNetwork p \<in> set rs \<and> wireguard_message_type p = Some 4))"
    unfolding authenticates_def list_ex_iff net [symmetric]
    by (auto simp: HANDSHAKE_INITIATION_def HANDSHAKE_RESPONSE_def TRANSPORT_DATA_def)
  with l have "tunnel_receive api w source d = Some (w',
        if last rs = TunnErr then Inl (TransportError TunnelPacketFailed)
        else Inr \<lparr> network_packets = filter_map to_network rs,
                   tunnel_packets = filter_map to_tunnel rs,
                   authenticated_flag =
                     (wireguard_message_type d = Some 1
                        \<and> (\<exists>p. WriteToNetwork p \<in> set rs \<and> wireguard_message_type p = Some 2))
                     \<or> (wireguard_message_type d = Some 2
                        \<and> (\<exists>p. WriteToNetwork p \<in> set rs \<and> wireguard_message_type p = Some 4)) \<rparr>)"
    by (simp add: tunnel_receive_def loop_result_def empty_output_def)
  with d show ?thesis by blast
qed

theorem tunnel_receive_total_witness:
  "\<exists>rs w'. drains (tunn_decapsulate queue_api) None [] [1, 0, 0, 0] rs w'
    \<and> tunnel_receive queue_api [] None [1, 0, 0, 0] \<noteq> None"
proof -
  have "noise_tunnel (tunn_decapsulate queue_api) length"
    using queue.noise_tunnel_axioms by (simp add: queue_api_def)
  from tunnel_receive_total [OF this, of None "[]" "[1, 0, 0, 0]"] show ?thesis by auto
qed

end
