(* ===== verification/Shortcut_State.thy ===== *)
theory Shortcut_State
  imports Control
begin

text \<open>
  \<open>src/src/shortcut/state.rs\<close>: the \<open>ShortcutManager\<close>, which keeps the shortcut sessions a node
  has accepted and decides when a session's route is installed.  The \<open>RouteManager\<close> trait is the
  pair \<open>act\<close>, \<open>deact\<close> of functions on a route manager state \<open>'r\<close>; they return the new state also
  on an error, because the implementation may have changed it.  The locale \<open>route_manager\<close> states
  the contract the manager relies on; the manager's invariants are proved in it.
\<close>

section \<open>Data\<close>

datatype session_key = SessionKey (sk_shortcut_id: shortcut_id) (sk_epoch: u64)

datatype route_target = RouteTarget (rt_session: session_key)

type_synonym 'r activate_fn = "'r \<Rightarrow> ipnet \<Rightarrow> route_target \<Rightarrow> 'r \<times> unit res"
type_synonym 'r deactivate_fn = "'r \<Rightarrow> ipnet \<Rightarrow> 'r \<times> unit res"

datatype session_phase = Prepared | Handshaking | Active | Draining

record managed_session =
  ms_ticket :: shortcut_ticket
  ms_phase :: session_phase

record prepared_shortcut =
  ps_session :: session_key
  ps_keys :: derived_keys
  ps_already_present :: bool

record active_lease =
  al_session :: session_key
  al_expires_at :: u64
  al_delegation :: "shortcut_delegation option"

record 'r shortcut_manager =
  sm_routes :: 'r
  sm_sessions :: "(session_key, managed_session) hashmap"
  sm_active_routes :: "(ipnet, session_key) hashmap"

definition ticket_session :: "shortcut_ticket \<Rightarrow> session_key" where
  "ticket_session t = SessionKey (t_shortcut_id t) (t_epoch t)"

section \<open>Operations\<close>

definition manager_new :: "'r \<Rightarrow> 'r shortcut_manager" where
  "manager_new r = \<lparr> sm_routes = r, sm_sessions = [], sm_active_routes = [] \<rparr>"

definition manager_receive_ticket ::
    "(bytes \<Rightarrow> bytes \<Rightarrow> bytes) \<Rightarrow> (bytes \<Rightarrow> bytes) \<Rightarrow> 'r shortcut_manager \<Rightarrow> shortcut_ticket
     \<Rightarrow> string \<Rightarrow> string \<Rightarrow> u64 \<Rightarrow> 'r shortcut_manager \<times> prepared_shortcut res" where
  "manager_receive_ticket kh pub mgr t authenticated_sender local_public_key now =
     (case validate t now of
        Inl e \<Rightarrow> (mgr, Inl e)
      | Inr _ \<Rightarrow>
          if t_issuer_public_key t \<noteq> authenticated_sender then (mgr, Inl (ManagerError IssuerMismatch))
          else if t_recipient_public_key t \<noteq> local_public_key
            then (mgr, Inl (ManagerError NotAddressed))
          else let session = SessionKey (t_shortcut_id t) (t_epoch t) in
            case hm_get (sm_sessions mgr) session of
              Some existing \<Rightarrow>
                if t_selector (ms_ticket existing) \<noteq> t_selector t
                    \<or> t_remote_public_key (ms_ticket existing) \<noteq> t_remote_public_key t
                then (mgr, Inl (ManagerError ConflictingTicket))
                else (mgr, Inr \<lparr> ps_session = session,
                                 ps_keys = derive_keys kh pub (ms_ticket existing),
                                 ps_already_present = True \<rparr>)
            | None \<Rightarrow>
                (mgr\<lparr> sm_sessions := hm_insert session \<lparr> ms_ticket = t, ms_phase = Prepared \<rparr>
                        (sm_sessions mgr) \<rparr>,
                 Inr \<lparr> ps_session = session, ps_keys = derive_keys kh pub t,
                       ps_already_present = False \<rparr>))"

definition mark_handshaking ::
    "'r shortcut_manager \<Rightarrow> session_key \<Rightarrow> 'r shortcut_manager \<times> unit res" where
  "mark_handshaking mgr session =
     (case hm_get (sm_sessions mgr) session of
        None \<Rightarrow> (mgr, Inl (ManagerError UnknownSession))
      | Some managed \<Rightarrow>
          if ms_phase managed = Prepared
          then (mgr\<lparr> sm_sessions := hm_insert session (managed\<lparr> ms_phase := Handshaking \<rparr>)
                       (sm_sessions mgr) \<rparr>, Inr ())
          else (mgr, Inr ()))"

text \<open>\<open>get_mut(k)\<close> followed by an assignment to the phase.\<close>

definition set_phase ::
    "session_key \<Rightarrow> session_phase \<Rightarrow> (session_key, managed_session) hashmap
     \<Rightarrow> (session_key, managed_session) hashmap" where
  "set_phase k p m =
     (case hm_get m k of None \<Rightarrow> m | Some x \<Rightarrow> hm_insert k (x\<lparr> ms_phase := p \<rparr>) m)"

definition authenticated_handshake ::
    "'r activate_fn \<Rightarrow> 'r shortcut_manager \<Rightarrow> session_key \<Rightarrow> u64
     \<Rightarrow> 'r shortcut_manager \<times> bool res" where
  "authenticated_handshake act mgr session now =
     (case hm_get (sm_sessions mgr) session of
        None \<Rightarrow> (mgr, Inl (ManagerError UnknownSession))
      | Some managed \<Rightarrow>
          if t_expires_at (ms_ticket managed) \<le> now
            then (mgr, Inl (ManagerError AuthenticatedAfterExpiry))
          else if ms_phase managed = Active then (mgr, Inr False)
          else let selector = t_selector (ms_ticket managed);
                   previous = hm_get (sm_active_routes mgr) selector in
            case act (sm_routes mgr) selector (RouteTarget session) of
              (r, Inl e) \<Rightarrow> (mgr\<lparr> sm_routes := r \<rparr>, Inl e)
            | (r, Inr _) \<Rightarrow>
                let drained = (case previous of
                       Some p \<Rightarrow> if p \<noteq> session then set_phase p Draining (sm_sessions mgr)
                                 else sm_sessions mgr
                     | None \<Rightarrow> sm_sessions mgr) in
                case hm_get drained session of
                  None \<Rightarrow> (mgr\<lparr> sm_routes := r, sm_sessions := drained \<rparr>, Inl Panic)
                | Some _ \<Rightarrow>
                    (mgr\<lparr> sm_routes := r,
                          sm_sessions := set_phase session Active drained,
                          sm_active_routes := hm_insert selector session (sm_active_routes mgr) \<rparr>,
                     Inr True))"

definition expired_sessions :: "'r shortcut_manager \<Rightarrow> u64 \<Rightarrow> session_key list" where
  "expired_sessions mgr now =
     filter_map (\<lambda>(key, managed). if t_expires_at (ms_ticket managed) \<le> now then Some key else None)
       (sm_sessions mgr)"

fun expire_routes ::
    "'r deactivate_fn \<Rightarrow> 'r shortcut_manager \<Rightarrow> session_key list
     \<Rightarrow> 'r shortcut_manager \<times> unit res" where
  "expire_routes deact mgr [] = (mgr, Inr ())"
| "expire_routes deact mgr (session # rest) =
     (case hm_get (sm_sessions mgr) session of
        None \<Rightarrow> expire_routes deact mgr rest
      | Some managed \<Rightarrow>
          let selector = t_selector (ms_ticket managed) in
          if hm_get (sm_active_routes mgr) selector = Some session then
            (case deact (sm_routes mgr) selector of
               (r, Inl e) \<Rightarrow> (mgr\<lparr> sm_routes := r \<rparr>, Inl e)
             | (r, Inr _) \<Rightarrow>
                 expire_routes deact
                   (mgr\<lparr> sm_routes := r,
                         sm_active_routes := hm_remove selector (sm_active_routes mgr) \<rparr>) rest)
          else expire_routes deact mgr rest)"

definition remove_sessions ::
    "session_key list \<Rightarrow> 'r shortcut_manager \<Rightarrow> 'r shortcut_manager" where
  "remove_sessions ks mgr = mgr\<lparr> sm_sessions := fold hm_remove ks (sm_sessions mgr) \<rparr>"

definition manager_expire ::
    "'r deactivate_fn \<Rightarrow> 'r shortcut_manager \<Rightarrow> u64 \<Rightarrow> 'r shortcut_manager \<times> session_key list res"
  where
  "manager_expire deact mgr now =
     (let expired = expired_sessions mgr now in
      case expire_routes deact mgr expired of
        (mgr', Inl e) \<Rightarrow> (mgr', Inl e)
      | (mgr', Inr _) \<Rightarrow> (remove_sessions expired mgr', Inr expired))"

definition retire_draining :: "'r shortcut_manager \<Rightarrow> 'r shortcut_manager \<times> session_key list" where
  "retire_draining mgr =
     (let draining = filter_map (\<lambda>(session, managed).
            if ms_phase managed = Draining then Some session else None) (sm_sessions mgr)
      in (remove_sessions draining mgr, draining))"

definition manager_fail ::
    "'r deactivate_fn \<Rightarrow> 'r shortcut_manager \<Rightarrow> session_key \<Rightarrow> 'r shortcut_manager \<times> bool res" where
  "manager_fail deact mgr session =
     (case hm_get (sm_sessions mgr) session of
        None \<Rightarrow> (mgr, Inr False)
      | Some managed \<Rightarrow>
          let mgr1 = mgr\<lparr> sm_sessions := hm_remove session (sm_sessions mgr) \<rparr>;
              selector = t_selector (ms_ticket managed) in
          if hm_get (sm_active_routes mgr1) selector = Some session then
            (case deact (sm_routes mgr1) selector of
               (r, Inl e) \<Rightarrow> (mgr1\<lparr> sm_routes := r \<rparr>, Inl e)
             | (r, Inr _) \<Rightarrow>
                 (mgr1\<lparr> sm_routes := r,
                        sm_active_routes := hm_remove selector (sm_active_routes mgr1) \<rparr>,
                  Inr True))
          else (mgr1, Inr True))"

definition manager_phase :: "'r shortcut_manager \<Rightarrow> session_key \<Rightarrow> session_phase option" where
  "manager_phase mgr session = map_option ms_phase (hm_get (sm_sessions mgr) session)"

definition manager_active_lease :: "'r shortcut_manager \<Rightarrow> session_key \<Rightarrow> active_lease option" where
  "manager_active_lease mgr session =
     (case hm_get (sm_sessions mgr) session of
        None \<Rightarrow> None
      | Some managed \<Rightarrow>
          if ms_phase managed = Active
          then Some \<lparr> al_session = session, al_expires_at = t_expires_at (ms_ticket managed),
                      al_delegation = t_delegation (ms_ticket managed) \<rparr>
          else None)"

section \<open>The invariant\<close>

text \<open>
  The route manager's table and \<open>active_routes\<close> agree; an active route names an existing session
  in phase \<open>Active\<close> with that selector, and every session in phase \<open>Active\<close> owns its route; every
  session is stored under its own key and its ticket was accepted for this node.
\<close>

definition sessions_ok :: "string \<Rightarrow> (session_key, managed_session) hashmap \<Rightarrow> bool" where
  "sessions_ok local ss \<longleftrightarrow> hm_wf ss \<and>
     (\<forall>k m. hm_get ss k = Some m \<longrightarrow>
        k = ticket_session (ms_ticket m) \<and> t_recipient_public_key (ms_ticket m) = local
        \<and> (\<exists>now. ticket_ok (ms_ticket m) now))"

definition routes_ok ::
    "(session_key, managed_session) hashmap \<Rightarrow> (ipnet, session_key) hashmap \<Rightarrow> bool" where
  "routes_ok ss rs \<longleftrightarrow> hm_wf rs \<and>
     (\<forall>sel k. hm_get rs sel = Some k \<longleftrightarrow>
        (\<exists>m. hm_get ss k = Some m \<and> ms_phase m = Active \<and> t_selector (ms_ticket m) = sel))"

definition table_agrees :: "('r \<Rightarrow> ipnet \<rightharpoonup> route_target) \<Rightarrow> 'r shortcut_manager \<Rightarrow> bool" where
  "table_agrees table mgr \<longleftrightarrow>
     table (sm_routes mgr) = (\<lambda>sel. map_option RouteTarget (hm_get (sm_active_routes mgr) sel))"

definition manager_inv ::
    "('r \<Rightarrow> ipnet \<rightharpoonup> route_target) \<Rightarrow> ('r \<Rightarrow> bool) \<Rightarrow> string \<Rightarrow> 'r shortcut_manager \<Rightarrow> bool" where
  "manager_inv table rinv local mgr \<longleftrightarrow>
     rinv (sm_routes mgr) \<and> table_agrees table mgr
     \<and> sessions_ok local (sm_sessions mgr) \<and> routes_ok (sm_sessions mgr) (sm_active_routes mgr)"

lemma manager_invI:
  "rinv (sm_routes mgr) \<Longrightarrow> table_agrees table mgr \<Longrightarrow> sessions_ok local (sm_sessions mgr)
   \<Longrightarrow> routes_ok (sm_sessions mgr) (sm_active_routes mgr) \<Longrightarrow> manager_inv table rinv local mgr"
  by (simp add: manager_inv_def)

lemma manager_invD:
  assumes "manager_inv table rinv local mgr"
  shows "rinv (sm_routes mgr)" and "table_agrees table mgr" and "sessions_ok local (sm_sessions mgr)"
    and "routes_ok (sm_sessions mgr) (sm_active_routes mgr)"
  using assms by (simp_all add: manager_inv_def)

lemma sessions_okD:
  assumes "sessions_ok local ss"
  shows "hm_wf ss" and "hm_get ss k = Some m \<Longrightarrow> k = ticket_session (ms_ticket m)"
    and "hm_get ss k = Some m \<Longrightarrow> t_recipient_public_key (ms_ticket m) = local"
    and "hm_get ss k = Some m \<Longrightarrow> \<exists>now. ticket_ok (ms_ticket m) now"
  using assms by (auto simp: sessions_ok_def)

lemma routes_okD:
  assumes "routes_ok ss rs"
  shows "hm_get rs sel = Some k \<Longrightarrow>
           \<exists>m. hm_get ss k = Some m \<and> ms_phase m = Active \<and> t_selector (ms_ticket m) = sel"
    and "hm_get ss k = Some m \<Longrightarrow> ms_phase m = Active \<Longrightarrow>
           hm_get rs (t_selector (ms_ticket m)) = Some k"
  using assms unfolding routes_ok_def by blast+

lemma routes_okI:
  assumes "hm_wf rs"
    and "\<And>sel k. hm_get rs sel = Some k \<Longrightarrow>
           \<exists>m. hm_get ss k = Some m \<and> ms_phase m = Active \<and> t_selector (ms_ticket m) = sel"
    and "\<And>k m. hm_get ss k = Some m \<Longrightarrow> ms_phase m = Active \<Longrightarrow>
           hm_get rs (t_selector (ms_ticket m)) = Some k"
  shows "routes_ok ss rs"
  using assms unfolding routes_ok_def by blast

lemma routes_ok_wf: "routes_ok ss rs \<Longrightarrow> hm_wf rs"
  by (simp add: routes_ok_def)

subsection \<open>Session map updates\<close>

lemma sessions_ok_insert:
  assumes "sessions_ok local ss" and "t_recipient_public_key t = local" and "ticket_ok t now"
  shows "sessions_ok local (hm_insert (ticket_session t) \<lparr> ms_ticket = t, ms_phase = p \<rparr> ss)"
  using assms by (auto simp: sessions_ok_def)

lemma set_phase_get:
  "hm_get (set_phase k p ss) x =
     (if x = k then map_option (\<lambda>m. m\<lparr> ms_phase := p \<rparr>) (hm_get ss k) else hm_get ss x)"
  by (auto simp: set_phase_def split: option.splits)

lemma sessions_ok_set_phase: "sessions_ok local ss \<Longrightarrow> sessions_ok local (set_phase k p ss)"
proof -
  assume ok: "sessions_ok local ss"
  then have "hm_wf (set_phase k p ss)"
    by (auto simp: set_phase_def sessions_ok_def split: option.splits)
  with ok show ?thesis
    by (auto simp: sessions_ok_def set_phase_get split: if_splits)
qed

lemma sessions_ok_remove: "sessions_ok local ss \<Longrightarrow> sessions_ok local (hm_remove k ss)"
  by (auto simp: sessions_ok_def)

lemma fold_remove_get:
  "hm_get (fold hm_remove ks ss) x = (if x \<in> set ks then None else hm_get ss x)"
  by (induction ks arbitrary: ss) auto

lemma sessions_ok_fold_remove:
  "sessions_ok local ss \<Longrightarrow> sessions_ok local (fold hm_remove ks ss)"
  by (induction ks arbitrary: ss) (auto intro: sessions_ok_remove)

text \<open>Removing sessions that own no route keeps the routes.\<close>

lemma routes_ok_fold_remove:
  assumes "routes_ok ss rs" and "\<And>k sel. k \<in> set ks \<Longrightarrow> hm_get rs sel \<noteq> Some k"
  shows "routes_ok (fold hm_remove ks ss) rs"
  using assms unfolding routes_ok_def fold_remove_get by (metis option.distinct(1))

lemma routes_ok_set_inactive:
  assumes "routes_ok ss rs" and "p \<noteq> Active" and "hm_get ss k = Some m" and "ms_phase m \<noteq> Active"
  shows "routes_ok (set_phase k p ss) rs"
  using assms unfolding routes_ok_def set_phase_get by (auto split: if_splits)

section \<open>The RouteManager contract\<close>

text \<open>
  What the manager needs of a route manager: \<open>table\<close> is the routing it realises, \<open>rinv\<close> its own
  invariant.  A call that fails leaves the table as it was.
\<close>

definition routes_owned ::
    "(session_key, managed_session) hashmap \<Rightarrow> (ipnet, session_key) hashmap \<Rightarrow> bool" where
  "routes_owned ss rs \<longleftrightarrow>
     (\<forall>sel k. hm_get rs sel = Some k \<longrightarrow> (\<exists>m. hm_get ss k = Some m \<and> t_selector (ms_ticket m) = sel))"

definition drop_owners :: "session_key set \<Rightarrow> (ipnet \<rightharpoonup> session_key) \<Rightarrow> (ipnet \<rightharpoonup> session_key)" where
  "drop_owners K rs = (\<lambda>sel. case rs sel of None \<Rightarrow> None | Some k \<Rightarrow> if k \<in> K then None else Some k)"

text \<open>What \<open>expire\<close> takes away: the routes that a session of \<open>K\<close> owns under its own selector.\<close>

definition drop_owned ::
    "(session_key, managed_session) hashmap \<Rightarrow> session_key set \<Rightarrow> (ipnet \<rightharpoonup> session_key) \<Rightarrow> (ipnet \<rightharpoonup> session_key)" where
  "drop_owned ss K rs = (\<lambda>sel.
     if \<exists>k m. k \<in> K \<and> rs sel = Some k \<and> hm_get ss k = Some m \<and> t_selector (ms_ticket m) = sel
     then None else rs sel)"

lemma routes_ok_owned: "routes_ok ss rs \<Longrightarrow> routes_owned ss rs"
  by (auto simp: routes_owned_def routes_ok_def)

lemma drop_owners_none [simp]: "drop_owners {} rs = rs"
  by (auto simp: drop_owners_def fun_eq_iff split: option.splits)

lemma drop_owners_absent:
  "(\<And>s. rs s \<noteq> Some k) \<Longrightarrow> drop_owners (insert k K) rs = drop_owners K rs"
  by (auto simp: drop_owners_def fun_eq_iff split: option.splits)

lemma drop_owners_remove:
  assumes "\<And>s. rs s = Some k \<longleftrightarrow> s = sel"
  shows "drop_owners K (rs(sel := None)) = drop_owners (insert k K) rs"
proof
  fix s
  show "drop_owners K (rs(sel := None)) s = drop_owners (insert k K) rs s"
    using assms [of s] by (auto simp: drop_owners_def split: option.splits)
qed

lemma drop_owned_none [simp]: "drop_owned ss {} rs = rs"
  by (simp add: drop_owned_def)

lemma drop_owned_absent:
  "\<not> (\<exists>m. hm_get ss k = Some m \<and> rs (t_selector (ms_ticket m)) = Some k) \<Longrightarrow>
   drop_owned ss (insert k K) rs = drop_owned ss K rs"
  by (auto simp: drop_owned_def fun_eq_iff)

lemma drop_owned_remove:
  assumes "hm_get ss k = Some m" and "rs (t_selector (ms_ticket m)) = Some k"
  shows "drop_owned ss K (rs(t_selector (ms_ticket m) := None)) = drop_owned ss (insert k K) rs"
  using assms by (auto simp: drop_owned_def fun_eq_iff)

lemma drop_owned_owners: "routes_owned ss (rs :: (ipnet, session_key) hashmap) \<Longrightarrow>
   drop_owned ss K (hm_get rs) = drop_owners K (hm_get rs)"
  by (fastforce simp: drop_owned_def drop_owners_def routes_owned_def fun_eq_iff split: option.splits)

lemma routes_owned_unique:
  assumes "routes_owned ss rs" and "hm_get ss k = Some m" and "hm_get rs (t_selector (ms_ticket m)) = Some k"
  shows "hm_get rs s = Some k \<longleftrightarrow> s = t_selector (ms_ticket m)"
  using assms by (fastforce simp: routes_owned_def)

lemma routes_owned_absent:
  assumes "routes_owned ss rs" and "\<And>m. hm_get ss k = Some m \<Longrightarrow> hm_get rs (t_selector (ms_ticket m)) \<noteq> Some k"
  shows "hm_get rs s \<noteq> Some k"
  using assms by (auto simp: routes_owned_def)

lemma table_agrees_insert:
  "table_agrees table mgr \<Longrightarrow> table r = (table (sm_routes mgr))(sel \<mapsto> RouteTarget k) \<Longrightarrow>
   table_agrees table (mgr\<lparr> sm_routes := r, sm_sessions := ss,
     sm_active_routes := hm_insert sel k (sm_active_routes mgr) \<rparr>)"
  by (auto simp: table_agrees_def fun_eq_iff)

lemma table_agrees_remove:
  "table_agrees table mgr \<Longrightarrow> table r = (table (sm_routes mgr))(sel := None) \<Longrightarrow>
   table_agrees table (mgr\<lparr> sm_routes := r,
     sm_active_routes := hm_remove sel (sm_active_routes mgr) \<rparr>)"
  by (auto simp: table_agrees_def fun_eq_iff)

lemma table_agrees_same:
  "table_agrees table mgr \<Longrightarrow> table r = table (sm_routes mgr) \<Longrightarrow>
   table_agrees table (mgr\<lparr> sm_routes := r, sm_sessions := ss \<rparr>)"
  by (auto simp: table_agrees_def)

lemma routes_ok_activate:
  assumes ok: "routes_ok ss rs" and m: "hm_get ss k = Some m" and na: "ms_phase m \<noteq> Active"
    and sel: "sel = t_selector (ms_ticket m)"
    and drained: "drained = (case hm_get rs sel of
        Some p \<Rightarrow> if p \<noteq> k then set_phase p Draining ss else ss | None \<Rightarrow> ss)"
  shows "routes_ok (set_phase k Active drained) (hm_insert sel k rs)"
proof (rule routes_okI)
  have get: "hm_get (set_phase k Active drained) x =
      (if x = k then Some (m\<lparr> ms_phase := Active \<rparr>)
       else if hm_get rs sel = Some x then map_option (\<lambda>y. y\<lparr> ms_phase := Draining \<rparr>) (hm_get ss x)
       else hm_get ss x)" for x
    using m drained by (auto simp: set_phase_get split: option.splits)
  show "hm_wf (hm_insert sel k rs)" using ok by (simp add: routes_ok_wf)
  show "\<exists>m. hm_get (set_phase k Active drained) x = Some m \<and> ms_phase m = Active
      \<and> t_selector (ms_ticket m) = s" if "hm_get (hm_insert sel k rs) s = Some x" for s x
  proof (cases "s = sel")
    case True
    with that sel get [of x] show ?thesis by auto
  next
    case False
    with that have x: "hm_get rs s = Some x" by simp
    then obtain mx where mx: "hm_get ss x = Some mx" "ms_phase mx = Active" "t_selector (ms_ticket mx) = s"
      using routes_okD(1) [OF ok] by blast
    with False m na have "x \<noteq> k" by auto
    moreover have "hm_get rs sel \<noteq> Some x"
      using routes_okD(1) [OF ok, of sel x] mx False by auto
    ultimately show ?thesis using mx by (simp add: get)
  qed
  show "hm_get (hm_insert sel k rs) (t_selector (ms_ticket y)) = Some x"
    if "hm_get (set_phase k Active drained) x = Some y" and "ms_phase y = Active" for x y
  proof (cases "x = k")
    case True
    with that get [of x] have "y = m\<lparr> ms_phase := Active \<rparr>" by simp
    with True sel show ?thesis by simp
  next
    case False
    with that have x: "hm_get ss x = Some y" "hm_get rs sel \<noteq> Some x"
      by (auto simp: get split: if_splits)
    with that(2) have r: "hm_get rs (t_selector (ms_ticket y)) = Some x"
      using routes_okD(2) [OF ok] by blast
    with x have "t_selector (ms_ticket y) \<noteq> sel" by auto
    with r show ?thesis by simp
  qed
qed

lemma routes_ok_drop_owners:
  assumes ok: "routes_ok ss rs" and wf: "hm_wf rs'"
    and rs': "hm_get rs' = drop_owners (set ks) (hm_get rs)"
  shows "routes_ok (fold hm_remove ks ss) rs'"
proof (rule routes_okI)
  show "hm_wf rs'" by (rule wf)
  show "\<exists>m. hm_get (fold hm_remove ks ss) k = Some m \<and> ms_phase m = Active
      \<and> t_selector (ms_ticket m) = sel" if "hm_get rs' sel = Some k" for sel k
    using that routes_okD(1) [OF ok, of sel k]
    by (auto simp: rs' drop_owners_def fold_remove_get split: option.splits if_splits)
  show "hm_get rs' (t_selector (ms_ticket m)) = Some k"
    if "hm_get (fold hm_remove ks ss) k = Some m" and "ms_phase m = Active" for k m
    using that routes_okD(2) [OF ok, of k m]
    by (auto simp: rs' drop_owners_def fold_remove_get split: option.splits if_splits)
qed

section \<open>Steps\<close>

text \<open>
  The calls the owner of a manager makes, as a labelled step relation.  \<open>expire\<close> and \<open>fail\<close> are
  steps when they succeed: a failed \<open>expire\<close> ends the generation that owns the manager
  (\<open>controller.expire(now)?\<close> in \<open>main.rs\<close>); a failed \<open>fail\<close>, after which \<open>main.rs\<close> goes on, is
  added to these steps in \<open>Lease_Table\<close>.
\<close>

datatype manager_event =
    EvTicket shortcut_ticket string u64
  | EvHandshaking session_key
  | EvAuthenticated session_key u64
  | EvExpire u64
  | EvRetire
  | EvFail session_key

inductive manager_step ::
    "'r activate_fn \<Rightarrow> 'r deactivate_fn \<Rightarrow> (bytes \<Rightarrow> bytes \<Rightarrow> bytes) \<Rightarrow> (bytes \<Rightarrow> bytes) \<Rightarrow> string
     \<Rightarrow> 'r shortcut_manager \<Rightarrow> manager_event \<Rightarrow> 'r shortcut_manager \<Rightarrow> bool"
  for act deact kh pub local where
  step_receive: "manager_receive_ticket kh pub mgr t sender local now = (mgr', r) \<Longrightarrow>
     manager_step act deact kh pub local mgr (EvTicket t sender now) mgr'"
| step_mark: "mark_handshaking mgr k = (mgr', r) \<Longrightarrow>
     manager_step act deact kh pub local mgr (EvHandshaking k) mgr'"
| step_auth: "authenticated_handshake act mgr k now = (mgr', r) \<Longrightarrow>
     manager_step act deact kh pub local mgr (EvAuthenticated k now) mgr'"
| step_expire: "manager_expire deact mgr now = (mgr', Inr ks) \<Longrightarrow>
     manager_step act deact kh pub local mgr (EvExpire now) mgr'"
| step_retire: "retire_draining mgr = (mgr', ks) \<Longrightarrow>
     manager_step act deact kh pub local mgr EvRetire mgr'"
| step_fail: "manager_fail deact mgr k = (mgr', Inr b) \<Longrightarrow>
     manager_step act deact kh pub local mgr (EvFail k) mgr'"

inductive_cases manager_step_authE: "manager_step act deact kh pub local mgr (EvAuthenticated k now) mgr'"
inductive_cases manager_step_expireE: "manager_step act deact kh pub local mgr (EvExpire now) mgr'"

inductive manager_reachable ::
    "'r activate_fn \<Rightarrow> 'r deactivate_fn \<Rightarrow> (bytes \<Rightarrow> bytes \<Rightarrow> bytes) \<Rightarrow> (bytes \<Rightarrow> bytes) \<Rightarrow> string
     \<Rightarrow> 'r \<Rightarrow> 'r shortcut_manager \<Rightarrow> bool"
  for act deact kh pub local r0 where
  reach_new: "manager_reachable act deact kh pub local r0 (manager_new r0)"
| reach_step: "manager_reachable act deact kh pub local r0 mgr \<Longrightarrow>
     manager_step act deact kh pub local mgr ev mgr' \<Longrightarrow>
     manager_reachable act deact kh pub local r0 mgr'"

lemma in_expired_sessions:
  "hm_wf (sm_sessions mgr) \<Longrightarrow> k \<in> set (expired_sessions mgr now) \<longleftrightarrow>
     (\<exists>m. hm_get (sm_sessions mgr) k = Some m \<and> t_expires_at (ms_ticket m) \<le> now)"
  by (auto simp: expired_sessions_def hm_get_in_set split: if_splits prod.splits)
     (force simp: hm_get_in_set)

text \<open>The ways \<open>authenticated_handshake\<close> can end.\<close>

lemma auth_shapes:
  assumes au: "authenticated_handshake act mgr k now = (mgr', res)"
  obtains (rejected) e where "mgr' = mgr" and "res = Inl e" and "e \<noteq> Panic"
  | (already) m where "mgr' = mgr" and "res = Inr False" and "hm_get (sm_sessions mgr) k = Some m"
      and "ms_phase m = Active"
  | (route_error) e r m where "hm_get (sm_sessions mgr) k = Some m"
      and "act (sm_routes mgr) (t_selector (ms_ticket m)) (RouteTarget k) = (r, Inl e)"
      and "mgr' = mgr\<lparr> sm_routes := r \<rparr>" and "res = Inl e"
  | (activated) r m drained where "hm_get (sm_sessions mgr) k = Some m" and "ms_phase m \<noteq> Active"
      and "now < t_expires_at (ms_ticket m)"
      and "act (sm_routes mgr) (t_selector (ms_ticket m)) (RouteTarget k) = (r, Inr ())"
      and "drained = (case hm_get (sm_active_routes mgr) (t_selector (ms_ticket m)) of
             Some p \<Rightarrow> if p \<noteq> k then set_phase p Draining (sm_sessions mgr) else sm_sessions mgr
           | None \<Rightarrow> sm_sessions mgr)"
      and "mgr' = mgr\<lparr> sm_routes := r, sm_sessions := set_phase k Active drained,
             sm_active_routes := hm_insert (t_selector (ms_ticket m)) k (sm_active_routes mgr) \<rparr>"
      and "res = Inr True"
proof (cases "hm_get (sm_sessions mgr) k")
  case None
  with au rejected show ?thesis by (auto simp: authenticated_handshake_def)
next
  case (Some m)
  define sel where "sel = t_selector (ms_ticket m)"
  define drained where "drained = (case hm_get (sm_active_routes mgr) sel of
      Some p \<Rightarrow> if p \<noteq> k then set_phase p Draining (sm_sessions mgr) else sm_sessions mgr
    | None \<Rightarrow> sm_sessions mgr)"
  have "hm_get drained k \<noteq> None"
    using Some by (auto simp: drained_def set_phase_get split: option.splits)
  then obtain md where md: "hm_get drained k = Some md" by blast
  obtain r ar where ar: "act (sm_routes mgr) sel (RouteTarget k) = (r, ar)" by fastforce
  show ?thesis
  proof (cases "t_expires_at (ms_ticket m) \<le> now \<or> ms_phase m = Active")
    case True
    with Some au rejected already show ?thesis
      by (auto simp: authenticated_handshake_def split: if_splits)
  next
    case False
    show ?thesis
    proof (cases ar)
      case (Inl e)
      with False Some au ar route_error show ?thesis
        by (auto simp: authenticated_handshake_def Let_def sel_def)
    next
      case (Inr u)
      with False Some au ar md have "mgr' = mgr\<lparr> sm_routes := r,
          sm_sessions := set_phase k Active drained,
          sm_active_routes := hm_insert sel k (sm_active_routes mgr) \<rparr>" and "res = Inr True"
        by (auto simp: authenticated_handshake_def Let_def drained_def sel_def)
      with False Some ar Inr activated [of m r drained] show ?thesis
        by (auto simp: sel_def drained_def)
    qed
  qed
qed

locale route_manager =
  fixes act :: "'r activate_fn"
    and deact :: "'r deactivate_fn"
    and table :: "'r \<Rightarrow> ipnet \<rightharpoonup> route_target"
    and rinv :: "'r \<Rightarrow> bool"
  assumes act_ok: "rinv r \<Longrightarrow> act r s t = (r', Inr u) \<Longrightarrow> rinv r' \<and> table r' = (table r)(s \<mapsto> t)"
    and act_err: "rinv r \<Longrightarrow> act r s t = (r', Inl e) \<Longrightarrow> rinv r' \<and> table r' = table r"
    and deact_ok: "rinv r \<Longrightarrow> deact r s = (r', Inr u) \<Longrightarrow> rinv r' \<and> table r' = (table r)(s := None)"
    and deact_err: "rinv r \<Longrightarrow> deact r s = (r', Inl e) \<Longrightarrow> rinv r' \<and> table r' = table r"
begin

abbreviation inv :: "string \<Rightarrow> 'r shortcut_manager \<Rightarrow> bool" where
  "inv \<equiv> manager_inv table rinv"

lemma inv_new: "rinv r \<Longrightarrow> table r = Map.empty \<Longrightarrow> inv local (manager_new r)"
  by (auto simp: manager_inv_def manager_new_def table_agrees_def sessions_ok_def routes_ok_def)

lemma inv_receive:
  assumes inv: "inv local mgr"
    and rcv: "manager_receive_ticket kh pub mgr t sender local now = (mgr', r)"
  shows "inv local mgr'"
proof (cases "mgr' = mgr")
  case True
  with inv show ?thesis by simp
next
  case False
  with rcv have v: "validate t now = Inr ()" and loc: "t_recipient_public_key t = local"
    and fresh: "hm_get (sm_sessions mgr) (ticket_session t) = None"
    and mgr': "mgr' = mgr\<lparr> sm_sessions := hm_insert (ticket_session t)
        \<lparr> ms_ticket = t, ms_phase = Prepared \<rparr> (sm_sessions mgr) \<rparr>"
    by (auto simp: manager_receive_ticket_def ticket_session_def Let_def
        split: sum.splits if_splits option.splits)
  from v have "ticket_ok t now" by (simp add: validate_ok_iff)
  with inv loc have "sessions_ok local (sm_sessions mgr')"
    by (simp add: mgr' manager_inv_def sessions_ok_insert)
  moreover from inv fresh have "routes_ok (sm_sessions mgr') (sm_active_routes mgr')"
    unfolding manager_inv_def routes_ok_def mgr' by auto
  ultimately show ?thesis
    using inv by (auto simp: manager_inv_def mgr' table_agrees_def)
qed

lemma inv_mark:
  assumes inv: "inv local mgr" and mk: "mark_handshaking mgr k = (mgr', r)"
  shows "inv local mgr'"
proof (cases "mgr' = mgr")
  case True
  with inv show ?thesis by simp
next
  case False
  with mk obtain m where m: "hm_get (sm_sessions mgr) k = Some m" and p: "ms_phase m = Prepared"
    and mgr': "mgr' = mgr\<lparr> sm_sessions := set_phase k Handshaking (sm_sessions mgr) \<rparr>"
    by (auto simp: mark_handshaking_def set_phase_def split: option.splits if_splits)
  with inv routes_ok_set_inactive [of "sm_sessions mgr" "sm_active_routes mgr" Handshaking k m]
  show ?thesis
    by (auto simp: manager_inv_def table_agrees_def intro: sessions_ok_set_phase)
qed

lemma auth_cases:
  assumes inv: "inv local mgr" and au: "authenticated_handshake act mgr k now = (mgr', res)"
  obtains (rejected) e where "mgr' = mgr" and "res = Inl e" and "e \<noteq> Panic"
  | (already) m where "mgr' = mgr" and "res = Inr False" and "hm_get (sm_sessions mgr) k = Some m"
      and "ms_phase m = Active"
  | (route_error) e r m where "hm_get (sm_sessions mgr) k = Some m"
      and "act (sm_routes mgr) (t_selector (ms_ticket m)) (RouteTarget k) = (r, Inl e)"
      and "mgr' = mgr\<lparr> sm_routes := r \<rparr>" and "res = Inl e"
  | (activated) r m drained where "hm_get (sm_sessions mgr) k = Some m" and "ms_phase m \<noteq> Active"
      and "now < t_expires_at (ms_ticket m)"
      and "act (sm_routes mgr) (t_selector (ms_ticket m)) (RouteTarget k) = (r, Inr ())"
      and "drained = (case hm_get (sm_active_routes mgr) (t_selector (ms_ticket m)) of
             Some p \<Rightarrow> if p \<noteq> k then set_phase p Draining (sm_sessions mgr) else sm_sessions mgr
           | None \<Rightarrow> sm_sessions mgr)"
      and "mgr' = mgr\<lparr> sm_routes := r, sm_sessions := set_phase k Active drained,
             sm_active_routes := hm_insert (t_selector (ms_ticket m)) k (sm_active_routes mgr) \<rparr>"
      and "res = Inr True"
  by (rule auth_shapes [OF au]) (rule rejected already route_error activated; assumption)+

lemma inv_auth:
  assumes inv: "inv local mgr" and au: "authenticated_handshake act mgr k now = (mgr', res)"
  shows "inv local mgr'"
  using inv au
proof (cases rule: auth_cases)
  case (route_error e r m)
  with inv act_err show ?thesis
    by (auto simp: manager_inv_def table_agrees_def)
next
  case (activated r m drained)
  note D = manager_invD [OF inv]
  from activated act_ok D(1) have r: "rinv r"
    "table r = (table (sm_routes mgr))(t_selector (ms_ticket m) \<mapsto> RouteTarget k)" by blast+
  have "sessions_ok local drained"
    using D(3) activated(5) by (auto intro: sessions_ok_set_phase split: option.splits)
  then show ?thesis
    using r D activated routes_ok_activate [OF D(4) activated(1,2) refl activated(5)]
    by (auto simp: manager_inv_def intro: sessions_ok_set_phase table_agrees_insert)
qed (use inv in simp_all)

text \<open>The route loop of \<open>expire\<close>, for any list of sessions and also when it stops early.\<close>

lemma expire_routes_spec:
  assumes "rinv (sm_routes mgr)" and "table_agrees table mgr" and "hm_wf (sm_active_routes mgr)"
    and "expire_routes deact mgr ks = (mgr', res)"
  shows "rinv (sm_routes mgr') \<and> table_agrees table mgr' \<and> sm_sessions mgr' = sm_sessions mgr
    \<and> hm_wf (sm_active_routes mgr')
    \<and> (res = Inr () \<longrightarrow> hm_get (sm_active_routes mgr') =
         drop_owned (sm_sessions mgr) (set ks) (hm_get (sm_active_routes mgr)))"
  using assms
proof (induction ks arbitrary: mgr)
  case Nil
  then show ?case by auto
next
  case (Cons k ks)
  show ?case
  proof (cases "\<exists>m. hm_get (sm_sessions mgr) k = Some m
      \<and> hm_get (sm_active_routes mgr) (t_selector (ms_ticket m)) = Some k")
    case False
    then have "expire_routes deact mgr ks = (mgr', res)"
      using Cons.prems(4) by (auto simp: Let_def split: option.splits if_splits)
    note IH = Cons.IH [OF Cons.prems(1-3) this]
    from IH False show ?thesis by (simp add: drop_owned_absent)
  next
    case True
    then obtain m where m: "hm_get (sm_sessions mgr) k = Some m"
      and act: "hm_get (sm_active_routes mgr) (t_selector (ms_ticket m)) = Some k" by blast
    let ?sel = "t_selector (ms_ticket m)"
    obtain r dr where dr: "deact (sm_routes mgr) ?sel = (r, dr)" by fastforce
    show ?thesis
    proof (cases dr)
      case (Inl e)
      with m act dr Cons.prems(4) have "mgr' = mgr\<lparr> sm_routes := r \<rparr>" "res = Inl e"
        by (auto simp: Let_def)
      with Inl dr deact_err [OF Cons.prems(1)] Cons.prems show ?thesis
        by (auto simp: table_agrees_def)
    next
      case (Inr u)
      let ?m1 = "mgr\<lparr> sm_routes := r, sm_active_routes := hm_remove ?sel (sm_active_routes mgr) \<rparr>"
      from Inr dr deact_ok [OF Cons.prems(1)] have r: "rinv r"
        "table r = (table (sm_routes mgr))(?sel := None)" by blast+
      have e1: "expire_routes deact ?m1 ks = (mgr', res)"
        using Cons.prems(4) m act dr Inr by (simp add: Let_def)
      have "rinv (sm_routes ?m1)" "hm_wf (sm_active_routes ?m1)"
        using r(1) Cons.prems by simp_all
      note IH = Cons.IH [OF this(1) table_agrees_remove [OF Cons.prems(2) r(2)] this(2) e1]
      with drop_owned_remove [where rs = "hm_get (sm_active_routes mgr)", OF m act] show ?thesis
        by (simp del: fun_upd_apply)
    qed
  qed
qed

lemma expire_cases:
  assumes inv: "inv local mgr" and ex: "manager_expire deact mgr now = (mgr', Inr ks)"
  shows "ks = expired_sessions mgr now" and "inv local mgr'"
    and "sm_sessions mgr' = fold hm_remove ks (sm_sessions mgr)"
    and "hm_get (sm_active_routes mgr') = drop_owners (set ks) (hm_get (sm_active_routes mgr))"
proof -
  note D = manager_invD [OF inv]
  obtain m1 res where step: "expire_routes deact mgr (expired_sessions mgr now) = (m1, res)"
    by fastforce
  with ex have res: "res = Inr ()" and mgr': "mgr' = remove_sessions ks m1"
    and ks: "ks = expired_sessions mgr now"
    by (auto simp: manager_expire_def Let_def split: sum.splits)
  note m1 = step [unfolded res]
  have spec: "rinv (sm_routes m1) \<and> table_agrees table m1 \<and> sm_sessions m1 = sm_sessions mgr
    \<and> hm_wf (sm_active_routes m1)
    \<and> hm_get (sm_active_routes m1) = drop_owners (set ks) (hm_get (sm_active_routes mgr))"
    using expire_routes_spec [OF D(1,2) routes_ok_wf [OF D(4)] m1] ks
    by (simp add: drop_owned_owners [OF routes_ok_owned [OF D(4)]])
  show "ks = expired_sessions mgr now" by (rule ks)
  show "sm_sessions mgr' = fold hm_remove ks (sm_sessions mgr)"
    using spec by (simp add: mgr' remove_sessions_def)
  show "hm_get (sm_active_routes mgr') = drop_owners (set ks) (hm_get (sm_active_routes mgr))"
    using spec by (simp add: mgr' remove_sessions_def)
  show "inv local mgr'"
  proof (rule manager_invI)
    show "rinv (sm_routes mgr')" and "table_agrees table mgr'"
      using spec by (simp_all add: mgr' remove_sessions_def table_agrees_def)
    show "sessions_ok local (sm_sessions mgr')"
      using spec D(3) by (simp add: mgr' remove_sessions_def sessions_ok_fold_remove)
    show "routes_ok (sm_sessions mgr') (sm_active_routes mgr')"
      using spec routes_ok_drop_owners [OF D(4), of "sm_active_routes m1" ks]
      by (simp add: mgr' remove_sessions_def)
  qed
qed

lemma inv_retire:
  assumes inv: "inv local mgr" and rt: "retire_draining mgr = (mgr', ks)"
  shows "inv local mgr'" and "sm_routes mgr' = sm_routes mgr"
    and "sm_active_routes mgr' = sm_active_routes mgr"
proof -
  note D = manager_invD [OF inv]
  from rt have mgr': "mgr' = remove_sessions ks mgr"
    and ks: "ks = filter_map (\<lambda>(session, managed).
            if ms_phase managed = Draining then Some session else None) (sm_sessions mgr)"
    by (auto simp: retire_draining_def Let_def)
  have "hm_get (sm_active_routes mgr) sel \<noteq> Some k" if "k \<in> set ks" for k sel
  proof
    assume "hm_get (sm_active_routes mgr) sel = Some k"
    then obtain m where m: "hm_get (sm_sessions mgr) k = Some m" "ms_phase m = Active"
      using routes_okD(1) [OF D(4)] by blast
    from that obtain m' where "(k, m') \<in> set (sm_sessions mgr)" "ms_phase m' = Draining"
      by (auto simp: ks split: if_splits)
    then have "hm_get (sm_sessions mgr) k = Some m'"
      using sessions_okD(1) [OF D(3)] by (simp add: hm_get_in_set)
    with m \<open>ms_phase m' = Draining\<close> show False by simp
  qed
  then show "inv local mgr'"
    using D routes_ok_fold_remove [OF D(4), of ks]
    by (auto simp: manager_inv_def mgr' remove_sessions_def table_agrees_def sessions_ok_fold_remove)
  show "sm_routes mgr' = sm_routes mgr" and "sm_active_routes mgr' = sm_active_routes mgr"
    by (simp_all add: mgr' remove_sessions_def)
qed

lemma fail_cases:
  assumes inv: "inv local mgr" and fl: "manager_fail deact mgr k = (mgr', Inr b)"
  shows "inv local mgr'" and "sm_sessions mgr' = hm_remove k (sm_sessions mgr)"
    and "hm_get (sm_active_routes mgr') = drop_owners {k} (hm_get (sm_active_routes mgr))"
    and "b \<longleftrightarrow> hm_get (sm_sessions mgr) k \<noteq> None"
proof -
  note D = manager_invD [OF inv]
  note owned = routes_ok_owned [OF D(4)]
  let ?m1 = "mgr\<lparr> sm_sessions := hm_remove k (sm_sessions mgr) \<rparr>"
  have m1: "table_agrees table ?m1" using D(2) by (simp add: table_agrees_def)
  have "rinv (sm_routes mgr') \<and> table_agrees table mgr' \<and> hm_wf (sm_active_routes mgr')
    \<and> sm_sessions mgr' = hm_remove k (sm_sessions mgr)
    \<and> hm_get (sm_active_routes mgr') = drop_owners {k} (hm_get (sm_active_routes mgr))
    \<and> (b \<longleftrightarrow> hm_get (sm_sessions mgr) k \<noteq> None)"
  proof (cases "\<exists>m. hm_get (sm_sessions mgr) k = Some m
      \<and> hm_get (sm_active_routes mgr) (t_selector (ms_ticket m)) = Some k")
    case False
    have "hm_remove k (sm_sessions mgr) = sm_sessions mgr" if "hm_get (sm_sessions mgr) k = None"
      using that by (simp add: delete_id map_of_eq_None_iff)
    with False fl have mgr': "mgr' = ?m1" and b: "b \<longleftrightarrow> hm_get (sm_sessions mgr) k \<noteq> None"
      by (auto simp: manager_fail_def Let_def split: option.splits if_splits)
    have "hm_get (sm_active_routes mgr) s \<noteq> Some k" for s
      by (rule routes_owned_absent [OF owned]) (use False in auto)
    with mgr' b m1 D show ?thesis by (simp add: drop_owners_absent routes_ok_wf)
  next
    case True
    then obtain m where m: "hm_get (sm_sessions mgr) k = Some m"
      and act: "hm_get (sm_active_routes mgr) (t_selector (ms_ticket m)) = Some k" by blast
    let ?sel = "t_selector (ms_ticket m)"
    obtain r dr where dr: "deact (sm_routes mgr) ?sel = (r, dr)" by fastforce
    with fl m act have ok: "dr = Inr ()" and b: "b = True"
      and mgr': "mgr' = ?m1\<lparr> sm_routes := r,
          sm_active_routes := hm_remove ?sel (sm_active_routes mgr) \<rparr>"
      by (auto simp: manager_fail_def Let_def split: sum.splits)
    from deact_ok [OF D(1)] dr ok have r: "rinv r" "table r = (table (sm_routes ?m1))(?sel := None)"
      by auto
    have "drop_owners {} (hm_get (hm_remove ?sel (sm_active_routes mgr))) =
        drop_owners {k} (hm_get (sm_active_routes mgr))"
      using drop_owners_remove [OF routes_owned_unique [OF owned m act], of "{}"]
      by (simp del: fun_upd_apply)
    with r table_agrees_remove [OF m1 r(2)] routes_ok_wf [OF D(4)] m b mgr' show ?thesis by simp
  qed
  then show "sm_sessions mgr' = hm_remove k (sm_sessions mgr)"
    and "hm_get (sm_active_routes mgr') = drop_owners {k} (hm_get (sm_active_routes mgr))"
    and "b \<longleftrightarrow> hm_get (sm_sessions mgr) k \<noteq> None"
    and "inv local mgr'"
    using D(3) routes_ok_drop_owners [OF D(4), of "sm_active_routes mgr'" "[k]"]
    by (auto simp: manager_inv_def sessions_ok_remove)
qed

lemma step_inv:
  "manager_step act deact kh pub local mgr ev mgr' \<Longrightarrow> inv local mgr \<Longrightarrow> inv local mgr'"
  by (induction rule: manager_step.induct)
     (blast intro: inv_receive inv_mark inv_auth expire_cases(2) inv_retire(1) fail_cases(1))+

lemma reachable_inv:
  assumes "rinv r0" and "table r0 = Map.empty"
    and "manager_reachable act deact kh pub local r0 mgr"
  shows "inv local mgr"
  using assms(3)
  by (induction rule: manager_reachable.induct) (use assms(1,2) inv_new step_inv in blast)+

end

end
