(* ===== verification/Metrics.thy ===== *)
theory Metrics
  imports Rust_Prelude
begin

text \<open>
  \<open>src/src/metrics.rs\<close>: the per-path metrics registry.  Instants and durations are nanosecond
  counts; the readings of the monotonic clock are arguments.  The \<open>f64\<close> operations are the
  parameter record \<open>f64_ops\<close>, so nothing here depends on how floating point rounds.  No update
  under the mutex can panic, so the lock is never poisoned and \<open>expect\<close> never fires.
\<close>

record 'f f64_ops =
  f_of_nat :: "nat \<Rightarrow> 'f"
  f_secs :: "nat \<Rightarrow> 'f"
  f_zero :: 'f
  f_add :: "'f \<Rightarrow> 'f \<Rightarrow> 'f"
  f_mul :: "'f \<Rightarrow> 'f \<Rightarrow> 'f"
  f_div :: "'f \<Rightarrow> 'f \<Rightarrow> 'f"
  f_neg :: "'f \<Rightarrow> 'f"
  f_exp :: "'f \<Rightarrow> 'f"
  f_less :: "'f \<Rightarrow> 'f \<Rightarrow> bool"

type_synonym instant = nat

definition secs :: "nat \<Rightarrow> nat" where "secs n = n * 1000000000"

section \<open>Rates\<close>

record 'f ewma_rate =
  ew_tau :: nat
  ew_last :: instant
  ew_bytes_per_second :: 'f

record 'f rate_set =
  five_seconds :: "'f ewma_rate"
  one_minute :: "'f ewma_rate"
  one_hour :: "'f ewma_rate"

definition ewma_new :: "'f f64_ops \<Rightarrow> nat \<Rightarrow> instant \<Rightarrow> 'f ewma_rate" where
  "ewma_new F tau now = \<lparr> ew_tau = tau, ew_last = now, ew_bytes_per_second = f_zero F \<rparr>"

text \<open>\<open>saturating_duration_since\<close> is the truncated difference.\<close>

definition ewma_decay :: "'f f64_ops \<Rightarrow> 'f ewma_rate \<Rightarrow> instant \<Rightarrow> 'f ewma_rate" where
  "ewma_decay F r now =
     (let elapsed = f_secs F (now - ew_last r) in
      if f_less F (f_zero F) elapsed
      then r\<lparr> ew_bytes_per_second := f_mul F (ew_bytes_per_second r)
               (f_exp F (f_div F (f_neg F elapsed) (f_secs F (ew_tau r)))),
             ew_last := now \<rparr>
      else r)"

definition ewma_add :: "'f f64_ops \<Rightarrow> 'f ewma_rate \<Rightarrow> nat \<Rightarrow> instant \<Rightarrow> 'f ewma_rate" where
  "ewma_add F r n now =
     (let d = ewma_decay F r now in
      d\<lparr> ew_bytes_per_second := f_add F (ew_bytes_per_second d) (f_div F (f_of_nat F n) (f_secs F (ew_tau d))) \<rparr>)"

definition ewma_value :: "'f f64_ops \<Rightarrow> 'f ewma_rate \<Rightarrow> instant \<Rightarrow> 'f ewma_rate \<times> 'f" where
  "ewma_value F r now =
     (let d = ewma_decay F r now in (d, f_mul F (ew_bytes_per_second d) (f_of_nat F 8)))"

definition rates_new :: "'f f64_ops \<Rightarrow> instant \<Rightarrow> 'f rate_set" where
  "rates_new F now = \<lparr> five_seconds = ewma_new F (secs 5) now, one_minute = ewma_new F (secs 60) now,
     one_hour = ewma_new F (secs 3600) now \<rparr>"

definition rates_add :: "'f f64_ops \<Rightarrow> 'f rate_set \<Rightarrow> nat \<Rightarrow> instant \<Rightarrow> 'f rate_set" where
  "rates_add F s n now = \<lparr> five_seconds = ewma_add F (five_seconds s) n now,
     one_minute = ewma_add F (one_minute s) n now, one_hour = ewma_add F (one_hour s) n now \<rparr>"

definition rates_snapshot :: "'f f64_ops \<Rightarrow> 'f rate_set \<Rightarrow> instant \<Rightarrow> 'f rate_set \<times> 'f \<times> 'f \<times> 'f" where
  "rates_snapshot F s now =
     (case (ewma_value F (five_seconds s) now, ewma_value F (one_minute s) now,
            ewma_value F (one_hour s) now) of
        ((r5, a), (r60, b), (r3600, c)) \<Rightarrow>
          (\<lparr> five_seconds = r5, one_minute = r60, one_hour = r3600 \<rparr>, a, b, c))"

section \<open>The registry\<close>

record probe_sample =
  pr_at :: instant
  pr_success :: bool

record 'f path_metrics =
  pm_available :: bool
  pm_rtt_ms :: "'f option"
  pm_route_latency_ms :: "'f option"
  pm_probes :: "probe_sample list"
  pm_tx_bytes :: u64
  pm_rx_bytes :: u64
  pm_tx_rates :: "'f rate_set"
  pm_rx_rates :: "'f rate_set"

record 'f path_metrics_snapshot =
  ss_available :: bool
  ss_rtt_ms :: "'f option"
  ss_route_latency_ms :: "'f option"
  ss_loss_percent :: "'f option"
  ss_probe_samples :: nat
  ss_tx_bytes :: u64
  ss_rx_bytes :: u64
  ss_tx_bps :: "'f \<times> 'f \<times> 'f"
  ss_rx_bps :: "'f \<times> 'f \<times> 'f"

type_synonym 'f metrics_registry = "(string \<times> string, 'f path_metrics) hashmap"

text \<open>\<open>PathMetrics::default\<close> reads the clock itself, once for each rate set.\<close>

definition path_metrics_default :: "'f f64_ops \<Rightarrow> instant \<Rightarrow> instant \<Rightarrow> 'f path_metrics" where
  "path_metrics_default F tx_now rx_now =
     \<lparr> pm_available = False, pm_rtt_ms = None, pm_route_latency_ms = None, pm_probes = [],
       pm_tx_bytes = 0, pm_rx_bytes = 0, pm_tx_rates = rates_new F tx_now,
       pm_rx_rates = rates_new F rx_now \<rparr>"

text \<open>\<open>entry(key).or_default()\<close>; \<open>dflt\<close> is the value made when the key is vacant.\<close>

definition entry_or_default ::
    "'f path_metrics \<Rightarrow> 'f metrics_registry \<Rightarrow> string \<times> string \<Rightarrow> 'f path_metrics" where
  "entry_or_default dflt reg key = (case hm_get reg key of Some m \<Rightarrow> m | None \<Rightarrow> dflt)"

definition with_path ::
    "'f path_metrics \<Rightarrow> 'f metrics_registry \<Rightarrow> string \<Rightarrow> string \<Rightarrow> ('f path_metrics \<Rightarrow> 'f path_metrics)
     \<Rightarrow> 'f metrics_registry" where
  "with_path dflt reg peer path update =
     hm_insert (peer, path) (update (entry_or_default dflt reg (peer, path))) reg"

definition register_path ::
    "'f path_metrics \<Rightarrow> 'f metrics_registry \<Rightarrow> string \<Rightarrow> string \<Rightarrow> 'f metrics_registry" where
  "register_path dflt reg peer path = with_path dflt reg peer path (\<lambda>m. m)"

definition remove_peers_except :: "'f metrics_registry \<Rightarrow> string list \<Rightarrow> 'f metrics_registry" where
  "remove_peers_except reg peer_keys = filter (\<lambda>((peer, _), _). peer \<in> set peer_keys) reg"

definition set_available ::
    "'f path_metrics \<Rightarrow> 'f metrics_registry \<Rightarrow> string \<Rightarrow> string \<Rightarrow> bool \<Rightarrow> 'f metrics_registry" where
  "set_available dflt reg peer path a = with_path dflt reg peer path (\<lambda>m. m\<lparr> pm_available := a \<rparr>)"

definition is_available :: "'f metrics_registry \<Rightarrow> string \<Rightarrow> string \<Rightarrow> bool" where
  "is_available reg peer path =
     (case hm_get reg (peer, path) of None \<Rightarrow> False | Some m \<Rightarrow> pm_available m)"

definition set_route_latency ::
    "'f path_metrics \<Rightarrow> 'f metrics_registry \<Rightarrow> string \<Rightarrow> string \<Rightarrow> 'f option \<Rightarrow> 'f metrics_registry" where
  "set_route_latency dflt reg peer path l =
     with_path dflt reg peer path (\<lambda>m. m\<lparr> pm_route_latency_ms := l \<rparr>)"

fun trim_probes :: "probe_sample list \<Rightarrow> instant \<Rightarrow> probe_sample list" where
  "trim_probes [] now = []"
| "trim_probes (s # ss) now =
     (if 100 < length (s # ss) \<or> secs 60 < now - pr_at s then trim_probes ss now else s # ss)"

definition record_probe ::
    "'f f64_ops \<Rightarrow> 'f path_metrics \<Rightarrow> 'f metrics_registry \<Rightarrow> string \<Rightarrow> string \<Rightarrow> nat option \<Rightarrow> instant
     \<Rightarrow> 'f metrics_registry" where
  "record_probe F dflt reg peer path rtt now =
     with_path dflt reg peer path (\<lambda>m.
       let m1 = m\<lparr> pm_probes := pm_probes m @ [\<lparr> pr_at = now, pr_success = (rtt \<noteq> None) \<rparr>] \<rparr>;
           m2 = (case rtt of None \<Rightarrow> m1
                 | Some d \<Rightarrow> m1\<lparr> pm_rtt_ms := Some (f_mul F (f_secs F d) (f_of_nat F 1000)),
                                 pm_available := True \<rparr>)
       in m2\<lparr> pm_probes := trim_probes (pm_probes m2) now \<rparr>)"

definition record_tx ::
    "'f f64_ops \<Rightarrow> 'f path_metrics \<Rightarrow> 'f metrics_registry \<Rightarrow> string \<Rightarrow> string \<Rightarrow> usize \<Rightarrow> instant
     \<Rightarrow> 'f metrics_registry" where
  "record_tx F dflt reg peer path n now =
     with_path dflt reg peer path (\<lambda>m.
       m\<lparr> pm_tx_bytes := sat_add (pm_tx_bytes m) n,
          pm_tx_rates := rates_add F (pm_tx_rates m) (unat n) now \<rparr>)"

definition record_rx ::
    "'f f64_ops \<Rightarrow> 'f path_metrics \<Rightarrow> 'f metrics_registry \<Rightarrow> string \<Rightarrow> string \<Rightarrow> usize \<Rightarrow> instant
     \<Rightarrow> 'f metrics_registry" where
  "record_rx F dflt reg peer path n now =
     with_path dflt reg peer path (\<lambda>m.
       m\<lparr> pm_rx_bytes := sat_add (pm_rx_bytes m) n,
          pm_rx_rates := rates_add F (pm_rx_rates m) (unat n) now \<rparr>)"

definition metrics_snapshot ::
    "'f f64_ops \<Rightarrow> 'f path_metrics \<Rightarrow> 'f metrics_registry \<Rightarrow> string \<Rightarrow> string \<Rightarrow> instant
     \<Rightarrow> 'f metrics_registry \<times> 'f path_metrics_snapshot" where
  "metrics_snapshot F dflt reg peer path now =
     (let m = entry_or_default dflt reg (peer, path);
          probes = trim_probes (pm_probes m) now;
          samples = length probes;
          lost = length (filter (\<lambda>s. \<not> pr_success s) probes);
          loss = (if 0 < samples
                  then Some (f_div F (f_mul F (f_of_nat F lost) (f_of_nat F 100)) (f_of_nat F samples))
                  else None)
      in case (rates_snapshot F (pm_tx_rates m) now, rates_snapshot F (pm_rx_rates m) now) of
           ((txr, tx), (rxr, rx)) \<Rightarrow>
             (hm_insert (peer, path)
                (m\<lparr> pm_probes := probes, pm_tx_rates := txr, pm_rx_rates := rxr \<rparr>) reg,
              \<lparr> ss_available = pm_available m, ss_rtt_ms = pm_rtt_ms m,
                ss_route_latency_ms = pm_route_latency_ms m, ss_loss_percent = loss,
                ss_probe_samples = samples, ss_tx_bytes = pm_tx_bytes m,
                ss_rx_bytes = pm_rx_bytes m, ss_tx_bps = tx, ss_rx_bps = rx \<rparr>))"

section \<open>The probe window\<close>

text \<open>Probes are pushed with increasing clock readings, so the queue is in time order.\<close>

definition probes_ordered :: "probe_sample list \<Rightarrow> bool" where
  "probes_ordered ps \<longleftrightarrow> sorted (map pr_at ps)"

definition fresh_probe :: "instant \<Rightarrow> probe_sample \<Rightarrow> bool" where
  "fresh_probe now s \<longleftrightarrow> now - pr_at s \<le> secs 60"

lemma probes_ordered_snoc:
  "probes_ordered ps \<Longrightarrow> (\<forall>s\<in>set ps. pr_at s \<le> now) \<Longrightarrow>
   probes_ordered (ps @ [\<lparr> pr_at = now, pr_success = b \<rparr>])"
  by (auto simp: probes_ordered_def sorted_append)

lemma trim_probes_suffix: "\<exists>k. trim_probes ps now = drop k ps"
proof (induction ps)
  case Nil
  then show ?case by simp
next
  case (Cons s ss)
  from Cons.IH obtain k where k: "trim_probes ss now = drop k ss" by blast
  show ?case
  proof (cases "100 < length (s # ss) \<or> secs 60 < now - pr_at s")
    case True
    with k have "trim_probes (s # ss) now = drop (Suc k) (s # ss)" by simp
    then show ?thesis by blast
  next
    case False
    then have "trim_probes (s # ss) now = drop 0 (s # ss)" by simp
    then show ?thesis by blast
  qed
qed

lemma probes_ordered_trim: "probes_ordered ps \<Longrightarrow> probes_ordered (trim_probes ps now)"
  using trim_probes_suffix [of ps now] by (auto simp: probes_ordered_def drop_map [symmetric] sorted_wrt_drop)

text \<open>Trimming keeps the last hundred of the probes of the last minute.\<close>

lemma trim_probes_window:
  assumes "probes_ordered ps"
  shows "trim_probes ps now =
    (let fresh = filter (fresh_probe now) ps in drop (length fresh - 100) fresh)"
  using assms
proof (induction ps)
  case Nil
  then show ?case by simp
next
  case (Cons s ss)
  then have ord: "probes_ordered ss" and ge: "\<forall>x\<in>set ss. pr_at s \<le> pr_at x"
    by (auto simp: probes_ordered_def)
  note IH = Cons.IH [OF ord]
  show ?case
  proof (cases "fresh_probe now s")
    case False
    then have "secs 60 < now - pr_at s" by (simp add: fresh_probe_def)
    with IH False show ?thesis by simp
  next
    case True
    with ge have "\<forall>x\<in>set ss. fresh_probe now x" by (auto simp: fresh_probe_def)
    then have all: "filter (fresh_probe now) ss = ss" by (simp add: filter_id_conv)
    have ns: "\<not> secs 60 < now - pr_at s" using True by (simp add: fresh_probe_def)
    show ?thesis
    proof (cases "100 < length (s # ss)")
      case True
      have "trim_probes (s # ss) now = drop (length ss - 100) ss"
        using IH all True by (simp add: Let_def)
      also have "\<dots> = drop (length (s # ss) - 100) (s # ss)"
      proof -
        have "length (s # ss) - 100 = Suc (length ss - 100)" using True by simp
        then show ?thesis by (simp del: length_Cons)
      qed
      finally show ?thesis using all \<open>fresh_probe now s\<close> by (simp add: Let_def)
    next
      case False
      with ns all \<open>fresh_probe now s\<close> show ?thesis by (simp add: Let_def)
    qed
  qed
qed

section \<open>Properties\<close>

text \<open>
  The probe window: recording a probe on a path whose earlier probes are in time order keeps
  exactly the last hundred of the probes of the last sixty seconds, the new one included, still in
  time order; a snapshot then counts precisely those probes, and no other path of the registry
  changes.
\<close>

theorem record_probe_window:
  assumes old: "hm_get reg (peer, path) = Some m"
    and ord: "probes_ordered (pm_probes m)" and past: "\<forall>s\<in>set (pm_probes m). pr_at s \<le> now"
  shows "\<exists>m'. hm_get (record_probe F dflt reg peer path rtt now) (peer, path) = Some m'
    \<and> pm_probes m' =
        (let fresh = filter (\<lambda>s. now - pr_at s \<le> secs 60)
               (pm_probes m @ [\<lparr> pr_at = now, pr_success = (rtt \<noteq> None) \<rparr>])
         in drop (length fresh - 100) fresh)
    \<and> probes_ordered (pm_probes m') \<and> length (pm_probes m') \<le> 100
    \<and> ss_probe_samples (snd (metrics_snapshot F dflt
         (record_probe F dflt reg peer path rtt now) peer path now)) = length (pm_probes m')
    \<and> (\<forall>k. k \<noteq> (peer, path) \<longrightarrow> hm_get (record_probe F dflt reg peer path rtt now) k = hm_get reg k)"
proof -
  let ?all = "pm_probes m @ [\<lparr> pr_at = now, pr_success = (rtt \<noteq> None) \<rparr>]"
  let ?reg = "record_probe F dflt reg peer path rtt now"
  from old obtain m' where m': "hm_get ?reg (peer, path) = Some m'" "pm_probes m' = trim_probes ?all now"
    by (cases rtt) (auto simp: record_probe_def with_path_def entry_or_default_def Let_def)
  have ordered: "probes_ordered ?all" by (rule probes_ordered_snoc [OF ord past])
  note w = trim_probes_window [OF ordered, of now]
  have ordered': "probes_ordered (pm_probes m')" using m'(2) ordered by (simp add: probes_ordered_trim)
  have len: "length (pm_probes m') \<le> 100" unfolding m'(2) w Let_def by simp
  have "trim_probes (pm_probes m') now = pm_probes m'"
  proof -
    have "filter (fresh_probe now) (pm_probes m') = pm_probes m'"
      using m'(2) w by (auto simp: filter_id_conv Let_def dest: in_set_dropD)
    then show ?thesis using trim_probes_window [OF ordered', of now] len by (simp add: Let_def)
  qed
  then have "ss_probe_samples (snd (metrics_snapshot F dflt ?reg peer path now)) = length (pm_probes m')"
    using m'(1) by (simp add: metrics_snapshot_def entry_or_default_def Let_def split: prod.splits)
  moreover have "hm_get ?reg k = hm_get reg k" if "k \<noteq> (peer, path)" for k
    using that by (simp add: record_probe_def with_path_def)
  ultimately show ?thesis
    using m' w ordered' len by (auto simp: fresh_probe_def [abs_def])
qed

definition sample_f64 :: "int f64_ops" where
  "sample_f64 = \<lparr> f_of_nat = int, f_secs = (\<lambda>n. int (n div 1000000000)), f_zero = 0, f_add = (+),
     f_mul = (*), f_div = (div), f_neg = uminus, f_exp = (\<lambda>x. 1), f_less = (<) \<rparr>"

theorem record_probe_window_witness:
  "\<exists>m'. hm_get (record_probe sample_f64 (path_metrics_default sample_f64 0 0)
      [((''p'', ''a''), (path_metrics_default sample_f64 0 0)\<lparr> pm_probes := [\<lparr> pr_at = 0, pr_success = False \<rparr>] \<rparr>)]
      ''p'' ''a'' (Some 5) (secs 61)) (''p'', ''a'') = Some m' \<and> length (pm_probes m') = 1"
  using record_probe_window [of "[((''p'', ''a''), (path_metrics_default sample_f64 0 0)
        \<lparr> pm_probes := [\<lparr> pr_at = 0, pr_success = False \<rparr>] \<rparr>)]" "''p''" "''a''"
      "(path_metrics_default sample_f64 0 0)\<lparr> pm_probes := [\<lparr> pr_at = 0, pr_success = False \<rparr>] \<rparr>"
      "secs 61" sample_f64 "path_metrics_default sample_f64 0 0" "Some 5"]
  by (auto simp: probes_ordered_def secs_def Let_def)

end
