(* ===== verification/Broker.thy ===== *)
theory Broker
  imports Shortcut_State Metrics "HOL-Library.Multiset"
begin

text \<open>
  \<open>src/src/broker.rs\<close>: the relay packets, the set of paths to a peer, and the two loops that put
  packets on a path: the per-peer UDP broker and the dispatcher.  A channel sender is a handle
  \<open>'c\<close>; whether its receiver still exists is the argument \<open>open_ch\<close>.  Each iteration of a loop
  is a function from the event the \<open>select!\<close> delivers to the effects and the control flow.
\<close>

section \<open>Packets and paths\<close>

datatype relay_channel =
    BaseWireGuard
  | ShortcutWireGuard session_key
  | PathProbe u64 u64 bool

record relay_packet =
  rp_peer_key :: string
  rp_channel :: relay_channel
  rp_payload :: bytes

record inbound_relay_packet =
  irp_source_key :: string
  irp_channel :: relay_channel
  irp_payload :: bytes

record 'c path_target =
  pt_id :: string
  pt_label :: string
  pt_protocol :: string
  pt_sender :: 'c

record 'c path_set =
  ps_targets :: "'c path_target list"
  ps_selected :: "string option"

text \<open>\<open>iter().position\<close> and \<open>swap\<close>, whose indices are in range here.\<close>

fun position :: "('a \<Rightarrow> bool) \<Rightarrow> 'a list \<Rightarrow> nat option" where
  "position P [] = None"
| "position P (x # xs) = (if P x then Some 0 else map_option Suc (position P xs))"

definition swap_at :: "'a list \<Rightarrow> nat \<Rightarrow> nat \<Rightarrow> 'a list" where
  "swap_at xs i j = xs[i := xs ! j, j := xs ! i]"

definition ordered_targets :: "'c path_set \<Rightarrow> 'c path_target list" where
  "ordered_targets ps =
     (case ps_selected ps of
        None \<Rightarrow> ps_targets ps
      | Some sel \<Rightarrow>
          (case position (\<lambda>t. pt_id t = sel) (ps_targets ps) of
             None \<Rightarrow> ps_targets ps
           | Some i \<Rightarrow> swap_at (ps_targets ps) 0 i))"

definition path_select :: "'c path_set \<Rightarrow> string option \<Rightarrow> 'c path_set \<times> bool" where
  "path_select ps path_id =
     (case path_id of
        None \<Rightarrow> (ps\<lparr> ps_selected := None \<rparr>, True)
      | Some p \<Rightarrow>
          if list_ex (\<lambda>t. pt_id t = p) (ps_targets ps) then (ps\<lparr> ps_selected := Some p \<rparr>, True)
          else (ps, False))"

fun path_class :: "bool \<Rightarrow> bool \<Rightarrow> nat" where
  "path_class True True = 0"
| "path_class False True = 1"
| "path_class True False = 2"
| "path_class False False = 3"

text \<open>\<open>sort_by_key\<close> is a stable sort, as \<open>sort_key\<close> is.\<close>

definition target_class :: "'f metrics_registry \<Rightarrow> string \<Rightarrow> 'c path_set \<Rightarrow> 'c path_target \<Rightarrow> nat" where
  "target_class reg peer_key ps t =
     path_class (ps_selected ps = Some (pt_id t)) (is_available reg peer_key (pt_id t))"

definition ordered_healthy_targets ::
    "'f metrics_registry \<Rightarrow> string \<Rightarrow> 'c path_set \<Rightarrow> 'c path_target list" where
  "ordered_healthy_targets reg peer_key ps =
     sort_key (target_class reg peer_key ps) (ordered_targets ps)"

section \<open>The loops\<close>

datatype flow = Continue | Stop "unit res"

datatype 'c broker_effect =
    ToWireGuard socket_addr bytes
  | Relayed 'c relay_packet

text \<open>The fallback loop: the first target whose receiver is alive gets the packet.\<close>

fun forward_packet :: "('c \<Rightarrow> bool) \<Rightarrow> relay_packet \<Rightarrow> 'c path_target list \<Rightarrow> 'c broker_effect list \<times> bool"
  where
  "forward_packet open_ch p [] = ([], False)"
| "forward_packet open_ch p (t # ts) =
     (if open_ch (pt_sender t) then ([Relayed (pt_sender t) p], True) else forward_packet open_ch p ts)"

definition relay_to ::
    "('c \<Rightarrow> bool) \<Rightarrow> relay_packet \<Rightarrow> 'c path_target list \<Rightarrow> 'c broker_effect list \<times> flow" where
  "relay_to open_ch p targets =
     (if targets = [] then ([], Continue)
      else case forward_packet open_ch p targets of
             (eff, True) \<Rightarrow> (eff, Continue)
           | (eff, False) \<Rightarrow> (eff, Stop (Inl (TransportError AllPathsStopped))))"

text \<open>What the \<open>select!\<close> of \<open>run_peer\<close> and \<open>run_dispatcher\<close> can deliver.\<close>

datatype peer_input =
    PeerCancelled
  | PeerInbound "bytes option"
  | PeerReceived "(bytes \<times> socket_addr) res"

datatype dispatcher_input =
    DispatcherCancelled
  | DispatcherInbound "relay_packet option"

definition loopback :: "u16 \<Rightarrow> socket_addr" where
  "loopback port = SocketAddr (V4 0x7f000001) port"

text \<open>\<open>send_to\<close> is the result of the socket call.\<close>

fun run_peer_step ::
    "('c \<Rightarrow> bool) \<Rightarrow> (bytes \<Rightarrow> unit res) \<Rightarrow> 'f metrics_registry \<Rightarrow> 'c path_set \<Rightarrow> string \<Rightarrow> u16
     \<Rightarrow> peer_input \<Rightarrow> 'c broker_effect list \<times> flow" where
  "run_peer_step open_ch send_to reg ps peer_key wireguard_port PeerCancelled = ([], Stop (Inr ()))"
| "run_peer_step open_ch send_to reg ps peer_key wireguard_port (PeerInbound None) = ([], Stop (Inr ()))"
| "run_peer_step open_ch send_to reg ps peer_key wireguard_port (PeerInbound (Some packet)) =
     (case send_to packet of
        Inl e \<Rightarrow> ([], Stop (Inl e))
      | Inr _ \<Rightarrow> ([ToWireGuard (loopback wireguard_port) packet], Continue))"
| "run_peer_step open_ch send_to reg ps peer_key wireguard_port (PeerReceived (Inl e)) =
     ([], Stop (Inl e))"
| "run_peer_step open_ch send_to reg ps peer_key wireguard_port (PeerReceived (Inr (payload, source))) =
     (if source \<noteq> loopback wireguard_port then ([], Continue)
      else relay_to open_ch
             \<lparr> rp_peer_key = peer_key, rp_channel = BaseWireGuard, rp_payload = payload \<rparr>
             (ordered_healthy_targets reg peer_key ps))"

fun run_dispatcher_step ::
    "('c \<Rightarrow> bool) \<Rightarrow> 'f metrics_registry \<Rightarrow> (string, 'c path_set) hashmap \<Rightarrow> 'c path_target list
     \<Rightarrow> dispatcher_input \<Rightarrow> 'c broker_effect list \<times> flow" where
  "run_dispatcher_step open_ch reg paths dynamic_targets DispatcherCancelled = ([], Stop (Inr ()))"
| "run_dispatcher_step open_ch reg paths dynamic_targets (DispatcherInbound None) = ([], Stop (Inr ()))"
| "run_dispatcher_step open_ch reg paths dynamic_targets (DispatcherInbound (Some packet)) =
     relay_to open_ch packet
       (case hm_get paths (rp_peer_key packet) of
          Some ps \<Rightarrow> ordered_healthy_targets reg (rp_peer_key packet) ps
        | None \<Rightarrow> dynamic_targets)"

section \<open>Path order\<close>

lemma position_Some: "position P xs = Some i \<Longrightarrow> i < length xs \<and> P (xs ! i)"
  by (induction xs arbitrary: i) (auto split: if_splits)

lemma mset_swap_at: "i < length xs \<Longrightarrow> j < length xs \<Longrightarrow> mset (swap_at xs i j) = mset xs"
  unfolding swap_at_def by (rule mset_swap)

lemma mset_ordered_targets [simp]: "mset (ordered_targets ps) = mset (ps_targets ps)"
  by (auto simp: ordered_targets_def split: option.splits dest!: position_Some intro!: mset_swap_at)

lemma set_ordered_targets [simp]: "set (ordered_targets ps) = set (ps_targets ps)"
  by (metis mset_ordered_targets set_mset_mset)

lemma sort_key_hd_least:
  fixes k :: "'a \<Rightarrow> 'k::linorder"
  assumes "x \<in> set xs" shows "k (hd (sort_key k xs)) \<le> k x"
proof (cases "sort_key k xs")
  case Nil
  with assms show ?thesis by (metis empty_iff empty_set set_sort)
next
  case (Cons y ys)
  have "sorted (map k (sort_key k xs))" by simp
  moreover have "x \<in> set (sort_key k xs)" using assms by simp
  ultimately show ?thesis using Cons by auto
qed

lemma path_class_available: "path_class s a \<le> 1 \<longleftrightarrow> a"
  by (cases s; cases a) auto

lemma path_class_zero: "path_class s a = 0 \<longleftrightarrow> s \<and> a"
  by (cases s; cases a) auto

lemma forward_packet_spec:
  "forward_packet open_ch p ts =
     (case find (\<lambda>t. open_ch (pt_sender t)) ts of
        None \<Rightarrow> ([], False) | Some t \<Rightarrow> ([Relayed (pt_sender t) p], True))"
  by (induction ts) auto

lemma relay_to_spec:
  "relay_to open_ch p ts =
     (case find (\<lambda>t. open_ch (pt_sender t)) ts of
        Some t \<Rightarrow> ([Relayed (pt_sender t) p], Continue)
      | None \<Rightarrow> ([], if ts = [] then Continue else Stop (Inl (TransportError AllPathsStopped))))"
  by (auto simp: relay_to_def forward_packet_spec split: option.splits)

lemma find_first:
  assumes "find P xs = Some x"
  shows "x \<in> set xs" and "P x" and "sorted (map k xs) \<Longrightarrow> y \<in> set xs \<Longrightarrow> P y \<Longrightarrow> k x \<le> k y"
proof -
  show "x \<in> set xs" and "P x" using assms by (auto dest: find_SomeD)
  show "k x \<le> k y" if "sorted (map k xs)" "y \<in> set xs" "P y"
    using assms that
  proof (induction xs)
    case Nil
    then show ?case by simp
  next
    case (Cons a xs)
    then show ?case by (auto split: if_splits)
  qed
qed

text \<open>A configured path whose receiver exists.\<close>

definition alive_path :: "('c \<Rightarrow> bool) \<Rightarrow> 'c path_set \<Rightarrow> 'c path_target \<Rightarrow> bool" where
  "alive_path open_ch ps t \<longleftrightarrow> t \<in> set (ps_targets ps) \<and> open_ch (pt_sender t)"

definition sample_paths :: "nat path_set" where
  "sample_paths =
     \<lparr> ps_targets = [\<lparr> pt_id = ''a'', pt_label = [], pt_protocol = [], pt_sender = 1 \<rparr>,
                     \<lparr> pt_id = ''b'', pt_label = [], pt_protocol = [], pt_sender = 2 \<rparr>],
       ps_selected = Some ''b'' \<rparr>"

section \<open>Properties\<close>

text \<open>
  Path choice: the order in which the broker tries the paths of a peer is a permutation of
  the configured paths, every available path is tried before every unavailable one, paths of the
  same class keep the order of \<open>ordered_targets\<close>, and a selected path that is available is tried
  first.
\<close>

theorem ordered_healthy_targets_order:
  "mset (ordered_healthy_targets reg peer_key ps) = mset (ps_targets ps)
   \<and> sorted (map (target_class reg peer_key ps) (ordered_healthy_targets reg peer_key ps))
   \<and> (\<forall>c. filter (\<lambda>t. target_class reg peer_key ps t = c) (ordered_healthy_targets reg peer_key ps)
          = filter (\<lambda>t. target_class reg peer_key ps t = c) (ordered_targets ps))
   \<and> (\<forall>t \<in> set (ps_targets ps). ps_selected ps = Some (pt_id t) \<and> is_available reg peer_key (pt_id t)
        \<longrightarrow> pt_id (hd (ordered_healthy_targets reg peer_key ps)) = pt_id t)
   \<and> (\<forall>t. target_class reg peer_key ps t \<le> 1 \<longleftrightarrow> is_available reg peer_key (pt_id t))"
proof (intro conjI allI ballI impI)
  show "mset (ordered_healthy_targets reg peer_key ps) = mset (ps_targets ps)"
    and "sorted (map (target_class reg peer_key ps) (ordered_healthy_targets reg peer_key ps))"
    by (simp_all add: ordered_healthy_targets_def)
  show "filter (\<lambda>t. target_class reg peer_key ps t = c) (ordered_healthy_targets reg peer_key ps)
      = filter (\<lambda>t. target_class reg peer_key ps t = c) (ordered_targets ps)" for c
    unfolding ordered_healthy_targets_def by (rule sort_key_stable)
  show "target_class reg peer_key ps t \<le> 1 \<longleftrightarrow> is_available reg peer_key (pt_id t)" for t
    unfolding target_class_def by (rule path_class_available)
  show "pt_id (hd (ordered_healthy_targets reg peer_key ps)) = pt_id t"
    if t: "t \<in> set (ps_targets ps)"
      and s: "ps_selected ps = Some (pt_id t) \<and> is_available reg peer_key (pt_id t)" for t
  proof -
    have "target_class reg peer_key ps (hd (ordered_healthy_targets reg peer_key ps))
        \<le> target_class reg peer_key ps t"
      unfolding ordered_healthy_targets_def by (rule sort_key_hd_least) (simp add: t)
    with s show ?thesis by (simp add: target_class_def path_class_zero)
  qed
qed

theorem ordered_healthy_targets_order_witness:
  "pt_id (hd (ordered_healthy_targets
      [((''peer'', ''b''), (path_metrics_default sample_f64 0 0)\<lparr> pm_available := True \<rparr>)] ''peer''
      sample_paths)) = ''b''"
  using ordered_healthy_targets_order
    [of "[((''peer'', ''b''), (path_metrics_default sample_f64 0 0)\<lparr> pm_available := True \<rparr>)]" "''peer''"
        sample_paths]
  by (simp add: is_available_def sample_paths_def)

text \<open>
  Fallback: a packet from the local WireGuard is relayed exactly once, on a path whose
  receiver is alive and that no other such path precedes in the broker's order; the broker stops
  with an error only when paths are configured and all of them have stopped; datagrams from any
  other source are dropped.
\<close>

theorem run_peer_relays_once:
  assumes "run_peer_step open_ch send_to reg ps peer_key port (PeerReceived (Inr (payload, source))) = (eff, fl)"
  shows "(source \<noteq> loopback port \<longrightarrow> eff = [] \<and> fl = Continue)
    \<and> (source = loopback port \<and> (\<exists>t. alive_path open_ch ps t) \<longrightarrow>
        (\<exists>t. alive_path open_ch ps t \<and> eff = [Relayed (pt_sender t) \<lparr> rp_peer_key = peer_key,
               rp_channel = BaseWireGuard, rp_payload = payload \<rparr>] \<and> fl = Continue
           \<and> (\<forall>u. alive_path open_ch ps u \<longrightarrow> target_class reg peer_key ps t \<le> target_class reg peer_key ps u)))
    \<and> (source = loopback port \<and> \<not> (\<exists>t. alive_path open_ch ps t) \<longrightarrow>
        eff = [] \<and> (fl = Continue \<longleftrightarrow> ps_targets ps = []))"
proof -
  let ?ts = "ordered_healthy_targets reg peer_key ps"
  have set_ts: "set ?ts = set (ps_targets ps)" by (simp add: ordered_healthy_targets_def)
  have empty: "?ts = [] \<longleftrightarrow> ps_targets ps = []" using set_ts by (metis set_empty)
  have srt: "sorted (map (target_class reg peer_key ps) ?ts)" by (simp add: ordered_healthy_targets_def)
  show ?thesis
  proof (cases "find (\<lambda>t. open_ch (pt_sender t)) ?ts")
    case None
    then have "\<not> (\<exists>t. alive_path open_ch ps t)" using set_ts by (auto simp: find_None_iff alive_path_def)
    with assms None empty show ?thesis by (auto simp: relay_to_spec split: if_splits)
  next
    case (Some t)
    note F = find_first [OF Some]
    have "alive_path open_ch ps t" using F(1,2) set_ts by (simp add: alive_path_def)
    moreover have "target_class reg peer_key ps t \<le> target_class reg peer_key ps u" if "alive_path open_ch ps u" for u
      using F(3) [OF srt, of u] that set_ts by (simp add: alive_path_def)
    ultimately show ?thesis
      using assms Some by (auto simp: relay_to_spec split: if_splits)
  qed
qed

theorem run_peer_relays_once_witness:
  "\<exists>t. alive_path (\<lambda>c. c = 2) sample_paths t
     \<and> fst (run_peer_step (\<lambda>c. c = 2) (\<lambda>b. Inr ()) ([] :: int metrics_registry) sample_paths ''peer''
          51820 (PeerReceived (Inr ([], loopback 51820))))
     = [Relayed (pt_sender t) \<lparr> rp_peer_key = ''peer'', rp_channel = BaseWireGuard, rp_payload = [] \<rparr>]"
proof -
  obtain eff fl where r: "run_peer_step (\<lambda>c. c = 2) (\<lambda>b. Inr ()) ([] :: int metrics_registry)
      sample_paths ''peer'' 51820 (PeerReceived (Inr ([], loopback 51820))) = (eff, fl)"
    by (rule prod.exhaust)
  have "\<exists>t. alive_path (\<lambda>c. c = 2) sample_paths t"
    by (rule exI [of _ "\<lparr> pt_id = ''b'', pt_label = [], pt_protocol = [], pt_sender = 2 \<rparr>"])
       (simp add: alive_path_def sample_paths_def)
  with run_peer_relays_once [OF r] show ?thesis unfolding r fst_conv by blast
qed

end
