(* ===== verification/Policy.thy ===== *)
theory Policy
  imports Shortcut_State
begin

text \<open>
  \<open>src/src/shortcut/policy.rs\<close>: the \<open>AtomicRouteManager\<close>, which keeps the userspace routes and the
  kernel policy rules in step, and \<open>SystemPolicy\<close>, which drives the \<open>ip\<close> tool.  The traits
  \<open>UserspaceRoutes\<close> and \<open>PolicyRules\<close> are locales; \<open>atomic_routes\<close> combines them and gives the
  \<open>RouteManager\<close> contract.  The tool is the parameter \<open>ip\<close>, a function on the kernel's state; the
  locale \<open>ip_tool\<close> states what the manual of \<open>ip-rule\<close> says about the commands used.
\<close>

section \<open>AtomicRouteManager\<close>

record ('u, 'p) atomic_route_manager =
  ar_userspace :: 'u
  ar_policy :: 'p
  ar_active :: "(ipnet, route_target) hashmap"

definition atomic_new :: "'u \<Rightarrow> 'p \<Rightarrow> ('u, 'p) atomic_route_manager" where
  "atomic_new u p = \<lparr> ar_userspace = u, ar_policy = p, ar_active = [] \<rparr>"

definition atomic_activate ::
    "('u \<Rightarrow> ipnet \<Rightarrow> route_target \<Rightarrow> 'u \<times> unit res) \<Rightarrow> ('u \<Rightarrow> ipnet \<Rightarrow> 'u \<times> unit res)
     \<Rightarrow> ('p \<Rightarrow> ipnet \<Rightarrow> 'p \<times> unit res) \<Rightarrow> ('u, 'p) atomic_route_manager activate_fn" where
  "atomic_activate replace uremove install a selector target =
     (let previous = hm_get (ar_active a) selector in
      case replace (ar_userspace a) selector target of
        (u, Inl e) \<Rightarrow> (a\<lparr> ar_userspace := u \<rparr>, Inl e)
      | (u, Inr _) \<Rightarrow>
          (case install (ar_policy a) selector of
             (p, Inl e) \<Rightarrow>
               (case (case previous of Some t \<Rightarrow> replace u selector t | None \<Rightarrow> uremove u selector) of
                  (u', Inl e') \<Rightarrow> (a\<lparr> ar_userspace := u', ar_policy := p \<rparr>, Inl e')
                | (u', Inr _) \<Rightarrow> (a\<lparr> ar_userspace := u', ar_policy := p \<rparr>, Inl e))
           | (p, Inr _) \<Rightarrow>
               (a\<lparr> ar_userspace := u, ar_policy := p,
                   ar_active := hm_insert selector target (ar_active a) \<rparr>, Inr ())))"

definition atomic_deactivate ::
    "('u \<Rightarrow> ipnet \<Rightarrow> 'u \<times> unit res) \<Rightarrow> ('p \<Rightarrow> ipnet \<Rightarrow> 'p \<times> unit res)
     \<Rightarrow> ('u, 'p) atomic_route_manager deactivate_fn" where
  "atomic_deactivate uremove premove a selector =
     (case premove (ar_policy a) selector of
        (p, Inl e) \<Rightarrow> (a\<lparr> ar_policy := p \<rparr>, Inl e)
      | (p, Inr _) \<Rightarrow>
          (case uremove (ar_userspace a) selector of
             (u, Inl e) \<Rightarrow> (a\<lparr> ar_policy := p, ar_userspace := u \<rparr>, Inl e)
           | (u, Inr _) \<Rightarrow>
               (a\<lparr> ar_policy := p, ar_userspace := u,
                   ar_active := hm_remove selector (ar_active a) \<rparr>, Inr ())))"

section \<open>The trait contracts\<close>

text \<open>
  \<open>utable\<close> is the userspace routing table; \<open>ready\<close> says that the table's lock is usable, and once
  a call has succeeded the following ones do too.
\<close>

locale userspace_routes =
  fixes replace :: "'u \<Rightarrow> ipnet \<Rightarrow> route_target \<Rightarrow> 'u \<times> unit res"
    and uremove :: "'u \<Rightarrow> ipnet \<Rightarrow> 'u \<times> unit res"
    and utable :: "'u \<Rightarrow> ipnet \<rightharpoonup> route_target"
    and ready :: "'u \<Rightarrow> bool"
  assumes replace_ok: "replace u s t = (u', Inr x) \<Longrightarrow> ready u' \<and> utable u' = (utable u)(s \<mapsto> t)"
    and replace_err: "replace u s t = (u', Inl e) \<Longrightarrow> \<not> ready u \<and> utable u' = utable u"
    and uremove_ok: "uremove u s = (u', Inr x) \<Longrightarrow> ready u' \<and> utable u' = (utable u)(s := None)"
    and uremove_err: "uremove u s = (u', Inl e) \<Longrightarrow> \<not> ready u \<and> utable u' = utable u"

text \<open>\<open>rules\<close> is the set of selectors that the kernel diverts into the shortcut table.\<close>

locale policy_rules =
  fixes install :: "'p \<Rightarrow> ipnet \<Rightarrow> 'p \<times> unit res"
    and premove :: "'p \<Rightarrow> ipnet \<Rightarrow> 'p \<times> unit res"
    and rules :: "'p \<Rightarrow> ipnet set"
  assumes install_ok: "install p s = (p', Inr x) \<Longrightarrow> rules p' = insert s (rules p)"
    and install_err: "install p s = (p', Inl e) \<Longrightarrow> rules p' = rules p"
    and premove_ok: "premove p s = (p', Inr x) \<Longrightarrow> rules p' = rules p - {s}"
    and premove_err: "premove p s = (p', Inl e) \<Longrightarrow> rules p' = rules p"

text \<open>
  The invariant of the pair: the manager's own table is the userspace table, and every selector
  the kernel diverts has a userspace target, so no diverted packet is without a route.
\<close>

definition atomic_inv ::
    "('u \<Rightarrow> ipnet \<rightharpoonup> route_target) \<Rightarrow> ('p \<Rightarrow> ipnet set) \<Rightarrow> ('u, 'p) atomic_route_manager \<Rightarrow> bool" where
  "atomic_inv utable rules a \<longleftrightarrow>
     hm_get (ar_active a) = utable (ar_userspace a)
     \<and> rules (ar_policy a) \<subseteq> dom (utable (ar_userspace a))"

locale atomic_routes = userspace_routes replace uremove utable ready + policy_rules install premove rules
  for replace :: "'u \<Rightarrow> ipnet \<Rightarrow> route_target \<Rightarrow> 'u \<times> unit res"
    and uremove :: "'u \<Rightarrow> ipnet \<Rightarrow> 'u \<times> unit res"
    and utable :: "'u \<Rightarrow> ipnet \<rightharpoonup> route_target"
    and ready :: "'u \<Rightarrow> bool"
    and install :: "'p \<Rightarrow> ipnet \<Rightarrow> 'p \<times> unit res"
    and premove :: "'p \<Rightarrow> ipnet \<Rightarrow> 'p \<times> unit res"
    and rules :: "'p \<Rightarrow> ipnet set"
begin

lemma activate_ok:
  assumes inv: "atomic_inv utable rules a"
    and act: "atomic_activate replace uremove install a s t = (a', Inr x)"
  shows "atomic_inv utable rules a'" and "utable (ar_userspace a') = (utable (ar_userspace a))(s \<mapsto> t)"
    and "rules (ar_policy a') = insert s (rules (ar_policy a))"
proof -
  from act obtain u p where u: "replace (ar_userspace a) s t = (u, Inr ())"
    and p: "install (ar_policy a) s = (p, Inr ())"
    and a': "a' = a\<lparr> ar_userspace := u, ar_policy := p, ar_active := hm_insert s t (ar_active a) \<rparr>"
    by (auto simp: atomic_activate_def Let_def split: prod.splits sum.splits)
  from replace_ok [OF u] install_ok [OF p] inv
  show "atomic_inv utable rules a'" and "utable (ar_userspace a') = (utable (ar_userspace a))(s \<mapsto> t)"
    and "rules (ar_policy a') = insert s (rules (ar_policy a))"
    by (auto simp: atomic_inv_def a' fun_eq_iff)
qed

text \<open>A rejected policy rule is rolled back: the previous target is restored, or the new one removed.\<close>

lemma rollback:
  assumes inv: "atomic_inv utable rules a" and u: "replace (ar_userspace a) s t = (u, Inr ())"
    and undo: "(case hm_get (ar_active a) s of Some t' \<Rightarrow> replace u s t' | None \<Rightarrow> uremove u s) = (u', y)"
  shows "y = Inr ()" and "utable u' = utable (ar_userspace a)"
proof -
  note R = replace_ok [OF u]
  show y: "y = Inr ()"
  proof (cases y)
    case (Inl e)
    with undo R replace_err [of u s _ u' e] uremove_err [of u s u' e] show ?thesis
      by (auto split: option.splits)
  qed simp
  from inv have active: "hm_get (ar_active a) s = utable (ar_userspace a) s"
    by (simp add: atomic_inv_def)
  show "utable u' = utable (ar_userspace a)"
  proof (cases "hm_get (ar_active a) s")
    case None
    with undo y have "uremove u s = (u', Inr ())" by simp
    from uremove_ok [OF this] R None active show ?thesis by (auto simp: fun_eq_iff)
  next
    case (Some t')
    with undo y have "replace u s t' = (u', Inr ())" by simp
    from replace_ok [OF this] R Some active show ?thesis by (auto simp: fun_eq_iff)
  qed
qed

lemma activate_err:
  assumes inv: "atomic_inv utable rules a"
    and act: "atomic_activate replace uremove install a s t = (a', Inl e)"
  shows "atomic_inv utable rules a'" and "utable (ar_userspace a') = utable (ar_userspace a)"
    and "rules (ar_policy a') = rules (ar_policy a)"
proof -
  obtain u ur where ur: "replace (ar_userspace a) s t = (u, ur)" by (rule prod.exhaust)
  obtain p pr where pr: "install (ar_policy a) s = (p, pr)" by (rule prod.exhaust)
  have "ar_active a' = ar_active a \<and> utable (ar_userspace a') = utable (ar_userspace a)
      \<and> rules (ar_policy a') = rules (ar_policy a)"
  proof (cases ur)
    case (Inl e')
    with act ur replace_err [of "ar_userspace a" s t u e'] show ?thesis
      by (auto simp: atomic_activate_def)
  next
    case (Inr x)
    show ?thesis
    proof (cases pr)
      case (Inl e')
      obtain u' y where undo: "(case hm_get (ar_active a) s of Some t' \<Rightarrow> replace u s t'
          | None \<Rightarrow> uremove u s) = (u', y)" by (rule prod.exhaust)
      have u: "replace (ar_userspace a) s t = (u, Inr ())" using ur Inr by simp
      have "a' = a\<lparr> ar_userspace := u', ar_policy := p \<rparr>"
        using rollback(1) [OF inv u undo] undo act u pr Inl by (simp add: atomic_activate_def)
      moreover have "rules p = rules (ar_policy a)" using install_err pr Inl by blast
      ultimately show ?thesis using rollback(2) [OF inv u undo] by simp
    next
      case (Inr y)
      with \<open>ur = Inr x\<close> act ur pr show ?thesis by (simp add: atomic_activate_def)
    qed
  qed
  with inv show "atomic_inv utable rules a'" and "utable (ar_userspace a') = utable (ar_userspace a)"
    and "rules (ar_policy a') = rules (ar_policy a)"
    by (auto simp: atomic_inv_def)
qed

lemma deactivate_ok:
  assumes inv: "atomic_inv utable rules a" and de: "atomic_deactivate uremove premove a s = (a', Inr x)"
  shows "atomic_inv utable rules a'" and "utable (ar_userspace a') = (utable (ar_userspace a))(s := None)"
    and "rules (ar_policy a') = rules (ar_policy a) - {s}"
proof -
  from de obtain p u where p: "premove (ar_policy a) s = (p, Inr ())"
    and u: "uremove (ar_userspace a) s = (u, Inr ())"
    and a': "a' = a\<lparr> ar_policy := p, ar_userspace := u, ar_active := hm_remove s (ar_active a) \<rparr>"
    by (auto simp: atomic_deactivate_def split: prod.splits sum.splits)
  from premove_ok [OF p] uremove_ok [OF u] inv
  show "atomic_inv utable rules a'" and "utable (ar_userspace a') = (utable (ar_userspace a))(s := None)"
    and "rules (ar_policy a') = rules (ar_policy a) - {s}"
    by (auto simp: atomic_inv_def a')
qed

lemma deactivate_err:
  assumes inv: "atomic_inv utable rules a" and de: "atomic_deactivate uremove premove a s = (a', Inl e)"
  shows "atomic_inv utable rules a'" and "utable (ar_userspace a') = utable (ar_userspace a)"
    and "rules (ar_policy a') \<subseteq> rules (ar_policy a)"
proof -
  obtain p pr where pr: "premove (ar_policy a) s = (p, pr)" by (rule prod.exhaust)
  obtain u ur where ur: "uremove (ar_userspace a) s = (u, ur)" by (rule prod.exhaust)
  have "ar_active a' = ar_active a \<and> utable (ar_userspace a') = utable (ar_userspace a)
      \<and> rules (ar_policy a') \<subseteq> rules (ar_policy a)"
  proof (cases pr)
    case (Inl e')
    with premove_err pr have "rules p = rules (ar_policy a)" by blast
    moreover from Inl pr de have "a' = a\<lparr> ar_policy := p \<rparr>" by (simp add: atomic_deactivate_def)
    ultimately show ?thesis by simp
  next
    case (Inr x)
    with premove_ok pr have "rules p = rules (ar_policy a) - {s}" by blast
    moreover from Inr de pr ur have "ur = Inl e" and "a' = a\<lparr> ar_policy := p, ar_userspace := u \<rparr>"
      by (auto simp: atomic_deactivate_def split: sum.splits)
    moreover from this(1) uremove_err ur have "utable u = utable (ar_userspace a)" by blast
    ultimately show ?thesis by auto
  qed
  with inv show "atomic_inv utable rules a'" and "utable (ar_userspace a') = utable (ar_userspace a)"
    and "rules (ar_policy a') \<subseteq> rules (ar_policy a)"
    by (auto simp: atomic_inv_def)
qed

end

sublocale atomic_routes \<subseteq> atomic: route_manager
  "atomic_activate replace uremove install" "atomic_deactivate uremove premove"
  "\<lambda>a. utable (ar_userspace a)" "atomic_inv utable rules"
  by unfold_locales (blast dest: activate_ok activate_err deactivate_ok deactivate_err)+

section \<open>SystemPolicy\<close>

definition DEFAULT_TABLE :: u32 where "DEFAULT_TABLE = 51820"
definition DEFAULT_RULE_PRIORITY_BASE :: u32 where "DEFAULT_RULE_PRIORITY_BASE = 11000"
definition CONTROL_RULE_PRIORITY :: u32 where "CONTROL_RULE_PRIORITY = 10500"
definition MANAGED_RULE_PRIORITY_RANGE :: "u32 \<times> u32" where
  "MANAGED_RULE_PRIORITY_RANGE = (11000, 21000)"
definition CONTROL_SOCKET_MARK :: u32 where "CONTROL_SOCKET_MARK = 0x5747"

record system_policy =
  sp_tun_name :: string
  sp_table :: u32
  sp_priority_base :: u32
  sp_source :: "ip_addr option"

text \<open>Running \<open>ip\<close> on the kernel state \<open>'k\<close>; \<open>Inl\<close> when the process cannot be started.\<close>

type_synonym 'k ip_fn = "'k \<Rightarrow> string list \<Rightarrow> 'k \<times> process_output res"

definition policy_new :: "string \<Rightarrow> system_policy" where
  "policy_new tun = \<lparr> sp_tun_name = tun, sp_table = DEFAULT_TABLE,
     sp_priority_base = DEFAULT_RULE_PRIORITY_BASE, sp_source = None \<rparr>"

definition policy_new_with_source :: "string \<Rightarrow> ip_addr \<Rightarrow> system_policy" where
  "policy_new_with_source tun source = \<lparr> sp_tun_name = tun, sp_table = DEFAULT_TABLE,
     sp_priority_base = DEFAULT_RULE_PRIORITY_BASE, sp_source = Some source \<rparr>"

definition run_ip :: "'k ip_fn \<Rightarrow> 'k \<Rightarrow> string list \<Rightarrow> 'k \<times> process_output res" where
  "run_ip ip k args =
     (case ip k args of
        (k', Inl e) \<Rightarrow> (k', Inl e)
      | (k', Inr out) \<Rightarrow>
          if \<not> out_success out then (k', Inl (PolicyError IpCommandFailed)) else (k', Inr out))"

definition u32_string :: "u32 \<Rightarrow> string" where
  "u32_string n = dec_string (unat n)"

definition parse_managed_rule :: "string \<Rightarrow> u32 \<Rightarrow> u32 \<times> u32 \<Rightarrow> u32 option" where
  "parse_managed_rule line tbl priority_range =
     (case split_whitespace line of
        [] \<Rightarrow> None
      | first # rest \<Rightarrow> do {
          priority \<leftarrow> parse_word (trim_end_by (\<lambda>c. c = CHR '':'') first);
          if \<not> (fst priority_range \<le> priority \<and> priority < snd priority_range) then None
          else do {
            lookup \<leftarrow> find_map (\<lambda>(a, b). if a = ''lookup'' then Some b else None) (windows2 rest);
            if lookup = u32_string tbl then Some priority else None
          }
        })"

fun delete_rules :: "'k ip_fn \<Rightarrow> u32 \<Rightarrow> string \<Rightarrow> 'k \<Rightarrow> u32 list \<Rightarrow> 'k \<times> unit res" where
  "delete_rules ip tbl family k [] = (k, Inr ())"
| "delete_rules ip tbl family k (priority # rest) =
     (case run_ip ip k [family, ''rule'', ''del'', ''priority'', u32_string priority, ''lookup'',
                        u32_string tbl] of
        (k', Inl e) \<Rightarrow> (k', Inl e)
      | (k', Inr _) \<Rightarrow> delete_rules ip tbl family k' rest)"

fun for_families :: "(string \<Rightarrow> 'k \<Rightarrow> 'k \<times> unit res) \<Rightarrow> string list \<Rightarrow> 'k \<Rightarrow> 'k \<times> unit res" where
  "for_families f [] k = (k, Inr ())"
| "for_families f (family # rest) k =
     (case f family k of
        (k', Inl e) \<Rightarrow> (k', Inl e)
      | (k', Inr _) \<Rightarrow> for_families f rest k')"

definition families :: "string list" where "families = [''-4'', ''-6'']"

definition control_mark :: string where
  "control_mark = ''0x'' @ hex_string (unat CONTROL_SOCKET_MARK) @ ''/0xffff''"

definition control_bypass_args :: "string \<Rightarrow> string \<Rightarrow> string list" where
  "control_bypass_args operation family =
     [family, ''rule'', operation, ''priority'', u32_string CONTROL_RULE_PRIORITY, ''fwmark'',
      control_mark, ''lookup'', ''main'']"

definition remove_control_bypass :: "'k ip_fn \<Rightarrow> 'k \<Rightarrow> 'k \<times> unit res" where
  "remove_control_bypass ip = for_families (\<lambda>family k.
     case ip k (control_bypass_args ''del'' family) of
       (k', Inl e) \<Rightarrow> (k', Inl e)
     | (k', Inr out) \<Rightarrow>
         if \<not> out_success out \<and> \<not> contains_str (out_stderr out) ''No such file''
             \<and> \<not> contains_str (out_stderr out) ''No such process''
         then (k', Inl (PolicyError ControlBypassDelFailed)) else (k', Inr ())) families"

definition ensure_control_bypass :: "'k ip_fn \<Rightarrow> 'k \<Rightarrow> 'k \<times> unit res" where
  "ensure_control_bypass ip = for_families (\<lambda>family k.
     case ip k (control_bypass_args ''add'' family) of
       (k', Inl e) \<Rightarrow> (k', Inl e)
     | (k', Inr out) \<Rightarrow>
         if \<not> out_success out \<and> \<not> contains_str (out_stderr out) ''File exists''
         then (k', Inl (PolicyError ControlBypassAddFailed)) else (k', Inr ())) families"

definition cleanup_family :: "'k ip_fn \<Rightarrow> system_policy \<Rightarrow> string \<Rightarrow> 'k \<Rightarrow> 'k \<times> unit res" where
  "cleanup_family ip sp family k =
     (case ip k [family, ''rule'', ''show''] of
        (k1, Inl e) \<Rightarrow> (k1, Inl e)
      | (k1, Inr shown) \<Rightarrow>
          if \<not> out_success shown then (k1, Inl (PolicyError IpRuleShowFailed))
          else
            (case delete_rules ip (sp_table sp) family k1
                    (filter_map (\<lambda>line. parse_managed_rule line (sp_table sp) MANAGED_RULE_PRIORITY_RANGE)
                       (str_lines (out_stdout shown))) of
               (k2, Inl e) \<Rightarrow> (k2, Inl e)
             | (k2, Inr _) \<Rightarrow>
                 (case ip k2 [family, ''route'', ''flush'', ''table'', u32_string (sp_table sp)] of
                    (k3, Inl e) \<Rightarrow> (k3, Inl e)
                  | (k3, Inr flushed) \<Rightarrow>
                      if \<not> out_success flushed
                          \<and> \<not> contains_str (out_stderr flushed) ''FIB table does not exist''
                      then (k3, Inl (PolicyError IpRouteFlushFailed)) else (k3, Inr ()))))"

definition cleanup_stale :: "'k ip_fn \<Rightarrow> system_policy \<Rightarrow> 'k \<Rightarrow> 'k \<times> unit res" where
  "cleanup_stale ip sp k =
     (case remove_control_bypass ip k of
        (k', Inl e) \<Rightarrow> (k', Inl e)
      | (k', Inr _) \<Rightarrow> for_families (cleanup_family ip sp) families k')"

definition prepare_args :: "system_policy \<Rightarrow> ipnet \<Rightarrow> string list" where
  "prepare_args sp selector =
     (if is_ipv6 (net_addr selector) then [''-6''] else [])
     @ [''route'', ''replace'', ''default'', ''dev'', sp_tun_name sp, ''table'',
        u32_string (sp_table sp)]
     @ (case sp_source sp of None \<Rightarrow> [] | Some source \<Rightarrow> [''src'', ip_string source])"

definition policy_prepare :: "'k ip_fn \<Rightarrow> system_policy \<Rightarrow> 'k \<Rightarrow> ipnet \<Rightarrow> 'k \<times> unit res" where
  "policy_prepare ip sp k selector =
     (case run_ip ip k (prepare_args sp selector) of
        (k', Inl e) \<Rightarrow> (k', Inl e)
      | (k', Inr _) \<Rightarrow> (k', Inr ()))"

text \<open>\<open>hash\<close> is \<open>blake3::hash\<close>, \<open>net_string\<close> the \<open>Display\<close> of \<open>IpNet\<close>.\<close>

definition rule_priority ::
    "(bytes \<Rightarrow> bytes) \<Rightarrow> (ipnet \<Rightarrow> string) \<Rightarrow> system_policy \<Rightarrow> ipnet \<Rightarrow> u32" where
  "rule_priority hash net_string sp selector =
     (let digest = hash (as_bytes (net_string selector));
          offset = ucast (from_le_bytes [digest ! 0, digest ! 1] :: u16) :: u32
      in sp_priority_base sp + offset mod 10000)"

definition rule_arguments ::
    "(bytes \<Rightarrow> bytes) \<Rightarrow> (ipnet \<Rightarrow> string) \<Rightarrow> system_policy \<Rightarrow> string \<Rightarrow> ipnet \<Rightarrow> string list" where
  "rule_arguments hash net_string sp operation selector =
     (if is_ipv6 (net_addr selector) then [''-6''] else [])
     @ [''rule'', operation, ''priority'', u32_string (rule_priority hash net_string sp selector),
        ''to'', net_string selector, ''lookup'', u32_string (sp_table sp)]"

definition policy_install ::
    "'k ip_fn \<Rightarrow> (bytes \<Rightarrow> bytes) \<Rightarrow> (ipnet \<Rightarrow> string) \<Rightarrow> system_policy \<Rightarrow> 'k \<Rightarrow> ipnet \<Rightarrow> 'k \<times> unit res"
  where
  "policy_install ip hash net_string sp k selector =
     (case policy_prepare ip sp k selector of
        (k1, Inl e) \<Rightarrow> (k1, Inl e)
      | (k1, Inr _) \<Rightarrow>
          (case ip k1 (rule_arguments hash net_string sp ''add'' selector) of
             (k2, Inl e) \<Rightarrow> (k2, Inl e)
           | (k2, Inr out) \<Rightarrow>
               if \<not> out_success out \<and> \<not> contains_str (out_stderr out) ''File exists''
               then (k2, Inl (PolicyError IpRuleAddFailed)) else (k2, Inr ())))"

definition policy_remove ::
    "'k ip_fn \<Rightarrow> (bytes \<Rightarrow> bytes) \<Rightarrow> (ipnet \<Rightarrow> string) \<Rightarrow> system_policy \<Rightarrow> 'k \<Rightarrow> ipnet \<Rightarrow> 'k \<times> unit res"
  where
  "policy_remove ip hash net_string sp k selector =
     (case ip k (rule_arguments hash net_string sp ''del'' selector) of
        (k', Inl e) \<Rightarrow> (k', Inl e)
      | (k', Inr out) \<Rightarrow>
          if \<not> out_success out \<and> \<not> contains_str (out_stderr out) ''No such file''
              \<and> \<not> contains_str (out_stderr out) ''No such process''
          then (k', Inl (PolicyError IpRuleDelFailed)) else (k', Inr ()))"

section \<open>The ip tool\<close>

text \<open>
  What \<open>SystemPolicy\<close> relies on.  \<open>rules k\<close> is the set of selectors for which the kernel holds the
  rule that \<open>sp\<close> names.  Adding succeeds and adds the rule, or fails with \<open>File exists\<close> when it is
  there already, or fails and changes nothing; deleting likewise; replacing a route changes no
  rule; a process that cannot be started changes nothing.
\<close>

locale ip_tool =
  fixes ip :: "'k ip_fn" and hash :: "bytes \<Rightarrow> bytes" and net_string :: "ipnet \<Rightarrow> string"
    and sp :: system_policy and rules :: "'k \<Rightarrow> ipnet set"
  assumes spawn_failed: "ip k args = (k', Inl e) \<Longrightarrow> rules k' = rules k"
    and route_replace: "ip k (prepare_args sp s) = (k', r) \<Longrightarrow> rules k' = rules k"
    and rule_add: "ip k (rule_arguments hash net_string sp ''add'' s) = (k', Inr out) \<Longrightarrow>
      rules k' = (if out_success out then insert s (rules k) else rules k)"
    and rule_add_exists: "ip k (rule_arguments hash net_string sp ''add'' s) = (k', Inr out) \<Longrightarrow>
      \<not> out_success out \<Longrightarrow> contains_str (out_stderr out) ''File exists'' \<Longrightarrow> s \<in> rules k"
    and rule_del: "ip k (rule_arguments hash net_string sp ''del'' s) = (k', Inr out) \<Longrightarrow>
      rules k' = (if out_success out then rules k - {s} else rules k)"
    and rule_del_absent: "ip k (rule_arguments hash net_string sp ''del'' s) = (k', Inr out) \<Longrightarrow>
      \<not> out_success out \<Longrightarrow> contains_str (out_stderr out) ''No such file''
      \<or> contains_str (out_stderr out) ''No such process'' \<Longrightarrow> s \<notin> rules k"
begin

lemma prepare_rules: "policy_prepare ip sp k s = (k', r) \<Longrightarrow> rules k' = rules k"
  using route_replace by (auto simp: policy_prepare_def run_ip_def split: prod.splits sum.splits if_splits)

lemma install_rules:
  assumes inst: "policy_install ip hash net_string sp k s = (k', r)"
  shows "rules k' = (if r = Inr () then insert s (rules k) else rules k)"
proof -
  obtain k1 pr where k1: "policy_prepare ip sp k s = (k1, pr)" by (rule prod.exhaust)
  note same = prepare_rules [OF k1]
  obtain k2 ar where k2: "ip k1 (rule_arguments hash net_string sp ''add'' s) = (k2, ar)"
    by (rule prod.exhaust)
  show ?thesis
  proof (cases pr)
    case (Inl e)
    with inst k1 same show ?thesis by (auto simp: policy_install_def)
  next
    case (Inr x)
    show ?thesis
    proof (cases ar)
      case (Inl e)
      with inst k1 k2 \<open>pr = Inr x\<close> same spawn_failed [of k1 _ k2 e] show ?thesis
        by (auto simp: policy_install_def)
    next
      case (Inr out)
      with k2 have o: "ip k1 (rule_arguments hash net_string sp ''add'' s) = (k2, Inr out)" by simp
      from inst k1 o \<open>pr = Inr x\<close> have "k' = k2"
        and "r = (if \<not> out_success out \<and> \<not> contains_str (out_stderr out) ''File exists''
              then Inl (PolicyError IpRuleAddFailed) else Inr ())"
        by (auto simp: policy_install_def split: if_splits)
      with same rule_add [OF o] rule_add_exists [OF o] show ?thesis by auto
    qed
  qed
qed

lemma remove_rules:
  assumes rem: "policy_remove ip hash net_string sp k s = (k', r)"
  shows "rules k' = (if r = Inr () then rules k - {s} else rules k)"
proof -
  obtain k2 dr where k2: "ip k (rule_arguments hash net_string sp ''del'' s) = (k2, dr)"
    by (rule prod.exhaust)
  show ?thesis
  proof (cases dr)
    case (Inl e)
    with rem k2 spawn_failed [of k _ k2 e] show ?thesis by (auto simp: policy_remove_def)
  next
    case (Inr out)
    with k2 have o: "ip k (rule_arguments hash net_string sp ''del'' s) = (k2, Inr out)" by simp
    from rem o have "k' = k2"
      and "r = (if \<not> out_success out \<and> \<not> contains_str (out_stderr out) ''No such file''
              \<and> \<not> contains_str (out_stderr out) ''No such process''
            then Inl (PolicyError IpRuleDelFailed) else Inr ())"
      by (auto simp: policy_remove_def split: if_splits)
    with rule_del [OF o] rule_del_absent [OF o] show ?thesis by auto
  qed
qed

end

sublocale ip_tool \<subseteq> system: policy_rules
  "policy_install ip hash net_string sp" "policy_remove ip hash net_string sp" rules
  by unfold_locales (auto dest: install_rules remove_rules)

section \<open>Managed rules\<close>

lemma digit_not_colon: "CHR '':'' \<notin> set (dec_string n)"
proof
  assume "CHR '':'' \<in> set (dec_string n)"
  then obtain d where d: "d < 10" "CHR '':'' = digit_char d" using dec_string_chars by blast
  have "digit_val (CHR '':'') = None" by (simp add: digit_val_def Let_def)
  with d digit_val_digit_char [of d] show False by simp
qed

lemma trim_priority: "trim_end_by (\<lambda>c. c = CHR '':'') (u32_string p @ '':'') = u32_string p"
proof -
  have "dropWhile (\<lambda>c. c = CHR '':'') (rev (dec_string n)) = rev (dec_string n)" for n
  proof -
    have "hd (rev (dec_string n)) \<in> set (dec_string n)" by (simp add: hd_rev)
    with digit_not_colon [of n] show ?thesis by (auto simp: dropWhile_eq_self_iff)
  qed
  then show ?thesis by (simp add: trim_end_by_def u32_string_def)
qed

lemma find_lookup:
  "''lookup'' \<notin> set pre \<Longrightarrow>
   find_map (\<lambda>(a, b). if a = ''lookup'' then Some b else None) (windows2 (pre @ ''lookup'' # x # post)) = Some x"
proof (induction pre)
  case Nil
  then show ?case by simp
next
  case (Cons a pre)
  then show ?case by (cases pre) auto
qed

lemma rule_priority_bounds:
  assumes "sp_priority_base sp = DEFAULT_RULE_PRIORITY_BASE"
  shows "11000 \<le> unat (rule_priority hash ns sp s)" and "unat (rule_priority hash ns sp s) < 21000"
proof -
  let ?off = "ucast (from_le_bytes [hash (as_bytes (ns s)) ! 0, hash (as_bytes (ns s)) ! 1] :: u16) :: u32"
  have m: "unat (?off mod 10000) < 10000" by (simp add: unat_mod)
  then have "unat ((11000 :: u32) + ?off mod 10000) = 11000 + unat (?off mod 10000)"
    by (subst unat_add_lem [THEN iffD1]) auto
  with m assms show "11000 \<le> unat (rule_priority hash ns sp s)" and "unat (rule_priority hash ns sp s) < 21000"
    by (simp_all add: rule_priority_def Let_def DEFAULT_RULE_PRIORITY_BASE_def)
qed

section \<open>Properties\<close>

text \<open>
  Stale rules: the priority \<open>SystemPolicy\<close> gives a rule lies in the managed range
  \<open>11000..21000\<close>, and a line that lists such a rule, with its priority first and its table after
  the first \<open>lookup\<close>, is recognised by \<open>parse_managed_rule\<close> as exactly that priority, so
  \<open>cleanup_stale\<close> deletes every rule an earlier run left behind; a line it recognises always has a
  priority in that range and names the dedicated table.
\<close>

theorem own_rules_recognised:
  assumes "sp_priority_base sp = DEFAULT_RULE_PRIORITY_BASE"
    and "split_whitespace line = (u32_string (rule_priority hash ns sp s) @ '':'')
           # pre @ ''lookup'' # u32_string (sp_table sp) # post"
    and "''lookup'' \<notin> set pre"
  shows "parse_managed_rule line (sp_table sp) MANAGED_RULE_PRIORITY_RANGE = Some (rule_priority hash ns sp s)
    \<and> 11000 \<le> unat (rule_priority hash ns sp s) \<and> unat (rule_priority hash ns sp s) < 21000
    \<and> (\<forall>other p. parse_managed_rule other (sp_table sp) MANAGED_RULE_PRIORITY_RANGE = Some p \<longrightarrow>
         11000 \<le> unat p \<and> unat p < 21000 \<and> u32_string (sp_table sp) \<in> set (split_whitespace other))"
proof (intro conjI allI impI)
  note B = rule_priority_bounds [OF assms(1), of hash ns s]
  show "11000 \<le> unat (rule_priority hash ns sp s)" and "unat (rule_priority hash ns sp s) < 21000"
    by (rule B)+
  have "parse_word (u32_string p) = Some p" for p by (simp add: u32_string_def parse_word_dec_string)
  with B find_lookup [OF assms(3)]
  show "parse_managed_rule line (sp_table sp) MANAGED_RULE_PRIORITY_RANGE = Some (rule_priority hash ns sp s)"
    by (simp add: parse_managed_rule_def assms(2) trim_priority MANAGED_RULE_PRIORITY_RANGE_def wnat)
next
  fix other p
  assume r: "parse_managed_rule other (sp_table sp) MANAGED_RULE_PRIORITY_RANGE = Some p"
  have win: "(a, b) \<in> set (windows2 xs) \<Longrightarrow> b \<in> set xs" for a b :: string and xs
    by (induction xs rule: windows2.induct) auto
  from r show "11000 \<le> unat p" and "unat p < 21000"
    by (auto simp: parse_managed_rule_def MANAGED_RULE_PRIORITY_RANGE_def wnat Let_def
        split: list.splits if_splits bind_splits)
  from r show "u32_string (sp_table sp) \<in> set (split_whitespace other)"
    by (auto simp: parse_managed_rule_def split: list.splits if_splits bind_splits
        dest!: find_map_SomeD win)
qed

theorem own_rules_recognised_witness:
  "parse_managed_rule ''11000: from all to net lookup 51820'' 51820 MANAGED_RULE_PRIORITY_RANGE = Some 11000"
proof -
  let ?sp = "policy_new ''wgl0''" and ?hash = "\<lambda>b :: bytes. [0, 0] :: bytes"
  have sp: "sp_priority_base ?sp = DEFAULT_RULE_PRIORITY_BASE" "sp_table ?sp = 51820"
    by (simp_all add: policy_new_def DEFAULT_TABLE_def)
  have prio: "rule_priority ?hash (\<lambda>n. ''net'') ?sp (IpNet (V4 0) 32) = 11000"
    by (simp add: rule_priority_def policy_new_def DEFAULT_RULE_PRIORITY_BASE_def from_le_bytes_def
        from_be_bytes_def nat_of_be_def)
  have chars: "char_of (48 :: nat) = CHR ''0''" "char_of (49 :: nat) = CHR ''1''" "char_of (50 :: nat) = CHR ''2''"
    "char_of (53 :: nat) = CHR ''5''" "char_of (56 :: nat) = CHR ''8''" by code_simp+
  have strings: "u32_string 11000 = ''11000''" "u32_string 51820 = ''51820''"
    by (simp_all add: u32_string_def dec_string.simps digit_char_def chars)
  have "split_whitespace ''11000: from all to net lookup 51820'' =
      (u32_string (rule_priority ?hash (\<lambda>n. ''net'') ?sp (IpNet (V4 0) 32)) @ '':'')
        # [''from'', ''all'', ''to'', ''net''] @ ''lookup'' # u32_string (sp_table ?sp) # []"
    unfolding prio sp strings by code_simp
  from own_rules_recognised [OF sp(1) this] show ?thesis by (simp add: prio sp)
qed

end
