(* ===== verification/Device.thy ===== *)
theory Device
  imports Engine Broker Policy
begin

text \<open>
  \<open>src/src/shortcut/device.rs\<close>: the userspace routing table shared with the route manager, and the
  task that moves packets between the TUN device, the shortcut tunnels and the outer transport.
  A session's outbound channel is a handle \<open>'c\<close>; the environment record says which channels still
  have a receiver and what a write to the device returns.  One iteration of the loop is
  \<open>device_step\<close>, from what the \<open>select!\<close> delivers to the new sessions, the effects and the flow.
  The effects list, in order, the sends the iteration makes; here a send to a channel with a
  receiver is taken as accepted.  The channels hold 256 entries and a send to a full one waits:
  \<open>Device_Channels\<close> delivers the effects one by one through channels of that size.
\<close>

section \<open>DeviceRoutes\<close>

record device_routes =
  dr_poisoned :: bool
  dr_routes :: "(ipnet, route_target) hashmap"

definition device_routes_default :: device_routes where
  "device_routes_default = \<lparr> dr_poisoned = False, dr_routes = [] \<rparr>"

definition device_lookup :: "(ipnet \<Rightarrow> ip_addr \<Rightarrow> bool) \<Rightarrow> device_routes \<Rightarrow> ip_addr \<Rightarrow> route_target option" where
  "device_lookup contains d destination =
     (if dr_poisoned d then None
      else map_option snd (max_by_key (\<lambda>(network, _). prefix_len network)
             (filter (\<lambda>(network, _). contains network destination) (dr_routes d))))"

definition device_replace :: "device_routes \<Rightarrow> ipnet \<Rightarrow> route_target \<Rightarrow> device_routes \<times> unit res" where
  "device_replace d selector target =
     (if dr_poisoned d then (d, Inl (PolicyError RouteLockPoisoned))
      else (d\<lparr> dr_routes := hm_insert selector target (dr_routes d) \<rparr>, Inr ()))"

definition device_remove :: "device_routes \<Rightarrow> ipnet \<Rightarrow> device_routes \<times> unit res" where
  "device_remove d selector =
     (if dr_poisoned d then (d, Inl (PolicyError RouteLockPoisoned))
      else (d\<lparr> dr_routes := hm_remove selector (dr_routes d) \<rparr>, Inr ()))"

abbreviation device_table :: "device_routes \<Rightarrow> ipnet \<rightharpoonup> route_target" where
  "device_table d \<equiv> hm_get (dr_routes d)"

interpretation device: userspace_routes device_replace device_remove device_table "\<lambda>d. \<not> dr_poisoned d"
  by unfold_locales (auto simp: device_replace_def device_remove_def split: if_splits)

lemma device_lookup_Some:
  assumes "device_lookup contains d dest = Some target"
  shows "\<exists>n. (n, target) \<in> set (dr_routes d) \<and> contains n dest
    \<and> (\<forall>m t. (m, t) \<in> set (dr_routes d) \<longrightarrow> contains m dest \<longrightarrow> prefix_len m \<le> prefix_len n)"
proof -
  from assms obtain n where top: "max_by_key (\<lambda>(network, _). prefix_len network)
      (filter (\<lambda>(network, _). contains network dest) (dr_routes d)) = Some (n, target)"
    by (auto simp: device_lookup_def split: if_splits)
  from max_by_key_SomeD [OF top] show ?thesis by force
qed

lemma device_lookup_None:
  "\<not> dr_poisoned d \<Longrightarrow> device_lookup contains d dest = None \<longleftrightarrow>
     (\<forall>m t. (m, t) \<in> set (dr_routes d) \<longrightarrow> \<not> contains m dest)"
  by (auto simp: device_lookup_def filter_empty_conv)

section \<open>Packets\<close>

text \<open>
  \<open>packet.first()? >> 4\<close>, then slices of the header; every slice would panic out of range.
\<close>

definition packet_addresses :: "bytes \<Rightarrow> (ip_addr \<times> ip_addr) option exec" where
  "packet_addresses packet =
     (case packet of
        [] \<Rightarrow> Returned None
      | b # _ \<Rightarrow>
          if drop_bit 4 b = 4 \<and> 20 \<le> length packet then
            exec_bind (slice packet 12 16) (\<lambda>s. exec_bind (slice packet 16 20) (\<lambda>d.
              Returned (Some (v4_of_octets s, v4_of_octets d))))
          else if drop_bit 4 b = 6 \<and> 40 \<le> length packet then
            exec_bind (slice packet 8 24) (\<lambda>s. exec_bind (slice packet 24 40) (\<lambda>d.
              Returned (Some (v6_of_octets s, v6_of_octets d))))
          else Returned None)"

lemma packet_addresses_returns: "\<exists>r. packet_addresses packet = Returned r"
  by (cases packet) (auto simp: packet_addresses_def exec_simps)

definition session_index :: "(bytes \<Rightarrow> bytes) \<Rightarrow> session_key \<Rightarrow> u32" where
  "session_index hash session =
     from_le_bytes (take 4 (hash (id_bytes (sk_shortcut_id session) @ to_le_bytes (sk_epoch session))))
     AND 0x00ffffff"

section \<open>Sessions, events and effects\<close>

datatype device_event =
    HandshakeStarted session_key
  | AuthenticatedHandshake session_key
  | InnerPacket session_key ip_addr ip_addr
  | MissingRoute ip_addr
  | SessionFailed session_key

datatype 'c device_command =
    CmdPrepare session_key derived_keys string 'c
  | CmdReceive session_key string bytes
  | CmdRemove session_key

record ('w, 'c) session_runtime =
  sr_session :: session_key
  sr_tunnel :: 'w
  sr_remote_public_key :: string
  sr_outbound :: 'c

type_synonym ('w, 'c) sessions = "(session_key, ('w, 'c) session_runtime) hashmap"

datatype 'c device_effect =
    Emitted device_event
  | Outbound 'c relay_packet
  | TunWritten bytes
  | Replied "unit res"

text \<open>Which receivers exist, and what writing a packet to the TUN device returns.\<close>

record 'c device_env =
  env_events_open :: bool
  env_outbound_open :: "'c \<Rightarrow> bool"
  env_tun_send :: "bytes \<Rightarrow> unit res"

definition emit :: "'c device_env \<Rightarrow> device_event \<Rightarrow> 'c device_effect list \<times> unit res" where
  "emit env ev =
     (if env_events_open env then ([Emitted ev], Inr ()) else ([], Inl (TransportError ChannelClosed)))"

fun send_packets ::
    "'c device_env \<Rightarrow> ('w, 'c) session_runtime \<Rightarrow> bytes list \<Rightarrow> 'c device_effect list \<times> unit res" where
  "send_packets env runtime [] = ([], Inr ())"
| "send_packets env runtime (packet # rest) =
     (if env_outbound_open env (sr_outbound runtime) then
        (case send_packets env runtime rest of
           (eff, r) \<Rightarrow>
             (Outbound (sr_outbound runtime)
                \<lparr> rp_peer_key = sr_remote_public_key runtime,
                  rp_channel = ShortcutWireGuard (sr_session runtime), rp_payload = packet \<rparr> # eff, r))
      else ([], Inl (TransportError ChannelClosed)))"

definition send_network ::
    "'c device_env \<Rightarrow> ('w, 'c) session_runtime \<Rightarrow> tunnel_output \<Rightarrow> 'c device_effect list \<times> unit res" where
  "send_network env runtime output = send_packets env runtime (network_packets output)"

definition fail_session ::
    "'c device_env \<Rightarrow> session_key \<Rightarrow> ('w, 'c) sessions
     \<Rightarrow> ('w, 'c) sessions \<times> 'c device_effect list \<times> unit res" where
  "fail_session env session sessions = (hm_remove session sessions, emit env (SessionFailed session))"

definition prepare_session ::
    "'w tunn_api \<Rightarrow> (bytes \<Rightarrow> bytes) \<Rightarrow> 'c device_env \<Rightarrow> session_key \<Rightarrow> derived_keys \<Rightarrow> string \<Rightarrow> 'c
     \<Rightarrow> ('w, 'c) sessions \<Rightarrow> ('w, 'c) sessions \<times> 'c device_effect list \<times> unit res" where
  "prepare_session api hash env session keys remote_key outbound sessions =
     (case tunnel_encapsulate api (tunnel_new api keys (session_index hash session)) [] of
        (w, Inl e) \<Rightarrow> (sessions, [], Inl e)
      | (w, Inr output) \<Rightarrow>
          let runtime = \<lparr> sr_session = session, sr_tunnel = w, sr_remote_public_key = remote_key,
                          sr_outbound = outbound \<rparr> in
          (case send_network env runtime output of
             (eff, Inl e) \<Rightarrow> (sessions, eff, Inl e)
           | (eff, Inr _) \<Rightarrow>
               (case emit env (HandshakeStarted session) of
                  (eff', r) \<Rightarrow> (hm_insert session runtime sessions, eff @ eff', r))))"

section \<open>The loop\<close>

text \<open>A tunnel call on an existing session, followed by sending what it produced.\<close>

definition drive_session ::
    "'c device_env \<Rightarrow> ('w \<Rightarrow> 'w \<times> tunnel_output res) \<Rightarrow> session_key \<Rightarrow> ('w, 'c) session_runtime
     \<Rightarrow> ('w, 'c) sessions \<Rightarrow> ('w, 'c) sessions \<times> 'c device_effect list \<times> unit res" where
  "drive_session env call session runtime sessions =
     (case call (sr_tunnel runtime) of
        (w, result) \<Rightarrow>
          let runtime' = runtime\<lparr> sr_tunnel := w \<rparr>; sessions' = hm_insert session runtime' sessions in
          (case (case result of Inr output \<Rightarrow> send_network env runtime' output | Inl e \<Rightarrow> ([], Inl e)) of
             (eff, Inr _) \<Rightarrow> (sessions', eff, Inr ())
           | (eff, Inl e) \<Rightarrow>
               (case fail_session env session sessions' of
                  (sessions'', eff', r) \<Rightarrow> (sessions'', eff @ eff', r))))"

definition handle_tun ::
    "'w tunn_api \<Rightarrow> (ipnet \<Rightarrow> ip_addr \<Rightarrow> bool) \<Rightarrow> 'c device_env \<Rightarrow> device_routes \<Rightarrow> ('w, 'c) sessions
     \<Rightarrow> bytes \<Rightarrow> ('w, 'c) sessions \<times> 'c device_effect list \<times> unit res" where
  "handle_tun api contains env routes sessions inner =
     (case packet_addresses inner of
        Panicked \<Rightarrow> (sessions, [], Inl Panic)
      | Returned None \<Rightarrow> (sessions, [], Inr ())
      | Returned (Some (_, destination)) \<Rightarrow>
          (case device_lookup contains routes destination of
             None \<Rightarrow> (sessions, fst (emit env (MissingRoute destination)), Inr ())
           | Some target \<Rightarrow>
               (case hm_get sessions (rt_session target) of
                  None \<Rightarrow> (sessions, [], Inr ())
                | Some runtime \<Rightarrow>
                    drive_session env (\<lambda>w. tunnel_encapsulate api w inner) (rt_session target)
                      runtime sessions)))"

text \<open>Delivering the decrypted packets of one datagram.\<close>

fun deliver_packets ::
    "'c device_env \<Rightarrow> session_key \<Rightarrow> bytes list \<Rightarrow> 'c device_effect list \<times> unit res" where
  "deliver_packets env session [] = ([], Inr ())"
| "deliver_packets env session (packet # rest) =
     (case packet_addresses packet of
        Panicked \<Rightarrow> ([], Inl Panic)
      | Returned addresses \<Rightarrow>
          (case (case addresses of None \<Rightarrow> ([], Inr ())
                 | Some (source, destination) \<Rightarrow> emit env (InnerPacket session source destination)) of
             (eff, Inl e) \<Rightarrow> (eff, Inl e)
           | (eff, Inr _) \<Rightarrow>
               (case env_tun_send env packet of
                  Inl e \<Rightarrow> (eff, Inl e)
                | Inr _ \<Rightarrow>
                    (case deliver_packets env session rest of
                       (eff', r) \<Rightarrow> (eff @ TunWritten packet # eff', r)))))"

text \<open>
  Handling one received datagram; \<open>None\<close> when the tunnel's loop never returns.
\<close>

definition handle_receive ::
    "'w tunn_api \<Rightarrow> 'c device_env \<Rightarrow> ('w, 'c) sessions \<Rightarrow> session_key \<Rightarrow> string \<Rightarrow> bytes
     \<Rightarrow> (('w, 'c) sessions \<times> 'c device_effect list \<times> unit res) option" where
  "handle_receive api env sessions session source_key datagram =
     (case hm_get sessions session of
        None \<Rightarrow> Some (sessions, [], Inr ())
      | Some runtime \<Rightarrow>
          if sr_remote_public_key runtime \<noteq> source_key then Some (sessions, [], Inr ())
          else case tunnel_receive api (sr_tunnel runtime) None datagram of
            None \<Rightarrow> None
          | Some (w, result) \<Rightarrow>
              let runtime' = runtime\<lparr> sr_tunnel := w \<rparr>; sessions' = hm_insert session runtime' sessions in
              (case result of
                 Inl e \<Rightarrow> Some (sessions', [], Inr ())
               | Inr output \<Rightarrow>
                   (case (if authenticated_flag output then emit env (AuthenticatedHandshake session)
                          else ([], Inr ())) of
                      (eff1, Inl e) \<Rightarrow> Some (sessions', eff1, Inl e)
                    | (eff1, Inr _) \<Rightarrow>
                        (case deliver_packets env session (tunnel_packets output) of
                           (eff2, Inl e) \<Rightarrow> Some (sessions', eff1 @ eff2, Inl e)
                         | (eff2, Inr _) \<Rightarrow>
                             (case send_packets env runtime' (network_packets output) of
                                (eff3, Inr _) \<Rightarrow> Some (sessions', eff1 @ eff2 @ eff3, Inr ())
                              | (eff3, Inl e) \<Rightarrow>
                                  (case fail_session env session sessions' of
                                     (sessions'', eff4, r) \<Rightarrow>
                                       Some (sessions'', eff1 @ eff2 @ eff3 @ eff4, r)))))))"

fun handle_timer ::
    "'w tunn_api \<Rightarrow> 'c device_env \<Rightarrow> session_key list \<Rightarrow> ('w, 'c) sessions
     \<Rightarrow> ('w, 'c) sessions \<times> 'c device_effect list \<times> unit res" where
  "handle_timer api env [] sessions = (sessions, [], Inr ())"
| "handle_timer api env (session # rest) sessions =
     (case hm_get sessions session of
        None \<Rightarrow> handle_timer api env rest sessions
      | Some runtime \<Rightarrow>
          (case drive_session env (tunnel_update_timers api) session runtime sessions of
             (sessions', eff, Inl e) \<Rightarrow> (sessions', eff, Inl e)
           | (sessions', eff, Inr _) \<Rightarrow>
               (case handle_timer api env rest sessions' of
                  (sessions'', eff', r) \<Rightarrow> (sessions'', eff @ eff', r))))"

datatype 'c device_input =
    DevCancelled
  | DevTun "bytes res"
  | DevCommand "'c device_command option"
  | DevTick

definition continue_or_stop ::
    "('w, 'c) sessions \<times> 'c device_effect list \<times> unit res
     \<Rightarrow> ('w, 'c) sessions \<times> 'c device_effect list \<times> flow" where
  "continue_or_stop x =
     (case x of (ss, eff, Inl e) \<Rightarrow> (ss, eff, Stop (Inl e)) | (ss, eff, Inr _) \<Rightarrow> (ss, eff, Continue))"

fun device_step ::
    "'w tunn_api \<Rightarrow> (bytes \<Rightarrow> bytes) \<Rightarrow> (ipnet \<Rightarrow> ip_addr \<Rightarrow> bool) \<Rightarrow> 'c device_env \<Rightarrow> device_routes
     \<Rightarrow> ('w, 'c) sessions \<Rightarrow> 'c device_input
     \<Rightarrow> (('w, 'c) sessions \<times> 'c device_effect list \<times> flow) option" where
  "device_step api hash contains env routes sessions DevCancelled = Some (sessions, [], Stop (Inr ()))"
| "device_step api hash contains env routes sessions (DevTun (Inl e)) = Some (sessions, [], Stop (Inl e))"
| "device_step api hash contains env routes sessions (DevTun (Inr inner)) =
     Some (continue_or_stop (handle_tun api contains env routes sessions inner))"
| "device_step api hash contains env routes sessions (DevCommand None) =
     Some (sessions, [], Stop (Inr ()))"
| "device_step api hash contains env routes sessions
       (DevCommand (Some (CmdPrepare session keys remote_key outbound))) =
     (case prepare_session api hash env session keys remote_key outbound sessions of
        (sessions', eff, result) \<Rightarrow> Some (sessions', eff @ [Replied result], Continue))"
| "device_step api hash contains env routes sessions
       (DevCommand (Some (CmdReceive session source_key datagram))) =
     map_option continue_or_stop (handle_receive api env sessions session source_key datagram)"
| "device_step api hash contains env routes sessions (DevCommand (Some (CmdRemove session))) =
     Some (hm_remove session sessions, [], Continue)"
| "device_step api hash contains env routes sessions DevTick =
     Some (continue_or_stop (handle_timer api env (map fst sessions) sessions))"

section \<open>Sessions stay apart\<close>

definition device_sessions_ok :: "('w, 'c) sessions \<Rightarrow> bool" where
  "device_sessions_ok ss \<longleftrightarrow> hm_wf ss \<and> (\<forall>k rt. hm_get ss k = Some rt \<longrightarrow> sr_session rt = k)"

definition only_touches :: "session_key \<Rightarrow> ('w, 'c) sessions \<Rightarrow> ('w, 'c) sessions \<Rightarrow> bool" where
  "only_touches session ss ss' \<longleftrightarrow> (\<forall>k. k \<noteq> session \<longrightarrow> hm_get ss' k = hm_get ss k)"

text \<open>The effects that belong to one session: its packets carry its own address and name.\<close>

fun event_session :: "device_event \<Rightarrow> session_key option" where
  "event_session (HandshakeStarted k) = Some k"
| "event_session (AuthenticatedHandshake k) = Some k"
| "event_session (InnerPacket k _ _) = Some k"
| "event_session (MissingRoute _) = None"
| "event_session (SessionFailed k) = Some k"

fun effect_of :: "session_key \<Rightarrow> string \<Rightarrow> 'c \<Rightarrow> 'c device_effect \<Rightarrow> bool" where
  "effect_of session remote c (Emitted ev) = (event_session ev = Some session)"
| "effect_of session remote c (Outbound c' p) =
     (c' = c \<and> rp_peer_key p = remote \<and> rp_channel p = ShortcutWireGuard session)"
| "effect_of session remote c (TunWritten _) = True"
| "effect_of session remote c (Replied _) = False"

abbreviation runtime_effect :: "('w, 'c) session_runtime \<Rightarrow> 'c device_effect \<Rightarrow> bool" where
  "runtime_effect rt \<equiv> effect_of (sr_session rt) (sr_remote_public_key rt) (sr_outbound rt)"

lemma device_sessions_okD:
  assumes "device_sessions_ok ss"
  shows "hm_wf ss" and "hm_get ss k = Some rt \<Longrightarrow> sr_session rt = k"
  using assms by (auto simp: device_sessions_ok_def)

lemma device_sessions_ok_insert [intro]:
  "device_sessions_ok ss \<Longrightarrow> sr_session rt = k \<Longrightarrow> device_sessions_ok (hm_insert k rt ss)"
  by (auto simp: device_sessions_ok_def)

lemma device_sessions_ok_remove [intro]: "device_sessions_ok ss \<Longrightarrow> device_sessions_ok (hm_remove k ss)"
  by (auto simp: device_sessions_ok_def)

lemma only_touches_simps [simp]:
  "only_touches k ss ss" "only_touches k ss (hm_insert k rt ss)" "only_touches k ss (hm_remove k ss)"
  "only_touches k ss (hm_remove k (hm_insert k rt ss))"
  by (simp_all add: only_touches_def)

lemma emit_cases: "emit env ev = (if env_events_open env then ([Emitted ev], Inr ())
    else ([], Inl (TransportError ChannelClosed)))"
  by (simp add: emit_def)

lemma send_packets_spec:
  "send_packets env rt ps =
     (if ps = [] \<or> env_outbound_open env (sr_outbound rt)
      then (map (\<lambda>packet. Outbound (sr_outbound rt)
              \<lparr> rp_peer_key = sr_remote_public_key rt, rp_channel = ShortcutWireGuard (sr_session rt),
                rp_payload = packet \<rparr>) ps, Inr ())
      else ([], Inl (TransportError ChannelClosed)))"
  by (induction ps) auto

lemma send_packets_effects:
  "e \<in> set (fst (send_packets env rt ps)) \<Longrightarrow> runtime_effect rt e"
  by (auto simp: send_packets_spec split: if_splits)

lemma send_packets_no_panic: "snd (send_packets env rt ps) \<noteq> Inl Panic"
  by (simp add: send_packets_spec)

lemma deliver_packets_effects:
  "e \<in> set (fst (deliver_packets env k ps)) \<Longrightarrow> effect_of k remote c e \<and> (\<forall>c' p. e \<noteq> Outbound c' p)"
proof (induction ps)
  case Nil
  then show ?case by simp
next
  case (Cons p ps)
  then show ?case
    by (auto simp: emit_cases split: exec.splits option.splits sum.splits prod.splits if_splits)
qed

lemma deliver_packets_no_panic:
  assumes "\<And>b. env_tun_send env b \<noteq> Inl Panic"
  shows "snd (deliver_packets env k ps) \<noteq> Inl Panic"
proof (induction ps)
  case Nil
  then show ?case by simp
next
  case (Cons p ps)
  obtain r where "packet_addresses p = Returned r" using packet_addresses_returns by blast
  with Cons assms [of p] show ?case
    by (auto simp: emit_cases split: option.splits sum.splits prod.splits if_splits)
qed

text \<open>What becomes of one session when its tunnel is driven: nothing of the others enters.\<close>

definition drive_outcome ::
    "'c device_env \<Rightarrow> ('w \<Rightarrow> 'w \<times> tunnel_output res) \<Rightarrow> ('w, 'c) session_runtime
     \<Rightarrow> ('w, 'c) session_runtime option" where
  "drive_outcome env call rt =
     (case call (sr_tunnel rt) of
        (w, Inl e) \<Rightarrow> None
      | (w, Inr out) \<Rightarrow>
          if network_packets out = [] \<or> env_outbound_open env (sr_outbound rt)
          then Some (rt\<lparr> sr_tunnel := w \<rparr>) else None)"

lemma drive_session_spec:
  assumes "drive_session env call k rt ss = (ss', eff, r)" and "sr_session rt = k"
  shows "hm_get ss' = (hm_get ss)(k := drive_outcome env call rt)"
    and "\<forall>e\<in>set eff. runtime_effect rt e" and "r \<noteq> Inl Panic"
    and "env_events_open env \<Longrightarrow> r = Inr ()"
    and "device_sessions_ok ss \<Longrightarrow> device_sessions_ok ss'"
  using assms
  by (auto simp: drive_session_def drive_outcome_def send_network_def send_packets_spec fail_session_def
      emit_cases Let_def split: prod.splits sum.splits if_splits intro!: device_sessions_ok_remove)

lemma handle_tun_spec:
  assumes ok: "device_sessions_ok ss" and h: "handle_tun api contains env routes ss inner = (ss', eff, r)"
  shows "r \<noteq> Inl Panic" and "device_sessions_ok ss'"
    and "\<And>c p. Outbound c p \<in> set eff \<Longrightarrow>
      \<exists>src dest target rt. packet_addresses inner = Returned (Some (src, dest))
        \<and> device_lookup contains routes dest = Some target \<and> hm_get ss (rt_session target) = Some rt
        \<and> effect_of (rt_session target) (sr_remote_public_key rt) (sr_outbound rt) (Outbound c p)
        \<and> only_touches (rt_session target) ss ss'"
proof -
  obtain a where a: "packet_addresses inner = Returned a" using packet_addresses_returns by blast
  consider (quiet) "ss' = ss" "\<forall>c p. Outbound c p \<notin> set eff" "r = Inr ()"
    | (drive) src dest target rt where "a = Some (src, dest)"
        "device_lookup contains routes dest = Some target" "hm_get ss (rt_session target) = Some rt"
        "drive_session env (\<lambda>w. tunnel_encapsulate api w inner) (rt_session target) rt ss = (ss', eff, r)"
    using h a by (auto simp: handle_tun_def emit_cases split: option.splits prod.splits)
  then have "r \<noteq> Inl Panic \<and> device_sessions_ok ss' \<and> (\<forall>c p. Outbound c p \<in> set eff \<longrightarrow>
      (\<exists>src dest target rt. packet_addresses inner = Returned (Some (src, dest))
        \<and> device_lookup contains routes dest = Some target \<and> hm_get ss (rt_session target) = Some rt
        \<and> effect_of (rt_session target) (sr_remote_public_key rt) (sr_outbound rt) (Outbound c p)
        \<and> only_touches (rt_session target) ss ss'))"
  proof cases
    case quiet
    with ok show ?thesis by simp
  next
    case drive
    have sess: "sr_session rt = rt_session target" by (rule device_sessions_okD(2) [OF ok drive(3)])
    note D = drive_session_spec [OF drive(4) sess]
    have "only_touches (rt_session target) ss ss'" using D(1) by (simp add: only_touches_def)
    then show ?thesis using drive(1-3) D(2,3) D(5) [OF ok] sess a by fastforce
  qed
  then show "r \<noteq> Inl Panic" and "device_sessions_ok ss'"
    and "\<And>c p. Outbound c p \<in> set eff \<Longrightarrow>
      \<exists>src dest target rt. packet_addresses inner = Returned (Some (src, dest))
        \<and> device_lookup contains routes dest = Some target \<and> hm_get ss (rt_session target) = Some rt
        \<and> effect_of (rt_session target) (sr_remote_public_key rt) (sr_outbound rt) (Outbound c p)
        \<and> only_touches (rt_session target) ss ss'" by blast+
qed

text \<open>
  A datagram is either dropped, or it comes from the peer of its session; then only that session
  changes, and it announces an authenticated handshake only when its tunnel reported one.
\<close>

lemma handle_receive_cases:
  assumes "device_sessions_ok ss" and "handle_receive api env ss k source d = Some (ss', eff, r)"
  obtains (dropped) "ss' = ss" "eff = []" "r = Inr ()"
  | (rejected) rt w e where "hm_get ss k = Some rt" "sr_remote_public_key rt = source"
      "tunnel_receive api (sr_tunnel rt) None d = Some (w, Inl e)"
      "ss' = hm_insert k (rt\<lparr> sr_tunnel := w \<rparr>) ss" "eff = []" "r = Inr ()"
  | (accepted) rt w out where "hm_get ss k = Some rt" "sr_remote_public_key rt = source" "sr_session rt = k"
      "tunnel_receive api (sr_tunnel rt) None d = Some (w, Inr out)"
      "ss' = hm_insert k (rt\<lparr> sr_tunnel := w \<rparr>) ss \<or> ss' = hm_remove k (hm_insert k (rt\<lparr> sr_tunnel := w \<rparr>) ss)"
      "set eff \<subseteq> (if authenticated_flag out then {Emitted (AuthenticatedHandshake k)} else {})
         \<union> set (fst (deliver_packets env k (tunnel_packets out)))
         \<union> set (fst (send_packets env (rt\<lparr> sr_tunnel := w \<rparr>) (network_packets out)))
         \<union> {Emitted (SessionFailed k)}"
      "r = Inr () \<or> r = Inl (TransportError ChannelClosed)
         \<or> r = snd (deliver_packets env k (tunnel_packets out))"
proof (cases "hm_get ss k")
  case None
  with assms(2) show ?thesis by (intro dropped) (auto simp: handle_receive_def)
next
  case (Some rt)
  show ?thesis
  proof (cases "sr_remote_public_key rt = source")
    case False
    with assms(2) Some show ?thesis by (intro dropped) (auto simp: handle_receive_def)
  next
    case True
    with assms(2) Some obtain w res where t: "tunnel_receive api (sr_tunnel rt) None d = Some (w, res)"
      by (auto simp: handle_receive_def split: option.splits)
    show ?thesis
    proof (cases res)
      case (Inl e)
      with assms(2) Some True t show ?thesis
        by (intro rejected [of rt w e]) (auto simp: handle_receive_def Let_def)
    next
      case (Inr out)
      obtain e2 r2 where d2: "deliver_packets env k (tunnel_packets out) = (e2, r2)" by (rule prod.exhaust)
      obtain e3 r3 where s3: "send_packets env (rt\<lparr> sr_tunnel := w \<rparr>) (network_packets out) = (e3, r3)"
        by (rule prod.exhaust)
      show ?thesis
      proof (rule accepted [OF Some True _ t [unfolded Inr]])
        show "sr_session rt = k" by (rule device_sessions_okD(2) [OF assms(1) Some])
      qed (use assms(2) Some True t Inr d2 s3 in \<open>auto simp: handle_receive_def Let_def emit_cases
            fail_session_def split: sum.splits if_splits\<close>)
    qed
  qed
qed

lemma handle_receive_spec:
  assumes ok: "device_sessions_ok ss" and h: "handle_receive api env ss k source d = Some (ss', eff, r)"
  shows "device_sessions_ok ss'" and "only_touches k ss ss'"
    and "(\<And>b. env_tun_send env b \<noteq> Inl Panic) \<Longrightarrow> r \<noteq> Inl Panic"
    and "ss' \<noteq> ss \<or> eff \<noteq> [] \<Longrightarrow> \<exists>rt. hm_get ss k = Some rt \<and> sr_remote_public_key rt = source
      \<and> (\<forall>e\<in>set eff. effect_of k source (sr_outbound rt) e)"
    and "Emitted (AuthenticatedHandshake j) \<in> set eff \<Longrightarrow> j = k \<and>
      (\<exists>rt w out. hm_get ss k = Some rt
         \<and> tunnel_receive api (sr_tunnel rt) None d = Some (w, Inr out) \<and> authenticated_flag out)"
proof -
  have "device_sessions_ok ss' \<and> only_touches k ss ss'
    \<and> ((\<forall>b. env_tun_send env b \<noteq> Inl Panic) \<longrightarrow> r \<noteq> Inl Panic)
    \<and> (ss' \<noteq> ss \<or> eff \<noteq> [] \<longrightarrow> (\<exists>rt. hm_get ss k = Some rt \<and> sr_remote_public_key rt = source
        \<and> (\<forall>e\<in>set eff. effect_of k source (sr_outbound rt) e)))
    \<and> (Emitted (AuthenticatedHandshake j) \<in> set eff \<longrightarrow> j = k \<and>
        (\<exists>rt w out. hm_get ss k = Some rt
          \<and> tunnel_receive api (sr_tunnel rt) None d = Some (w, Inr out) \<and> authenticated_flag out))"
    using ok h
  proof (cases rule: handle_receive_cases)
    case dropped
    with ok show ?thesis by simp
  next
    case (rejected rt w e)
    with ok device_sessions_okD(2) [OF ok rejected(1)] show ?thesis by auto
  next
    case (accepted rt w out)
    let ?rt = "rt\<lparr> sr_tunnel := w \<rparr>"
    have "device_sessions_ok ss'" and touch: "only_touches k ss ss'"
      using ok accepted(3,5) by (auto intro!: device_sessions_ok_remove device_sessions_ok_insert)
    moreover have "r \<noteq> Inl Panic" if "\<forall>b. env_tun_send env b \<noteq> Inl Panic"
      using accepted(7) deliver_packets_no_panic [of env k "tunnel_packets out"] that by auto
    moreover have "effect_of k source (sr_outbound rt) e" if "e \<in> set eff" for e
      using that accepted(2,3,6) send_packets_effects [of e env ?rt "network_packets out"]
        deliver_packets_effects [of e env k "tunnel_packets out" source "sr_outbound rt"]
      by (auto split: if_splits)
    moreover have "j = k \<and> authenticated_flag out" if "Emitted (AuthenticatedHandshake j) \<in> set eff"
    proof -
      have "Emitted (AuthenticatedHandshake j) \<notin> set (fst (deliver_packets env k ps))" for ps
        by (induction ps) (auto simp: emit_cases
            split: exec.splits option.splits sum.splits prod.splits if_splits)
      with that accepted(6) show ?thesis by (auto simp: send_packets_spec split: if_splits)
    qed
    ultimately show ?thesis using accepted(1,2,4) by blast
  qed
  then show "device_sessions_ok ss'" and "only_touches k ss ss'"
    and "(\<And>b. env_tun_send env b \<noteq> Inl Panic) \<Longrightarrow> r \<noteq> Inl Panic"
    and "ss' \<noteq> ss \<or> eff \<noteq> [] \<Longrightarrow> \<exists>rt. hm_get ss k = Some rt \<and> sr_remote_public_key rt = source
      \<and> (\<forall>e\<in>set eff. effect_of k source (sr_outbound rt) e)"
    and "Emitted (AuthenticatedHandshake j) \<in> set eff \<Longrightarrow> j = k \<and>
      (\<exists>rt w out. hm_get ss k = Some rt
         \<and> tunnel_receive api (sr_tunnel rt) None d = Some (w, Inr out) \<and> authenticated_flag out)"
    by blast+
qed

lemma handle_timer_spec:
  assumes "device_sessions_ok ss" and "distinct ks" and "handle_timer api env ks ss = (ss', eff, r)"
  shows "device_sessions_ok ss' \<and> r \<noteq> Inl Panic
    \<and> (env_events_open env \<longrightarrow> r = Inr () \<and>
        (\<forall>k. hm_get ss' k = (if k \<in> set ks
           then Option.bind (hm_get ss k) (drive_outcome env (tunnel_update_timers api))
           else hm_get ss k)))"
  using assms
proof (induction ks arbitrary: ss eff)
  case Nil
  then show ?case by auto
next
  case (Cons k ks)
  show ?case
  proof (cases "hm_get ss k")
    case None
    with Cons.prems have "handle_timer api env ks ss = (ss', eff, r)" by simp
    from Cons.IH [OF Cons.prems(1) _ this] Cons.prems(2) None show ?thesis by auto
  next
    case (Some rt)
    have sess: "sr_session rt = k" by (rule device_sessions_okD(2) [OF Cons.prems(1) Some])
    obtain s1 e1 r1 where d: "drive_session env (tunnel_update_timers api) k rt ss = (s1, e1, r1)"
      by (metis prod.exhaust)
    note D = drive_session_spec [OF d sess]
    show ?thesis
    proof (cases r1)
      case (Inl e)
      with Cons.prems(3) Some d have "ss' = s1" "r = Inl e" by auto
      with D(3,4) D(5) [OF Cons.prems(1)] Inl show ?thesis by auto
    next
      case (Inr u)
      with Cons.prems(3) Some d obtain e2 where "handle_timer api env ks s1 = (ss', e2, r)"
        by (auto split: prod.splits)
      from Cons.IH [OF D(5) [OF Cons.prems(1)] _ this] Cons.prems(2) D(1) Some show ?thesis by auto
    qed
  qed
qed

section \<open>Properties\<close>

text \<open>An environment, a table and sessions for concrete instances.\<close>

definition sample_env :: "nat device_env" where
  "sample_env = \<lparr> env_events_open = True, env_outbound_open = (\<lambda>c. c \<noteq> 0), env_tun_send = (\<lambda>b. Inr ()) \<rparr>"

definition sample_key :: "u64 \<Rightarrow> session_key" where
  "sample_key ep = SessionKey (ShortcutId (replicate 16 7)) ep"

definition sample_sessions :: "(bytes list, nat) sessions" where
  "sample_sessions =
     [(sample_key 1, \<lparr> sr_session = sample_key 1, sr_tunnel = [], sr_remote_public_key = ''bob'', sr_outbound = 1 \<rparr>),
      (sample_key 2, \<lparr> sr_session = sample_key 2, sr_tunnel = [], sr_remote_public_key = ''eve'', sr_outbound = 0 \<rparr>)]"

definition sample_routes :: device_routes where
  "sample_routes = \<lparr> dr_poisoned = False,
     dr_routes = [(IpNet (V4 0x0a000000) 8, RouteTarget (sample_key 2)),
                  (IpNet (V4 0x0a000002) 32, RouteTarget (sample_key 1))] \<rparr>"

definition sample_packet :: bytes where
  "sample_packet = [0x45, 0, 0, 20, 0, 0, 0, 0, 64, 17, 0, 0, 10, 0, 0, 1, 10, 0, 0, 2]"

lemma sample_sessions_ok: "device_sessions_ok sample_sessions"
  by (auto simp: device_sessions_ok_def sample_sessions_def hm_wf_def sample_key_def split: if_splits)

lemma sample_packet_addresses:
  "packet_addresses sample_packet = Returned (Some (V4 0x0a000001, V4 0x0a000002))"
  by (simp add: packet_addresses_def sample_packet_def exec_simps v4_of_octets_def from_be_bytes_def
      nat_of_be_def)

lemma sample_lookup: "device_lookup cidr_contains sample_routes (V4 0x0a000002) = Some (RouteTarget (sample_key 1))"
  by (simp add: device_lookup_def sample_routes_def)

lemma sample_handle_tun:
  "snd (handle_tun queue_api cidr_contains sample_env sample_routes sample_sessions sample_packet) =
     ([Outbound 1 \<lparr> rp_peer_key = ''bob'', rp_channel = ShortcutWireGuard (sample_key 1),
                    rp_payload = [1, 0, 0, 0] \<rparr>], Inr ())"
  unfolding handle_tun_def sample_packet_addresses
  by (simp add: sample_lookup sample_sessions_def drive_session_def tunnel_encapsulate_def queue_api_def
      empty_output_def send_network_def sample_env_def Let_def)

text \<open>
  C32.  Forwarding: whatever the device task sends out for a packet read from the TUN device belongs
  to the session that the longest route containing the packet's destination names: it goes to that
  session's channel and peer, carries that session's id, and no other session changes.
\<close>

theorem device_forwards_longest_prefix:
  assumes "device_sessions_ok ss"
    and "handle_tun api contains env routes ss inner = (ss', eff, r)" and "Outbound c p \<in> set eff"
  shows "\<exists>src dest n target rt. packet_addresses inner = Returned (Some (src, dest))
    \<and> (n, target) \<in> set (dr_routes routes) \<and> contains n dest
    \<and> (\<forall>m t. (m, t) \<in> set (dr_routes routes) \<and> contains m dest \<longrightarrow> prefix_len m \<le> prefix_len n)
    \<and> hm_get ss (rt_session target) = Some rt
    \<and> c = sr_outbound rt \<and> rp_peer_key p = sr_remote_public_key rt
    \<and> rp_channel p = ShortcutWireGuard (rt_session target)
    \<and> (\<forall>k. k \<noteq> rt_session target \<longrightarrow> hm_get ss' k = hm_get ss k)"
proof -
  from handle_tun_spec(3) [OF assms] obtain src dest target rt
    where a: "packet_addresses inner = Returned (Some (src, dest))"
      and l: "device_lookup contains routes dest = Some target"
      and g: "hm_get ss (rt_session target) = Some rt"
      and e: "effect_of (rt_session target) (sr_remote_public_key rt) (sr_outbound rt) (Outbound c p)"
      and o: "only_touches (rt_session target) ss ss'"
    by blast
  from device_lookup_Some [OF l] obtain n where "(n, target) \<in> set (dr_routes routes)" "contains n dest"
    "\<forall>m t. (m, t) \<in> set (dr_routes routes) \<longrightarrow> contains m dest \<longrightarrow> prefix_len m \<le> prefix_len n"
    by blast
  with a g e o show ?thesis unfolding only_touches_def effect_of.simps by blast
qed

theorem device_forwards_longest_prefix_witness:
  "\<exists>n target. (n, target) \<in> set (dr_routes sample_routes) \<and> rt_session target = sample_key 1"
proof -
  obtain ss' eff r where h: "handle_tun queue_api cidr_contains sample_env sample_routes sample_sessions
      sample_packet = (ss', eff, r)" by (metis prod.exhaust)
  with sample_handle_tun have "Outbound 1 \<lparr> rp_peer_key = ''bob'',
      rp_channel = ShortcutWireGuard (sample_key 1), rp_payload = [1, 0, 0, 0] \<rparr> \<in> set eff" by simp
  from device_forwards_longest_prefix [OF sample_sessions_ok h this] obtain n target
    where "(n, target) \<in> set (dr_routes sample_routes)"
      and "ShortcutWireGuard (sample_key 1) = ShortcutWireGuard (rt_session target)"
    by (simp only: relay_packet.simps) blast
  then show ?thesis by auto
qed

text \<open>
  C33.  Sender authentication and isolation: a datagram that has any effect, or that changes any
  tunnel, was sent by the peer recorded for its session; its effects belong to that session, all
  other sessions keep their state, and an authenticated handshake is announced only when the
  session's own tunnel reported it.
\<close>

theorem device_receive_isolated:
  assumes "device_sessions_ok ss" and "handle_receive api env ss k source d = Some (ss', eff, r)"
  shows "(\<forall>j. j \<noteq> k \<longrightarrow> hm_get ss' j = hm_get ss j)
    \<and> (ss' \<noteq> ss \<or> eff \<noteq> [] \<longrightarrow> (\<exists>rt. hm_get ss k = Some rt \<and> sr_remote_public_key rt = source
         \<and> (\<forall>e\<in>set eff. effect_of k source (sr_outbound rt) e)))
    \<and> (\<forall>j. Emitted (AuthenticatedHandshake j) \<in> set eff \<longrightarrow> j = k \<and>
         (\<exists>rt w out. hm_get ss k = Some rt
            \<and> tunnel_receive api (sr_tunnel rt) None d = Some (w, Inr out) \<and> authenticated_flag out))"
  using handle_receive_spec(2,4,5) [OF assms] unfolding only_touches_def by blast

theorem device_receive_isolated_witness:
  "\<exists>ss' eff r. handle_receive queue_api sample_env sample_sessions (sample_key 1) ''mallory'' [1, 0, 0, 0]
      = Some (ss', eff, r) \<and> ss' = sample_sessions \<and> eff = []"
proof -
  obtain ss' eff r where h: "handle_receive queue_api sample_env sample_sessions (sample_key 1) ''mallory'' [1, 0, 0, 0]
      = Some (ss', eff, r)" by (simp add: handle_receive_def sample_sessions_def)
  from device_receive_isolated [OF sample_sessions_ok h] have "ss' = sample_sessions \<and> eff = []"
    by (auto simp: sample_sessions_def)
  with h show ?thesis by blast
qed

text \<open>
  Timers: while the event receiver lives, a tick visits every session and decides each one by
  its own tunnel and channel only, so a session that fails is removed and every other session
  still gets its timer update.
\<close>

theorem device_timer_isolated:
  assumes "device_sessions_ok ss" and "env_events_open env"
    and "handle_timer api env (map fst ss) ss = (ss', eff, r)"
  shows "r = Inr () \<and> (\<forall>k. hm_get ss' k =
      Option.bind (hm_get ss k) (drive_outcome env (tunnel_update_timers api)))"
proof -
  have d: "distinct (map fst ss)" using assms(1) by (simp add: device_sessions_ok_def hm_wf_def)
  have "k \<in> set (map fst ss) \<longleftrightarrow> hm_get ss k \<noteq> None" for k
    using map_of_eq_None_iff [of ss k] by auto
  with handle_timer_spec [OF assms(1) d assms(3)] assms(2) show ?thesis by auto
qed

theorem device_timer_isolated_witness:
  "\<exists>ss' eff. handle_timer queue_api sample_env (map fst sample_sessions) sample_sessions = (ss', eff, Inr ())
     \<and> (\<exists>rt. hm_get ss' (sample_key 1) = Some rt)"
proof -
  obtain ss' eff r where h: "handle_timer queue_api sample_env (map fst sample_sessions) sample_sessions
      = (ss', eff, r)" by (metis prod.exhaust)
  have "env_events_open sample_env" by (simp add: sample_env_def)
  from device_timer_isolated [OF sample_sessions_ok this h] h show ?thesis
    by (auto simp: sample_sessions_def drive_outcome_def tunnel_update_timers_def queue_api_def empty_output_def)
qed

lemma handle_receive_returns:
  assumes "noise_tunnel (tunn_decapsulate api) pending"
  obtains ss' eff r where "handle_receive api env ss session source d = Some (ss', eff, r)"
proof -
  have "handle_receive api env ss session source d \<noteq> None"
  proof (cases "hm_get ss session")
    case (Some rt)
    from noise_tunnel.receive_returns [OF assms, of None "sr_tunnel rt" d empty_output]
    have "tunnel_receive api (sr_tunnel rt) None d \<noteq> None"
      by (auto simp: tunnel_receive_def split: sum.splits)
    with Some show ?thesis
      by (auto simp: handle_receive_def fail_session_def Let_def split: sum.splits prod.splits)
  qed (simp add: handle_receive_def)
  with that show ?thesis by (metis option.exhaust prod.exhaust)
qed

text \<open>
  One iteration computes: for every input, with a tunnel whose queue drains, the iteration has an
  outcome, the session table stays well formed, and the loop does not stop with a panic.  The sends
  of the iteration are its effects; the time they wait for room is in \<open>Device_Channels\<close>.
\<close>

lemma device_step_total:
  assumes "noise_tunnel (tunn_decapsulate api) pending" and ok: "device_sessions_ok ss"
    and send: "\<And>b. env_tun_send env b \<noteq> Inl Panic" and input: "input \<noteq> DevTun (Inl Panic)"
  shows "\<exists>ss' eff fl. device_step api hash contains env routes ss input = Some (ss', eff, fl)
    \<and> device_sessions_ok ss' \<and> fl \<noteq> Stop (Inl Panic)"
proof (cases input)
  case (DevTun r)
  show ?thesis
  proof (cases r)
    case (Inr inner)
    obtain ss' eff res where h: "handle_tun api contains env routes ss inner = (ss', eff, res)"
      by (metis prod.exhaust)
    from handle_tun_spec(1,2) [OF ok h] h DevTun Inr show ?thesis
      by (cases res) (auto simp: continue_or_stop_def)
  qed (use DevTun input ok in auto)
next
  case (DevCommand c)
  show ?thesis
  proof (cases c)
    case (Some cmd)
    show ?thesis
    proof (cases cmd)
      case (CmdPrepare session keys remote outbound)
      with DevCommand Some ok show ?thesis
        by (auto simp: prepare_session_def emit_cases Let_def split: prod.splits sum.splits)
    next
      case (CmdReceive session source d)
      obtain ss' eff res where h: "handle_receive api env ss session source d = Some (ss', eff, res)"
        by (rule handle_receive_returns [OF assms(1)])
      from handle_receive_spec(1) [OF ok h] handle_receive_spec(3) [OF ok h send] h DevCommand Some CmdReceive
      show ?thesis by (cases res) (auto simp: continue_or_stop_def)
    qed (use DevCommand Some ok in auto)
  qed (use DevCommand ok in auto)
next
  case DevTick
  obtain ss' eff res where h: "handle_timer api env (map fst ss) ss = (ss', eff, res)"
    by (metis prod.exhaust)
  from handle_timer_spec [OF ok _ h] ok h DevTick show ?thesis
    by (cases res) (auto simp: continue_or_stop_def device_sessions_ok_def hm_wf_def)
qed (use ok in auto)

end
