(* ===== verification/Lease_Table.thy ===== *)
theory Lease_Table
  imports Shortcut_State
begin

text \<open>
  What \<open>main.rs\<close> does with a \<open>ShortcutManager\<close> over time, refused removals included.  A
  \<open>controller.fail\<close> whose route deactivation fails is only logged (\<open>main.rs\<close>, event and inbound
  branches), and the loop goes on with a manager that has lost the session and kept the route; a
  history records the sessions this happened to.  The lease table is the abstract specification
  of a manager: the sessions it knows with selector and expiry, the owner of each selector, and
  the sessions that were replaced.
\<close>

section \<open>Histories\<close>

datatype owner_event = Call manager_event | RefusedFail session_key

fun refused_sessions :: "owner_event \<Rightarrow> session_key set" where
  "refused_sessions (Call ev) = {}"
| "refused_sessions (RefusedFail k) = {k}"

inductive owner_step ::
    "'r activate_fn \<Rightarrow> 'r deactivate_fn \<Rightarrow> (bytes \<Rightarrow> bytes \<Rightarrow> bytes) \<Rightarrow> (bytes \<Rightarrow> bytes) \<Rightarrow> string
     \<Rightarrow> 'r shortcut_manager \<Rightarrow> owner_event \<Rightarrow> 'r shortcut_manager \<Rightarrow> bool"
  for act deact kh pub local where
  owner_call: "manager_step act deact kh pub local mgr ev mgr' \<Longrightarrow>
     owner_step act deact kh pub local mgr (Call ev) mgr'"
| owner_refused: "manager_fail deact mgr k = (mgr', Inl e) \<Longrightarrow>
     owner_step act deact kh pub local mgr (RefusedFail k) mgr'"

inductive manager_history ::
    "'r activate_fn \<Rightarrow> 'r deactivate_fn \<Rightarrow> (bytes \<Rightarrow> bytes \<Rightarrow> bytes) \<Rightarrow> (bytes \<Rightarrow> bytes) \<Rightarrow> string
     \<Rightarrow> 'r \<Rightarrow> 'r shortcut_manager \<Rightarrow> session_key set \<Rightarrow> bool"
  for act deact kh pub local r0 where
  history_new: "manager_history act deact kh pub local r0 (manager_new r0) {}"
| history_step: "manager_history act deact kh pub local r0 mgr F \<Longrightarrow>
     owner_step act deact kh pub local mgr ev mgr' \<Longrightarrow>
     manager_history act deact kh pub local r0 mgr' (F \<union> refused_sessions ev)"

lemma reachable_history:
  "manager_reachable act deact kh pub local r0 mgr \<Longrightarrow> manager_history act deact kh pub local r0 mgr {}"
  by (induction rule: manager_reachable.induct)
     (auto intro: history_new dest: history_step [OF _ owner_call])

section \<open>The lease table\<close>

record lease_state =
  ls_known :: "session_key \<rightharpoonup> ipnet \<times> u64"
  ls_owner :: "ipnet \<rightharpoonup> session_key"
  ls_replaced :: "session_key set"

definition lease_admit :: "string \<Rightarrow> shortcut_ticket \<Rightarrow> string \<Rightarrow> u64 \<Rightarrow> lease_state \<Rightarrow> lease_state" where
  "lease_admit local t sender now L =
     (if ticket_ok t now \<and> t_issuer_public_key t = sender \<and> t_recipient_public_key t = local
         \<and> ls_known L (ticket_session t) = None
      then L\<lparr> ls_known := (ls_known L)(ticket_session t \<mapsto> (t_selector t, t_expires_at t)) \<rparr> else L)"

definition lease_take_over :: "session_key \<Rightarrow> ipnet \<Rightarrow> lease_state \<Rightarrow> lease_state" where
  "lease_take_over k sel L = L\<lparr> ls_owner := (ls_owner L)(sel \<mapsto> k),
     ls_replaced := (ls_replaced L \<union> {p. ls_owner L sel = Some p \<and> ls_known L p \<noteq> None}) - {k} \<rparr>"

definition lease_expired :: "u64 \<Rightarrow> lease_state \<Rightarrow> session_key set" where
  "lease_expired now L = {k. \<exists>sel x. ls_known L k = Some (sel, x) \<and> x \<le> now}"

text \<open>The removal of sessions \<open>K\<close>, with the routes they own under their own selector.\<close>

definition lease_drop :: "session_key set \<Rightarrow> lease_state \<Rightarrow> lease_state" where
  "lease_drop K L = \<lparr> ls_known = ls_known L |` (- K),
     ls_owner = (\<lambda>sel. if \<exists>k x. k \<in> K \<and> ls_owner L sel = Some k \<and> ls_known L k = Some (sel, x)
                       then None else ls_owner L sel),
     ls_replaced = ls_replaced L - K \<rparr>"

definition lease_forget :: "session_key set \<Rightarrow> lease_state \<Rightarrow> lease_state" where
  "lease_forget K L = L\<lparr> ls_known := ls_known L |` (- K), ls_replaced := ls_replaced L - K \<rparr>"

inductive lease_step :: "string \<Rightarrow> lease_state \<Rightarrow> owner_event \<Rightarrow> lease_state \<Rightarrow> bool" for local where
  lease_ticket: "lease_step local L (Call (EvTicket t sender now)) (lease_admit local t sender now L)"
| lease_mark: "lease_step local L (Call (EvHandshaking k)) L"
| lease_rejected: "lease_step local L (Call (EvAuthenticated k now)) L"
| lease_install: "ls_known L k = Some (sel, x) \<Longrightarrow> now < x \<Longrightarrow>
     lease_step local L (Call (EvAuthenticated k now)) (lease_take_over k sel L)"
| lease_expiry: "lease_step local L (Call (EvExpire now)) (lease_drop (lease_expired now L) L)"
| lease_retire: "lease_step local L (Call EvRetire) (lease_forget (ls_replaced L) L)"
| lease_fail: "lease_step local L (Call (EvFail k)) (lease_drop {k} L)"
| lease_refused: "ls_known L k = Some (sel, x) \<Longrightarrow> ls_owner L sel = Some k \<Longrightarrow>
     lease_step local L (RefusedFail k) (lease_forget {k} L)"

definition lease_table :: "'r shortcut_manager \<Rightarrow> lease_state" where
  "lease_table mgr = \<lparr> ls_known = (\<lambda>k. map_option (\<lambda>m. (t_selector (ms_ticket m), t_expires_at (ms_ticket m)))
       (hm_get (sm_sessions mgr) k)),
     ls_owner = hm_get (sm_active_routes mgr),
     ls_replaced = {k. manager_phase mgr k = Some Draining} \<rparr>"

definition lease_empty :: lease_state where
  "lease_empty = \<lparr> ls_known = Map.empty, ls_owner = Map.empty, ls_replaced = {} \<rparr>"

lemma lease_table_new: "lease_table (manager_new r) = lease_empty"
  by (simp add: lease_table_def lease_empty_def manager_new_def manager_phase_def)

section \<open>The invariant of a history\<close>

text \<open>
  An \<open>Active\<close> session owns the route of its selector; a route belongs to a present \<open>Active\<close>
  session with that selector, or to a session whose removal was refused.
\<close>

definition routes_but :: "session_key set \<Rightarrow> (session_key, managed_session) hashmap
    \<Rightarrow> (ipnet, session_key) hashmap \<Rightarrow> bool" where
  "routes_but F ss rs \<longleftrightarrow> hm_wf rs
     \<and> (\<forall>k m. hm_get ss k = Some m \<longrightarrow> ms_phase m = Active \<longrightarrow> hm_get rs (t_selector (ms_ticket m)) = Some k)
     \<and> (\<forall>sel k. hm_get rs sel = Some k \<longrightarrow> k \<in> F
          \<or> (\<exists>m. hm_get ss k = Some m \<and> ms_phase m = Active \<and> t_selector (ms_ticket m) = sel))"

definition history_inv :: "('r \<Rightarrow> ipnet \<rightharpoonup> route_target) \<Rightarrow> ('r \<Rightarrow> bool) \<Rightarrow> string
    \<Rightarrow> session_key set \<Rightarrow> 'r shortcut_manager \<Rightarrow> bool" where
  "history_inv table rinv local F mgr \<longleftrightarrow>
     rinv (sm_routes mgr) \<and> table_agrees table mgr
     \<and> sessions_ok local (sm_sessions mgr) \<and> routes_but F (sm_sessions mgr) (sm_active_routes mgr)"

lemma routes_butI:
  assumes "hm_wf rs"
    and "\<And>k m. hm_get ss k = Some m \<Longrightarrow> ms_phase m = Active \<Longrightarrow> hm_get rs (t_selector (ms_ticket m)) = Some k"
    and "\<And>sel k. hm_get rs sel = Some k \<Longrightarrow> k \<notin> F \<Longrightarrow>
          \<exists>m. hm_get ss k = Some m \<and> ms_phase m = Active \<and> t_selector (ms_ticket m) = sel"
  shows "routes_but F ss rs"
  using assms unfolding routes_but_def by blast

lemma routes_butD:
  assumes "routes_but F ss rs"
  shows "hm_wf rs"
    and "hm_get ss k = Some m \<Longrightarrow> ms_phase m = Active \<Longrightarrow> hm_get rs (t_selector (ms_ticket m)) = Some k"
    and "hm_get rs sel = Some k \<Longrightarrow> k \<notin> F \<Longrightarrow>
          \<exists>m. hm_get ss k = Some m \<and> ms_phase m = Active \<and> t_selector (ms_ticket m) = sel"
  using assms unfolding routes_but_def by blast+

lemma history_invD:
  assumes "history_inv table rinv local F mgr"
  shows "rinv (sm_routes mgr)" and "table_agrees table mgr" and "sessions_ok local (sm_sessions mgr)"
    and "routes_but F (sm_sessions mgr) (sm_active_routes mgr)" and "hm_wf (sm_sessions mgr)"
  using assms by (simp_all add: history_inv_def sessions_ok_def)

subsection \<open>Updates of the session and route maps\<close>

lemma routes_but_mono: "routes_but F ss rs \<Longrightarrow> F \<subseteq> G \<Longrightarrow> routes_but G ss rs"
  unfolding routes_but_def by blast

lemma routes_but_inactive:
  assumes ok: "routes_but F ss rs"
    and same: "\<And>k m. hm_get ss k = Some m \<Longrightarrow> ms_phase m = Active \<Longrightarrow> hm_get ss' k = Some m"
    and origin: "\<And>k m. hm_get ss' k = Some m \<Longrightarrow> ms_phase m = Active \<Longrightarrow> hm_get ss k = Some m"
  shows "routes_but F ss' rs"
proof (rule routes_butI)
  show "hm_wf rs" by (rule routes_butD(1) [OF ok])
  show "hm_get rs (t_selector (ms_ticket m)) = Some k"
    if "hm_get ss' k = Some m" "ms_phase m = Active" for k m
    using routes_butD(2) [OF ok origin [OF that] that(2)] .
  show "\<exists>m. hm_get ss' k = Some m \<and> ms_phase m = Active \<and> t_selector (ms_ticket m) = sel"
    if "hm_get rs sel = Some k" "k \<notin> F" for sel k
    using routes_butD(3) [OF ok that] same by blast
qed

lemma routes_but_drop_owned:
  assumes ok: "routes_but F ss rs" and wf: "hm_wf rs'" and rs': "hm_get rs' = drop_owned ss K (hm_get rs)"
    and ss': "\<And>k. hm_get ss' k = (if k \<in> K then None else hm_get ss k)"
  shows "routes_but F ss' rs'"
proof (rule routes_butI)
  show "hm_wf rs'" by (rule wf)
  show "hm_get rs' (t_selector (ms_ticket m)) = Some k"
    if "hm_get ss' k = Some m" "ms_phase m = Active" for k m
    using that routes_butD(2) [OF ok, of k m] by (auto simp: rs' drop_owned_def ss' split: if_splits)
  show "\<exists>m. hm_get ss' k = Some m \<and> ms_phase m = Active \<and> t_selector (ms_ticket m) = sel"
    if "hm_get rs' sel = Some k" "k \<notin> F" for sel k
    using that routes_butD(3) [OF ok, of sel k]
    by (fastforce simp: rs' drop_owned_def ss' split: if_splits)
qed

text \<open>What an activation leaves of the sessions: the new owner \<open>Active\<close>, the old one \<open>Draining\<close>.\<close>

definition activated_sessions :: "session_key \<Rightarrow> ipnet \<Rightarrow> (ipnet, session_key) hashmap
    \<Rightarrow> (session_key, managed_session) hashmap \<Rightarrow> (session_key, managed_session) hashmap" where
  "activated_sessions k sel rs ss = set_phase k Active (case hm_get rs sel of
     Some p \<Rightarrow> if p \<noteq> k then set_phase p Draining ss else ss | None \<Rightarrow> ss)"

lemma activated_sessions_get:
  assumes "hm_get ss k = Some m"
  shows "hm_get (activated_sessions k sel rs ss) x =
    (if x = k then Some (m\<lparr> ms_phase := Active \<rparr>)
     else if hm_get rs sel = Some x then map_option (\<lambda>y. y\<lparr> ms_phase := Draining \<rparr>) (hm_get ss x)
     else hm_get ss x)"
  using assms by (auto simp: activated_sessions_def set_phase_get split: option.splits)

lemma routes_but_activate:
  assumes ok: "routes_but F ss rs" and m: "hm_get ss k = Some m" and na: "ms_phase m \<noteq> Active"
    and sel: "sel = t_selector (ms_ticket m)"
  shows "routes_but F (activated_sessions k sel rs ss) (hm_insert sel k rs)"
proof (rule routes_butI)
  note get = activated_sessions_get [OF m]
  show "hm_wf (hm_insert sel k rs)" using routes_butD(1) [OF ok] by simp
  show "hm_get (hm_insert sel k rs) (t_selector (ms_ticket y)) = Some x"
    if "hm_get (activated_sessions k sel rs ss) x = Some y" "ms_phase y = Active" for x y
    using that routes_butD(2) [OF ok, of x y] sel by (auto simp: get split: if_splits)
  show "\<exists>y. hm_get (activated_sessions k sel rs ss) x = Some y \<and> ms_phase y = Active \<and> t_selector (ms_ticket y) = s"
    if "hm_get (hm_insert sel k rs) s = Some x" "x \<notin> F" for s x
  proof (cases "s = sel")
    case True
    with that sel get [of sel rs x] show ?thesis by auto
  next
    case False
    with that obtain y where y: "hm_get ss x = Some y" "ms_phase y = Active" "t_selector (ms_ticket y) = s"
      using routes_butD(3) [OF ok, of s x] by auto
    with m na have "x \<noteq> k" by auto
    moreover have "hm_get rs sel \<noteq> Some x" using routes_butD(3) [OF ok, of sel x] y False that(2) by auto
    ultimately show ?thesis using y by (simp add: get)
  qed
qed

section \<open>Every owner step keeps the invariant\<close>

context route_manager
begin

abbreviation hinv :: "string \<Rightarrow> session_key set \<Rightarrow> 'r shortcut_manager \<Rightarrow> bool" where
  "hinv \<equiv> history_inv table rinv"

lemma receive_shape:
  assumes "manager_receive_ticket kh pub mgr t sender local now = (mgr', r)"
  shows "mgr' = (if ticket_ok t now \<and> t_issuer_public_key t = sender \<and> t_recipient_public_key t = local
       \<and> hm_get (sm_sessions mgr) (ticket_session t) = None
     then mgr\<lparr> sm_sessions := hm_insert (ticket_session t) \<lparr> ms_ticket = t, ms_phase = Prepared \<rparr> (sm_sessions mgr) \<rparr>
     else mgr)"
  using assms validate_ok_iff [of t now]
  by (auto simp: manager_receive_ticket_def ticket_session_def Let_def split: sum.splits if_splits option.splits)

lemma hinv_receive:
  assumes h: "hinv local F mgr" and rcv: "manager_receive_ticket kh pub mgr t sender local now = (mgr', r)"
  shows "hinv local F mgr'"
proof (cases "mgr' = mgr")
  case False
  let ?ss = "hm_insert (ticket_session t) \<lparr> ms_ticket = t, ms_phase = Prepared \<rparr> (sm_sessions mgr)"
  from receive_shape [OF rcv] False have t: "ticket_ok t now" "t_recipient_public_key t = local"
    "hm_get (sm_sessions mgr) (ticket_session t) = None" and mgr': "mgr' = mgr\<lparr> sm_sessions := ?ss \<rparr>"
    by (auto split: if_splits)
  have "routes_but F ?ss (sm_active_routes mgr)"
    by (rule routes_but_inactive [OF history_invD(4) [OF h]]) (use t(3) in \<open>auto split: if_splits\<close>)
  with h t sessions_ok_insert [of local "sm_sessions mgr" t now Prepared] show ?thesis
    by (auto simp: history_inv_def mgr' table_agrees_def)
qed (use h in simp)

lemma mark_shape:
  assumes "mark_handshaking mgr k = (mgr', r)"
  obtains (same) "mgr' = mgr"
  | (marked) m where "hm_get (sm_sessions mgr) k = Some m" and "ms_phase m = Prepared"
      and "mgr' = mgr\<lparr> sm_sessions := set_phase k Handshaking (sm_sessions mgr) \<rparr>"
  using assms by (auto simp: mark_handshaking_def set_phase_def split: option.splits if_splits)

lemma hinv_mark:
  assumes h: "hinv local F mgr" and mk: "mark_handshaking mgr k = (mgr', r)"
  shows "hinv local F mgr'"
  using mk
proof (cases rule: mark_shape)
  case (marked m)
  have "routes_but F (set_phase k Handshaking (sm_sessions mgr)) (sm_active_routes mgr)"
    by (rule routes_but_inactive [OF history_invD(4) [OF h]])
       (use marked in \<open>auto simp: set_phase_get split: if_splits\<close>)
  with h marked show ?thesis
    by (auto simp: history_inv_def table_agrees_def intro: sessions_ok_set_phase)
qed (use h in simp)

lemma hinv_auth:
  assumes h: "hinv local F mgr" and au: "authenticated_handshake act mgr k now = (mgr', res)"
  shows "hinv local F mgr'"
  using au
proof (cases rule: auth_shapes)
  case (route_error e r m)
  with h act_err show ?thesis by (auto simp: history_inv_def table_agrees_def)
next
  case (activated r m drained)
  note D = history_invD [OF h]
  let ?sel = "t_selector (ms_ticket m)"
  from activated act_ok D(1) have r: "rinv r" "table r = (table (sm_routes mgr))(?sel \<mapsto> RouteTarget k)" by blast+
  have ss: "set_phase k Active drained = activated_sessions k ?sel (sm_active_routes mgr) (sm_sessions mgr)"
    by (simp add: activated_sessions_def activated(5))
  have "sessions_ok local drained"
    using D(3) activated(5) by (auto intro: sessions_ok_set_phase split: option.splits)
  with r D activated(6) routes_but_activate [OF D(4) activated(1,2) refl] show ?thesis
    by (auto simp: history_inv_def ss [symmetric] intro: sessions_ok_set_phase table_agrees_insert)
qed (use h in simp_all)

lemma expire_shape:
  assumes h: "hinv local F mgr" and ex: "manager_expire deact mgr now = (mgr', Inr ks)"
  shows "set ks = {k. \<exists>m. hm_get (sm_sessions mgr) k = Some m \<and> t_expires_at (ms_ticket m) \<le> now}"
    and "sm_sessions mgr' = fold hm_remove ks (sm_sessions mgr)"
    and "hm_get (sm_active_routes mgr') = drop_owned (sm_sessions mgr) (set ks) (hm_get (sm_active_routes mgr))"
    and "hinv local F mgr'"
proof -
  note D = history_invD [OF h]
  obtain m1 res where step: "expire_routes deact mgr (expired_sessions mgr now) = (m1, res)" by fastforce
  with ex have res: "res = Inr ()" and mgr': "mgr' = remove_sessions ks m1" and ks: "ks = expired_sessions mgr now"
    by (auto simp: manager_expire_def Let_def split: sum.splits)
  from expire_routes_spec [OF D(1,2) routes_butD(1) [OF D(4)] step] res ks
  have spec: "rinv (sm_routes m1)" "table_agrees table m1" "sm_sessions m1 = sm_sessions mgr"
    "hm_wf (sm_active_routes m1)"
    and rs: "hm_get (sm_active_routes m1) = drop_owned (sm_sessions mgr) (set ks) (hm_get (sm_active_routes mgr))"
    by simp_all
  show "set ks = {k. \<exists>m. hm_get (sm_sessions mgr) k = Some m \<and> t_expires_at (ms_ticket m) \<le> now}"
    using in_expired_sessions [OF D(5), of _ now] by (auto simp: ks)
  show ss: "sm_sessions mgr' = fold hm_remove ks (sm_sessions mgr)"
    using spec by (simp add: mgr' remove_sessions_def)
  show "hm_get (sm_active_routes mgr') = drop_owned (sm_sessions mgr) (set ks) (hm_get (sm_active_routes mgr))"
    using rs by (simp add: mgr' remove_sessions_def)
  have "routes_but F (sm_sessions mgr') (sm_active_routes m1)"
    by (rule routes_but_drop_owned [OF D(4) spec(4) rs]) (simp add: ss fold_remove_get)
  with spec D(3) show "hinv local F mgr'"
    by (simp add: history_inv_def mgr' remove_sessions_def table_agrees_def sessions_ok_fold_remove)
qed

lemma retire_shape:
  assumes wf: "hm_wf (sm_sessions mgr)" and rt: "retire_draining mgr = (mgr', ks)"
  shows "mgr' = remove_sessions ks mgr" and "set ks = {k. manager_phase mgr k = Some Draining}"
proof -
  show "mgr' = remove_sessions ks mgr" using rt by (auto simp: retire_draining_def Let_def)
  show "set ks = {k. manager_phase mgr k = Some Draining}"
  proof (rule set_eqI)
    fix x
    show "x \<in> set ks \<longleftrightarrow> x \<in> {k. manager_phase mgr k = Some Draining}"
      using rt by (auto simp: retire_draining_def Let_def manager_phase_def hm_get_in_set [OF wf]
          split: if_splits intro!: bexI [of _ "(x, _)"])
  qed
qed

lemma hinv_retire:
  assumes h: "hinv local F mgr" and rt: "retire_draining mgr = (mgr', ks)"
  shows "hinv local F mgr'"
proof -
  note D = history_invD [OF h]
  note R = retire_shape [OF D(5) rt]
  have "routes_but F (fold hm_remove ks (sm_sessions mgr)) (sm_active_routes mgr)"
    by (rule routes_but_inactive [OF D(4)])
       (auto simp: fold_remove_get R(2) manager_phase_def split: if_splits)
  with D R(1) show ?thesis
    by (simp add: history_inv_def remove_sessions_def table_agrees_def sessions_ok_fold_remove)
qed

lemma fail_shape:
  assumes h: "hinv local F mgr" and fl: "manager_fail deact mgr k = (mgr', res)"
  shows "sm_sessions mgr' = hm_remove k (sm_sessions mgr)"
    and "res = Inr b \<Longrightarrow> hm_get (sm_active_routes mgr') =
          drop_owned (sm_sessions mgr) {k} (hm_get (sm_active_routes mgr))"
    and "res = Inl e \<Longrightarrow> sm_active_routes mgr' = sm_active_routes mgr
          \<and> (\<exists>m. hm_get (sm_sessions mgr) k = Some m
               \<and> hm_get (sm_active_routes mgr) (t_selector (ms_ticket m)) = Some k)"
    and "rinv (sm_routes mgr') \<and> table_agrees table mgr' \<and> hm_wf (sm_active_routes mgr')"
proof -
  note D = history_invD [OF h]
  let ?m1 = "mgr\<lparr> sm_sessions := hm_remove k (sm_sessions mgr) \<rparr>"
  let ?owns = "\<exists>m. hm_get (sm_sessions mgr) k = Some m
      \<and> hm_get (sm_active_routes mgr) (t_selector (ms_ticket m)) = Some k"
  have m1: "table_agrees table ?m1" using D(2) by (simp add: table_agrees_def)
  have "sm_sessions mgr' = hm_remove k (sm_sessions mgr)
    \<and> (\<forall>b. res = Inr b \<longrightarrow> hm_get (sm_active_routes mgr') =
          drop_owned (sm_sessions mgr) {k} (hm_get (sm_active_routes mgr)))
    \<and> (\<forall>e. res = Inl e \<longrightarrow> sm_active_routes mgr' = sm_active_routes mgr \<and> ?owns)
    \<and> rinv (sm_routes mgr') \<and> table_agrees table mgr' \<and> hm_wf (sm_active_routes mgr')"
  proof (cases ?owns)
    case False
    have "hm_remove k (sm_sessions mgr) = sm_sessions mgr" if "hm_get (sm_sessions mgr) k = None"
      using that by (simp add: delete_id map_of_eq_None_iff)
    with False fl have mgr': "mgr' = ?m1" and "\<exists>b. res = Inr b"
      by (auto simp: manager_fail_def Let_def split: option.splits if_splits)
    with m1 D routes_butD(1) [OF D(4)] False show ?thesis by (auto simp: drop_owned_absent)
  next
    case True
    then obtain m where m: "hm_get (sm_sessions mgr) k = Some m"
      and owner: "hm_get (sm_active_routes mgr) (t_selector (ms_ticket m)) = Some k" by blast
    let ?sel = "t_selector (ms_ticket m)"
    obtain r dr where dr: "deact (sm_routes mgr) ?sel = (r, dr)" by (rule prod.exhaust)
    show ?thesis
    proof (cases dr)
      case (Inl e)
      with fl m owner dr have mgr': "mgr' = ?m1\<lparr> sm_routes := r \<rparr>" and "res = Inl e"
        by (auto simp: manager_fail_def Let_def)
      with Inl dr deact_err [OF D(1)] D routes_butD(1) [OF D(4)] m owner show ?thesis
        by (auto simp: table_agrees_def)
    next
      case (Inr u)
      with fl m owner dr have res: "res = Inr True"
        and mgr': "mgr' = ?m1\<lparr> sm_routes := r, sm_active_routes := hm_remove ?sel (sm_active_routes mgr) \<rparr>"
        by (auto simp: manager_fail_def Let_def)
      from deact_ok [OF D(1)] dr Inr have r: "rinv r" "table r = (table (sm_routes ?m1))(?sel := None)" by auto
      have "(hm_get (sm_active_routes mgr))(?sel := None) =
          drop_owned (sm_sessions mgr) {k} (hm_get (sm_active_routes mgr))"
        using drop_owned_remove [where rs = "hm_get (sm_active_routes mgr)" and K = "{}", OF m owner] by simp
      with r table_agrees_remove [OF m1 r(2)] routes_butD(1) [OF D(4)] res mgr' show ?thesis
        by (auto simp del: fun_upd_apply)
    qed
  qed
  then show "sm_sessions mgr' = hm_remove k (sm_sessions mgr)"
    and "res = Inr b \<Longrightarrow> hm_get (sm_active_routes mgr') =
          drop_owned (sm_sessions mgr) {k} (hm_get (sm_active_routes mgr))"
    and "res = Inl e \<Longrightarrow> sm_active_routes mgr' = sm_active_routes mgr \<and> ?owns"
    and "rinv (sm_routes mgr') \<and> table_agrees table mgr' \<and> hm_wf (sm_active_routes mgr')"
    by blast+
qed

lemma hinv_fail:
  assumes h: "hinv local F mgr" and fl: "manager_fail deact mgr k = (mgr', res)"
  shows "hinv local (case res of Inl _ \<Rightarrow> insert k F | Inr _ \<Rightarrow> F) mgr'"
proof -
  note D = history_invD [OF h]
  note S = fail_shape [OF h fl]
  have ss: "hm_get (sm_sessions mgr') x = (if x \<in> {k} then None else hm_get (sm_sessions mgr) x)" for x
    by (simp add: S(1))
  have "routes_but (case res of Inl _ \<Rightarrow> insert k F | Inr _ \<Rightarrow> F) (sm_sessions mgr') (sm_active_routes mgr')"
  proof (cases res)
    case (Inl e)
    show ?thesis
      using routes_butD [OF D(4)] S(3) [OF Inl]
      by (auto simp: Inl routes_but_def ss split: if_splits)
  next
    case (Inr b)
    with S(4) routes_but_drop_owned [OF D(4) _ S(2) [OF Inr] ss] show ?thesis by simp
  qed
  with S(1,4) D(3) show ?thesis by (simp add: history_inv_def sessions_ok_remove)
qed

lemma owner_step_hinv:
  assumes "owner_step act deact kh pub local mgr ev mgr'" and h: "hinv local F mgr"
  shows "hinv local (F \<union> refused_sessions ev) mgr'"
  using assms(1)
proof (cases rule: owner_step.cases)
  case (owner_refused k e)
  with hinv_fail [OF h owner_refused(2)] show ?thesis by simp
next
  case (owner_call e)
  from owner_call(2) h have "hinv local F mgr'"
    by (cases rule: manager_step.cases)
       (use hinv_fail in \<open>fastforce intro: hinv_receive hinv_mark hinv_auth expire_shape(4) hinv_retire\<close>)+
  with owner_call(1) show ?thesis by simp
qed

lemma history_hinv:
  assumes "rinv r0" and "table r0 = Map.empty" and "manager_history act deact kh pub local r0 mgr F"
  shows "hinv local F mgr"
  using assms(3)
proof (induction rule: manager_history.induct)
  case history_new
  show ?case using assms(1,2)
    by (simp add: history_inv_def manager_new_def table_agrees_def sessions_ok_def routes_but_def)
next
  case (history_step mgr F ev mgr')
  then show ?case by (blast intro: owner_step_hinv)
qed

subsection \<open>Simulation\<close>

lemma lease_table_receive:
  assumes "manager_receive_ticket kh pub mgr t sender local now = (mgr', r)"
  shows "lease_table mgr' = lease_admit local t sender now (lease_table mgr)"
  using receive_shape [OF assms]
  by (auto simp: lease_table_def lease_admit_def manager_phase_def fun_eq_iff)

lemma lease_table_mark:
  assumes "mark_handshaking mgr k = (mgr', r)"
  shows "lease_table mgr' = lease_table mgr"
  using assms by (cases rule: mark_shape) (auto simp: lease_table_def manager_phase_def set_phase_get fun_eq_iff)

lemma lease_table_auth:
  assumes au: "authenticated_handshake act mgr k now = (mgr', res)"
  shows "lease_step local (lease_table mgr) (Call (EvAuthenticated k now)) (lease_table mgr')"
  using au
proof (cases rule: auth_shapes)
  case (route_error e r m)
  then have "lease_table mgr' = lease_table mgr" by (simp add: lease_table_def manager_phase_def)
  then show ?thesis by (simp add: lease_step.lease_rejected)
next
  case (activated r m drained)
  let ?sel = "t_selector (ms_ticket m)"
  have ss: "sm_sessions mgr' = activated_sessions k ?sel (sm_active_routes mgr) (sm_sessions mgr)"
    by (simp add: activated_sessions_def activated(5,6))
  have rs: "hm_get (sm_active_routes mgr') = (hm_get (sm_active_routes mgr))(?sel \<mapsto> k)"
    by (simp add: activated(6) fun_eq_iff)
  note get = activated_sessions_get [OF activated(1), of ?sel "sm_active_routes mgr"]
  have known: "ls_known (lease_table mgr') = ls_known (lease_table mgr)"
    using activated(1) by (auto simp: lease_table_def ss get fun_eq_iff option.map_comp comp_def)
  have "ls_replaced (lease_table mgr') = ls_replaced (lease_take_over k ?sel (lease_table mgr))"
    by (auto simp: lease_table_def lease_take_over_def manager_phase_def ss get split: if_splits)
  with known rs have "lease_table mgr' = lease_take_over k ?sel (lease_table mgr)"
    by (simp add: lease_table_def lease_take_over_def fun_eq_iff)
  moreover have "ls_known (lease_table mgr) k = Some (?sel, t_expires_at (ms_ticket m))"
    using activated(1) by (simp add: lease_table_def)
  ultimately show ?thesis using activated(3) by (simp add: lease_step.lease_install)
qed (simp_all add: lease_step.lease_rejected)

lemma lease_table_drop:
  assumes "\<And>k. hm_get (sm_sessions mgr') k = (if k \<in> K then None else hm_get (sm_sessions mgr) k)"
    and "hm_get (sm_active_routes mgr') = drop_owned (sm_sessions mgr) K (hm_get (sm_active_routes mgr))"
  shows "lease_table mgr' = lease_drop K (lease_table mgr)"
  using assms
  by (auto simp: lease_table_def lease_drop_def drop_owned_def manager_phase_def fun_eq_iff restrict_map_def)

lemma lease_table_forget:
  assumes "\<And>k. hm_get (sm_sessions mgr') k = (if k \<in> K then None else hm_get (sm_sessions mgr) k)"
    and "sm_active_routes mgr' = sm_active_routes mgr"
  shows "lease_table mgr' = lease_forget K (lease_table mgr)"
  using assms by (auto simp: lease_table_def lease_forget_def manager_phase_def fun_eq_iff restrict_map_def)

lemma manager_step_simulates:
  assumes step: "manager_step act deact kh pub local mgr ev mgr'" and h: "hinv local F mgr"
  shows "lease_step local (lease_table mgr) (Call ev) (lease_table mgr')"
  using step
proof (cases rule: manager_step.cases)
  case (step_receive t sender now r)
  with lease_table_receive [OF step_receive(2)] show ?thesis by (simp add: lease_step.lease_ticket)
next
  case (step_mark k r)
  with lease_table_mark [OF step_mark(2)] show ?thesis by (simp add: lease_step.lease_mark)
next
  case (step_auth k now r)
  with lease_table_auth [OF step_auth(2)] show ?thesis by simp
next
  case (step_expire now ks)
  note E = expire_shape [OF h step_expire(2)]
  have "set ks = lease_expired now (lease_table mgr)"
    by (auto simp: E(1) lease_expired_def lease_table_def)
  with lease_table_drop [of mgr' "set ks" mgr] E(2,3) step_expire(1) show ?thesis
    by (simp add: fold_remove_get lease_step.lease_expiry)
next
  case (step_retire ks)
  note R = retire_shape [OF history_invD(5) [OF h] step_retire(2)]
  have "set ks = ls_replaced (lease_table mgr)" by (simp add: R(2) lease_table_def)
  with lease_table_forget [of mgr' "set ks" mgr] R(1) step_retire(1) show ?thesis
    by (simp add: remove_sessions_def fold_remove_get lease_step.lease_retire)
next
  case (step_fail k b)
  note S = fail_shape [OF h step_fail(2)]
  with lease_table_drop [of mgr' "{k}" mgr] step_fail(1) show ?thesis
    by (simp add: lease_step.lease_fail)
qed

lemma owner_step_simulates:
  assumes step: "owner_step act deact kh pub local mgr ev mgr'" and h: "hinv local F mgr"
  shows "lease_step local (lease_table mgr) ev (lease_table mgr')"
  using step
proof (cases rule: owner_step.cases)
  case (owner_call e)
  with manager_step_simulates [OF owner_call(2) h] show ?thesis by simp
next
  case (owner_refused k e)
  note S = fail_shape [OF h owner_refused(2)]
  from S(3) [of e] obtain m where "hm_get (sm_sessions mgr) k = Some m"
    "hm_get (sm_active_routes mgr) (t_selector (ms_ticket m)) = Some k"
    and same: "sm_active_routes mgr' = sm_active_routes mgr" by auto
  then have "ls_known (lease_table mgr) k = Some (t_selector (ms_ticket m), t_expires_at (ms_ticket m))"
    "ls_owner (lease_table mgr) (t_selector (ms_ticket m)) = Some k" by (simp_all add: lease_table_def)
  from lease_step.lease_refused [OF this] lease_table_forget [of mgr' "{k}" mgr] S(1) same owner_refused(1)
  show ?thesis by simp
qed

lemma history_table:
  assumes "hinv local F mgr"
  shows "table (sm_routes mgr) = map_option RouteTarget \<circ> ls_owner (lease_table mgr)"
  using history_invD(2) [OF assms] by (simp add: table_agrees_def lease_table_def comp_def)

end

end
