(* ===== verification/Route_Stack.thy ===== *)
theory Route_Stack
  imports Device Lease_Table
begin

text \<open>
  The route manager a node runs: \<open>ShortcutManager\<close> over \<open>AtomicRouteManager\<close> over the device's
  routing table and \<open>SystemPolicy\<close>, as \<open>main.rs\<close> puts them together.  For every \<open>ip\<close> tool that
  behaves as documented the stack is a \<open>route_manager\<close>; the properties at the end are stated on
  the stack itself.
\<close>

section \<open>What a step does to the table\<close>

context route_manager
begin

lemma table_iff:
  assumes "inv local mgr"
  shows "table (sm_routes mgr) sel = Some (RouteTarget k) \<longleftrightarrow>
    (\<exists>m. hm_get (sm_sessions mgr) k = Some m \<and> ms_phase m = Active \<and> t_selector (ms_ticket m) = sel)"
proof -
  from manager_invD(2) [OF assms] have "table (sm_routes mgr) sel = Some (RouteTarget k) \<longleftrightarrow>
      hm_get (sm_active_routes mgr) sel = Some k" by (auto simp: table_agrees_def)
  with manager_invD(4) [OF assms] show ?thesis unfolding routes_ok_def by blast
qed

lemma same_table:
  assumes "inv local mgr" and "inv local mgr'" and "sm_active_routes mgr' = sm_active_routes mgr"
  shows "table (sm_routes mgr') = table (sm_routes mgr)"
  using manager_invD(2) [OF assms(1)] manager_invD(2) [OF assms(2)] assms(3)
  by (simp add: table_agrees_def)

lemma route_added:
  assumes step: "manager_step act deact kh pub local mgr ev mgr'" and inv: "inv local mgr"
    and new: "table (sm_routes mgr') sel = Some (RouteTarget k)"
    and old: "table (sm_routes mgr) sel \<noteq> Some (RouteTarget k)"
  shows "\<exists>now m. ev = EvAuthenticated k now \<and> hm_get (sm_sessions mgr) k = Some m
    \<and> t_selector (ms_ticket m) = sel \<and> now < t_expires_at (ms_ticket m)"
proof -
  note inv' = step_inv [OF step inv]
  have routes: "hm_get (sm_active_routes mgr') sel = Some k" "hm_get (sm_active_routes mgr) sel \<noteq> Some k"
    using new old manager_invD(2) [OF inv] manager_invD(2) [OF inv'] by (auto simp: table_agrees_def)
  show ?thesis
    using step
  proof (cases rule: manager_step.cases)
    case (step_receive t sender now r)
    then have "sm_active_routes mgr' = sm_active_routes mgr"
      by (auto simp: manager_receive_ticket_def Let_def split: sum.splits if_splits option.splits)
    with routes show ?thesis by simp
  next
    case (step_mark j r)
    then have "sm_active_routes mgr' = sm_active_routes mgr"
      by (auto simp: mark_handshaking_def split: option.splits if_splits)
    with routes show ?thesis by simp
  next
    case (step_auth j now r)
    from inv step_auth(2) show ?thesis
    proof (cases rule: auth_cases)
      case (activated r' m drained)
      with routes step_auth(1) show ?thesis by (auto split: if_splits)
    qed (use routes in auto)
  next
    case (step_expire now ks)
    from expire_cases(4) [OF inv step_expire(2)] routes show ?thesis
      by (auto simp: drop_owners_def split: option.splits if_splits)
  next
    case (step_retire ks)
    from inv_retire(3) [OF inv step_retire(2)] routes show ?thesis by simp
  next
    case (step_fail j b)
    from fail_cases(3) [OF inv step_fail(2)] routes show ?thesis
      by (auto simp: drop_owners_def split: option.splits if_splits)
  qed
qed

lemma expire_exact:
  assumes inv: "inv local mgr" and ex: "manager_expire deact mgr now = (mgr', Inr ks)"
  shows "hm_get (sm_sessions mgr') k =
      (case hm_get (sm_sessions mgr) k of None \<Rightarrow> None
       | Some m \<Rightarrow> if t_expires_at (ms_ticket m) \<le> now then None else Some m)"
    and "k \<in> set ks \<longleftrightarrow> (\<exists>m. hm_get (sm_sessions mgr) k = Some m \<and> t_expires_at (ms_ticket m) \<le> now)"
    and "table (sm_routes mgr') sel = Some (RouteTarget k) \<longleftrightarrow>
      table (sm_routes mgr) sel = Some (RouteTarget k)
      \<and> (\<forall>m. hm_get (sm_sessions mgr) k = Some m \<longrightarrow> now < t_expires_at (ms_ticket m))"
proof -
  note E = expire_cases [OF inv ex]
  have wf: "hm_wf (sm_sessions mgr)" using sessions_okD(1) [OF manager_invD(3) [OF inv]] .
  show ks: "k \<in> set ks \<longleftrightarrow> (\<exists>m. hm_get (sm_sessions mgr) k = Some m \<and> t_expires_at (ms_ticket m) \<le> now)"
    for k using E(1) in_expired_sessions [OF wf] by simp
  show get: "hm_get (sm_sessions mgr') k =
      (case hm_get (sm_sessions mgr) k of None \<Rightarrow> None
       | Some m \<Rightarrow> if t_expires_at (ms_ticket m) \<le> now then None else Some m)"
    unfolding E(3) fold_remove_get ks by (auto split: option.splits)
  show "table (sm_routes mgr') sel = Some (RouteTarget k) \<longleftrightarrow>
      table (sm_routes mgr) sel = Some (RouteTarget k)
      \<and> (\<forall>m. hm_get (sm_sessions mgr) k = Some m \<longrightarrow> now < t_expires_at (ms_ticket m))"
    unfolding table_iff [OF inv] table_iff [OF E(2)] get by (auto split: option.splits if_splits)
qed

lemma renewal:
  assumes inv: "inv local mgr" and old: "table (sm_routes mgr) sel = Some (RouteTarget j)"
    and m: "hm_get (sm_sessions mgr) k = Some m" "t_selector (ms_ticket m) = sel" "k \<noteq> j"
    and au: "authenticated_handshake act mgr k now = (mgr', Inr True)"
  shows "table (sm_routes mgr') sel = Some (RouteTarget k)"
    and "manager_phase mgr' j = Some Draining" and "manager_phase mgr' k = Some Active"
    and "retire_draining mgr' = (mgr'', ks) \<Longrightarrow>
      j \<in> set ks \<and> table (sm_routes mgr'') = table (sm_routes mgr')
      \<and> manager_phase mgr'' k = Some Active \<and> manager_phase mgr'' j = None"
proof -
  note inv' = inv_auth [OF inv au]
  have act_j: "hm_get (sm_active_routes mgr) sel = Some j"
    using old manager_invD(2) [OF inv] by (auto simp: table_agrees_def)
  obtain mj where mj: "hm_get (sm_sessions mgr) j = Some mj"
    using routes_okD(1) [OF manager_invD(4) [OF inv] act_j] by blast
  from inv au have mgr': "sm_sessions mgr' = set_phase k Active (set_phase j Draining (sm_sessions mgr))
    \<and> hm_get (sm_active_routes mgr') sel = Some k"
  proof (cases rule: auth_cases)
    case (activated r m' drained)
    with m act_j show ?thesis by (auto split: option.splits)
  qed simp_all
  then show new: "table (sm_routes mgr') sel = Some (RouteTarget k)"
    using manager_invD(2) [OF inv'] by (auto simp: table_agrees_def)
  show ph: "manager_phase mgr' j = Some Draining" "manager_phase mgr' k = Some Active"
    using mgr' m mj by (auto simp: manager_phase_def set_phase_get)
  assume rt: "retire_draining mgr' = (mgr'', ks)"
  note R = inv_retire [OF inv' rt]
  have wf: "hm_wf (sm_sessions mgr')" using sessions_okD(1) [OF manager_invD(3) [OF inv']] .
  have ks: "x \<in> set ks \<longleftrightarrow> manager_phase mgr' x = Some Draining" for x
    using rt by (auto simp: retire_draining_def Let_def manager_phase_def hm_get_in_set [OF wf]
        split: if_splits intro!: bexI [of _ "(x, _)"])
  have "manager_phase mgr'' x = (if x \<in> set ks then None else manager_phase mgr' x)" for x
    using rt by (auto simp: retire_draining_def remove_sessions_def manager_phase_def fold_remove_get Let_def)
  with ph ks R(2) show "j \<in> set ks \<and> table (sm_routes mgr'') = table (sm_routes mgr')
      \<and> manager_phase mgr'' k = Some Active \<and> manager_phase mgr'' j = None"
    by simp
qed

text \<open>A route whose owner is no longer a session is out of reach of \<open>expire\<close>.\<close>

lemma expire_routes_keeps_orphan:
  assumes "rinv (sm_routes mgr)" and "hm_get (sm_sessions mgr) k = None"
    and "hm_get (sm_active_routes mgr) sel = Some k" and "expire_routes deact mgr ks = (mgr', res)"
  shows "rinv (sm_routes mgr') \<and> table (sm_routes mgr') sel = table (sm_routes mgr) sel
    \<and> hm_get (sm_active_routes mgr') sel = Some k \<and> sm_sessions mgr' = sm_sessions mgr"
  using assms
proof (induction ks arbitrary: mgr)
  case Nil
  then show ?case by auto
next
  case (Cons j ks)
  show ?case
  proof (cases "\<exists>m. hm_get (sm_sessions mgr) j = Some m
      \<and> hm_get (sm_active_routes mgr) (t_selector (ms_ticket m)) = Some j")
    case False
    then have "expire_routes deact mgr ks = (mgr', res)"
      using Cons.prems(4) by (auto simp: Let_def split: option.splits if_splits)
    from Cons.IH [OF Cons.prems(1-3) this] show ?thesis .
  next
    case True
    then obtain m where m: "hm_get (sm_sessions mgr) j = Some m"
      and a: "hm_get (sm_active_routes mgr) (t_selector (ms_ticket m)) = Some j" by blast
    let ?s = "t_selector (ms_ticket m)"
    from m Cons.prems(2) have "j \<noteq> k" by auto
    with a Cons.prems(3) have other: "?s \<noteq> sel" by auto
    obtain r dr where dr: "deact (sm_routes mgr) ?s = (r, dr)" by (rule prod.exhaust)
    show ?thesis
    proof (cases dr)
      case (Inl e)
      with m a dr Cons.prems(4) have "mgr' = mgr\<lparr> sm_routes := r \<rparr>" by (auto simp: Let_def)
      with Inl dr deact_err [OF Cons.prems(1)] Cons.prems(3) show ?thesis by auto
    next
      case (Inr u)
      let ?m1 = "mgr\<lparr> sm_routes := r, sm_active_routes := hm_remove ?s (sm_active_routes mgr) \<rparr>"
      from Inr dr deact_ok [OF Cons.prems(1)] have r: "rinv r" "table r = (table (sm_routes mgr))(?s := None)"
        by blast+
      have "expire_routes deact ?m1 ks = (mgr', res)"
        using Cons.prems(4) m a dr Inr by (simp add: Let_def)
      from Cons.IH [OF _ _ _ this] r Cons.prems(2,3) other show ?thesis by auto
    qed
  qed
qed

lemma failed_fail_orphans:
  assumes inv: "inv local mgr" and owner: "table (sm_routes mgr) sel = Some (RouteTarget k)"
    and fl: "manager_fail deact mgr k = (mgr', Inl e)"
  shows "hm_get (sm_sessions mgr') k = None" and "table (sm_routes mgr') sel = Some (RouteTarget k)"
    and "manager_expire deact mgr' now = (mgr'', Inr ks) \<Longrightarrow>
      table (sm_routes mgr'') sel = Some (RouteTarget k)"
proof -
  note D = manager_invD [OF inv]
  have a: "hm_get (sm_active_routes mgr) sel = Some k" using owner D(2) by (auto simp: table_agrees_def)
  obtain m where m: "hm_get (sm_sessions mgr) k = Some m" "t_selector (ms_ticket m) = sel"
    using routes_okD(1) [OF D(4) a] by blast
  obtain r dr where dr: "deact (sm_routes mgr) sel = (r, dr)" by (rule prod.exhaust)
  from fl m a dr have "dr = Inl e"
    and mgr': "mgr' = mgr\<lparr> sm_sessions := hm_remove k (sm_sessions mgr), sm_routes := r \<rparr>"
    by (auto simp: manager_fail_def Let_def split: sum.splits)
  with dr deact_err [OF D(1)] have r: "rinv r" "table r = table (sm_routes mgr)" by blast+
  show gone: "hm_get (sm_sessions mgr') k = None" by (simp add: mgr')
  show kept: "table (sm_routes mgr') sel = Some (RouteTarget k)" using r owner by (simp add: mgr')
  assume ex: "manager_expire deact mgr' now = (mgr'', Inr ks)"
  obtain m1 res where st: "expire_routes deact mgr' (expired_sessions mgr' now) = (m1, res)"
    by (rule prod.exhaust)
  with ex have "sm_routes mgr'' = sm_routes m1"
    by (auto simp: manager_expire_def remove_sessions_def Let_def split: sum.splits)
  moreover have "table (sm_routes m1) sel = table (sm_routes mgr') sel"
    using expire_routes_keeps_orphan [OF _ gone _ st] r a by (simp add: mgr')
  ultimately show "table (sm_routes mgr'') sel = Some (RouteTarget k)" using kept by simp
qed

end

section \<open>Tearing routes down\<close>

text \<open>
  A route manager whose deactivation succeeds, as it does while \<open>ip rule del\<close> works: \<open>expire\<close> and
  \<open>fail\<close> then complete.
\<close>

locale sure_routes = route_manager act deact table rinv
  for act :: "'r activate_fn" and deact :: "'r deactivate_fn"
    and table :: "'r \<Rightarrow> ipnet \<rightharpoonup> route_target" and rinv :: "'r \<Rightarrow> bool" +
  assumes deact_total: "rinv r \<Longrightarrow> \<exists>r'. deact r s = (r', Inr ())"
begin

lemma expire_routes_total:
  "rinv (sm_routes mgr) \<Longrightarrow> \<exists>mgr'. expire_routes deact mgr ks = (mgr', Inr ())"
proof (induction ks arbitrary: mgr)
  case (Cons k ks)
  show ?case
  proof (cases "\<exists>m. hm_get (sm_sessions mgr) k = Some m
      \<and> hm_get (sm_active_routes mgr) (t_selector (ms_ticket m)) = Some k")
    case False
    then have "expire_routes deact mgr (k # ks) = expire_routes deact mgr ks"
      by (auto simp: Let_def split: option.splits)
    with Cons show ?thesis by simp
  next
    case True
    then obtain m where m: "hm_get (sm_sessions mgr) k = Some m"
      "hm_get (sm_active_routes mgr) (t_selector (ms_ticket m)) = Some k" by blast
    obtain r where r: "deact (sm_routes mgr) (t_selector (ms_ticket m)) = (r, Inr ())"
      using deact_total [OF Cons.prems] by blast
    then have "rinv r" using deact_ok [OF Cons.prems] by blast
    with Cons.IH [of "mgr\<lparr> sm_routes := r,
        sm_active_routes := hm_remove (t_selector (ms_ticket m)) (sm_active_routes mgr) \<rparr>"] m r
    show ?thesis by (simp add: Let_def)
  qed
qed simp

lemma expire_total: "inv local mgr \<Longrightarrow> \<exists>mgr' ks. manager_expire deact mgr now = (mgr', Inr ks)"
proof -
  assume "inv local mgr"
  from expire_routes_total [OF manager_invD(1) [OF this]] obtain mgr' where
    "expire_routes deact mgr (expired_sessions mgr now) = (mgr', Inr ())" by blast
  then show ?thesis by (simp add: manager_expire_def Let_def)
qed

lemma fail_total:
  assumes "inv local mgr"
  shows "\<exists>mgr' b. manager_fail deact mgr k = (mgr', Inr b)"
proof (cases "hm_get (sm_sessions mgr) k")
  case (Some m)
  obtain r where "deact (sm_routes mgr) (t_selector (ms_ticket m)) = (r, Inr ())"
    using deact_total [OF manager_invD(1) [OF assms]] by blast
  with Some have "\<exists>mgr'. manager_fail deact mgr k = (mgr', Inr True)" by (simp add: manager_fail_def Let_def)
  then show ?thesis by blast
next
  case None
  then have "manager_fail deact mgr k = (mgr, Inr False)" by (simp add: manager_fail_def)
  then show ?thesis by blast
qed

lemma fail_inv: "inv local mgr \<Longrightarrow> manager_fail deact mgr k = (mgr', r) \<Longrightarrow> inv local mgr'"
  using fail_total fail_cases(1) by (metis Pair_inject)

end

section \<open>The stack\<close>

type_synonym 'k node_routes = "(device_routes, 'k) atomic_route_manager"

abbreviation node_activate ::
    "'k ip_fn \<Rightarrow> (bytes \<Rightarrow> bytes) \<Rightarrow> (ipnet \<Rightarrow> string) \<Rightarrow> system_policy
     \<Rightarrow> (device_routes, 'k) atomic_route_manager activate_fn" where
  "node_activate ip hash ns sp \<equiv> atomic_activate device_replace device_remove (policy_install ip hash ns sp)"

abbreviation node_deactivate ::
    "'k ip_fn \<Rightarrow> (bytes \<Rightarrow> bytes) \<Rightarrow> (ipnet \<Rightarrow> string) \<Rightarrow> system_policy
     \<Rightarrow> (device_routes, 'k) atomic_route_manager deactivate_fn" where
  "node_deactivate ip hash ns sp \<equiv> atomic_deactivate device_remove (policy_remove ip hash ns sp)"

abbreviation node_table :: "(device_routes, 'k) atomic_route_manager shortcut_manager \<Rightarrow> ipnet \<rightharpoonup> route_target"
  where "node_table mgr \<equiv> device_table (ar_userspace (sm_routes mgr))"

abbreviation node_rules ::
    "('k \<Rightarrow> ipnet set) \<Rightarrow> (device_routes, 'k) atomic_route_manager shortcut_manager \<Rightarrow> ipnet set" where
  "node_rules rules mgr \<equiv> rules (ar_policy (sm_routes mgr))"

sublocale ip_tool \<subseteq> stack: atomic_routes device_replace device_remove device_table
  "\<lambda>d. \<not> dr_poisoned d" "policy_install ip hash net_string sp" "policy_remove ip hash net_string sp" rules
  by unfold_locales

context ip_tool
begin

lemmas node_reachable_inv = stack.atomic.reachable_inv
lemmas node_table_iff = stack.atomic.table_iff
lemmas node_step_inv = stack.atomic.step_inv
lemmas node_history_hinv = stack.atomic.history_hinv
lemmas node_owner_step_simulates = stack.atomic.owner_step_simulates
lemmas node_history_table = stack.atomic.history_table
lemmas node_route_added = stack.atomic.route_added
lemmas node_expire_exact = stack.atomic.expire_exact
lemmas node_renewal = stack.atomic.renewal
lemmas node_failed_fail_orphans = stack.atomic.failed_fail_orphans

end

definition ready_inv :: "('k \<Rightarrow> ipnet set) \<Rightarrow> 'k node_routes \<Rightarrow> bool" where
  "ready_inv rules a \<longleftrightarrow> atomic_inv device_table rules a \<and> \<not> dr_poisoned (ar_userspace a)"

lemma node_activate_ready:
  "node_activate ip hash ns sp a s t = (a', r) \<Longrightarrow> dr_poisoned (ar_userspace a') = dr_poisoned (ar_userspace a)"
  by (auto simp: atomic_activate_def device_replace_def device_remove_def
      split: prod.splits sum.splits if_splits option.splits)

lemma node_deactivate_ready:
  "node_deactivate ip hash ns sp a s = (a', r) \<Longrightarrow> dr_poisoned (ar_userspace a') = dr_poisoned (ar_userspace a)"
  by (auto simp: atomic_deactivate_def device_remove_def split: prod.splits sum.splits if_splits)

text \<open>While the tool can delete rules, the node's routes can always be torn down.\<close>

context ip_tool
begin

lemma node_sure:
  assumes del: "\<And>k s. \<exists>k'. policy_remove ip hash net_string sp k s = (k', Inr ())"
  shows "sure_routes (node_activate ip hash net_string sp) (node_deactivate ip hash net_string sp)
    (\<lambda>a. device_table (ar_userspace a)) (ready_inv rules)"
proof unfold_locales
  fix r r' s t u e
  assume i: "ready_inv rules r"
  then have a: "atomic_inv device_table rules r" by (simp add: ready_inv_def)
  { assume h: "node_activate ip hash net_string sp r s t = (r', Inr u)"
    from stack.atomic.act_ok [OF a h] node_activate_ready [OF h] i
    show "ready_inv rules r' \<and> device_table (ar_userspace r') = (device_table (ar_userspace r))(s \<mapsto> t)"
      unfolding ready_inv_def by blast }
  { assume h: "node_activate ip hash net_string sp r s t = (r', Inl e)"
    from stack.atomic.act_err [OF a h] node_activate_ready [OF h] i
    show "ready_inv rules r' \<and> device_table (ar_userspace r') = device_table (ar_userspace r)"
      unfolding ready_inv_def by blast }
  { assume h: "node_deactivate ip hash net_string sp r s = (r', Inr u)"
    from stack.atomic.deact_ok [OF a h] node_deactivate_ready [OF h] i
    show "ready_inv rules r' \<and> device_table (ar_userspace r') = (device_table (ar_userspace r))(s := None)"
      unfolding ready_inv_def by blast }
  { assume h: "node_deactivate ip hash net_string sp r s = (r', Inl e)"
    from stack.atomic.deact_err [OF a h] node_deactivate_ready [OF h] i
    show "ready_inv rules r' \<and> device_table (ar_userspace r') = device_table (ar_userspace r)"
      unfolding ready_inv_def by blast }
  obtain k' where "policy_remove ip hash net_string sp (ar_policy r) s = (k', Inr ())" using del by blast
  with i show "\<exists>r'. node_deactivate ip hash net_string sp r s = (r', Inr ())"
    by (auto simp: ready_inv_def atomic_deactivate_def device_remove_def)
qed

end

lemma ready_manager_inv: "manager_inv table (ready_inv rules) local mgr \<Longrightarrow>
    manager_inv table (atomic_inv device_table rules) local mgr"
  by (simp add: manager_inv_def ready_inv_def)

section \<open>A kernel that keeps rules\<close>

text \<open>
  An \<open>ip\<close> tool over a list of rules, as the concrete instance of the assumptions: a rule is its
  family and the arguments after the operation; adding one twice fails with \<open>File exists\<close>, and
  deleting an absent one with \<open>No such file or directory\<close>.
\<close>

definition tool_ok :: process_output where
  "tool_ok = \<lparr> out_success = True, out_stdout = [], out_stderr = [] \<rparr>"

definition tool_failed :: "string \<Rightarrow> process_output" where
  "tool_failed msg = \<lparr> out_success = False, out_stdout = [], out_stderr = msg \<rparr>"

fun change_rule :: "string list list \<Rightarrow> string list \<Rightarrow> string list list \<times> process_output res" where
  "change_rule k (family # rule # op # body) =
     (if rule = ''rule'' \<and> op = ''add'' then
        (if family # body \<in> set k then (k, Inr (tool_failed ''RTNETLINK answers: File exists''))
         else ((family # body) # k, Inr tool_ok))
      else if rule = ''rule'' \<and> op = ''del'' then
        (if family # body \<in> set k then (removeAll (family # body) k, Inr tool_ok)
         else (k, Inr (tool_failed ''RTNETLINK answers: No such file or directory'')))
      else (k, Inr tool_ok))"
| "change_rule k _ = (k, Inr tool_ok)"

definition list_ip :: "string list list ip_fn" where
  "list_ip k args =
     (case args of
        first # _ \<Rightarrow> if first = ''-6'' \<or> first = ''-4'' then change_rule k args else change_rule k (''-4'' # args)
      | [] \<Rightarrow> (k, Inr tool_ok))"

text \<open>An injective rendering of networks: family, address bytes and prefix length.\<close>

fun raw_net_string :: "ipnet \<Rightarrow> string" where
  "raw_net_string (IpNet (V4 a) n) = CHR ''4'' # byte_char n # map byte_char (to_be_bytes a)"
| "raw_net_string (IpNet (V6 a) n) = CHR ''6'' # byte_char n # map byte_char (to_be_bytes a)"

definition rule_body :: "(bytes \<Rightarrow> bytes) \<Rightarrow> system_policy \<Rightarrow> ipnet \<Rightarrow> string list" where
  "rule_body hash sp s = (if is_ipv6 (net_addr s) then ''-6'' else ''-4'')
     # [''priority'', u32_string (rule_priority hash raw_net_string sp s), ''to'', raw_net_string s,
        ''lookup'', u32_string (sp_table sp)]"

definition list_rules :: "(bytes \<Rightarrow> bytes) \<Rightarrow> system_policy \<Rightarrow> string list list \<Rightarrow> ipnet set" where
  "list_rules hash sp k = {s. rule_body hash sp s \<in> set k}"

lemma byte_char_inj: "inj byte_char"
  by (metis char_byte_byte_char injI)

lemma raw_net_string_inj: "raw_net_string a = raw_net_string b \<longleftrightarrow> a = b"
proof
  assume e: "raw_net_string a = raw_net_string b"
  have v4: "to_be_bytes x = to_be_bytes y \<longleftrightarrow> x = y" for x y :: u32
    by (metis be_round_trip_sizes(2))
  have v6: "to_be_bytes x = to_be_bytes y \<longleftrightarrow> x = y" for x y :: "128 word"
    by (metis be_round_trip_sizes(4))
  from e show "a = b"
    by (cases a rule: raw_net_string.cases; cases b rule: raw_net_string.cases)
       (auto simp: v4 v6 inj_map_eq_map [OF byte_char_inj] inj_eq [OF byte_char_inj])
qed simp

lemma rule_body_inj: "rule_body hash sp a = rule_body hash sp b \<longleftrightarrow> a = b"
  by (auto simp: rule_body_def raw_net_string_inj)

lemma list_ip_rule:
  "list_ip k (rule_arguments hash raw_net_string sp ''add'' s) =
     (if rule_body hash sp s \<in> set k then (k, Inr (tool_failed ''RTNETLINK answers: File exists''))
      else (rule_body hash sp s # k, Inr tool_ok))"
  "list_ip k (rule_arguments hash raw_net_string sp ''del'' s) =
     (if rule_body hash sp s \<in> set k then (removeAll (rule_body hash sp s) k, Inr tool_ok)
      else (k, Inr (tool_failed ''RTNETLINK answers: No such file or directory'')))"
  by (simp_all add: list_ip_def rule_arguments_def rule_body_def)

lemma list_ip_prepare: "list_ip k (prepare_args sp s) = (k, Inr tool_ok)"
  by (simp add: list_ip_def prepare_args_def)

lemma list_ip_runs: "\<exists>k' out. list_ip k args = (k', Inr out)"
proof -
  have "\<exists>k' out. change_rule k xs = (k', Inr out)" for xs
    by (cases "(k, xs)" rule: change_rule.cases) auto
  then show ?thesis by (auto simp: list_ip_def split: list.splits)
qed

lemma tool_messages:
  "\<not> contains_str ''RTNETLINK answers: No such file or directory'' ''File exists''"
  "contains_str ''RTNETLINK answers: No such file or directory'' ''No such file''"
  "contains_str ''RTNETLINK answers: File exists'' ''File exists''"
  "\<not> contains_str ''RTNETLINK answers: File exists'' ''No such file''"
  "\<not> contains_str ''RTNETLINK answers: File exists'' ''No such process''"
  by code_simp+

interpretation list_kernel: ip_tool list_ip hash raw_net_string sp "list_rules hash sp"
proof unfold_locales
  fix k k' args e s r out
  show "list_rules hash sp k' = list_rules hash sp k" if "list_ip k args = (k', Inl e)"
    using that list_ip_runs [of k args] by auto
  show "list_rules hash sp k' = list_rules hash sp k" if "list_ip k (prepare_args sp s) = (k', r)"
    using that by (simp add: list_ip_prepare)
  show "list_rules hash sp k' = (if out_success out then insert s (list_rules hash sp k) else list_rules hash sp k)"
    if "list_ip k (rule_arguments hash raw_net_string sp ''add'' s) = (k', Inr out)"
    using that by (auto simp: list_ip_rule list_rules_def rule_body_inj tool_ok_def tool_failed_def split: if_splits)
  show "s \<in> list_rules hash sp k"
    if "list_ip k (rule_arguments hash raw_net_string sp ''add'' s) = (k', Inr out)" "\<not> out_success out"
    using that by (auto simp: list_ip_rule list_rules_def tool_ok_def split: if_splits)
  show "list_rules hash sp k' = (if out_success out then list_rules hash sp k - {s} else list_rules hash sp k)"
    if "list_ip k (rule_arguments hash raw_net_string sp ''del'' s) = (k', Inr out)"
    using that by (auto simp: list_ip_rule list_rules_def rule_body_inj tool_ok_def tool_failed_def split: if_splits)
  show "s \<notin> list_rules hash sp k"
    if "list_ip k (rule_arguments hash raw_net_string sp ''del'' s) = (k', Inr out)" "\<not> out_success out"
    using that by (auto simp: list_ip_rule list_rules_def tool_ok_def split: if_splits)
qed

lemma list_remove_succeeds: "\<exists>k'. policy_remove list_ip hash raw_net_string sp k s = (k', Inr ())"
  using tool_messages by (auto simp: policy_remove_def list_ip_rule tool_ok_def tool_failed_def)

interpretation list_node: sure_routes "node_activate list_ip hash raw_net_string sp"
  "node_deactivate list_ip hash raw_net_string sp" "\<lambda>a. device_table (ar_userspace a)"
  "ready_inv (list_rules hash sp)"
  by (rule list_kernel.node_sure) (rule list_remove_succeeds)

section \<open>Reachable nodes\<close>

abbreviation node_step where
  "node_step ip hash ns sp \<equiv> manager_step (node_activate ip hash ns sp) (node_deactivate ip hash ns sp)"

abbreviation node_reachable where
  "node_reachable ip hash ns sp kh pub local k0 \<equiv>
     manager_reachable (node_activate ip hash ns sp) (node_deactivate ip hash ns sp) kh pub local
       (atomic_new device_routes_default k0)"

abbreviation node_owner_step where
  "node_owner_step ip hash ns sp \<equiv> owner_step (node_activate ip hash ns sp) (node_deactivate ip hash ns sp)"

abbreviation node_history where
  "node_history ip hash ns sp kh pub local k0 \<equiv>
     manager_history (node_activate ip hash ns sp) (node_deactivate ip hash ns sp) kh pub local
       (atomic_new device_routes_default k0)"

abbreviation node_inv where
  "node_inv rules \<equiv> manager_inv (\<lambda>a. device_table (ar_userspace a)) (atomic_inv device_table rules)"

lemma node_reachable_inv_stack:
  assumes "ip_tool ip hash ns sp rules" and "rules k0 = {}"
    and "node_reachable ip hash ns sp kh pub local k0 mgr"
  shows "node_inv rules local mgr"
proof (rule ip_tool.node_reachable_inv [OF assms(1) _ _ assms(3)])
  show "atomic_inv device_table rules (atomic_new device_routes_default k0)"
    using assms(2) by (simp add: atomic_inv_def atomic_new_def device_routes_default_def)
  show "device_table (ar_userspace (atomic_new device_routes_default k0)) = Map.empty"
    by (simp add: atomic_new_def device_routes_default_def)
qed

lemma node_history_inv_stack:
  assumes "ip_tool ip hash ns sp rules" and "rules k0 = {}"
    and "node_history ip hash ns sp kh pub local k0 mgr F"
  shows "history_inv (\<lambda>a. device_table (ar_userspace a)) (atomic_inv device_table rules) local F mgr"
proof (rule ip_tool.node_history_hinv [OF assms(1) _ _ assms(3)])
  show "atomic_inv device_table rules (atomic_new device_routes_default k0)"
    using assms(2) by (simp add: atomic_inv_def atomic_new_def device_routes_default_def)
  show "device_table (ar_userspace (atomic_new device_routes_default k0)) = Map.empty"
    by (simp add: atomic_new_def device_routes_default_def)
qed

text \<open>A node with one active session, for concrete instances.\<close>

definition sample_policy :: system_policy where
  "sample_policy = policy_new ''wgl0''"

definition sample_hash :: "bytes \<Rightarrow> bytes" where
  "sample_hash b = replicate 32 0"

abbreviation sample_new :: "(device_routes, string list list) atomic_route_manager shortcut_manager" where
  "sample_new \<equiv> manager_new (atomic_new device_routes_default [])"

abbreviation sample_receive where
  "sample_receive mgr ep \<equiv> fst (manager_receive_ticket (\<lambda>k m. m) (\<lambda>b. b) mgr (sample_ticket Left ep 0) ''hub'' ''alice'' 10)"

abbreviation sample_auth where
  "sample_auth mgr ep \<equiv> fst (authenticated_handshake
     (node_activate list_ip sample_hash raw_net_string sample_policy) mgr (sample_key ep) 20)"

definition sample_prepared where "sample_prepared = sample_receive sample_new 1"
definition sample_active where "sample_active = sample_auth sample_prepared 1"
definition sample_renewing where "sample_renewing = sample_receive sample_active 2"

abbreviation sample_reachable where
  "sample_reachable \<equiv> node_reachable list_ip sample_hash raw_net_string sample_policy
     (\<lambda>k m. m) (\<lambda>b. b) ''alice'' []"

lemma reachable_receive:
  "sample_reachable mgr \<Longrightarrow> sample_reachable (sample_receive mgr ep)"
  by (erule reach_step) (rule step_receive [of _ _ _ _ _ _ 10 _ "snd (manager_receive_ticket (\<lambda>k m. m) (\<lambda>b. b)
        mgr (sample_ticket Left ep 0) ''hub'' ''alice'' 10)"], simp)

lemma reachable_auth:
  "sample_reachable mgr \<Longrightarrow> sample_reachable (sample_auth mgr ep)"
  by (erule reach_step) (rule step_auth [of _ _ _ 20 _ "snd (authenticated_handshake
        (node_activate list_ip sample_hash raw_net_string sample_policy) mgr (sample_key ep) 20)"], simp)

lemma sample_reachable_states:
  "sample_reachable sample_prepared" "sample_reachable sample_active" "sample_reachable sample_renewing"
proof -
  have "sample_reachable sample_new" by (rule reach_new)
  then show a: "sample_reachable sample_prepared" unfolding sample_prepared_def by (rule reachable_receive)
  then show b: "sample_reachable sample_active" unfolding sample_active_def by (rule reachable_auth)
  then show "sample_reachable sample_renewing" unfolding sample_renewing_def by (rule reachable_receive)
qed

lemma sample_ticket_valid: "ep \<noteq> 0 \<Longrightarrow> validate (sample_ticket Left ep 0) 10 = Inr ()"
  by (simp add: validate_ok_iff ticket_ok_def sample_ticket_def)

abbreviation sample_selector where "sample_selector \<equiv> IpNet (V4 0x0a000002) 32"

lemma sample_prepared_sessions:
  "sample_prepared = sample_new\<lparr> sm_sessions := [(sample_key 1, \<lparr> ms_ticket = sample_ticket Left 1 0, ms_phase = Prepared \<rparr>)] \<rparr>"
  using sample_ticket_valid [of 1]
  by (simp add: sample_prepared_def manager_receive_ticket_def manager_new_def sample_ticket_def
      sample_key_def Let_def)

lemma sample_activate_ok:
  assumes "dr_poisoned (ar_userspace a) = False"
  shows "\<exists>p. node_activate list_ip sample_hash raw_net_string sample_policy a s t =
    (a\<lparr> ar_userspace := (ar_userspace a)\<lparr> dr_routes := hm_insert s t (dr_routes (ar_userspace a)) \<rparr>,
        ar_policy := p, ar_active := hm_insert s t (ar_active a) \<rparr>, Inr ())"
proof -
  have "\<exists>p. policy_install list_ip sample_hash raw_net_string sample_policy (ar_policy a) s = (p, Inr ())"
    by (simp add: policy_install_def policy_prepare_def run_ip_def list_ip_prepare list_ip_rule tool_ok_def
        tool_failed_def tool_messages del: contains_str.simps)
  then obtain p
    where "policy_install list_ip sample_hash raw_net_string sample_policy (ar_policy a) s = (p, Inr ())" ..
  with assms show ?thesis by (auto simp: atomic_activate_def device_replace_def)
qed

lemma sample_active_sessions:
  "\<exists>p. sample_active =
    \<lparr> sm_routes = \<lparr> ar_userspace = \<lparr> dr_poisoned = False, dr_routes = [(sample_selector, RouteTarget (sample_key 1))] \<rparr>,
        ar_policy = p, ar_active = [(sample_selector, RouteTarget (sample_key 1))] \<rparr>,
      sm_sessions = [(sample_key 1, \<lparr> ms_ticket = sample_ticket Left 1 0, ms_phase = Active \<rparr>)],
      sm_active_routes = [(sample_selector, sample_key 1)] \<rparr>"
proof -
  obtain p where p: "node_activate list_ip sample_hash raw_net_string sample_policy
      (atomic_new device_routes_default []) sample_selector (RouteTarget (sample_key 1)) =
    ((atomic_new device_routes_default [])\<lparr> ar_userspace := device_routes_default\<lparr> dr_routes :=
        [(sample_selector, RouteTarget (sample_key 1))] \<rparr>, ar_policy := p,
        ar_active := [(sample_selector, RouteTarget (sample_key 1))] \<rparr>, Inr ())"
    using sample_activate_ok [of "atomic_new device_routes_default []" sample_selector "RouteTarget (sample_key 1)"]
    by (auto simp: atomic_new_def device_routes_default_def)
  have t: "t_expires_at (sample_ticket Left 1 0) = 180" "t_selector (sample_ticket Left 1 0) = sample_selector"
    by (simp_all add: sample_ticket_def)
  show ?thesis
    unfolding sample_active_def sample_prepared_sessions
    by (simp add: authenticated_handshake_def manager_new_def t p set_phase_def Let_def)
       (simp add: atomic_new_def device_routes_default_def)
qed

lemma sample_tool: "ip_tool list_ip sample_hash raw_net_string sample_policy (list_rules sample_hash sample_policy)"
  by (rule list_kernel.ip_tool_axioms)

lemma sample_no_rules: "list_rules sample_hash sample_policy [] = {}"
  by (simp add: list_rules_def)

lemma sample_active_route:
  "node_table sample_active sample_selector = Some (RouteTarget (sample_key 1))"
  "sm_sessions sample_active = [(sample_key 1, \<lparr> ms_ticket = sample_ticket Left 1 0, ms_phase = Active \<rparr>)]"
  "dr_poisoned (ar_userspace (sm_routes sample_active)) = False"
proof -
  obtain p where p: "sample_active =
    \<lparr> sm_routes = \<lparr> ar_userspace = \<lparr> dr_poisoned = False, dr_routes = [(sample_selector, RouteTarget (sample_key 1))] \<rparr>,
        ar_policy = p, ar_active = [(sample_selector, RouteTarget (sample_key 1))] \<rparr>,
      sm_sessions = [(sample_key 1, \<lparr> ms_ticket = sample_ticket Left 1 0, ms_phase = Active \<rparr>)],
      sm_active_routes = [(sample_selector, sample_key 1)] \<rparr>"
    using sample_active_sessions by blast
  show "node_table sample_active sample_selector = Some (RouteTarget (sample_key 1))"
    and "sm_sessions sample_active = [(sample_key 1, \<lparr> ms_ticket = sample_ticket Left 1 0, ms_phase = Active \<rparr>)]"
    and "dr_poisoned (ar_userspace (sm_routes sample_active)) = False"
    unfolding p by simp_all
qed

lemma sample_ready: "manager_inv (\<lambda>a. device_table (ar_userspace a)) (ready_inv (list_rules sample_hash sample_policy))
    ''alice'' sample_active"
proof (rule list_node.reachable_inv [OF _ _ sample_reachable_states(2)])
  show "ready_inv (list_rules sample_hash sample_policy) (atomic_new device_routes_default [])"
    using sample_no_rules by (simp add: ready_inv_def atomic_inv_def atomic_new_def device_routes_default_def)
qed (simp add: atomic_new_def device_routes_default_def)

text \<open>An \<open>ip\<close> tool that refuses every deletion, as a lost capability would make it.\<close>

definition stubborn_ip :: "string list list ip_fn" where
  "stubborn_ip k args =
     (if ''del'' \<in> set (take 3 args) then (k, Inr (tool_failed ''Operation not permitted'')) else list_ip k args)"

lemma stubborn_ip_calls:
  "stubborn_ip k (prepare_args sp s) = list_ip k (prepare_args sp s)"
  "stubborn_ip k (rule_arguments hash ns sp ''add'' s) = list_ip k (rule_arguments hash ns sp ''add'' s)"
  "stubborn_ip k (rule_arguments hash ns sp ''del'' s) = (k, Inr (tool_failed ''Operation not permitted''))"
  by (simp_all add: stubborn_ip_def prepare_args_def rule_arguments_def)

lemma stubborn_message:
  "\<not> contains_str ''Operation not permitted'' ''No such file''"
  "\<not> contains_str ''Operation not permitted'' ''No such process''"
  by code_simp+

lemma stubborn_tool: "ip_tool stubborn_ip hash raw_net_string sp (list_rules hash sp)"
proof
  fix k k' args e s r out
  show "list_rules hash sp k' = list_rules hash sp k" if "stubborn_ip k args = (k', Inl e)"
    using that list_kernel.spawn_failed [of k args k' e] by (auto simp: stubborn_ip_def split: if_splits)
  show "list_rules hash sp k' = list_rules hash sp k" if "stubborn_ip k (prepare_args sp s) = (k', r)"
    using that by (simp add: stubborn_ip_calls list_ip_prepare)
  show "list_rules hash sp k' = (if out_success out then insert s (list_rules hash sp k) else list_rules hash sp k)"
    if "stubborn_ip k (rule_arguments hash raw_net_string sp ''add'' s) = (k', Inr out)"
    using that by (simp only: stubborn_ip_calls list_kernel.rule_add)
  show "s \<in> list_rules hash sp k"
    if "stubborn_ip k (rule_arguments hash raw_net_string sp ''add'' s) = (k', Inr out)"
      "\<not> out_success out" "contains_str (out_stderr out) ''File exists''"
    using that by (simp only: stubborn_ip_calls) (rule list_kernel.rule_add_exists)
  show "list_rules hash sp k' = (if out_success out then list_rules hash sp k - {s} else list_rules hash sp k)"
    if "stubborn_ip k (rule_arguments hash raw_net_string sp ''del'' s) = (k', Inr out)"
    using that by (auto simp: stubborn_ip_calls tool_failed_def)
  show "s \<notin> list_rules hash sp k"
    if "stubborn_ip k (rule_arguments hash raw_net_string sp ''del'' s) = (k', Inr out)"
      "contains_str (out_stderr out) ''No such file'' \<or> contains_str (out_stderr out) ''No such process''"
    using that stubborn_message by (auto simp: stubborn_ip_calls tool_failed_def simp del: contains_str.simps)
qed

lemma stubborn_activate: "node_activate stubborn_ip hash ns sp = node_activate list_ip hash ns sp"
proof -
  have "policy_install stubborn_ip hash ns sp k s = policy_install list_ip hash ns sp k s" for k s
    unfolding policy_install_def policy_prepare_def run_ip_def stubborn_ip_calls ..
  then show ?thesis by (simp add: fun_eq_iff atomic_activate_def)
qed

lemma stubborn_reachable:
  "node_reachable stubborn_ip sample_hash raw_net_string sample_policy (\<lambda>k m. m) (\<lambda>b. b) ''alice'' [] sample_active"
proof -
  let ?reach = "node_reachable stubborn_ip sample_hash raw_net_string sample_policy (\<lambda>k m. m) (\<lambda>b. b) ''alice'' []"
  have "?reach sample_new" by (rule reach_new)
  then have "?reach sample_prepared"
    unfolding sample_prepared_def
    by (rule reach_step) (rule step_receive [of _ _ _ _ _ _ 10 _ "snd (manager_receive_ticket (\<lambda>k m. m) (\<lambda>b. b)
        sample_new (sample_ticket Left 1 0) ''hub'' ''alice'' 10)"], simp)
  then show ?thesis
    unfolding sample_active_def
    by (rule reach_step) (rule step_auth [of _ _ _ 20 _ "snd (authenticated_handshake
        (node_activate list_ip sample_hash raw_net_string sample_policy) sample_prepared (sample_key 1) 20)"],
        simp add: stubborn_activate)
qed

lemma stubborn_fail:
  "\<exists>mgr'. manager_fail (node_deactivate stubborn_ip sample_hash raw_net_string sample_policy) sample_active
     (sample_key 1) = (mgr', Inl (PolicyError IpRuleDelFailed))"
proof -
  have routes: "hm_get (sm_active_routes sample_active) sample_selector = Some (sample_key 1)"
    using node_reachable_inv_stack [OF sample_tool sample_no_rules sample_reachable_states(2)]
      sample_active_route(1) by (auto simp: manager_inv_def table_agrees_def)
  have sel: "t_selector (sample_ticket Left 1 0) = sample_selector" by (simp add: sample_ticket_def)
  have del: "node_deactivate stubborn_ip sample_hash raw_net_string sample_policy a s =
      (a, Inl (PolicyError IpRuleDelFailed))" for a s
    using stubborn_message by (simp add: atomic_deactivate_def policy_remove_def stubborn_ip_calls tool_failed_def
        del: contains_str.simps)
  show ?thesis by (simp add: manager_fail_def sample_active_route(2) sel routes del Let_def)
qed

lemma stubborn_history:
  assumes "manager_fail (node_deactivate stubborn_ip sample_hash raw_net_string sample_policy) sample_active
     (sample_key 1) = (mgr', Inl e)"
  shows "node_history stubborn_ip sample_hash raw_net_string sample_policy (\<lambda>k m. m) (\<lambda>b. b) ''alice'' []
     mgr' {sample_key 1}"
  using history_step [OF reachable_history [OF stubborn_reachable] owner_refused [OF assms]] by simp

section \<open>Properties\<close>

text \<open>
  C1.  The routing invariant of a node, in every state of every history: any order of tickets,
  handshakes, expiries, retirements and failures from start-up, where a \<open>fail\<close> whose route cannot
  be deactivated is logged and the node goes on; \<open>F\<close> is the set of sessions that happened to.  (A
  failing \<open>expire\<close> ends the generation, so nothing follows it.)  Every present session in phase
  \<open>Active\<close> has the route of its selector.  A selector is routed only to a present \<open>Active\<close>
  session with that selector, or to a session of \<open>F\<close>; when no removal was refused, routes and
  \<open>Active\<close> sessions correspond exactly.  The kernel diverts only selectors that have a userspace
  target, so no diverted packet meets an empty table; the route manager's own table is the
  device's; and every session is stored under its ticket's id and epoch, was addressed to this
  node, and was accepted by \<open>validate\<close>.
\<close>

theorem node_routing_invariant:
  assumes "ip_tool ip hash ns sp rules" and "rules k0 = {}"
    and "node_history ip hash ns sp kh pub local k0 mgr F"
  shows "(\<forall>k m. hm_get (sm_sessions mgr) k = Some m \<longrightarrow> ms_phase m = Active \<longrightarrow>
      node_table mgr (t_selector (ms_ticket m)) = Some (RouteTarget k))
    \<and> (\<forall>sel k. node_table mgr sel = Some (RouteTarget k) \<longrightarrow> k \<in> F
      \<or> (\<exists>m. hm_get (sm_sessions mgr) k = Some m \<and> ms_phase m = Active \<and> t_selector (ms_ticket m) = sel))
    \<and> node_rules rules mgr \<subseteq> dom (node_table mgr)
    \<and> hm_get (ar_active (sm_routes mgr)) = node_table mgr
    \<and> (\<forall>k m. hm_get (sm_sessions mgr) k = Some m \<longrightarrow>
         k = SessionKey (t_shortcut_id (ms_ticket m)) (t_epoch (ms_ticket m))
         \<and> t_recipient_public_key (ms_ticket m) = local
         \<and> (\<exists>now. validate (ms_ticket m) now = Inr ()))"
proof -
  note D = history_invD [OF node_history_inv_stack [OF assms]]
  have table: "node_table mgr = (\<lambda>sel. map_option RouteTarget (hm_get (sm_active_routes mgr) sel))"
    using D(2) by (simp add: table_agrees_def)
  have "\<forall>k m. hm_get (sm_sessions mgr) k = Some m \<longrightarrow> ms_phase m = Active \<longrightarrow>
      node_table mgr (t_selector (ms_ticket m)) = Some (RouteTarget k)"
    using routes_butD(2) [OF D(4)] by (simp add: table)
  moreover have "\<forall>sel k. node_table mgr sel = Some (RouteTarget k) \<longrightarrow> k \<in> F
      \<or> (\<exists>m. hm_get (sm_sessions mgr) k = Some m \<and> ms_phase m = Active \<and> t_selector (ms_ticket m) = sel)"
    using routes_butD(3) [OF D(4)] by (auto simp: table)
  moreover have "node_rules rules mgr \<subseteq> dom (node_table mgr)
      \<and> hm_get (ar_active (sm_routes mgr)) = node_table mgr"
    using D(1) by (auto simp: atomic_inv_def)
  ultimately show ?thesis
    using sessions_okD [OF D(3)] by (simp add: ticket_session_def validate_ok_iff)
qed

theorem node_routing_invariant_witness:
  "(\<exists>m. hm_get (sm_sessions sample_active) (sample_key 1) = Some m \<and> ms_phase m = Active)
   \<and> (\<exists>mgr e. manager_fail (node_deactivate stubborn_ip sample_hash raw_net_string sample_policy) sample_active
        (sample_key 1) = (mgr, Inl e)
      \<and> node_rules (list_rules sample_hash sample_policy) mgr \<subseteq> dom (node_table mgr))"
proof
  show "\<exists>m. hm_get (sm_sessions sample_active) (sample_key 1) = Some m \<and> ms_phase m = Active"
    using node_routing_invariant [OF sample_tool sample_no_rules
        reachable_history [OF sample_reachable_states(2)]] sample_active_route(1) by blast
  obtain mgr e where f: "manager_fail (node_deactivate stubborn_ip sample_hash raw_net_string sample_policy)
      sample_active (sample_key 1) = (mgr, Inl e)" using stubborn_fail by blast
  with node_routing_invariant [OF stubborn_tool sample_no_rules stubborn_history [OF f]]
  show "\<exists>mgr e. manager_fail (node_deactivate stubborn_ip sample_hash raw_net_string sample_policy) sample_active
        (sample_key 1) = (mgr, Inl e)
      \<and> node_rules (list_rules sample_hash sample_policy) mgr \<subseteq> dom (node_table mgr)" by blast
qed

text \<open>
  C2.  Refinement: the session manager with its phases, hash maps, policy rules and failing calls
  implements the lease table, at every point of every history.  The table starts empty.  Each step of the node, a \<open>fail\<close>
  that is refused included, is a step of the table: a ticket adds a lease, with its own selector
  and expiry, exactly when it validates, comes from its issuer, is addressed to this node and is
  new; a selector changes its owner only by the handshake of a known session for that selector
  before that session's expiry, and the owner before it is then replaced; expiry and failure take
  away sessions with the selectors they own; retirement removes exactly the replaced sessions; a
  refused \<open>fail\<close> forgets a session that owns its selector and leaves the owner as it is.  The device's
  table routes a selector exactly to its owner in the lease table.
\<close>

theorem node_refines_lease_table:
  assumes "ip_tool ip hash ns sp rules" and "rules k0 = {}"
    and "node_history ip hash ns sp kh pub local k0 mgr F"
    and "node_owner_step ip hash ns sp kh pub local mgr ev mgr'"
  shows "lease_table (manager_new (atomic_new device_routes_default k0)) = lease_empty
    \<and> lease_step local (lease_table mgr) ev (lease_table mgr')
    \<and> node_table mgr = map_option RouteTarget \<circ> ls_owner (lease_table mgr)
    \<and> node_table mgr' = map_option RouteTarget \<circ> ls_owner (lease_table mgr')"
proof -
  note h = node_history_inv_stack [OF assms(1-3)]
  note h' = node_history_inv_stack [OF assms(1,2) history_step [OF assms(3,4)]]
  show ?thesis
    using ip_tool.node_owner_step_simulates [OF assms(1,4) h] ip_tool.node_history_table [OF assms(1) h]
      ip_tool.node_history_table [OF assms(1) h']
    unfolding lease_table_new by blast
qed

theorem node_refines_lease_table_witness:
  "lease_step ''alice'' (lease_table sample_prepared) (Call (EvAuthenticated (sample_key 1) 20)) (lease_table sample_active)
   \<and> (\<exists>mgr e. manager_fail (node_deactivate stubborn_ip sample_hash raw_net_string sample_policy) sample_active
        (sample_key 1) = (mgr, Inl e)
      \<and> lease_step ''alice'' (lease_table sample_active) (RefusedFail (sample_key 1)) (lease_table mgr))"
proof
  have "node_step list_ip sample_hash raw_net_string sample_policy (\<lambda>k m. m) (\<lambda>b. b) ''alice''
      sample_prepared (EvAuthenticated (sample_key 1) 20) sample_active"
    unfolding sample_active_def
    by (rule step_auth [of _ _ _ _ _ "snd (authenticated_handshake
        (node_activate list_ip sample_hash raw_net_string sample_policy) sample_prepared (sample_key 1) 20)"]) simp
  from node_refines_lease_table [OF sample_tool sample_no_rules
      reachable_history [OF sample_reachable_states(1)] owner_call [OF this]]
  show "lease_step ''alice'' (lease_table sample_prepared) (Call (EvAuthenticated (sample_key 1) 20)) (lease_table sample_active)"
    by blast
  obtain mgr e where f: "manager_fail (node_deactivate stubborn_ip sample_hash raw_net_string sample_policy)
      sample_active (sample_key 1) = (mgr, Inl e)" using stubborn_fail by blast
  with node_refines_lease_table [OF stubborn_tool sample_no_rules
      reachable_history [OF stubborn_reachable] owner_refused [OF f]]
  show "\<exists>mgr e. manager_fail (node_deactivate stubborn_ip sample_hash raw_net_string sample_policy) sample_active
        (sample_key 1) = (mgr, Inl e)
      \<and> lease_step ''alice'' (lease_table sample_active) (RefusedFail (sample_key 1)) (lease_table mgr)" by blast
qed

text \<open>
  C3.  No route before its handshake: a step of a node that is reachable by calls that succeed
  or change nothing makes a selector point to a session only if the step is that session's authenticated handshake, the session is known, its
  ticket is for that selector, and the handshake came before the ticket's expiry.
\<close>

theorem node_route_needs_handshake:
  assumes "ip_tool ip hash ns sp rules" and "rules k0 = {}"
    and "node_reachable ip hash ns sp kh pub local k0 mgr"
    and "node_step ip hash ns sp kh pub local mgr ev mgr'"
    and "node_table mgr' sel = Some (RouteTarget k)" and "node_table mgr sel \<noteq> Some (RouteTarget k)"
  shows "\<exists>now m. ev = EvAuthenticated k now \<and> hm_get (sm_sessions mgr) k = Some m
    \<and> t_selector (ms_ticket m) = sel \<and> unat now < unat (t_expires_at (ms_ticket m))"
  using ip_tool.node_route_added [OF assms(1,4) node_reachable_inv_stack [OF assms(1-3)] assms(5,6)]
  by (auto simp: word_less_nat_alt)

theorem node_route_needs_handshake_witness:
  "\<exists>m. hm_get (sm_sessions sample_prepared) (sample_key 1) = Some m \<and> t_selector (ms_ticket m) = sample_selector"
proof -
  have st: "node_step list_ip sample_hash raw_net_string sample_policy (\<lambda>k m. m) (\<lambda>b. b) ''alice''
      sample_prepared (EvAuthenticated (sample_key 1) 20) sample_active"
    unfolding sample_active_def
    by (rule step_auth [of _ _ _ _ _ "snd (authenticated_handshake
        (node_activate list_ip sample_hash raw_net_string sample_policy) sample_prepared (sample_key 1) 20)"]) simp
  have "node_table sample_prepared sample_selector \<noteq> Some (RouteTarget (sample_key 1))"
    by (simp add: sample_prepared_sessions manager_new_def atomic_new_def device_routes_default_def)
  from node_route_needs_handshake [OF sample_tool sample_no_rules sample_reachable_states(1) st
      sample_active_route(1) this] show ?thesis by blast
qed

text \<open>
  C4.  Expiry is exact: when \<open>expire\<close> succeeds at time \<open>now\<close> in a node reachable by calls that
  succeed or change nothing, it returns and removes precisely the sessions whose ticket has expired, keeps every other session as it was,
  and afterwards the table routes to a session exactly when it did before and the session has
  not expired.
\<close>

theorem node_expire_exact:
  assumes "ip_tool ip hash ns sp rules" and "rules k0 = {}"
    and "node_reachable ip hash ns sp kh pub local k0 mgr"
    and "manager_expire (node_deactivate ip hash ns sp) mgr now = (mgr', Inr ks)"
  shows "(\<forall>k. hm_get (sm_sessions mgr') k =
         (case hm_get (sm_sessions mgr) k of None \<Rightarrow> None
          | Some m \<Rightarrow> if t_expires_at (ms_ticket m) \<le> now then None else Some m))
    \<and> (\<forall>k. k \<in> set ks \<longleftrightarrow> (\<exists>m. hm_get (sm_sessions mgr) k = Some m \<and> t_expires_at (ms_ticket m) \<le> now))
    \<and> (\<forall>sel k. node_table mgr' sel = Some (RouteTarget k) \<longleftrightarrow>
         node_table mgr sel = Some (RouteTarget k)
         \<and> (\<forall>m. hm_get (sm_sessions mgr) k = Some m \<longrightarrow> now < t_expires_at (ms_ticket m)))"
  using ip_tool.node_expire_exact [OF assms(1) node_reachable_inv_stack [OF assms(1-3)] assms(4)] by simp

theorem node_expire_exact_witness:
  "\<exists>mgr' ks. manager_expire (node_deactivate list_ip sample_hash raw_net_string sample_policy) sample_active 180
      = (mgr', Inr ks) \<and> set ks = {sample_key 1} \<and> node_table mgr' sample_selector \<noteq> Some (RouteTarget (sample_key 1))"
proof -
  obtain mgr' ks where ex: "manager_expire (node_deactivate list_ip sample_hash raw_net_string sample_policy)
      sample_active 180 = (mgr', Inr ks)" using list_node.expire_total [OF sample_ready] by blast
  have "t_expires_at (sample_ticket Left 1 0) = 180" by (simp add: sample_ticket_def)
  with node_expire_exact [OF sample_tool sample_no_rules sample_reachable_states(2) ex]
  have "set ks = {sample_key 1} \<and> node_table mgr' sample_selector \<noteq> Some (RouteTarget (sample_key 1))"
    by (auto simp: sample_active_route(2) split: if_splits)
  with ex show ?thesis by blast
qed

text \<open>
  C5.  Make before break: when a second session for a routed selector authenticates in a reachable
  node, the route moves to it in that same step, the old session stays, draining, and is still
  there to receive; \<open>retire_draining\<close> then returns and removes it and leaves the table and the
  new session as they are.  (Reachable here means by calls that succeeded or changed nothing: after
  a refused \<open>fail\<close> the owner of a route may be a session the manager no longer has, which the lease
  table of the refinement covers.)
\<close>

theorem node_renewal_make_before_break:
  assumes "ip_tool ip hash ns sp rules" and "rules k0 = {}"
    and "node_reachable ip hash ns sp kh pub local k0 mgr"
    and "node_table mgr sel = Some (RouteTarget j)"
    and "hm_get (sm_sessions mgr) k = Some m" and "t_selector (ms_ticket m) = sel" and "k \<noteq> j"
    and "authenticated_handshake (node_activate ip hash ns sp) mgr k now = (mgr', Inr True)"
  shows "node_table mgr' sel = Some (RouteTarget k)
    \<and> manager_phase mgr' j = Some Draining \<and> manager_phase mgr' k = Some Active
    \<and> (\<forall>mgr'' ks. retire_draining mgr' = (mgr'', ks) \<longrightarrow>
         j \<in> set ks \<and> node_table mgr'' = node_table mgr'
         \<and> manager_phase mgr'' k = Some Active \<and> manager_phase mgr'' j = None)"
  using ip_tool.node_renewal [OF assms(1) node_reachable_inv_stack [OF assms(1-3)] assms(4-8)] by blast

theorem node_renewal_make_before_break_witness:
  "\<exists>mgr'. authenticated_handshake (node_activate list_ip sample_hash raw_net_string sample_policy)
      sample_renewing (sample_key 2) 20 = (mgr', Inr True)
    \<and> node_table mgr' sample_selector = Some (RouteTarget (sample_key 2))
    \<and> manager_phase mgr' (sample_key 1) = Some Draining"
proof -
  have ne: "sample_key 2 \<noteq> sample_key 1" by (simp add: sample_key_def)
  have valid: "validate (sample_ticket Left 2 0) 10 = Inr ()" by (rule sample_ticket_valid) simp
  have ren: "sample_renewing = sample_active\<lparr> sm_sessions :=
      hm_insert (sample_key 2) \<lparr> ms_ticket = sample_ticket Left 2 0, ms_phase = Prepared \<rparr> (sm_sessions sample_active) \<rparr>"
    using valid sample_active_route(2) ne
    by (simp add: sample_renewing_def manager_receive_ticket_def Let_def sample_key_def sample_ticket_def)
  have tab: "node_table sample_renewing sample_selector = Some (RouteTarget (sample_key 1))"
    using sample_active_route(1) by (simp add: ren)
  have m: "hm_get (sm_sessions sample_renewing) (sample_key 2)
      = Some \<lparr> ms_ticket = sample_ticket Left 2 0, ms_phase = Prepared \<rparr>" by (simp add: ren)
  have t: "t_expires_at (sample_ticket Left 2 0) = 180" "t_selector (sample_ticket Left 2 0) = sample_selector"
    by (simp_all add: sample_ticket_def)
  have unpoisoned: "dr_poisoned (ar_userspace (sm_routes sample_renewing)) = False"
    using sample_active_route(3) by (simp add: ren)
  obtain a where a: "node_activate list_ip sample_hash raw_net_string sample_policy (sm_routes sample_renewing)
      sample_selector (RouteTarget (sample_key 2)) = (a, Inr ())"
    using sample_activate_ok [OF unpoisoned] by blast
  have "\<exists>mgr'. authenticated_handshake (node_activate list_ip sample_hash raw_net_string sample_policy)
      sample_renewing (sample_key 2) 20 = (mgr', Inr True)"
    using a m by (auto simp: authenticated_handshake_def t set_phase_get Let_def split: option.splits)
  then obtain mgr' where au: "authenticated_handshake (node_activate list_ip sample_hash raw_net_string sample_policy)
      sample_renewing (sample_key 2) 20 = (mgr', Inr True)" ..
  from node_renewal_make_before_break [OF sample_tool sample_no_rules sample_reachable_states(3) tab m _ ne au]
    au t show ?thesis by simp
qed

text \<open>
  C40.  A route can be orphaned: when \<open>fail\<close> is called for the session that owns a route and the
  deactivation of the route fails, the session is gone but the route stays, and no later
  successful \<open>expire\<close> removes it, because \<open>fail\<close> removes the session before it deactivates the
  route and \<open>expire\<close> only looks at sessions that are still present.
\<close>

theorem failed_deactivation_orphans_route:
  assumes "ip_tool ip hash ns sp rules" and "rules k0 = {}"
    and "node_reachable ip hash ns sp kh pub local k0 mgr"
    and "node_table mgr sel = Some (RouteTarget k)"
    and "manager_fail (node_deactivate ip hash ns sp) mgr k = (mgr', Inl e)"
  shows "hm_get (sm_sessions mgr') k = None \<and> node_table mgr' sel = Some (RouteTarget k)
    \<and> (\<forall>now mgr'' ks. manager_expire (node_deactivate ip hash ns sp) mgr' now = (mgr'', Inr ks) \<longrightarrow>
         node_table mgr'' sel = Some (RouteTarget k))"
  using ip_tool.node_failed_fail_orphans [OF assms(1) node_reachable_inv_stack [OF assms(1-3)] assms(4,5)]
  by blast

theorem failed_deactivation_orphans_route_witness:
  "\<exists>mgr' e. manager_fail (node_deactivate stubborn_ip sample_hash raw_net_string sample_policy) sample_active
      (sample_key 1) = (mgr', Inl e)
    \<and> hm_get (sm_sessions mgr') (sample_key 1) = None
    \<and> node_table mgr' sample_selector = Some (RouteTarget (sample_key 1))"
proof -
  obtain mgr' where f: "manager_fail (node_deactivate stubborn_ip sample_hash raw_net_string sample_policy)
      sample_active (sample_key 1) = (mgr', Inl (PolicyError IpRuleDelFailed))" using stubborn_fail ..
  from failed_deactivation_orphans_route [OF stubborn_tool sample_no_rules stubborn_reachable
      sample_active_route(1) f] f show ?thesis by blast
qed

text \<open>
  Tickets: \<open>receive_ticket\<close> answers \<open>Ok\<close> only for a ticket that \<open>validate\<close> accepts now, that
  was issued by the authenticated sender and is addressed to this node; the keys it returns are
  those of the ticket the manager stores for that session; a duplicate leaves the manager as it
  is; and in no case does it touch a route, another session, or a session that exists.
\<close>

theorem receive_ticket_effect:
  assumes "manager_receive_ticket kh pub mgr t sender local now = (mgr', r)"
  shows "sm_routes mgr' = sm_routes mgr \<and> sm_active_routes mgr' = sm_active_routes mgr
    \<and> (\<forall>k m. hm_get (sm_sessions mgr) k = Some m \<longrightarrow> hm_get (sm_sessions mgr') k = Some m)
    \<and> (\<forall>k. k \<noteq> ticket_session t \<longrightarrow> hm_get (sm_sessions mgr') k = hm_get (sm_sessions mgr) k)
    \<and> (\<forall>e. r = Inl e \<longrightarrow> mgr' = mgr)
    \<and> (\<forall>p. r = Inr p \<longrightarrow> validate t now = Inr () \<and> t_issuer_public_key t = sender
         \<and> t_recipient_public_key t = local \<and> ps_session p = ticket_session t
         \<and> (ps_already_present p \<longleftrightarrow> hm_get (sm_sessions mgr) (ticket_session t) \<noteq> None)
         \<and> (ps_already_present p \<longrightarrow> mgr' = mgr)
         \<and> (\<exists>m. hm_get (sm_sessions mgr') (ticket_session t) = Some m
              \<and> ps_keys p = derive_keys kh pub (ms_ticket m)
              \<and> t_selector (ms_ticket m) = t_selector t
              \<and> t_remote_public_key (ms_ticket m) = t_remote_public_key t
              \<and> (\<not> ps_already_present p \<longrightarrow> m = \<lparr> ms_ticket = t, ms_phase = Prepared \<rparr>)))"
  using assms
  by (auto simp: manager_receive_ticket_def ticket_session_def Let_def
      split: sum.splits if_splits option.splits)

theorem receive_ticket_effect_witness:
  "hm_get (sm_sessions (sample_receive sample_new 1)) (sample_key 1) \<noteq> None"
proof -
  obtain mgr' r where h: "manager_receive_ticket (\<lambda>k m. m) (\<lambda>b. b) sample_new (sample_ticket Left 1 0) ''hub''
      ''alice'' 10 = (mgr', r)" by (rule prod.exhaust)
  have "r \<noteq> Inl e" for e
    using h sample_ticket_valid [of 1]
    by (auto simp: manager_receive_ticket_def manager_new_def sample_ticket_def Let_def)
  then obtain p where "r = Inr p" by (cases r) auto
  with receive_ticket_effect [OF h] h show ?thesis
    by (auto simp: ticket_session_def sample_ticket_def sample_key_def)
qed

end
