(* ===== verification/Device_Channels.thy ===== *)
theory Device_Channels
  imports Device
begin

text \<open>
  The two channels between the main loop (\<open>main.rs\<close>) and the device task
  (\<open>src/src/shortcut/device.rs\<close>): commands go one way, events the other, both are
  \<open>mpsc::channel(256)\<close>, and a \<open>send\<close> waits while its channel is full.  The device task takes an
  input, computes \<open>device_step\<close> and then makes its sends one by one; the main loop takes a
  \<open>select!\<close> arm, and sits in that arm's handler until its commands are in the channel and, for
  \<open>prepare\<close>, until the reply has come.  Only the main loop reads events, and only between two
  arms.  A packet for the outer transport and a write to the TUN device complete on their own:
  the dispatcher and the relays behind the outbound channel wait for neither task (the relays hand
  packets to them with \<open>try_send\<close>).
\<close>

section \<open>The two tasks\<close>










section \<open>Deadlock\<close>















section \<open>A run into the deadlock\<close>







section \<open>Properties\<close>



end
