(* ===== verification/Controller.thy ===== *)
theory Controller
  imports Device
begin

text \<open>
  \<open>src/src/shortcut/controller.rs\<close>: the controller ties the session manager to the device task.
  \<open>DeviceHandle::prepare\<close> sends a command and waits for the reply, so it is the device's handler
  itself, or an error when the task has stopped (\<open>running\<close>).  \<open>DeviceHandle::remove\<close> only queues its
  command; the queue is first in, first out, and no call of the owner reads the device's sessions
  before the device has taken the commands ahead of it, so the removal is applied at once here.
  The room in the queue, and the wait for it, is in \<open>Device_Channels\<close>.
\<close>

record ('r, 'w, 'c) controller =
  ct_local_public_key :: string
  ct_manager :: "'r shortcut_manager"
  ct_device :: "('w, 'c) sessions"

record device_event_outcome =
  eo_activated :: bool
  eo_retired :: "session_key list"

definition controller_new :: "string \<Rightarrow> 'r shortcut_manager \<Rightarrow> ('w, 'c) sessions \<Rightarrow> ('r, 'w, 'c) controller" where
  "controller_new key mgr dev = \<lparr> ct_local_public_key = key, ct_manager = mgr, ct_device = dev \<rparr>"

text \<open>\<open>DeviceHandle::prepare\<close> and \<open>DeviceHandle::remove\<close>.\<close>

definition handle_prepare ::
    "'w tunn_api \<Rightarrow> (bytes \<Rightarrow> bytes) \<Rightarrow> 'c device_env \<Rightarrow> bool \<Rightarrow> session_key \<Rightarrow> derived_keys \<Rightarrow> string \<Rightarrow> 'c
     \<Rightarrow> ('w, 'c) sessions \<Rightarrow> ('w, 'c) sessions \<times> 'c device_effect list \<times> unit res" where
  "handle_prepare api hash env running session keys remote_key outbound sessions =
     (if \<not> running then (sessions, [], Inl (TransportError ChannelClosed))
      else prepare_session api hash env session keys remote_key outbound sessions)"

definition handle_remove :: "bool \<Rightarrow> session_key \<Rightarrow> ('w, 'c) sessions \<Rightarrow> ('w, 'c) sessions \<times> unit res" where
  "handle_remove running session sessions =
     (if \<not> running then (sessions, Inl (TransportError ChannelClosed))
      else (hm_remove session sessions, Inr ()))"

definition controller_receive_ticket ::
    "'r deactivate_fn \<Rightarrow> (bytes \<Rightarrow> bytes \<Rightarrow> bytes) \<Rightarrow> (bytes \<Rightarrow> bytes) \<Rightarrow> 'w tunn_api \<Rightarrow> (bytes \<Rightarrow> bytes)
     \<Rightarrow> 'c device_env \<Rightarrow> bool \<Rightarrow> ('r, 'w, 'c) controller \<Rightarrow> shortcut_ticket \<Rightarrow> string \<Rightarrow> u64 \<Rightarrow> 'c
     \<Rightarrow> ('r, 'w, 'c) controller \<times> 'c device_effect list \<times> session_key res" where
  "controller_receive_ticket deact kh pub api hash env running ct ticket sender now outbound =
     (case manager_receive_ticket kh pub (ct_manager ct) ticket sender (ct_local_public_key ct) now of
        (mgr, Inl e) \<Rightarrow> (ct\<lparr> ct_manager := mgr \<rparr>, [], Inl e)
      | (mgr, Inr prepared) \<Rightarrow>
          if ps_already_present prepared then (ct\<lparr> ct_manager := mgr \<rparr>, [], Inr (ps_session prepared))
          else
            (case handle_prepare api hash env running (ps_session prepared) (ps_keys prepared)
                    (t_remote_public_key ticket) outbound (ct_device ct) of
               (dev, eff, Inl e) \<Rightarrow>
                 (case manager_fail deact mgr (ps_session prepared) of
                    (mgr', Inl e') \<Rightarrow> (ct\<lparr> ct_manager := mgr', ct_device := dev \<rparr>, eff, Inl e')
                  | (mgr', Inr _) \<Rightarrow> (ct\<lparr> ct_manager := mgr', ct_device := dev \<rparr>, eff, Inl e))
             | (dev, eff, Inr _) \<Rightarrow>
                 (case mark_handshaking mgr (ps_session prepared) of
                    (mgr', Inl e) \<Rightarrow> (ct\<lparr> ct_manager := mgr', ct_device := dev \<rparr>, eff, Inl e)
                  | (mgr', Inr _) \<Rightarrow>
                      (ct\<lparr> ct_manager := mgr', ct_device := dev \<rparr>, eff, Inr (ps_session prepared)))))"

definition handle_device_event ::
    "'r activate_fn \<Rightarrow> ('r, 'w, 'c) controller \<Rightarrow> device_event \<Rightarrow> u64
     \<Rightarrow> ('r, 'w, 'c) controller \<times> device_event_outcome res" where
  "handle_device_event act ct event now =
     (case (case event of
              AuthenticatedHandshake session \<Rightarrow> authenticated_handshake act (ct_manager ct) session now
            | _ \<Rightarrow> (ct_manager ct, Inr False)) of
        (mgr, Inl e) \<Rightarrow> (ct\<lparr> ct_manager := mgr \<rparr>, Inl e)
      | (mgr, Inr activated) \<Rightarrow>
          (case (if activated then retire_draining mgr else (mgr, [])) of
             (mgr', retired) \<Rightarrow>
               (ct\<lparr> ct_manager := mgr' \<rparr>, Inr \<lparr> eo_activated = activated, eo_retired = retired \<rparr>)))"

definition controller_expire ::
    "'r deactivate_fn \<Rightarrow> ('r, 'w, 'c) controller \<Rightarrow> u64 \<Rightarrow> ('r, 'w, 'c) controller \<times> session_key list res" where
  "controller_expire deact ct now =
     (case manager_expire deact (ct_manager ct) now of (mgr, r) \<Rightarrow> (ct\<lparr> ct_manager := mgr \<rparr>, r))"

definition controller_fail ::
    "'r deactivate_fn \<Rightarrow> ('r, 'w, 'c) controller \<Rightarrow> session_key \<Rightarrow> ('r, 'w, 'c) controller \<times> bool res" where
  "controller_fail deact ct session =
     (case manager_fail deact (ct_manager ct) session of (mgr, r) \<Rightarrow> (ct\<lparr> ct_manager := mgr \<rparr>, r))"

section \<open>Preparing a session\<close>

lemma prepare_session_ok:
  assumes "prepare_session api hash env k keys remote c ss = (ss', eff, r)"
  shows "r = Inr () \<Longrightarrow> \<exists>rt. hm_get ss' k = Some rt \<and> sr_session rt = k \<and> sr_remote_public_key rt = remote
      \<and> sr_outbound rt = c
      \<and> sr_tunnel rt = fst (tunnel_encapsulate api (tunnel_new api keys (session_index hash k)) [])"
    and "r \<noteq> Inr () \<Longrightarrow> env_events_open env \<Longrightarrow> ss' = ss"
    and "j \<noteq> k \<Longrightarrow> hm_get ss' j = hm_get ss j"
  using assms by (auto simp: prepare_session_def emit_cases Let_def split: prod.splits sum.splits if_splits)

text \<open>A session that owns no route fails without touching the routes.\<close>

lemma fail_unrouted:
  assumes "hm_get (sm_sessions mgr) k = Some m" and "hm_get (sm_active_routes mgr) (t_selector (ms_ticket m)) \<noteq> Some k"
  shows "manager_fail deact mgr k = (mgr\<lparr> sm_sessions := hm_remove k (sm_sessions mgr) \<rparr>, Inr True)"
  using assms by (simp add: manager_fail_def Let_def)

lemma receive_fresh:
  assumes "manager_receive_ticket kh pub mgr t sender local now = (mgr', Inr p)" and "\<not> ps_already_present p"
  shows "hm_get (sm_sessions mgr) (ticket_session t) = None"
    and "mgr' = mgr\<lparr> sm_sessions := hm_insert (ticket_session t) \<lparr> ms_ticket = t, ms_phase = Prepared \<rparr> (sm_sessions mgr) \<rparr>"
    and "ps_session p = ticket_session t" and "ps_keys p = derive_keys kh pub t"
  using assms by (auto simp: manager_receive_ticket_def ticket_session_def Let_def split: sum.splits if_splits option.splits)

lemma receive_not_admitted:
  assumes "manager_receive_ticket kh pub m ticket sender own now = (mgr, pr)"
  shows "pr = Inl e \<Longrightarrow> mgr = m"
    and "pr = Inr p \<Longrightarrow> ps_already_present p \<Longrightarrow> mgr = m \<and> ps_session p = ticket_session ticket
      \<and> hm_get (sm_sessions m) (ticket_session ticket) \<noteq> None"
  using assms by (auto simp: manager_receive_ticket_def ticket_session_def Let_def split: sum.splits if_splits option.splits)

lemma handle_prepare_cases:
  assumes "handle_prepare api hash env running k keys remote outbound dev = (dev', eff, r)"
  shows "r = Inl e \<Longrightarrow> env_events_open env \<Longrightarrow> dev' = dev"
    and "r = Inr () \<Longrightarrow> \<exists>rt. hm_get dev' k = Some rt \<and> sr_session rt = k \<and> sr_remote_public_key rt = remote
      \<and> sr_outbound rt = outbound \<and> sr_tunnel rt = fst (tunnel_encapsulate api (tunnel_new api keys (session_index hash k)) [])"
proof -
  show "dev' = dev" if "r = Inl e" "env_events_open env"
    using assms that prepare_session_ok(2) [of api hash env k keys] by (auto simp: handle_prepare_def split: if_splits)
  assume "r = Inr ()"
  with assms have "prepare_session api hash env k keys remote outbound dev = (dev', eff, Inr ())"
    by (simp add: handle_prepare_def split: if_splits)
  from prepare_session_ok(1) [OF this] show "\<exists>rt. hm_get dev' k = Some rt \<and> sr_session rt = k \<and> sr_remote_public_key rt = remote
      \<and> sr_outbound rt = outbound \<and> sr_tunnel rt = fst (tunnel_encapsulate api (tunnel_new api keys (session_index hash k)) [])"
    by auto
qed

section \<open>Properties\<close>

text \<open>
  C31.  Receiving a ticket is all or nothing: on success the session is in the manager, and if it is
  new it is in phase \<open>Handshaking\<close> and the device holds a tunnel for it, made from the keys derived
  from the ticket and bound to the ticket's remote peer; on an error the manager knows the
  sessions it knew before and, while the event channel is open, so does the device.  The routes
  are untouched in both cases.
\<close>

theorem receive_ticket_all_or_nothing:
  assumes inv: "manager_inv table rinv (ct_local_public_key ct) (ct_manager ct)"
    and rcv: "controller_receive_ticket deact kh pub api hash env running ct ticket sender now outbound = (ct', eff, r)"
  shows "sm_routes (ct_manager ct') = sm_routes (ct_manager ct)
    \<and> sm_active_routes (ct_manager ct') = sm_active_routes (ct_manager ct)
    \<and> (\<forall>k. r = Inr k \<longrightarrow> k = ticket_session ticket \<and> hm_get (sm_sessions (ct_manager ct')) k \<noteq> None
         \<and> (hm_get (sm_sessions (ct_manager ct)) k = None \<longrightarrow>
              manager_phase (ct_manager ct') k = Some Handshaking
              \<and> (\<exists>rt. hm_get (ct_device ct') k = Some rt \<and> sr_session rt = k
                   \<and> sr_remote_public_key rt = t_remote_public_key ticket \<and> sr_outbound rt = outbound
                   \<and> sr_tunnel rt = fst (tunnel_encapsulate api
                       (tunnel_new api (derive_keys kh pub ticket) (session_index hash k)) []))))
    \<and> (\<forall>e. r = Inl e \<longrightarrow>
         hm_get (sm_sessions (ct_manager ct')) = hm_get (sm_sessions (ct_manager ct))
         \<and> (env_events_open env \<longrightarrow> ct_device ct' = ct_device ct))"
proof -
  obtain mgr pr where m: "manager_receive_ticket kh pub (ct_manager ct) ticket sender (ct_local_public_key ct) now
      = (mgr, pr)" by (rule prod.exhaust)
  show ?thesis
  proof (cases pr)
    case (Inl e)
    have "mgr = ct_manager ct" using receive_not_admitted(1) [OF m Inl] .
    with rcv m Inl show ?thesis by (auto simp: controller_receive_ticket_def)
  next
    case (Inr p)
    show ?thesis
    proof (cases "ps_already_present p")
      case True
      note A = receive_not_admitted(2) [OF m Inr True]
      from A rcv m Inr True show ?thesis by (auto simp: controller_receive_ticket_def)
    next
      case False
      let ?k = "ticket_session ticket"
      note F = receive_fresh [OF m [unfolded Inr] False]
      have unrouted: "hm_get (sm_active_routes mgr) sel \<noteq> Some ?k" for sel
        using routes_okD(1) [OF manager_invD(4) [OF inv], of sel ?k] F(1,2) by auto
      have get: "hm_get (sm_sessions mgr) ?k = Some \<lparr> ms_ticket = ticket, ms_phase = Prepared \<rparr>" by (simp add: F(2))
      obtain dev eff1 dr where h: "handle_prepare api hash env running ?k (derive_keys kh pub ticket)
          (t_remote_public_key ticket) outbound (ct_device ct) = (dev, eff1, dr)" by (metis prod.exhaust)
      show ?thesis
      proof (cases dr)
        case (Inl e)
        have "ct' = ct\<lparr> ct_manager := mgr\<lparr> sm_sessions := hm_remove ?k (sm_sessions mgr) \<rparr>, ct_device := dev \<rparr>"
          and r: "r = Inl e"
          using rcv m Inr False F(3,4) h Inl fail_unrouted [OF get unrouted]
          by (auto simp: controller_receive_ticket_def)
        with handle_prepare_cases(1) [OF h Inl] F(1,2) show ?thesis by auto
      next
        case (Inr u)
        have mk: "mark_handshaking mgr ?k = (mgr\<lparr> sm_sessions := hm_insert ?k
            \<lparr> ms_ticket = ticket, ms_phase = Handshaking \<rparr> (sm_sessions mgr) \<rparr>, Inr ())"
          by (simp add: mark_handshaking_def get)
        from handle_prepare_cases(2) [OF h] rcv m \<open>pr = Inr p\<close> False F h Inr mk show ?thesis
          by (auto simp: controller_receive_ticket_def manager_phase_def)
      qed
    qed
  qed
qed

theorem receive_ticket_all_or_nothing_witness:
  "\<exists>ct' eff k. controller_receive_ticket (\<lambda>r s. (r, Inr ())) (\<lambda>k m. m) (\<lambda>b. b) queue_api (\<lambda>b. b) sample_env True
      (controller_new ''alice'' (manager_new ()) []) (sample_ticket Left 1 0) ''hub'' 10 1 = (ct', eff, Inr k)
    \<and> manager_phase (ct_manager ct') k = Some Handshaking"
proof -
  let ?ct = "controller_new ''alice'' (manager_new ()) [] :: (unit, bytes list, nat) controller"
  obtain ct' eff r where h: "controller_receive_ticket (\<lambda>r s. (r, Inr ())) (\<lambda>k m. m) (\<lambda>b. b) queue_api (\<lambda>b. b)
      sample_env True ?ct (sample_ticket Left 1 0) ''hub'' 10 1 = (ct', eff, r)" by (metis prod.exhaust)
  have valid: "validate (sample_ticket Left 1 0) 10 = Inr ()"
    by (simp add: validate_ok_iff ticket_ok_def sample_ticket_def)
  have "\<exists>k. r = Inr k"
    using h valid
    by (auto simp: controller_receive_ticket_def manager_receive_ticket_def controller_new_def manager_new_def
        handle_prepare_def prepare_session_def tunnel_encapsulate_def tunnel_new_def queue_api_def empty_output_def
        send_network_def sample_env_def emit_def mark_handshaking_def sample_ticket_def Let_def)
  then obtain k where k: "r = Inr k" ..
  have inv: "manager_inv (\<lambda>_. Map.empty) (\<lambda>_. True) (ct_local_public_key ?ct) (ct_manager ?ct)"
    by (simp add: manager_inv_def controller_new_def manager_new_def table_agrees_def sessions_ok_def routes_ok_def)
  have "hm_get (sm_sessions (ct_manager ?ct)) k = None" by (simp add: controller_new_def manager_new_def)
  with receive_ticket_all_or_nothing [OF inv h] h k show ?thesis by blast
qed

end
