(* ===== verification/Wireguard.thy ===== *)
theory Wireguard
  imports Net_Types
begin

text \<open>
  \<open>src/src/wireguard.rs\<close>: reading the interface through \<open>wg show\<close>, the snapshot of peers and the
  longest-prefix selection over their \<open>AllowedIPs\<close>.  The tool is the parameter \<open>wg\<close>, from the
  arguments of a call to its output; \<open>parse_net\<close> is \<open>IpNet::from_str\<close> and \<open>contains\<close> is
  \<open>IpNet::contains\<close>.
\<close>

section \<open>Snapshots\<close>

record peer =
  p_public_key :: string
  p_endpoint :: "string option"
  p_allowed_ips :: "ipnet list"
  p_latest_handshake :: u64
  p_receive_bytes :: u64
  p_transmit_bytes :: u64

record snapshot =
  s_public_key :: string
  s_listen_port :: u16
  s_peers :: "peer list"

type_synonym tool_fn = "string list \<Rightarrow> process_output res"

definition wg_output :: "tool_fn \<Rightarrow> string \<Rightarrow> string \<Rightarrow> string res" where
  "wg_output wg interface field =
     (case wg [''show'', interface, field] of
        Inl e \<Rightarrow> Inl e
      | Inr out \<Rightarrow>
          if \<not> out_success out then Inl (WireguardError WgShowFailed)
          else Inr (trim (out_stdout out)))"

definition collect_map :: "('k \<times> 'v) list \<Rightarrow> ('k, 'v) hashmap" where
  "collect_map kvs = fold (\<lambda>(k, v). hm_insert k v) kvs []"

definition parse_pairs :: "string \<Rightarrow> (string, string) hashmap" where
  "parse_pairs text =
     collect_map (map (\<lambda>(key, val). (key, trim val))
       (filter_map (split_once is_ws) (str_lines text)))"

definition wg_pairs :: "tool_fn \<Rightarrow> string \<Rightarrow> string \<Rightarrow> (string, string) hashmap res" where
  "wg_pairs wg interface field =
     (case wg_output wg interface field of Inl e \<Rightarrow> Inl e | Inr text \<Rightarrow> Inr (parse_pairs text))"

definition parse_triple :: "string \<Rightarrow> (string \<times> u64 \<times> u64) option" where
  "parse_triple line =
     (case split_whitespace line of
        key # rx # tx # _ \<Rightarrow> do {
          r \<leftarrow> parse_word rx;
          t \<leftarrow> parse_word tx;
          Some (key, r, t)
        }
      | _ \<Rightarrow> None)"

definition wg_triples :: "tool_fn \<Rightarrow> string \<Rightarrow> string \<Rightarrow> (string, u64 \<times> u64) hashmap res" where
  "wg_triples wg interface field =
     (case wg_output wg interface field of
        Inl e \<Rightarrow> Inl e
      | Inr text \<Rightarrow> Inr (collect_map (filter_map parse_triple (str_lines text))))"

definition parse_allowed_ips :: "(string \<Rightarrow> ipnet option) \<Rightarrow> string option \<Rightarrow> ipnet list" where
  "parse_allowed_ips parse_net text =
     (case text of
        None \<Rightarrow> []
      | Some s \<Rightarrow>
          filter_map parse_net
            (filter (\<lambda>v. v \<noteq> [] \<and> v \<noteq> ''(none)'')
              (split_chars (\<lambda>c. c = CHR '','' \<or> c = CHR '' '' \<or> c = char_of (9 :: nat)) s)))"

definition make_peer ::
    "(string \<Rightarrow> ipnet option) \<Rightarrow> (string, string) hashmap \<Rightarrow> (string, string) hashmap
     \<Rightarrow> (string, string) hashmap \<Rightarrow> (string, u64 \<times> u64) hashmap \<Rightarrow> string \<Rightarrow> peer" where
  "make_peer parse_net endpoints handshakes allowed transfers key =
     \<lparr> p_public_key = key,
       p_endpoint = (case hm_get endpoints key of None \<Rightarrow> None
          | Some v \<Rightarrow> if v \<noteq> ''(none)'' then Some v else None),
       p_allowed_ips = parse_allowed_ips parse_net (hm_get allowed key),
       p_latest_handshake = (case Option.bind (hm_get handshakes key) parse_word of
          None \<Rightarrow> 0 | Some t \<Rightarrow> t),
       p_receive_bytes = (case hm_get transfers key of None \<Rightarrow> 0 | Some v \<Rightarrow> fst v),
       p_transmit_bytes = (case hm_get transfers key of None \<Rightarrow> 0 | Some v \<Rightarrow> snd v) \<rparr>"

definition read_snapshot :: "tool_fn \<Rightarrow> (string \<Rightarrow> ipnet option) \<Rightarrow> string \<Rightarrow> snapshot res" where
  "read_snapshot wg parse_net interface =
     (case wg_output wg interface ''public-key'' of Inl e \<Rightarrow> Inl e | Inr public_key \<Rightarrow>
      if public_key = [] then Inl (WireguardError NoPublicKey)
      else case wg_output wg interface ''listen-port'' of Inl e \<Rightarrow> Inl e | Inr port_text \<Rightarrow>
      case parse_word port_text of None \<Rightarrow> Inl (WireguardError InvalidListenPort) | Some listen_port \<Rightarrow>
      if listen_port = 0 then Inl (WireguardError NoListenPort)
      else case wg_pairs wg interface ''endpoints'' of Inl e \<Rightarrow> Inl e | Inr endpoints \<Rightarrow>
      case wg_pairs wg interface ''latest-handshakes'' of Inl e \<Rightarrow> Inl e | Inr handshakes \<Rightarrow>
      case wg_pairs wg interface ''allowed-ips'' of Inl e \<Rightarrow> Inl e | Inr allowed \<Rightarrow>
      case wg_triples wg interface ''transfer'' of Inl e \<Rightarrow> Inl e | Inr transfers \<Rightarrow>
      case wg_output wg interface ''peers'' of Inl e \<Rightarrow> Inl e | Inr peers_text \<Rightarrow>
      Inr \<lparr> s_public_key = public_key, s_listen_port = listen_port,
            s_peers = map (make_peer parse_net endpoints handshakes allowed transfers)
              (filter (\<lambda>line. line \<noteq> []) (str_lines peers_text)) \<rparr>)"

definition set_endpoint :: "tool_fn \<Rightarrow> string \<Rightarrow> string \<Rightarrow> u16 \<Rightarrow> unit res" where
  "set_endpoint wg interface key port =
     (case wg [''set'', interface, ''peer'', key, ''endpoint'',
               ''127.0.0.1:'' @ dec_string (unat port)] of
        Inl e \<Rightarrow> Inl e
      | Inr out \<Rightarrow> if \<not> out_success out then Inl (WireguardError WgSetFailed) else Inr ())"

section \<open>Interface addresses\<close>

fun is_loopback :: "ip_addr \<Rightarrow> bool" where
  "is_loopback (V4 a) = (v4_octets a ! 0 = 127)"
| "is_loopback (V6 a) = (a = 1)"

text \<open>One entry of \<open>addr_info\<close>: address and scope; the records come from \<open>serde_json\<close>.\<close>

definition usable_addresses :: "(ip_addr \<times> string) list list \<Rightarrow> ip_addr list" where
  "usable_addresses records =
     map fst (filter (\<lambda>(addr, scope). scope \<noteq> ''link'' \<and> \<not> is_loopback addr) (concat records))"

definition interface_addresses ::
    "tool_fn \<Rightarrow> (string \<Rightarrow> (ip_addr \<times> string) list list res) \<Rightarrow> string \<Rightarrow> ip_addr list res" where
  "interface_addresses ip parse_records interface =
     (case ip [''-json'', ''address'', ''show'', ''dev'', interface] of
        Inl e \<Rightarrow> Inl e
      | Inr out \<Rightarrow>
          if \<not> out_success out then Inl (WireguardError WgShowFailed)
          else case parse_records (out_stdout out) of
              Inl e \<Rightarrow> Inl e
            | Inr records \<Rightarrow> Inr (usable_addresses records))"

section \<open>Peer selection\<close>

definition snapshot_peer :: "snapshot \<Rightarrow> string \<Rightarrow> peer option" where
  "snapshot_peer s key = find (\<lambda>p. p_public_key p = key) (s_peers s)"

definition best_prefix :: "(ipnet \<Rightarrow> ip_addr \<Rightarrow> bool) \<Rightarrow> ip_addr \<Rightarrow> peer \<Rightarrow> u8 option" where
  "best_prefix contains dest p =
     map_option prefix_len (max_by_key prefix_len (filter (\<lambda>n. contains n dest) (p_allowed_ips p)))"

definition longest_matching_prefix ::
    "(ipnet \<Rightarrow> ip_addr \<Rightarrow> bool) \<Rightarrow> peer list \<Rightarrow> ip_addr \<Rightarrow> string option \<Rightarrow> peer option" where
  "longest_matching_prefix contains peers dest excluded =
     map_option snd
       (max_by_key fst
         (filter_map (\<lambda>p. map_option (\<lambda>len. (len, p)) (best_prefix contains dest p))
           (filter (\<lambda>p. Some (p_public_key p) \<noteq> excluded) peers)))"

definition route_peer ::
    "(ipnet \<Rightarrow> ip_addr \<Rightarrow> bool) \<Rightarrow> snapshot \<Rightarrow> ip_addr \<Rightarrow> string option \<Rightarrow> peer option" where
  "route_peer contains s dest excluded = longest_matching_prefix contains (s_peers s) dest excluded"

section \<open>Longest prefix match\<close>

text \<open>\<open>lpm_choice\<close>: what it means for \<open>p\<close> to be a correct next hop.\<close>

definition eligible ::
    "(ipnet \<Rightarrow> ip_addr \<Rightarrow> bool) \<Rightarrow> peer list \<Rightarrow> ip_addr \<Rightarrow> string option \<Rightarrow> peer \<Rightarrow> ipnet \<Rightarrow> bool" where
  "eligible contains peers dest excluded p n \<longleftrightarrow>
     p \<in> set peers \<and> Some (p_public_key p) \<noteq> excluded \<and> n \<in> set (p_allowed_ips p) \<and> contains n dest"

definition lpm_choice ::
    "(ipnet \<Rightarrow> ip_addr \<Rightarrow> bool) \<Rightarrow> peer list \<Rightarrow> ip_addr \<Rightarrow> string option \<Rightarrow> peer \<Rightarrow> bool" where
  "lpm_choice contains peers dest excluded p \<longleftrightarrow>
     (\<exists>n. eligible contains peers dest excluded p n \<and>
        (\<forall>q m. eligible contains peers dest excluded q m \<longrightarrow> prefix_len m \<le> prefix_len n))"

lemma best_prefix_Some:
  assumes "best_prefix contains dest p = Some len"
  shows "\<exists>n \<in> set (p_allowed_ips p). contains n dest \<and> prefix_len n = len"
    and "\<And>m. m \<in> set (p_allowed_ips p) \<Longrightarrow> contains m dest \<Longrightarrow> prefix_len m \<le> len"
proof -
  from assms obtain n
    where n: "max_by_key prefix_len (filter (\<lambda>n. contains n dest) (p_allowed_ips p)) = Some n"
      and len: "len = prefix_len n"
    by (auto simp: best_prefix_def)
  note M = max_by_key_SomeD [OF n]
  show "\<exists>n \<in> set (p_allowed_ips p). contains n dest \<and> prefix_len n = len"
    using M(1) len by auto
  show "prefix_len m \<le> len" if "m \<in> set (p_allowed_ips p)" "contains m dest" for m
    using M(2) [of m] that len by auto
qed

lemma best_prefix_None:
  "best_prefix contains dest p = None \<longleftrightarrow> (\<forall>n \<in> set (p_allowed_ips p). \<not> contains n dest)"
  by (auto simp: best_prefix_def filter_empty_conv)

lemma longest_matching_prefix_Some:
  assumes "longest_matching_prefix contains peers dest excluded = Some p"
  shows "lpm_choice contains peers dest excluded p"
proof -
  let ?cands = "filter_map (\<lambda>p. map_option (\<lambda>len. (len, p)) (best_prefix contains dest p))
      (filter (\<lambda>p. Some (p_public_key p) \<noteq> excluded) peers)"
  from assms obtain len where top: "max_by_key fst ?cands = Some (len, p)"
    by (auto simp: longest_matching_prefix_def)
  note M = max_by_key_SomeD [OF top]
  from M(1) have p: "p \<in> set peers" "Some (p_public_key p) \<noteq> excluded"
    and len: "best_prefix contains dest p = Some len" by auto
  from best_prefix_Some(1) [OF len] p obtain n
    where n: "eligible contains peers dest excluded p n" "prefix_len n = len"
    by (auto simp: eligible_def)
  have "prefix_len m \<le> prefix_len n" if "eligible contains peers dest excluded q m" for q m
  proof -
    from that have q: "q \<in> set peers" "Some (p_public_key q) \<noteq> excluded"
      and m: "m \<in> set (p_allowed_ips q)" "contains m dest" by (auto simp: eligible_def)
    from m obtain l where l: "best_prefix contains dest q = Some l"
      using best_prefix_None [of contains dest q] by (cases "best_prefix contains dest q") auto
    from q l have "(l, q) \<in> set ?cands" by force
    from M(2) [OF this] best_prefix_Some(2) [OF l m] n(2) show ?thesis by simp
  qed
  with n(1) show ?thesis by (auto simp: lpm_choice_def)
qed

lemma longest_matching_prefix_None:
  "longest_matching_prefix contains peers dest excluded = None \<longleftrightarrow>
     (\<forall>p n. \<not> eligible contains peers dest excluded p n)"
proof -
  have empty: "filter_map f xs = [] \<longleftrightarrow> (\<forall>x \<in> set xs. f x = None)" for f :: "peer \<Rightarrow> (u8 \<times> peer) option" and xs
    by (induction xs) (auto split: option.splits)
  show ?thesis
    by (auto simp: longest_matching_prefix_def empty best_prefix_None eligible_def)
qed

lemma route_peer_excluded:
  "route_peer contains s dest (Some key) = Some p \<Longrightarrow> p_public_key p \<noteq> key"
  unfolding route_peer_def by (drule longest_matching_prefix_Some) (auto simp: lpm_choice_def eligible_def)

lemma route_peer_in:
  "route_peer contains s dest excluded = Some p \<Longrightarrow> p \<in> set (s_peers s)"
  unfolding route_peer_def by (drule longest_matching_prefix_Some) (auto simp: lpm_choice_def eligible_def)

section \<open>Properties\<close>

text \<open>
  Longest prefix match: \<open>route_peer\<close> returns a peer of the snapshot, other than the excluded
  one, with an allowed network that contains the destination and that no allowed network of any
  other candidate exceeds in length; it returns nothing exactly when no candidate has such a
  network.
\<close>

theorem route_peer_longest_prefix:
  "case route_peer contains s dest excluded of
     Some p \<Rightarrow> \<exists>n. p \<in> set (s_peers s) \<and> Some (p_public_key p) \<noteq> excluded
       \<and> n \<in> set (p_allowed_ips p) \<and> contains n dest
       \<and> \<not> (\<exists>q m. q \<in> set (s_peers s) \<and> Some (p_public_key q) \<noteq> excluded
             \<and> m \<in> set (p_allowed_ips q) \<and> contains m dest \<and> prefix_len n < prefix_len m)
   | None \<Rightarrow> \<not> (\<exists>q m. q \<in> set (s_peers s) \<and> Some (p_public_key q) \<noteq> excluded
             \<and> m \<in> set (p_allowed_ips q) \<and> contains m dest)"
proof (cases "route_peer contains s dest excluded")
  case None
  then have "\<forall>p n. \<not> eligible contains (s_peers s) dest excluded p n"
    unfolding route_peer_def longest_matching_prefix_None .
  then show ?thesis unfolding None by (auto simp: eligible_def)
next
  case (Some p)
  then have "lpm_choice contains (s_peers s) dest excluded p"
    unfolding route_peer_def by (rule longest_matching_prefix_Some)
  then show ?thesis unfolding Some by (fastforce simp: lpm_choice_def eligible_def not_less)
qed

end
