(* ===== verification/Frame.thy ===== *)
theory Frame
  imports Broker
begin

text \<open>
  The framing of relay packets in \<open>src/src/easytier.rs\<close> and the filter that takes such frames out of
  the EasyTier packet stream.  Decoding works on slices that would panic out of range, so it
  returns an \<open>exec\<close>; the lengths of slices are naturals, because a slice is shorter than \<open>2^63\<close>
  and no offset computed here can overflow a \<open>usize\<close>.
\<close>

section \<open>Frames\<close>

definition LEGACY_FRAME_MAGIC :: bytes where "LEGACY_FRAME_MAGIC = as_bytes ''WGLINK01''"
definition TYPED_FRAME_MAGIC :: bytes where "TYPED_FRAME_MAGIC = as_bytes ''WGLINK02''"
definition MAX_KEY_LEN :: nat where "MAX_KEY_LEN = 128"
definition SHORTCUT_CHANNEL :: u8 where "SHORTCUT_CHANNEL = 1"
definition PROBE_REQUEST_CHANNEL :: u8 where "PROBE_REQUEST_CHANNEL = 2"
definition PROBE_RESPONSE_CHANNEL :: u8 where "PROBE_RESPONSE_CHANNEL = 3"

lemmas frame_consts = LEGACY_FRAME_MAGIC_def TYPED_FRAME_MAGIC_def MAX_KEY_LEN_def SHORTCUT_CHANNEL_def
  PROBE_REQUEST_CHANNEL_def PROBE_RESPONSE_CHANNEL_def

record decoded_frame =
  df_source :: string
  df_target :: string
  df_channel :: relay_channel
  df_payload :: bytes

definition len_u16 :: "string \<Rightarrow> bytes" where
  "len_u16 s = to_be_bytes (word_of_nat (length s) :: u16)"

definition keys_and_payload :: "string \<Rightarrow> string \<Rightarrow> bytes \<Rightarrow> bytes" where
  "keys_and_payload source target payload =
     len_u16 source @ len_u16 target @ as_bytes source @ as_bytes target @ payload"

definition encode_legacy_frame :: "string \<Rightarrow> string \<Rightarrow> bytes \<Rightarrow> bytes" where
  "encode_legacy_frame source target payload = LEGACY_FRAME_MAGIC @ keys_and_payload source target payload"

fun encode_frame :: "string \<Rightarrow> string \<Rightarrow> relay_channel \<Rightarrow> bytes \<Rightarrow> bytes" where
  "encode_frame source target BaseWireGuard payload = encode_legacy_frame source target payload"
| "encode_frame source target (ShortcutWireGuard session) payload =
     TYPED_FRAME_MAGIC @ [SHORTCUT_CHANNEL] @ id_bytes (sk_shortcut_id session) @ to_be_bytes (sk_epoch session)
       @ keys_and_payload source target payload"
| "encode_frame source target (PathProbe nonce sent_micros reply) payload =
     TYPED_FRAME_MAGIC @ [if reply then PROBE_RESPONSE_CHANNEL else PROBE_REQUEST_CHANNEL]
       @ to_be_bytes nonce @ to_be_bytes sent_micros @ keys_and_payload source target payload"

definition decode_keys_and_payload :: "bytes \<Rightarrow> nat \<Rightarrow> (string \<times> string \<times> bytes) option exec" where
  "decode_keys_and_payload frame lengths_offset =
     (if length frame < lengths_offset + 4 then Returned None
      else exec_bind (index_at frame lengths_offset) (\<lambda>s0. exec_bind (index_at frame (lengths_offset + 1)) (\<lambda>s1.
        exec_bind (index_at frame (lengths_offset + 2)) (\<lambda>t0. exec_bind (index_at frame (lengths_offset + 3)) (\<lambda>t1.
          let source_len = unat (from_be_bytes [s0, s1] :: u16);
              target_len = unat (from_be_bytes [t0, t1] :: u16) in
          if source_len = 0 \<or> target_len = 0 \<or> MAX_KEY_LEN < source_len \<or> MAX_KEY_LEN < target_len
          then Returned None
          else let offset = lengths_offset + 4;
                   source_end = offset + source_len;
                   target_end = source_end + target_len in
            if length frame \<le> target_end then Returned None
            else exec_bind (slice frame offset source_end) (\<lambda>s.
              case from_utf8 s of
                None \<Rightarrow> Returned None
              | Some source \<Rightarrow> exec_bind (slice frame source_end target_end) (\<lambda>t.
                  case from_utf8 t of
                    None \<Rightarrow> Returned None
                  | Some target \<Rightarrow> exec_bind (slice frame target_end (length frame)) (\<lambda>payload.
                      Returned (Some (source, target, payload))))))))))"

definition with_keys :: "relay_channel \<Rightarrow> (string \<times> string \<times> bytes) option exec \<Rightarrow> decoded_frame option exec" where
  "with_keys channel r = exec_bind r (\<lambda>x.
     case x of
       None \<Rightarrow> Returned None
     | Some (source, target, payload) \<Rightarrow>
         Returned (Some \<lparr> df_source = source, df_target = target, df_channel = channel, df_payload = payload \<rparr>))"

definition decode_frame :: "bytes \<Rightarrow> decoded_frame option exec" where
  "decode_frame frame =
     (if starts_with frame LEGACY_FRAME_MAGIC
      then with_keys BaseWireGuard (decode_keys_and_payload frame (length LEGACY_FRAME_MAGIC))
      else if length frame < length TYPED_FRAME_MAGIC + 21 \<or> \<not> starts_with frame TYPED_FRAME_MAGIC
      then Returned None
      else exec_bind (index_at frame (length TYPED_FRAME_MAGIC)) (\<lambda>channel_id.
        let metadata_offset = length TYPED_FRAME_MAGIC + 1 in
        if channel_id = SHORTCUT_CHANNEL then
          (if length frame < metadata_offset + 24 + 4 then Returned None
           else exec_bind (slice frame metadata_offset (metadata_offset + 16)) (\<lambda>sid.
             exec_bind (slice frame (metadata_offset + 16) (metadata_offset + 24)) (\<lambda>ep.
               with_keys (ShortcutWireGuard (SessionKey (ShortcutId sid) (from_be_bytes ep)))
                 (decode_keys_and_payload frame (metadata_offset + 24)))))
        else if channel_id = PROBE_REQUEST_CHANNEL \<or> channel_id = PROBE_RESPONSE_CHANNEL then
          (if length frame < metadata_offset + 16 + 4 then Returned None
           else exec_bind (slice frame metadata_offset (metadata_offset + 8)) (\<lambda>nonce.
             exec_bind (slice frame (metadata_offset + 8) (metadata_offset + 16)) (\<lambda>sent.
               with_keys (PathProbe (from_be_bytes nonce) (from_be_bytes sent) (channel_id = PROBE_RESPONSE_CHANNEL))
                 (decode_keys_and_payload frame (metadata_offset + 16)))))
        else Returned None))"

section \<open>Decoding\<close>

definition key_ok :: "string \<Rightarrow> bool" where
  "key_ok s \<longleftrightarrow> rust_str s \<and> 1 \<le> length s \<and> length s \<le> 128"

fun channel_ok :: "relay_channel \<Rightarrow> bool" where
  "channel_ok (ShortcutWireGuard k) = (length (id_bytes (sk_shortcut_id k)) = 16)"
| "channel_ok _ = True"

lemma magic_lengths [simp]: "length LEGACY_FRAME_MAGIC = 8" "length TYPED_FRAME_MAGIC = 8"
  by (simp_all add: frame_consts)

lemma unat_small_u16: "n \<le> 128 \<Longrightarrow> unat (word_of_nat n :: u16) = n"
  by (simp add: unsigned_of_nat take_bit_eq_mod)

lemma len_u16_length [simp]: "length (len_u16 s) = 2"
  by (simp add: len_u16_def)

lemma len_u16_bytes:
  assumes "length s \<le> 128"
  shows "unat (from_be_bytes [len_u16 s ! 0, len_u16 s ! 1] :: u16) = length s"
proof -
  have two: "[xs ! 0, xs ! 1] = xs" if "length xs = 2" for xs :: bytes
    using that by (cases xs; cases "tl xs") auto
  have "[len_u16 s ! 0, len_u16 s ! 1] = len_u16 s" by (rule two) simp
  then show ?thesis using assms by (simp add: len_u16_def unat_small_u16)
qed

lemma nth_append_at: "n = length pre \<Longrightarrow> (pre @ xs) ! (n + i) = xs ! i"
  by (simp add: nth_append)

lemma decode_keys_encoded:
  assumes "key_ok source" and "key_ok target" and "payload \<noteq> []"
    and f: "f = pre @ keys_and_payload source target payload" and n: "n = length pre"
  shows "decode_keys_and_payload f n = Returned (Some (source, target, payload))"
proof -
  let ?s = "length source" and ?t = "length target"
  have len: "length f = n + 4 + ?s + ?t + length payload"
    by (simp add: f n keys_and_payload_def)
  have at: "f ! n = len_u16 source ! 0" "f ! (n + 1) = len_u16 source ! 1"
    "f ! (n + 2) = len_u16 target ! 0" "f ! (n + 3) = len_u16 target ! 1"
    by (simp_all add: f n nth_append keys_and_payload_def)
  have idx: "index_at f n = Returned (len_u16 source ! 0)" "index_at f (n + 1) = Returned (len_u16 source ! 1)"
    "index_at f (n + 2) = Returned (len_u16 target ! 0)" "index_at f (n + 3) = Returned (len_u16 target ! 1)"
    unfolding at [symmetric] by (simp_all add: exec_simps len)
  have sl: "unat (from_be_bytes [len_u16 source ! 0, len_u16 source ! 1] :: u16) = ?s"
    and tl: "unat (from_be_bytes [len_u16 target ! 0, len_u16 target ! 1] :: u16) = ?t"
    by (rule len_u16_bytes, use assms(1,2) in \<open>simp add: key_ok_def\<close>)+
  have parts: "slice f (n + 4) (n + 4 + ?s) = Returned (as_bytes source)"
    "slice f (n + 4 + ?s) (n + 4 + ?s + ?t) = Returned (as_bytes target)"
    "slice f (n + 4 + ?s + ?t) (length f) = Returned payload"
    by (simp_all add: slice_def len) (simp_all add: f n keys_and_payload_def)
  have bounds: "\<not> length f < n + 4" "\<not> length f \<le> n + 4 + ?s + ?t"
    "\<not> (?s = 0 \<or> ?t = 0 \<or> MAX_KEY_LEN < ?s \<or> MAX_KEY_LEN < ?t)"
    using assms(1-3) by (auto simp: len key_ok_def MAX_KEY_LEN_def)
  have utf: "from_utf8 (as_bytes source) = Some source" "from_utf8 (as_bytes target) = Some target"
    using assms(1,2) by (simp_all add: key_ok_def)
  show ?thesis
    unfolding decode_keys_and_payload_def idx exec_bind.simps sl tl Let_def parts utf option.case
    using bounds by simp
qed

text \<open>What a successful decoding of the keys says about the bytes.\<close>

lemma decode_keys_returns: "decode_keys_and_payload frame off \<noteq> Panicked"
  by (auto simp: decode_keys_and_payload_def exec_simps Let_def split: option.splits)

lemma drop_in_three: "drop a f = take s (drop a f) @ take t (drop (a + s) f) @ drop (a + s + t) f"
proof -
  have "drop (a + s) f = drop s (drop a f)" and "drop (a + s + t) f = drop t (drop (a + s) f)"
    by (simp_all add: ac_simps)
  then show ?thesis by (simp only: append_take_drop_id)
qed

lemma decode_keys_inverse:
  assumes "decode_keys_and_payload frame off = Returned (Some (source, target, payload))"
  shows "frame = take off frame @ keys_and_payload source target payload"
    and "key_ok source" and "key_ok target" and "payload \<noteq> []"
proof -
  let ?s = "unat (from_be_bytes [frame ! off, frame ! (off + 1)] :: u16)"
  let ?t = "unat (from_be_bytes [frame ! (off + 2), frame ! (off + 3)] :: u16)"
  have long: "off + 4 \<le> length frame"
    using assms by (auto simp: decode_keys_and_payload_def split: if_splits)
  then have idx: "index_at frame off = Returned (frame ! off)" "index_at frame (off + 1) = Returned (frame ! (off + 1))"
    "index_at frame (off + 2) = Returned (frame ! (off + 2))" "index_at frame (off + 3) = Returned (frame ! (off + 3))"
    by (simp_all add: exec_simps)
  from assms long have bounds: "?s \<noteq> 0" "?t \<noteq> 0" "?s \<le> 128" "?t \<le> 128" "off + 4 + ?s + ?t < length frame"
    unfolding decode_keys_and_payload_def idx by (auto simp: MAX_KEY_LEN_def Let_def split: if_splits)
  then have sl: "slice frame (off + 4) (off + 4 + ?s) = Returned (take ?s (drop (off + 4) frame))"
    "slice frame (off + 4 + ?s) (off + 4 + ?s + ?t) = Returned (take ?t (drop (off + 4 + ?s) frame))"
    "slice frame (off + 4 + ?s + ?t) (length frame) = Returned (drop (off + 4 + ?s + ?t) frame)"
    by (simp_all add: slice_def)
  from assms long bounds have u: "from_utf8 (take ?s (drop (off + 4) frame)) = Some source"
    "from_utf8 (take ?t (drop (off + 4 + ?s) frame)) = Some target"
    and pl: "payload = drop (off + 4 + ?s + ?t) frame"
    unfolding decode_keys_and_payload_def idx Let_def exec_bind.simps sl
    by (auto simp: sl split: if_splits option.splits)
  note us = as_bytes_from_utf8 [OF u(1)] and ut = as_bytes_from_utf8 [OF u(2)]
  have ls: "length source = ?s" and lt: "length target = ?t"
    using arg_cong [OF conjunct1 [OF us], of length] arg_cong [OF conjunct1 [OF ut], of length] bounds by auto
  have cut: "frame = take off frame @ [frame ! off, frame ! (off + 1)] @ [frame ! (off + 2), frame ! (off + 3)]
      @ drop (off + 4) frame"
  proof -
    have step: "drop i frame = frame ! i # drop (i + 1) frame" if "i < length frame" for i
      using that by (simp add: Cons_nth_drop_Suc)
    have "drop off frame = [frame ! off, frame ! (off + 1)] @ [frame ! (off + 2), frame ! (off + 3)]
        @ drop (off + 4) frame"
      using long step [of off] step [of "off + 1"] step [of "off + 2"] step [of "off + 3"]
      by (simp add: numeral_eq_Suc)
    then show ?thesis using append_take_drop_id [of off frame] by simp
  qed
  have w: "len_u16 source = [frame ! off, frame ! (off + 1)]" "len_u16 target = [frame ! (off + 2), frame ! (off + 3)]"
    by (simp_all add: len_u16_def ls lt to_be_bytes_from_be_bytes)
  have rest: "drop (off + 4) frame = as_bytes source @ as_bytes target @ payload"
    unfolding us [THEN conjunct1] ut [THEN conjunct1] pl by (rule drop_in_three)
  show "frame = take off frame @ keys_and_payload source target payload"
    unfolding keys_and_payload_def w rest [symmetric] by (rule cut)
  show "key_ok source" "key_ok target" using us ut ls lt bounds by (auto simp: key_ok_def)
  show "payload \<noteq> []" using pl bounds by auto
qed

lemma magics_differ: "\<not> starts_with (TYPED_FRAME_MAGIC @ xs) LEGACY_FRAME_MAGIC"
  by (simp add: starts_with_def) (simp add: frame_consts)

lemma starts_with_prefix [simp]: "starts_with (p @ xs) p"
  by (simp add: starts_with_def)

lemma starts_withD: "starts_with f p \<Longrightarrow> take (length p) f = p"
  by (simp add: starts_with_def)

lemma with_keys_Returned:
  "with_keys channel r = Returned (Some d) \<longleftrightarrow>
     (\<exists>source target payload. r = Returned (Some (source, target, payload))
       \<and> d = \<lparr> df_source = source, df_target = target, df_channel = channel, df_payload = payload \<rparr>)"
  by (cases r) (auto simp: with_keys_def split: option.splits)

lemma with_keys_Panicked [simp]: "with_keys channel r = Panicked \<longleftrightarrow> r = Panicked"
  by (cases r) (auto simp: with_keys_def split: option.splits)

lemma decode_frame_encoded:
  assumes "key_ok source" and "key_ok target" and "payload \<noteq> []" and "channel_ok channel"
  shows "decode_frame (encode_frame source target channel payload) =
    Returned (Some \<lparr> df_source = source, df_target = target, df_channel = channel, df_payload = payload \<rparr>)"
proof (cases channel)
  case BaseWireGuard
  have "decode_keys_and_payload (encode_frame source target channel payload) 8 = Returned (Some (source, target, payload))"
    by (rule decode_keys_encoded [OF assms(1-3), of _ LEGACY_FRAME_MAGIC])
       (simp_all add: BaseWireGuard encode_legacy_frame_def)
  then show ?thesis by (simp add: BaseWireGuard decode_frame_def encode_legacy_frame_def with_keys_Returned)
next
  case (ShortcutWireGuard k)
  let ?f = "encode_frame source target channel payload"
  let ?id = "id_bytes (sk_shortcut_id k)" and ?kp = "keys_and_payload source target payload"
  have id: "length ?id = 16" using assms(4) by (simp add: ShortcutWireGuard)
  have f: "?f = TYPED_FRAME_MAGIC @ [SHORTCUT_CHANNEL] @ ?id @ to_be_bytes (sk_epoch k) @ ?kp"
    by (simp add: ShortcutWireGuard)
  have kp: "decode_keys_and_payload ?f 33 = Returned (Some (source, target, payload))"
    by (rule decode_keys_encoded [OF assms(1-3), of _ "TYPED_FRAME_MAGIC @ [SHORTCUT_CHANNEL] @ ?id @ to_be_bytes (sk_epoch k)"])
       (simp_all add: f id)
  have "5 \<le> length ?kp" using assms by (simp add: keys_and_payload_def key_ok_def)
  then have parts: "38 \<le> length ?f" "index_at ?f 8 = Returned SHORTCUT_CHANNEL"
    "slice ?f 9 25 = Returned ?id" "slice ?f 25 33 = Returned (to_be_bytes (sk_epoch k))"
    by (simp_all add: f id index_at_def slice_def nth_append)
  have "\<not> starts_with ?f LEGACY_FRAME_MAGIC" "starts_with ?f TYPED_FRAME_MAGIC"
    unfolding f by (rule magics_differ, rule starts_with_prefix)
  with kp parts show ?thesis
    by (simp add: decode_frame_def with_keys_Returned del: encode_frame.simps) (simp add: ShortcutWireGuard)
next
  case (PathProbe nonce sent reply)
  let ?f = "encode_frame source target channel payload"
  let ?c = "if reply then PROBE_RESPONSE_CHANNEL else PROBE_REQUEST_CHANNEL"
  let ?kp = "keys_and_payload source target payload"
  have f: "?f = TYPED_FRAME_MAGIC @ [?c] @ to_be_bytes nonce @ to_be_bytes sent @ ?kp"
    by (simp add: PathProbe)
  have kp: "decode_keys_and_payload ?f 25 = Returned (Some (source, target, payload))"
    by (rule decode_keys_encoded [OF assms(1-3), of _ "TYPED_FRAME_MAGIC @ [?c] @ to_be_bytes nonce @ to_be_bytes sent"])
       (simp_all add: f)
  have "5 \<le> length ?kp" using assms by (simp add: keys_and_payload_def key_ok_def)
  then have parts: "30 \<le> length ?f" "index_at ?f 8 = Returned ?c"
    "slice ?f 9 17 = Returned (to_be_bytes nonce)" "slice ?f 17 25 = Returned (to_be_bytes sent)"
    by (simp_all add: f index_at_def slice_def nth_append)
  have c: "?c \<noteq> SHORTCUT_CHANNEL" "?c = PROBE_REQUEST_CHANNEL \<or> ?c = PROBE_RESPONSE_CHANNEL"
    "?c = PROBE_RESPONSE_CHANNEL \<longleftrightarrow> reply" by (simp_all add: frame_consts)
  have "\<not> starts_with ?f LEGACY_FRAME_MAGIC" "starts_with ?f TYPED_FRAME_MAGIC"
    unfolding f by (rule magics_differ, rule starts_with_prefix)
  with kp parts c show ?thesis
    by (simp add: decode_frame_def with_keys_Returned del: encode_frame.simps if_split) (simp add: PathProbe)
qed

lemma decode_frame_returns: "decode_frame frame \<noteq> Panicked"
  by (auto simp: decode_frame_def exec_simps decode_keys_returns Let_def)

lemma take_in_parts: "take (a + b) f = take a f @ take b (drop a f)"
  by (rule take_add)

abbreviation frame_of :: "bytes \<Rightarrow> decoded_frame \<Rightarrow> bool" where
  "frame_of frame d \<equiv> frame = encode_frame (df_source d) (df_target d) (df_channel d) (df_payload d)
     \<and> key_ok (df_source d) \<and> key_ok (df_target d) \<and> df_payload d \<noteq> [] \<and> channel_ok (df_channel d)"

lemma typed_frame_head:
  assumes "decode_frame frame = Returned (Some d)" and "\<not> starts_with frame LEGACY_FRAME_MAGIC"
  shows "29 \<le> length frame" and "take 9 frame = TYPED_FRAME_MAGIC @ [frame ! 8]" and "index_at frame 8 = Returned (frame ! 8)"
proof -
  from assms have typed: "take 8 frame = TYPED_FRAME_MAGIC" and long: "29 \<le> length frame"
    by (auto simp: decode_frame_def dest: starts_withD split: if_splits)
  then show "29 \<le> length frame" "take 9 frame = TYPED_FRAME_MAGIC @ [frame ! 8]" "index_at frame 8 = Returned (frame ! 8)"
    using take_Suc_conv_app_nth [of 8 frame] by (simp_all add: exec_simps)
qed

lemma decode_shortcut_inverse:
  assumes dec: "decode_frame frame = Returned (Some d)" and typed: "\<not> starts_with frame LEGACY_FRAME_MAGIC"
    and ch: "frame ! 8 = SHORTCUT_CHANNEL"
  shows "frame_of frame d"
proof -
  note H = typed_frame_head [OF dec typed]
  from typed dec H(3) ch have l: "37 \<le> length frame"
    by (auto simp: decode_frame_def Let_def split: if_splits)
  then have sl: "slice frame 9 25 = Returned (take 16 (drop 9 frame))"
    "slice frame 25 33 = Returned (take 8 (drop 25 frame))" by (simp_all add: slice_def)
  from typed ch dec H(3) l sl obtain s t p
    where k: "decode_keys_and_payload frame 33 = Returned (Some (s, t, p))"
      and d: "d = \<lparr> df_source = s, df_target = t, df_channel = ShortcutWireGuard
        (SessionKey (ShortcutId (take 16 (drop 9 frame))) (from_be_bytes (take 8 (drop 25 frame)))), df_payload = p \<rparr>"
    by (auto simp: decode_frame_def with_keys_Returned Let_def split: if_splits)
  have "take 33 frame = TYPED_FRAME_MAGIC @ [frame ! 8] @ take 16 (drop 9 frame) @ take 8 (drop 25 frame)"
    using take_in_parts [of 9 24 frame] take_in_parts [of 16 8 "drop 9 frame"] H(2) by simp
  moreover have "to_be_bytes (from_be_bytes (take 8 (drop 25 frame)) :: u64) = take 8 (drop 25 frame)"
    using l by (intro to_be_bytes_from_be_bytes) simp
  ultimately show ?thesis using decode_keys_inverse [OF k] ch d l by simp
qed

lemma decode_probe_inverse:
  assumes dec: "decode_frame frame = Returned (Some d)" and typed: "\<not> starts_with frame LEGACY_FRAME_MAGIC"
    and other: "frame ! 8 \<noteq> SHORTCUT_CHANNEL"
  shows "frame_of frame d"
proof -
  note H = typed_frame_head [OF dec typed]
  from typed other dec H(3) have ids: "frame ! 8 = PROBE_REQUEST_CHANNEL \<or> frame ! 8 = PROBE_RESPONSE_CHANNEL"
    by (auto simp: decode_frame_def Let_def split: if_splits)
  from H(1) have sl: "slice frame 9 17 = Returned (take 8 (drop 9 frame))"
    "slice frame 17 25 = Returned (take 8 (drop 17 frame))" by (simp_all add: slice_def)
  from typed other dec ids H(1,3) sl obtain s t p
    where k: "decode_keys_and_payload frame 25 = Returned (Some (s, t, p))"
      and d: "d = \<lparr> df_source = s, df_target = t, df_channel = PathProbe (from_be_bytes (take 8 (drop 9 frame)))
        (from_be_bytes (take 8 (drop 17 frame))) (frame ! 8 = PROBE_RESPONSE_CHANNEL), df_payload = p \<rparr>"
    by (auto simp: decode_frame_def with_keys_Returned Let_def split: if_splits)
  have "take 25 frame = TYPED_FRAME_MAGIC @ [frame ! 8] @ take 8 (drop 9 frame) @ take 8 (drop 17 frame)"
    using take_in_parts [of 9 16 frame] take_in_parts [of 8 8 "drop 9 frame"] H(2) by simp
  moreover have "to_be_bytes (from_be_bytes (take 8 (drop 9 frame)) :: u64) = take 8 (drop 9 frame)"
    "to_be_bytes (from_be_bytes (take 8 (drop 17 frame)) :: u64) = take 8 (drop 17 frame)"
    using H(1) by (intro to_be_bytes_from_be_bytes; simp)+
  moreover have "(if frame ! 8 = PROBE_RESPONSE_CHANNEL then PROBE_RESPONSE_CHANNEL else PROBE_REQUEST_CHANNEL) = frame ! 8"
    using ids by auto
  ultimately show ?thesis using decode_keys_inverse [OF k] d by simp
qed

lemma decode_frame_inverse:
  assumes "decode_frame frame = Returned (Some d)"
  shows "frame = encode_frame (df_source d) (df_target d) (df_channel d) (df_payload d)"
    and "key_ok (df_source d) \<and> key_ok (df_target d) \<and> df_payload d \<noteq> [] \<and> channel_ok (df_channel d)"
proof -
  have "frame_of frame d"
  proof (cases "starts_with frame LEGACY_FRAME_MAGIC")
    case True
    with assms obtain s t p where k: "decode_keys_and_payload frame 8 = Returned (Some (s, t, p))"
      and d: "d = \<lparr> df_source = s, df_target = t, df_channel = BaseWireGuard, df_payload = p \<rparr>"
      by (auto simp: decode_frame_def with_keys_Returned)
    from decode_keys_inverse [OF k] starts_withD [OF True] d show ?thesis
      by (simp add: encode_legacy_frame_def)
  next
    case False
    from decode_shortcut_inverse [OF assms False] decode_probe_inverse [OF assms False] show ?thesis by blast
  qed
  then show "frame = encode_frame (df_source d) (df_target d) (df_channel d) (df_payload d)"
    and "key_ok (df_source d) \<and> key_ok (df_target d) \<and> df_payload d \<noteq> [] \<and> channel_ok (df_channel d)" by blast+
qed

section \<open>WgPacketFilter\<close>

text \<open>
  An EasyTier packet as the filter sees it: the type in its header, if it has one, and its payload.
  \<open>data_type\<close> is \<open>PacketType::Data\<close>.  A \<open>try_send\<close> to a full or closed channel drops the packet, so
  the effects are the attempts.
\<close>

record zc_packet =
  zc_type :: "u8 option"
  zc_payload :: bytes

record 'c wg_packet_filter =
  wf_local_public_key :: string
  wf_peers :: "(string, 'c) hashmap"
  wf_path_id :: string

datatype 'c filter_effect =
    RecordRx string string nat
  | ToBroker 'c bytes
  | ToShortcut inbound_relay_packet
  | ToProbe inbound_relay_packet

definition try_process_packet ::
    "u8 \<Rightarrow> 'c wg_packet_filter \<Rightarrow> zc_packet \<Rightarrow> ('c filter_effect list \<times> zc_packet option) exec" where
  "try_process_packet data_type flt packet =
     (case zc_type packet of
        None \<Rightarrow> Returned ([], Some packet)
      | Some ty \<Rightarrow>
          if ty \<noteq> data_type then Returned ([], Some packet)
          else exec_bind (decode_frame (zc_payload packet)) (\<lambda>decoded.
            case decoded of
              None \<Rightarrow> Returned ([], Some packet)
            | Some frame \<Rightarrow>
                if df_target frame \<noteq> wf_local_public_key flt then Returned ([], Some packet)
                else
                  (let inbound = \<lparr> irp_source_key = df_source frame, irp_channel = df_channel frame,
                                   irp_payload = df_payload frame \<rparr> in
                   case df_channel frame of
                     BaseWireGuard \<Rightarrow>
                       (case hm_get (wf_peers flt) (df_source frame) of
                          None \<Rightarrow> Returned ([], Some packet)
                        | Some sender \<Rightarrow>
                            Returned ([RecordRx (df_source frame) (wf_path_id flt) (length (df_payload frame)),
                                       ToBroker sender (df_payload frame)], None))
                   | ShortcutWireGuard session \<Rightarrow> Returned ([ToShortcut inbound], None)
                   | PathProbe _ _ _ \<Rightarrow> Returned ([ToProbe inbound], None))))"

section \<open>Properties\<close>

text \<open>
  C35.  Frames: encoding and decoding are inverse.  Every packet between keys of 1 to 128 bytes with a
  payload that is not empty decodes to what was encoded, on every channel; every byte string that
  decodes at all is the encoding of what it decodes to; and decoding arbitrary bytes never panics.
\<close>

theorem relay_frame_round_trip:
  "(key_ok source \<and> key_ok target \<and> payload \<noteq> [] \<and> channel_ok channel \<longrightarrow>
      decode_frame (encode_frame source target channel payload) =
        Returned (Some \<lparr> df_source = source, df_target = target, df_channel = channel, df_payload = payload \<rparr>))
   \<and> (\<forall>d. decode_frame frame = Returned (Some d) \<longrightarrow>
        encode_frame (df_source d) (df_target d) (df_channel d) (df_payload d) = frame)
   \<and> decode_frame frame \<noteq> Panicked"
  using decode_frame_encoded decode_frame_inverse(1) decode_frame_returns by metis

theorem relay_frame_round_trip_witness:
  "decode_frame (encode_frame ''alice'' ''bob'' (PathProbe 1 2 True) [112]) =
     Returned (Some \<lparr> df_source = ''alice'', df_target = ''bob'', df_channel = PathProbe 1 2 True, df_payload = [112] \<rparr>)"
proof -
  have "rust_str ''alice''" "rust_str ''bob''" by code_simp+
  then have "key_ok ''alice''" "key_ok ''bob''" by (simp_all add: key_ok_def)
  with relay_frame_round_trip [of "''alice''" "''bob''" "[112]" "PathProbe 1 2 True"] show ?thesis by simp
qed

text \<open>
  Delivery: the filter of node \<open>target\<close>, given the EasyTier data packet that \<open>source\<close> made for it,
  takes the packet out of the stream and hands the payload to exactly one place: the broker of
  \<open>source\<close>, with one receive record of the payload's length, the shortcut device, or the prober,
  as the channel says.  It passes on unchanged, and without any effect, every packet that is not
  data, is not a frame, is for another node, or is base traffic from an unknown peer.
\<close>

theorem filter_delivers:
  assumes "key_ok source" and "key_ok (wf_local_public_key flt)" and "payload \<noteq> []" and "channel_ok channel"
    and "packet = \<lparr> zc_type = Some data_type,
           zc_payload = encode_frame source (wf_local_public_key flt) channel payload \<rparr>"
  shows "try_process_packet data_type flt packet = Returned
      (case channel of
         BaseWireGuard \<Rightarrow>
           (case hm_get (wf_peers flt) source of
              None \<Rightarrow> ([], Some packet)
            | Some c \<Rightarrow> ([RecordRx source (wf_path_id flt) (length payload), ToBroker c payload], None))
       | ShortcutWireGuard k \<Rightarrow>
           ([ToShortcut \<lparr> irp_source_key = source, irp_channel = channel, irp_payload = payload \<rparr>], None)
       | PathProbe n t b \<Rightarrow>
           ([ToProbe \<lparr> irp_source_key = source, irp_channel = channel, irp_payload = payload \<rparr>], None))
    \<and> (\<forall>other :: zc_packet. zc_type other \<noteq> Some data_type
         \<or> decode_frame (zc_payload other) = Returned None
         \<or> (\<exists>d. decode_frame (zc_payload other) = Returned (Some d) \<and> df_target d \<noteq> wf_local_public_key flt) \<longrightarrow>
         try_process_packet data_type flt other = Returned ([], Some other))"
proof (intro conjI allI impI)
  show "try_process_packet data_type flt packet = Returned
      (case channel of
         BaseWireGuard \<Rightarrow>
           (case hm_get (wf_peers flt) source of
              None \<Rightarrow> ([], Some packet)
            | Some c \<Rightarrow> ([RecordRx source (wf_path_id flt) (length payload), ToBroker c payload], None))
       | ShortcutWireGuard k \<Rightarrow>
           ([ToShortcut \<lparr> irp_source_key = source, irp_channel = channel, irp_payload = payload \<rparr>], None)
       | PathProbe n t b \<Rightarrow>
           ([ToProbe \<lparr> irp_source_key = source, irp_channel = channel, irp_payload = payload \<rparr>], None))"
    unfolding try_process_packet_def assms(5)
    by (simp add: decode_frame_encoded [OF assms(1-4)] Let_def split: relay_channel.splits option.splits)
next
  fix other :: zc_packet
  assume "zc_type other \<noteq> Some data_type
     \<or> decode_frame (zc_payload other) = Returned None
     \<or> (\<exists>d. decode_frame (zc_payload other) = Returned (Some d) \<and> df_target d \<noteq> wf_local_public_key flt)"
  then show "try_process_packet data_type flt other = Returned ([], Some other)"
    by (auto simp: try_process_packet_def split: option.splits)
qed

theorem filter_delivers_witness:
  "try_process_packet 1 \<lparr> wf_local_public_key = ''bob'', wf_peers = [(''alice'', 7 :: nat)], wf_path_id = ''a'' \<rparr>
     \<lparr> zc_type = Some 1, zc_payload = encode_frame ''alice'' ''bob'' BaseWireGuard [1, 2] \<rparr>
   = Returned ([RecordRx ''alice'' ''a'' 2, ToBroker 7 [1, 2]], None)"
proof -
  have "rust_str ''alice''" "rust_str ''bob''" by code_simp+
  then have k: "key_ok ''alice''" "key_ok ''bob''" by (simp_all add: key_ok_def)
  with filter_delivers [of "''alice''" "\<lparr> wf_local_public_key = ''bob'', wf_peers = [(''alice'', 7 :: nat)], wf_path_id = ''a'' \<rparr>"
      "[1, 2]" BaseWireGuard _ 1, OF _ _ _ _ refl]
  show ?thesis by simp
qed

end
