(* ===== verification/Identity.thy ===== *)
theory Identity
  imports Rust_Text
begin

text \<open>
  \<open>src/src/identity.rs\<close>: the names, ports and discovery keys derived from WireGuard keys.  The hash
  functions are parameters on the bytes fed to them (\<open>hash\<close> for BLAKE3, \<open>sha1\<close>), \<open>hex\<close> is the
  crate's \<open>to_hex\<close>.  String slices and the remainder by \<open>span\<close> may panic, so the functions that
  use them return an \<open>exec\<close>.
\<close>

section \<open>Digests\<close>

definition PEER_ID_PERIOD_SECONDS :: u64 where "PEER_ID_PERIOD_SECONDS = 60 * 60"

text \<open>The bytes fed to the hasher: every part after its length as a \<open>u64\<close>.\<close>

definition frame_part :: "bytes \<Rightarrow> bytes" where
  "frame_part part = to_be_bytes (word_of_nat (length part) :: u64) @ part"

definition digest_input :: "bytes list \<Rightarrow> bytes" where
  "digest_input parts = concat (map frame_part parts)"

definition digest :: "(bytes \<Rightarrow> bytes) \<Rightarrow> bytes list \<Rightarrow> bytes" where
  "digest hash parts = hash (digest_input parts)"

section \<open>Rotating identities\<close>

definition peer_id_period :: "u64 \<Rightarrow> u64" where
  "peer_id_period unix_seconds = unix_seconds div PEER_ID_PERIOD_SECONDS"

text \<open>\<open>since_epoch\<close> is the clock reading, absent when the clock is before the epoch.\<close>

definition current_peer_id_period :: "u64 option \<Rightarrow> u64" where
  "current_peer_id_period since_epoch =
     peer_id_period (case since_epoch of Some s \<Rightarrow> s | None \<Rightarrow> 0)"

definition active_peer_id_periods :: "u64 \<Rightarrow> u64 list" where
  "active_peer_id_periods unix_seconds =
     (let current = peer_id_period unix_seconds in [current, sat_sub current 1])"

definition rotating_node_id ::
    "(bytes \<Rightarrow> bytes) \<Rightarrow> (bytes \<Rightarrow> string) \<Rightarrow> string \<Rightarrow> u64 \<Rightarrow> string exec" where
  "rotating_node_id hash hex public_key period =
     slice (hex (digest hash [as_bytes ''wg-link/hourly-node/v2'', as_bytes public_key, to_be_bytes period]))
       0 16"

definition rotating_node_name ::
    "(bytes \<Rightarrow> bytes) \<Rightarrow> (bytes \<Rightarrow> string) \<Rightarrow> string \<Rightarrow> u64 \<Rightarrow> string exec" where
  "rotating_node_name hash hex public_key period =
     exec_bind (rotating_node_id hash hex public_key period) (\<lambda>n. Returned (''wgl-'' @ n))"

definition rotating_instance_id ::
    "(bytes \<Rightarrow> bytes) \<Rightarrow> (bytes \<Rightarrow> string) \<Rightarrow> string \<Rightarrow> u64 \<Rightarrow> string exec" where
  "rotating_instance_id hash hex public_key period =
     (let h = hex (digest hash [as_bytes ''wg-link/hourly-instance/v1'', as_bytes public_key, to_be_bytes period])
      in exec_bind (slice h 0 8) (\<lambda>a. exec_bind (slice h 8 12) (\<lambda>b. exec_bind (slice h 12 16) (\<lambda>c.
         exec_bind (slice h 16 20) (\<lambda>d. exec_bind (slice h 20 32) (\<lambda>e.
           Returned (a @ ''-'' @ b @ ''-'' @ c @ ''-'' @ d @ ''-'' @ e)))))))"

definition transport_network :: "(bytes \<Rightarrow> bytes) \<Rightarrow> (bytes \<Rightarrow> string) \<Rightarrow> string exec" where
  "transport_network hash hex =
     exec_bind (slice (hex (digest hash [as_bytes ''wg-link/easytier-network/v2''])) 0 20)
       (\<lambda>n. Returned (''wglr-'' @ n))"

definition discovery_scope :: "u64 \<Rightarrow> string" where
  "discovery_scope period = ''wg-link/hourly-discovery/v2/'' @ dec_string (unat period)"

definition derive_port :: "(bytes \<Rightarrow> bytes) \<Rightarrow> u16 \<Rightarrow> u16 \<Rightarrow> string \<Rightarrow> string list \<Rightarrow> u16 exec" where
  "derive_port hash base span label parts =
     (let d = digest hash ([as_bytes ''wg-link/port/v1'', as_bytes label] @ map as_bytes parts)
      in if span = 0 then Panicked
         else Returned (sat_add base (from_be_bytes [d ! 0, d ! 1] mod span)))"

definition info_hash :: "(bytes \<Rightarrow> bytes) \<Rightarrow> string \<Rightarrow> string \<Rightarrow> bytes" where
  "info_hash sha1 public_key provider =
     sha1 (as_bytes ''wg-link/discovery/v1''
       @ to_be_bytes (word_of_nat (length (as_bytes public_key)) :: u64) @ as_bytes public_key
       @ to_be_bytes (word_of_nat (length (as_bytes provider)) :: u64) @ as_bytes provider)"

definition peer_id :: "(bytes \<Rightarrow> bytes) \<Rightarrow> string \<Rightarrow> string \<Rightarrow> bytes" where
  "peer_id sha1 public_key provider = info_hash sha1 public_key (''peer-id|'' @ provider)"

section \<open>Names\<close>

text \<open>
  BLAKE3 renders a digest with 64 hex digits; the code relies on at least 16 when it cuts a name.
\<close>

definition hex16 :: "(bytes \<Rightarrow> bytes) \<Rightarrow> (bytes \<Rightarrow> string) \<Rightarrow> bool" where
  "hex16 hash hex \<longleftrightarrow> (\<forall>b. 16 \<le> length (hex (hash b)))"

text \<open>The name a node advertises in a period.\<close>

definition node_name :: "(bytes \<Rightarrow> bytes) \<Rightarrow> (bytes \<Rightarrow> string) \<Rightarrow> string \<Rightarrow> u64 \<Rightarrow> string" where
  "node_name hash hex key period = ''wgl-'' @ take 16
     (hex (digest hash [as_bytes ''wg-link/hourly-node/v2'', as_bytes key, to_be_bytes period]))"

lemma rotating_node_name_returns:
  assumes "hex16 hash hex"
  shows "rotating_node_name hash hex key period = Returned (node_name hash hex key period)"
  using assms by (simp add: hex16_def rotating_node_name_def rotating_node_id_def node_name_def slice_def digest_def)

section \<open>Framing\<close>

lemma frame_part_split:
  assumes "length a < 2 ^ 64" and "length b < 2 ^ 64" and "frame_part a @ x = frame_part b @ y"
  shows "a = b \<and> x = y"
proof -
  from assms(3) have "to_be_bytes (word_of_nat (length a) :: u64) = to_be_bytes (word_of_nat (length b) :: u64)"
    and rest: "a @ x = b @ y"
    by (auto simp: frame_part_def)
  then have "(word_of_nat (length a) :: u64) = word_of_nat (length b)" by (simp add: to_be_bytes_inj_u64)
  then have "unat (word_of_nat (length a) :: u64) = unat (word_of_nat (length b) :: u64)" by simp
  then have "length a = length b" using assms(1,2) by (simp add: unsigned_of_nat take_bit_eq_mod)
  with rest show ?thesis by simp
qed

lemma digest_input_inj:
  assumes "\<forall>p \<in> set xs \<union> set ys. length p < 2 ^ 64" and "digest_input xs = digest_input ys"
  shows "xs = ys"
  using assms
proof (induction xs arbitrary: ys)
  case Nil
  then have "frame_part y @ digest_input zs = []" if "ys = y # zs" for y zs
    using that by (simp add: digest_input_def)
  then show ?case by (cases ys) (auto simp: frame_part_def to_be_bytes_def dest: arg_cong [of _ _ length])
next
  case (Cons x xs)
  show ?case
  proof (cases ys)
    case Nil
    with Cons.prems(2) have "frame_part x @ digest_input xs = []" by (simp add: digest_input_def)
    then show ?thesis by (auto simp: frame_part_def to_be_bytes_def dest: arg_cong [of _ _ length])
  next
    case (Cons y zs)
    with Cons.prems(2) have "frame_part x @ digest_input xs = frame_part y @ digest_input zs"
      by (simp add: digest_input_def)
    from frame_part_split [OF _ _ this] Cons.prems(1) Cons
    have "x = y" and "digest_input xs = digest_input zs" by auto
    with Cons Cons.IH [of zs] Cons.prems(1) show ?thesis by auto
  qed
qed

section \<open>Properties\<close>

text \<open>
  Digest framing: for parts shorter than \<open>2^64\<close> bytes, the bytes fed to the hash determine the
  list of parts, its length included; so two rotating names, ports or instance ids are derived
  from the same hash input only when key, period and label agree.
\<close>

theorem digest_framing_injective:
  assumes "\<forall>p \<in> set xs \<union> set ys. length p < 2 ^ 64"
  shows "digest_input xs = digest_input ys \<longleftrightarrow> xs = ys"
  using digest_input_inj [OF assms] by blast

theorem digest_framing_injective_witness:
  "digest_input [as_bytes ''ab'', as_bytes ''c''] \<noteq> digest_input [as_bytes ''a'', as_bytes ''bc'']"
  using digest_framing_injective [of "[as_bytes ''ab'', as_bytes ''c'']" "[as_bytes ''a'', as_bytes ''bc'']"]
  by (simp add: as_bytes_def)

text \<open>
  The two-period window: a name of period \<open>p\<close> is among the active ones at time \<open>t\<close> exactly when
  \<open>t\<close> is in hour \<open>p\<close> or in the hour after it; so a node that looks up names always knows the name
  any node chose within the last hour, and no name is active for more than two hours.
\<close>

theorem active_periods_window:
  "p \<in> set (active_peer_id_periods t) \<longleftrightarrow>
     unat p * 3600 \<le> unat t \<and> unat t < (unat p + 2) * 3600"
proof -
  have cur: "unat (peer_id_period t) = unat t div 3600"
    by (simp add: peer_id_period_def PEER_ID_PERIOD_SECONDS_def unat_div)
  have "p \<in> set (active_peer_id_periods t) \<longleftrightarrow>
      unat p = unat t div 3600 \<or> unat p = unat t div 3600 - 1"
    by (auto simp: active_peer_id_periods_def Let_def word_unat_eq_iff unat_sat_sub cur)
  also have "\<dots> \<longleftrightarrow> unat p * 3600 \<le> unat t \<and> unat t < (unat p + 2) * 3600"
  proof -
    obtain q r where t: "unat t = q * 3600 + r" "r < 3600" "q = unat t div 3600"
      by (metis div_mult_mod_eq mod_less_divisor zero_less_numeral)
    show ?thesis unfolding t(3) [symmetric] using t(1,2) by auto
  qed
  finally show ?thesis .
qed

text \<open>
  Derived ports: for a positive span the port lies in \<open>base .. base + span - 1\<close>, capped at 65535,
  and the derivation panics only for a span of zero.
\<close>

theorem derive_port_bounds:
  "(derive_port hash base span label parts = Panicked \<longleftrightarrow> span = 0)
   \<and> (\<forall>port. derive_port hash base span label parts = Returned port \<longrightarrow>
        unat base \<le> unat port
        \<and> (unat base + unat span \<le> 65536 \<longrightarrow> unat port < unat base + unat span))"
proof (cases "span = 0")
  case True
  then show ?thesis by (simp add: derive_port_def)
next
  case False
  let ?d = "digest hash ([as_bytes ''wg-link/port/v1'', as_bytes label] @ map as_bytes parts)"
  let ?off = "from_be_bytes [?d ! 0, ?d ! 1] mod span"
  have port: "derive_port hash base span label parts = Returned (sat_add base ?off)"
    using False by (simp add: derive_port_def Let_def)
  have "unat ?off < unat span" using False by (simp add: unat_mod unat_gt_0)
  moreover have "unat base \<le> 65535" using unsigned_less [of base, where ?'a = nat] by simp
  ultimately show ?thesis unfolding port using False by (auto simp: unat_sat_add_u16)
qed

theorem derive_port_bounds_witness:
  "\<exists>port. derive_port (\<lambda>b. [1, 2]) 20000 10000 ''relay'' [''k''] = Returned port
     \<and> 20000 \<le> unat port \<and> unat port < 30000"
proof -
  have "derive_port (\<lambda>b. [1, 2]) 20000 10000 ''relay'' [''k''] \<noteq> Panicked"
    using derive_port_bounds [of "\<lambda>b. [1, 2]" 20000 10000 "''relay''" "[''k'']"] by simp
  then obtain port where "derive_port (\<lambda>b. [1, 2]) 20000 10000 ''relay'' [''k''] = Returned port"
    by (cases "derive_port (\<lambda>b. [1, 2]) 20000 10000 ''relay'' [''k'']") auto
  with derive_port_bounds [of "\<lambda>b. [1, 2]" 20000 10000 "''relay''" "[''k'']"] show ?thesis by simp
qed

end
