(* ===== verification/Relay.thy ===== *)
theory Relay
  imports Frame Identity Metrics
begin

text \<open>
  \<open>src/src/easytier.rs\<close>, the relay task: one embedded EasyTier instance per relay, its probes and
  its outbound packets.  \<open>relay_step\<close> is one iteration of the \<open>select!\<close> loop of \<open>run_relay\<close>; the
  calls it makes on EasyTier, on the connection manager and on the shared metrics registry are its
  effects, in order, and \<open>apply_metrics\<close> runs the latter on the registry.  EasyTier's routes, the
  \<open>url\<close> and \<open>toml\<close> crates, BLAKE3 (\<open>hash\<close>, \<open>hex\<close>) and the clock readings are parameters.  A
  \<open>JoinSet\<close> is the list of its tasks, here the \<open>request\<close> each probe sender carries.
\<close>

definition MAX_IN_FLIGHT_PROBE_SENDS :: nat where "MAX_IN_FLIGHT_PROBE_SENDS = 8"

record relay_spec =
  rs_local_public_key :: string
  rs_path_id :: string
  rs_relay :: string
  rs_listener_port :: u16
  rs_peers :: "string list"

section \<open>Configuration\<close>

text \<open>\<open>quote\<close> is \<open>toml_string\<close>, the crate's rendering of a string value.\<close>

definition nl :: string where "nl = [newline]"

definition peer_section :: "(string \<Rightarrow> string) \<Rightarrow> string \<Rightarrow> string" where
  "peer_section quote uri = ''[[peer]]'' @ nl @ ''uri = '' @ quote uri @ nl @ nl"

definition build_config ::
    "(bytes \<Rightarrow> bytes) \<Rightarrow> (bytes \<Rightarrow> string) \<Rightarrow> (string \<Rightarrow> string) \<Rightarrow> string \<Rightarrow> relay_spec \<Rightarrow> string \<Rightarrow> u64
     \<Rightarrow> socket_addr list \<Rightarrow> string exec" where
  "build_config hash hex quote stun spec network_name period candidates =
     exec_bind (rotating_node_name hash hex (rs_local_public_key spec) period) (\<lambda>node_name.
     exec_bind (rotating_instance_id hash hex (rs_local_public_key spec) period) (\<lambda>instance_id.
       Returned (
         ''instance_id = '' @ quote instance_id @ nl @ ''instance_name = '' @ quote node_name @ nl
         @ ''hostname = '' @ quote node_name @ nl @ ''dhcp = false'' @ nl
         @ ''listeners = ['' @ quote (''udp://0.0.0.0:'' @ dec_string (unat (rs_listener_port spec))) @ '']'' @ nl
         @ ''stun_servers = ['' @ quote stun @ '']'' @ nl @ nl
         @ ''[network_identity]'' @ nl @ ''network_name = '' @ quote network_name @ nl
         @ ''network_secret = '' @ [CHR 0x22, CHR 0x22] @ nl @ nl
         @ peer_section quote (rs_relay spec)
         @ concat (map (\<lambda>c. peer_section quote (''udp://'' @ socket_addr_string c)) candidates)
         @ ''[flags]'' @ nl @ ''no_tun = true'' @ nl @ ''use_smoltcp = true'' @ nl @ ''latency_first = true'' @ nl
         @ ''private_mode = false'' @ nl @ ''relay_network_whitelist = '' @ [CHR 0x22, CHR ''*'', CHR 0x22] @ nl
         @ ''disable_p2p = false'' @ nl @ ''disable_udp_hole_punching = false'' @ nl
         @ ''multi_thread = false'' @ nl)))"

section \<open>The relay task\<close>

record relay_state =
  rl_candidate_urls :: "string list"
  rl_advertised_period :: u64
  rl_peer_ids :: "(string, u32) hashmap"
  rl_pending :: "(u64, string \<times> instant) hashmap"
  rl_sends :: "(u64 \<times> string) option list"
  rl_next_nonce :: u64

definition relay_init :: "u64 \<Rightarrow> relay_state" where
  "relay_init period = \<lparr> rl_candidate_urls = [], rl_advertised_period = period, rl_peer_ids = [],
     rl_pending = [], rl_sends = [], rl_next_nonce = 1 \<rparr>"

datatype 'f relay_effect =
    AddConnector string
  | SetHostname string
  | SpawnSend zc_packet u32
  | SendMsg zc_packet u32
  | SetAvailable string bool
  | SetRouteLatency string "'f option"
  | RecordProbe string "nat option" instant
  | RecordTx string usize instant

text \<open>The metrics calls of the task, run on the registry; \<open>dflt\<close> is made for a vacant entry.\<close>

fun apply_effect ::
    "'f f64_ops \<Rightarrow> 'f path_metrics \<Rightarrow> string \<Rightarrow> 'f relay_effect \<Rightarrow> 'f metrics_registry \<Rightarrow> 'f metrics_registry" where
  "apply_effect F dflt path (SetAvailable peer b) reg = set_available dflt reg peer path b"
| "apply_effect F dflt path (SetRouteLatency peer l) reg = set_route_latency dflt reg peer path l"
| "apply_effect F dflt path (RecordProbe peer rtt now) reg = record_probe F dflt reg peer path rtt now"
| "apply_effect F dflt path (RecordTx peer n now) reg = record_tx F dflt reg peer path n now"
| "apply_effect F dflt path _ reg = reg"

definition apply_metrics ::
    "'f f64_ops \<Rightarrow> 'f path_metrics \<Rightarrow> string \<Rightarrow> 'f relay_effect list \<Rightarrow> 'f metrics_registry \<Rightarrow> 'f metrics_registry"
  where
  "apply_metrics F dflt path effs reg = fold (apply_effect F dflt path) effs reg"

text \<open>\<open>list_routes\<close> of EasyTier: host name, peer id and path latency.\<close>

record 'f route =
  ro_hostname :: string
  ro_peer_id :: u32
  ro_path_latency :: 'f

text \<open>
  The readings one tick takes: \<open>tk_period\<close> for \<open>current_peer_id_period\<close>, \<open>tk_now\<close> before the expiry
  scan, \<open>tk_unix i\<close> and \<open>tk_micros i\<close> while the \<open>i\<close>-th peer is handled, \<open>tk_recorded\<close> inside
  \<open>record_probe\<close>.
\<close>

record 'f tick =
  tk_period :: "u64 option"
  tk_routes :: "'f route list"
  tk_now :: instant
  tk_recorded :: instant
  tk_unix :: "nat \<Rightarrow> u64"
  tk_micros :: "nat \<Rightarrow> u64"

datatype 'f relay_input =
    RelayCancelled
  | Candidates "socket_addr list option"
  | Tick "'f tick"
  | ProbeSent nat "string option" instant
  | ProbeSenderFailed nat
  | Probe "inbound_relay_packet option" instant u64
  | Outbound "relay_packet option" u64 "unit res" instant

definition data_packet :: "u8 \<Rightarrow> bytes \<Rightarrow> zc_packet" where
  "data_packet data_type frame = \<lparr> zc_type = Some data_type, zc_payload = frame \<rparr>"

fun resolve_periods ::
    "(bytes \<Rightarrow> bytes) \<Rightarrow> (bytes \<Rightarrow> string) \<Rightarrow> (string, u32) hashmap \<Rightarrow> string \<Rightarrow> u64 list
     \<Rightarrow> (u64 \<times> string \<times> u32) option exec" where
  "resolve_periods hash hex ids peer_key [] = Returned None"
| "resolve_periods hash hex ids peer_key (period # ps) =
     exec_bind (rotating_node_name hash hex peer_key period) (\<lambda>hostname.
       case hm_get ids hostname of
         Some pid \<Rightarrow> Returned (Some (period, hostname, pid))
       | None \<Rightarrow> resolve_periods hash hex ids peer_key ps)"

definition resolve_peer_id ::
    "(bytes \<Rightarrow> bytes) \<Rightarrow> (bytes \<Rightarrow> string) \<Rightarrow> (string, u32) hashmap \<Rightarrow> string \<Rightarrow> u64
     \<Rightarrow> (u64 \<times> string \<times> u32) option exec" where
  "resolve_peer_id hash hex ids peer_key unix_seconds =
     resolve_periods hash hex ids peer_key (active_peer_id_periods unix_seconds)"

definition queue_probe_send ::
    "(u64 \<times> string) option list \<Rightarrow> zc_packet \<Rightarrow> u32 \<Rightarrow> (u64 \<times> string) option
     \<Rightarrow> ((u64 \<times> string) option list \<times> 'f relay_effect list) option" where
  "queue_probe_send sends packet dst request =
     (if MAX_IN_FLIGHT_PROBE_SENDS \<le> length sends then None
      else Some (sends @ [request], [SpawnSend packet dst]))"

fun add_candidates ::
    "(string \<Rightarrow> string res) \<Rightarrow> string list \<Rightarrow> socket_addr list \<Rightarrow> string list \<times> 'f relay_effect list \<times> flow" where
  "add_candidates parse_url urls [] = (urls, [], Continue)"
| "add_candidates parse_url urls (c # cs) =
     (case parse_url (''udp://'' @ socket_addr_string c) of
        Inl e \<Rightarrow> (urls, [], Stop (Inl e))
      | Inr url \<Rightarrow>
          if url \<in> set urls then add_candidates parse_url urls cs
          else (case add_candidates parse_url (url # urls) cs of
                  (urls', eff, fl) \<Rightarrow> (urls', AddConnector url # eff, fl)))"

definition expired_probes :: "(u64, string \<times> instant) hashmap \<Rightarrow> instant \<Rightarrow> u64 list" where
  "expired_probes pending now =
     filter_map (\<lambda>(nonce, (_, sent)). if secs 3 < now - sent then Some nonce else None) pending"

fun drop_probes ::
    "instant \<Rightarrow> u64 list \<Rightarrow> (u64, string \<times> instant) hashmap
     \<Rightarrow> (u64, string \<times> instant) hashmap \<times> 'f relay_effect list" where
  "drop_probes recorded [] pending = (pending, [])"
| "drop_probes recorded (nonce # ns) pending =
     (case hm_get pending nonce of
        None \<Rightarrow> drop_probes recorded ns pending
      | Some (peer_key, _) \<Rightarrow>
          (case drop_probes recorded ns (hm_remove nonce pending) of
             (pending', eff) \<Rightarrow> (pending', RecordProbe peer_key None recorded # eff)))"

text \<open>The body of the loop over the peers.\<close>

definition probe_peer ::
    "(bytes \<Rightarrow> bytes) \<Rightarrow> (bytes \<Rightarrow> string) \<Rightarrow> u8 \<Rightarrow> relay_spec \<Rightarrow> (string, 'f) hashmap \<Rightarrow> 'f tick \<Rightarrow> nat \<Rightarrow> string
     \<Rightarrow> relay_state \<Rightarrow> (relay_state \<times> 'f relay_effect list) exec" where
  "probe_peer hash hex data_type spec latencies tk i peer_key st =
     exec_bind (resolve_peer_id hash hex (rl_peer_ids st) peer_key (tk_unix tk i)) (\<lambda>resolved.
       case resolved of
         None \<Rightarrow> Returned (st, [SetAvailable peer_key False, SetRouteLatency peer_key None])
       | Some (_, hostname, dst) \<Rightarrow>
           let nonce = rl_next_nonce st;
               st1 = st\<lparr> rl_next_nonce := max (nonce + 1) 1 \<rparr>;
               frame = encode_frame (rs_local_public_key spec) peer_key
                         (PathProbe nonce (tk_micros tk i) False) (as_bytes ''p'');
               eff = [SetAvailable peer_key True, SetRouteLatency peer_key (hm_get latencies hostname)] in
           (case queue_probe_send (rl_sends st1) (data_packet data_type frame) dst (Some (nonce, peer_key)) of
              Some (sends, eff') \<Rightarrow>
                Returned (st1\<lparr> rl_sends := sends,
                               rl_pending := hm_insert nonce (peer_key, tk_now tk) (rl_pending st1) \<rparr>,
                          eff @ eff')
            | None \<Rightarrow> Returned (st1, eff @ [RecordProbe peer_key None (tk_recorded tk)])))"

fun probe_peers ::
    "(bytes \<Rightarrow> bytes) \<Rightarrow> (bytes \<Rightarrow> string) \<Rightarrow> u8 \<Rightarrow> relay_spec \<Rightarrow> (string, 'f) hashmap \<Rightarrow> 'f tick \<Rightarrow> nat \<Rightarrow> string list
     \<Rightarrow> relay_state \<Rightarrow> (relay_state \<times> 'f relay_effect list) exec" where
  "probe_peers hash hex data_type spec latencies tk i [] st = Returned (st, [])"
| "probe_peers hash hex data_type spec latencies tk i (peer_key # ps) st =
     exec_bind (probe_peer hash hex data_type spec latencies tk i peer_key st) (\<lambda>(st1, eff1).
       exec_bind (probe_peers hash hex data_type spec latencies tk (Suc i) ps st1) (\<lambda>(st2, eff2).
         Returned (st2, eff1 @ eff2)))"

definition rotate_name ::
    "(bytes \<Rightarrow> bytes) \<Rightarrow> (bytes \<Rightarrow> string) \<Rightarrow> relay_spec \<Rightarrow> u64 \<Rightarrow> relay_state \<Rightarrow> (relay_state \<times> 'f relay_effect list) exec"
  where
  "rotate_name hash hex spec current st =
     (if current \<noteq> rl_advertised_period st then
        exec_bind (rotating_node_name hash hex (rs_local_public_key spec) current) (\<lambda>hostname.
          Returned (st\<lparr> rl_advertised_period := current \<rparr>, [SetHostname hostname]))
      else Returned (st, []))"

definition refresh ::
    "(bytes \<Rightarrow> bytes) \<Rightarrow> (bytes \<Rightarrow> string) \<Rightarrow> u8 \<Rightarrow> relay_spec \<Rightarrow> 'f tick \<Rightarrow> relay_state
     \<Rightarrow> (relay_state \<times> 'f relay_effect list) exec" where
  "refresh hash hex data_type spec tk st =
     exec_bind (rotate_name hash hex spec (current_peer_id_period (tk_period tk)) st) (\<lambda>(st1, eff1).
       let latencies = fold (\<lambda>r m. hm_insert (ro_hostname r) (ro_path_latency r) m) (tk_routes tk) [];
           discovered = fold (\<lambda>r m. hm_insert (ro_hostname r) (ro_peer_id r) m) (tk_routes tk) [] in
       case drop_probes (tk_recorded tk) (expired_probes (rl_pending st1) (tk_now tk)) (rl_pending st1) of
         (pending, eff2) \<Rightarrow>
           exec_bind (probe_peers hash hex data_type spec latencies tk 0 (rs_peers spec)
                        (st1\<lparr> rl_peer_ids := discovered, rl_pending := pending \<rparr>)) (\<lambda>(st2, eff3).
             Returned (st2, eff1 @ eff2 @ eff3)))"

text \<open>\<open>join_next\<close> returned the result of task \<open>i\<close>; the branch is enabled only while tasks exist.\<close>

definition remove_nth :: "nat \<Rightarrow> 'a list \<Rightarrow> 'a list" where
  "remove_nth i xs = take i xs @ drop (Suc i) xs"

definition probe_sent ::
    "nat \<Rightarrow> string option \<Rightarrow> instant \<Rightarrow> relay_state \<Rightarrow> relay_state \<times> 'f relay_effect list" where
  "probe_sent i err recorded st =
     (if i < length (rl_sends st) then
        let st1 = st\<lparr> rl_sends := remove_nth i (rl_sends st) \<rparr> in
        (case (rl_sends st ! i, err) of
           (Some (nonce, peer_key), Some e) \<Rightarrow>
             (case hm_get (rl_pending st1) nonce of
                None \<Rightarrow> (st1, [])
              | Some _ \<Rightarrow> (st1\<lparr> rl_pending := hm_remove nonce (rl_pending st1) \<rparr>, [RecordProbe peer_key None recorded]))
         | _ \<Rightarrow> (st1, []))
      else (st, []))"

definition handle_probe ::
    "(bytes \<Rightarrow> bytes) \<Rightarrow> (bytes \<Rightarrow> string) \<Rightarrow> u8 \<Rightarrow> relay_spec \<Rightarrow> inbound_relay_packet \<Rightarrow> instant \<Rightarrow> u64 \<Rightarrow> relay_state
     \<Rightarrow> (relay_state \<times> 'f relay_effect list) exec" where
  "handle_probe hash hex data_type spec probe now unix_seconds st =
     (case irp_channel probe of
        PathProbe nonce sent_micros True \<Rightarrow>
          (case hm_get (rl_pending st) nonce of
             None \<Rightarrow> Returned (st, [])
           | Some (peer_key, sent) \<Rightarrow>
               Returned (st\<lparr> rl_pending := hm_remove nonce (rl_pending st) \<rparr>,
                         if peer_key = irp_source_key probe
                         then [RecordProbe peer_key (Some (now - sent)) now] else []))
      | PathProbe nonce sent_micros False \<Rightarrow>
          exec_bind (resolve_peer_id hash hex (rl_peer_ids st) (irp_source_key probe) unix_seconds) (\<lambda>resolved.
            case resolved of
              None \<Rightarrow> Returned (st, [])
            | Some (_, _, dst) \<Rightarrow>
                let frame = encode_frame (rs_local_public_key spec) (irp_source_key probe)
                              (PathProbe nonce sent_micros True) (as_bytes ''p'') in
                (case queue_probe_send (rl_sends st) (data_packet data_type frame) dst None of
                   Some (sends, eff) \<Rightarrow> Returned (st\<lparr> rl_sends := sends \<rparr>, eff)
                 | None \<Rightarrow> Returned (st, [])))
      | _ \<Rightarrow> Returned (st, []))"

definition handle_outbound ::
    "(bytes \<Rightarrow> bytes) \<Rightarrow> (bytes \<Rightarrow> string) \<Rightarrow> u8 \<Rightarrow> relay_spec \<Rightarrow> relay_packet \<Rightarrow> u64 \<Rightarrow> unit res \<Rightarrow> instant \<Rightarrow> relay_state
     \<Rightarrow> 'f relay_effect list exec" where
  "handle_outbound hash hex data_type spec packet unix_seconds sent now st =
     exec_bind (resolve_peer_id hash hex (rl_peer_ids st) (rp_peer_key packet) unix_seconds) (\<lambda>resolved.
       case resolved of
         None \<Rightarrow> Returned []
       | Some (_, _, dst) \<Rightarrow>
           let frame = encode_frame (rs_local_public_key spec) (rp_peer_key packet)
                         (rp_channel packet) (rp_payload packet) in
           Returned (SendMsg (data_packet data_type frame) dst #
             (case sent of
                Inl e \<Rightarrow> [SetAvailable (rp_peer_key packet) False]
              | Inr _ \<Rightarrow> [RecordTx (rp_peer_key packet) (word_of_nat (length (rp_payload packet))) now])))"

fun relay_step ::
    "(bytes \<Rightarrow> bytes) \<Rightarrow> (bytes \<Rightarrow> string) \<Rightarrow> (string \<Rightarrow> string res) \<Rightarrow> u8 \<Rightarrow> relay_spec \<Rightarrow> relay_state \<Rightarrow> 'f relay_input
     \<Rightarrow> (relay_state \<times> 'f relay_effect list \<times> flow) exec" where
  "relay_step hash hex parse_url data_type spec st RelayCancelled = Returned (st, [], Stop (Inr ()))"
| "relay_step hash hex parse_url data_type spec st (Candidates None) = Returned (st, [], Stop (Inr ()))"
| "relay_step hash hex parse_url data_type spec st (Candidates (Some candidates)) =
     (case add_candidates parse_url (rl_candidate_urls st) candidates of
        (urls, eff, fl) \<Rightarrow> Returned (st\<lparr> rl_candidate_urls := urls \<rparr>, eff, fl))"
| "relay_step hash hex parse_url data_type spec st (Tick tk) =
     exec_bind (refresh hash hex data_type spec tk st) (\<lambda>(st', eff). Returned (st', eff, Continue))"
| "relay_step hash hex parse_url data_type spec st (ProbeSent i err now) =
     (case probe_sent i err now st of (st', eff) \<Rightarrow> Returned (st', eff, Continue))"
| "relay_step hash hex parse_url data_type spec st (ProbeSenderFailed i) =
     Returned (if i < length (rl_sends st) then st\<lparr> rl_sends := remove_nth i (rl_sends st) \<rparr> else st, [], Continue)"
| "relay_step hash hex parse_url data_type spec st (Probe None now unix_seconds) = Returned (st, [], Stop (Inr ()))"
| "relay_step hash hex parse_url data_type spec st (Probe (Some probe) now unix_seconds) =
     exec_bind (handle_probe hash hex data_type spec probe now unix_seconds st) (\<lambda>(st', eff). Returned (st', eff, Continue))"
| "relay_step hash hex parse_url data_type spec st (Outbound None unix_seconds sent now) = Returned (st, [], Stop (Inr ()))"
| "relay_step hash hex parse_url data_type spec st (Outbound (Some packet) unix_seconds sent now) =
     exec_bind (handle_outbound hash hex data_type spec packet unix_seconds sent now st) (\<lambda>eff. Returned (st, eff, Continue))"

text \<open>A run of the task: iterations until one of them stops the loop.\<close>

fun relay_run ::
    "(bytes \<Rightarrow> bytes) \<Rightarrow> (bytes \<Rightarrow> string) \<Rightarrow> (string \<Rightarrow> string res) \<Rightarrow> u8 \<Rightarrow> relay_spec \<Rightarrow> relay_state \<Rightarrow> 'f relay_input list
     \<Rightarrow> (relay_state \<times> 'f relay_effect list) exec" where
  "relay_run hash hex parse_url data_type spec st [] = Returned (st, [])"
| "relay_run hash hex parse_url data_type spec st (x # xs) =
     exec_bind (relay_step hash hex parse_url data_type spec st x) (\<lambda>(st1, eff1, fl).
       case fl of
         Stop _ \<Rightarrow> Returned (st1, eff1)
       | Continue \<Rightarrow> exec_bind (relay_run hash hex parse_url data_type spec st1 xs) (\<lambda>(st2, eff2).
           Returned (st2, eff1 @ eff2)))"

section \<open>Names\<close>

definition resolved ::
    "(bytes \<Rightarrow> bytes) \<Rightarrow> (bytes \<Rightarrow> string) \<Rightarrow> (string, u32) hashmap \<Rightarrow> string \<Rightarrow> u64 \<Rightarrow> (u64 \<times> string \<times> u32) option" where
  "resolved hash hex ids key unix_seconds =
     (let current = peer_id_period unix_seconds; previous = sat_sub current 1 in
      case hm_get ids (node_name hash hex key current) of
        Some pid \<Rightarrow> Some (current, node_name hash hex key current, pid)
      | None \<Rightarrow> map_option (\<lambda>pid. (previous, node_name hash hex key previous, pid))
                  (hm_get ids (node_name hash hex key previous)))"

lemma resolve_peer_id_returns:
  assumes "hex16 hash hex"
  shows "resolve_peer_id hash hex ids key unix_seconds = Returned (resolved hash hex ids key unix_seconds)"
  by (simp add: resolve_peer_id_def active_peer_id_periods_def Let_def resolved_def
      rotating_node_name_returns [OF assms] split: option.splits)

section \<open>Probe accounting\<close>

definition attempts :: "string \<Rightarrow> 'f relay_effect list \<Rightarrow> nat" where
  "attempts key effs = length (filter (\<lambda>e. case e of SetAvailable k True \<Rightarrow> k = key | _ \<Rightarrow> False) effs)"

definition outcomes :: "string \<Rightarrow> 'f relay_effect list \<Rightarrow> nat" where
  "outcomes key effs = length (filter (\<lambda>e. case e of RecordProbe k _ _ \<Rightarrow> k = key | _ \<Rightarrow> False) effs)"

definition outstanding :: "string \<Rightarrow> (u64, string \<times> instant) hashmap \<Rightarrow> nat" where
  "outstanding key pending = length (filter (\<lambda>(_, k, _). k = key) pending)"

definition connectors :: "'f relay_effect list \<Rightarrow> string list" where
  "connectors effs = filter_map (\<lambda>e. case e of AddConnector u \<Rightarrow> Some u | _ \<Rightarrow> None) effs"

lemma counts_Nil [simp]: "attempts key [] = 0" "outcomes key [] = 0" "outstanding key [] = 0" "connectors [] = []"
  by (simp_all add: attempts_def outcomes_def outstanding_def connectors_def)

lemma counts_append [simp]:
  "attempts key (xs @ ys) = attempts key xs + attempts key ys"
  "outcomes key (xs @ ys) = outcomes key xs + outcomes key ys"
  "connectors (xs @ ys) = connectors xs @ connectors ys"
  by (simp_all add: attempts_def outcomes_def connectors_def)

lemma counts_Cons [simp]:
  "attempts key (e # es) = (case e of SetAvailable k True \<Rightarrow> if k = key then 1 else 0 | _ \<Rightarrow> 0) + attempts key es"
  "outcomes key (e # es) = (case e of RecordProbe k _ _ \<Rightarrow> if k = key then 1 else 0 | _ \<Rightarrow> 0) + outcomes key es"
  "connectors (e # es) = (case e of AddConnector u \<Rightarrow> u # connectors es | _ \<Rightarrow> connectors es)"
  by (auto simp: attempts_def outcomes_def connectors_def split: relay_effect.splits bool.splits)

lemma outstanding_remove:
  assumes "hm_wf pending" and "hm_get pending n = Some (k, s)"
  shows "outstanding key pending = outstanding key (hm_remove n pending) + (if k = key then 1 else 0)"
  using assms
proof (induction pending)
  case (Cons a pending)
  obtain m q t where a: "a = (m, q, t)" by (cases a)
  show ?case
  proof (cases "m = n")
    case True
    with Cons.prems a have "n \<notin> fst ` set pending" by (auto simp: hm_wf_def)
    then have "hm_remove n pending = pending" by (simp add: delete_idem)
    with True Cons.prems a show ?thesis by (simp add: outstanding_def)
  next
    case False
    with Cons a show ?thesis by (auto simp: outstanding_def hm_wf_def)
  qed
qed simp

lemma outstanding_insert_fresh:
  "hm_get pending n = None \<Longrightarrow>
   outstanding key (hm_insert n (k, s) pending) = outstanding key pending + (if k = key then 1 else 0)"
  by (induction pending) (auto simp: outstanding_def split: if_splits)

text \<open>
  The invariant of the task: at most eight senders in flight; every nonce in use is below the next
  one; a sender that carries a nonce that is still pending carries its peer; no URL twice.
\<close>

definition probes_ok :: "relay_state \<Rightarrow> bool" where
  "probes_ok st \<longleftrightarrow> hm_wf (rl_pending st) \<and> length (rl_sends st) \<le> MAX_IN_FLIGHT_PROBE_SENDS
     \<and> 0 < unat (rl_next_nonce st)
     \<and> (\<forall>n v. hm_get (rl_pending st) n = Some v \<longrightarrow> unat n < unat (rl_next_nonce st))
     \<and> (\<forall>n k. Some (n, k) \<in> set (rl_sends st) \<longrightarrow>
          unat n < unat (rl_next_nonce st) \<and> (\<forall>q s. hm_get (rl_pending st) n = Some (q, s) \<longrightarrow> q = k))
     \<and> distinct (rl_candidate_urls st)"

text \<open>
  What a piece of the loop does to it, using up at most \<open>d\<close> nonces: the probes made and the probes
  outstanding before are those recorded and those outstanding after.
\<close>

definition balanced :: "relay_state \<Rightarrow> 'f relay_effect list \<Rightarrow> relay_state \<Rightarrow> nat \<Rightarrow> bool" where
  "balanced st eff st' d \<longleftrightarrow> probes_ok st' \<and> unat (rl_next_nonce st') \<le> unat (rl_next_nonce st) + d
     \<and> (\<forall>key. outstanding key (rl_pending st') + outcomes key eff = outstanding key (rl_pending st) + attempts key eff)
     \<and> distinct (connectors eff) \<and> set (connectors eff) \<inter> set (rl_candidate_urls st) = {}
     \<and> set (rl_candidate_urls st') = set (rl_candidate_urls st) \<union> set (connectors eff)"

lemma balanced_refl: "probes_ok st \<Longrightarrow> balanced st [] st d"
  by (simp add: balanced_def)

lemma balanced_probes_ok: "balanced st eff st' d \<Longrightarrow> probes_ok st'"
  by (simp add: balanced_def)

lemma balanced_trans:
  assumes "balanced st e st1 d" and "balanced st1 e' st2 d'"
  shows "balanced st (e @ e') st2 (d + d')"
proof -
  have "outstanding key (rl_pending st2) + outcomes key (e @ e') = outstanding key (rl_pending st) + attempts key (e @ e')"
    for key
  proof -
    have "outstanding key (rl_pending st1) + outcomes key e = outstanding key (rl_pending st) + attempts key e"
      "outstanding key (rl_pending st2) + outcomes key e' = outstanding key (rl_pending st1) + attempts key e'"
      using assms by (simp_all add: balanced_def)
    then show ?thesis by simp
  qed
  moreover have "unat (rl_next_nonce st2) \<le> unat (rl_next_nonce st) + (d + d')"
    using assms unfolding balanced_def by linarith
  moreover have "set (connectors e') \<inter> (set (rl_candidate_urls st) \<union> set (connectors e)) = {}"
    "set (rl_candidate_urls st2) = set (rl_candidate_urls st) \<union> set (connectors e) \<union> set (connectors e')"
    using assms by (simp_all add: balanced_def)
  ultimately show ?thesis using assms unfolding balanced_def counts_append(3) set_append distinct_append by blast
qed

lemma drop_probes_spec:
  assumes "hm_wf pending" and "drop_probes recorded ns pending = (pending', eff)"
  shows "hm_wf pending' \<and> (\<forall>n. hm_get pending' n = (if n \<in> set ns then None else hm_get pending n))
    \<and> outstanding key pending' + outcomes key eff = outstanding key pending \<and> attempts key eff = 0 \<and> connectors eff = []"
  using assms
proof (induction ns arbitrary: pending pending' eff)
  case Nil
  then show ?case by simp
next
  case (Cons n ns)
  show ?case
  proof (cases "hm_get pending n")
    case None
    with Cons.prems Cons.IH [of pending pending' eff] show ?thesis by auto
  next
    case (Some v)
    obtain k s where v: "v = (k, s)" by (cases v)
    from Cons.prems(2) Some v obtain eff1 where
      eq: "drop_probes recorded ns (hm_remove n pending) = (pending', eff1)" "eff = RecordProbe k None recorded # eff1"
      by (auto split: prod.splits)
    from Cons.IH [OF hm_wf_remove [OF Cons.prems(1)] eq(1)] eq(2) Some v outstanding_remove [OF Cons.prems(1), of n k s key]
    show ?thesis by auto
  qed
qed

lemma next_nonce:
  assumes "unat n + 1 < 2 ^ 64"
  shows "unat (max (n + 1) 1 :: u64) = unat n + 1"
proof -
  have "unat (n + 1) = unat n + 1" using assms by (simp add: unat_word_ariths)
  moreover then have "1 \<le> n + 1" by (simp add: word_le_nat_alt)
  ultimately show ?thesis by (simp add: max_def)
qed

lemma queue_probe_send_Some:
  "queue_probe_send sends packet dst request = Some (sends', eff) \<longleftrightarrow>
   length sends < MAX_IN_FLIGHT_PROBE_SENDS \<and> sends' = sends @ [request] \<and> eff = [SpawnSend packet dst]"
  by (auto simp: queue_probe_send_def)

lemma nonce_fresh: "probes_ok st \<Longrightarrow> hm_get (rl_pending st) (rl_next_nonce st) = None"
  by (cases "hm_get (rl_pending st) (rl_next_nonce st)") (auto simp: probes_ok_def)

text \<open>A probe that was queued: the nonce is new, so nothing that is pending is overwritten.\<close>

lemma probes_ok_queue:
  assumes ok: "probes_ok st" and bound: "unat (rl_next_nonce st) + 1 < 2 ^ 64"
    and room: "length (rl_sends st) < MAX_IN_FLIGHT_PROBE_SENDS"
  shows "probes_ok (st\<lparr> rl_next_nonce := max (rl_next_nonce st + 1) 1,
      rl_sends := rl_sends st @ [Some (rl_next_nonce st, key)],
      rl_pending := hm_insert (rl_next_nonce st) (key, now) (rl_pending st) \<rparr>)"
  using ok room unfolding probes_ok_def
  by (auto simp: next_nonce [OF bound] less_Suc_eq split: if_splits)

lemma probes_ok_skip:
  assumes "probes_ok st" and bound: "unat (rl_next_nonce st) + 1 < 2 ^ 64"
  shows "probes_ok (st\<lparr> rl_next_nonce := max (rl_next_nonce st + 1) 1 \<rparr>)"
  using assms(1) unfolding probes_ok_def by (auto simp: next_nonce [OF bound] less_Suc_eq)

lemma probe_peer_balanced:
  assumes hex: "hex16 hash hex" and ok: "probes_ok st" and bound: "unat (rl_next_nonce st) + 1 < 2 ^ 64"
  shows "\<exists>st' eff. probe_peer hash hex data_type spec latencies tk i key st = Returned (st', eff) \<and> balanced st eff st' 1"
proof (cases "resolved hash hex (rl_peer_ids st) key (tk_unix tk i)")
  case None
  then show ?thesis
    using ok by (simp add: probe_peer_def resolve_peer_id_returns [OF hex] balanced_def)
next
  case (Some r)
  obtain pd hostname dst where r: "r = (pd, hostname, dst)" by (cases r)
  show ?thesis
  proof (cases "length (rl_sends st) < MAX_IN_FLIGHT_PROBE_SENDS")
    case True
    then show ?thesis
      using probes_ok_queue [OF ok bound True, of key "tk_now tk"] outstanding_insert_fresh [OF nonce_fresh [OF ok]]
      by (simp add: probe_peer_def resolve_peer_id_returns [OF hex] Some r Let_def queue_probe_send_def balanced_def
          next_nonce [OF bound])
  next
    case False
    then show ?thesis
      using probes_ok_skip [OF ok bound]
      by (simp add: probe_peer_def resolve_peer_id_returns [OF hex] Some r Let_def queue_probe_send_def balanced_def
          next_nonce [OF bound])
  qed
qed

lemma probe_peers_balanced:
  assumes hex: "hex16 hash hex" and "probes_ok st" and "unat (rl_next_nonce st) + length ps < 2 ^ 64"
  shows "\<exists>st' eff. probe_peers hash hex data_type spec latencies tk i ps st = Returned (st', eff)
    \<and> balanced st eff st' (length ps)"
  using assms(2,3)
proof (induction ps arbitrary: i st)
  case Nil
  then show ?case by (simp add: balanced_refl)
next
  case (Cons key ps)
  then obtain st1 eff1 where
    one: "probe_peer hash hex data_type spec latencies tk i key st = Returned (st1, eff1)" "balanced st eff1 st1 1"
    using probe_peer_balanced [OF hex, of st data_type spec latencies tk i key] by auto
  then have "unat (rl_next_nonce st1) + length ps < 2 ^ 64" "probes_ok st1"
    using Cons.prems by (auto simp: balanced_def)
  from Cons.IH [OF this(2,1)] obtain st2 eff2 where
    two: "probe_peers hash hex data_type spec latencies tk (Suc i) ps st1 = Returned (st2, eff2)"
      "balanced st1 eff2 st2 (length ps)" by blast
  from balanced_trans [OF one(2) two(2)] one(1) two(1) show ?case by simp
qed

lemma expire_balanced:
  assumes ok: "probes_ok st" and "drop_probes recorded ns (rl_pending st) = (pending, eff)"
  shows "balanced st eff (st\<lparr> rl_peer_ids := ids, rl_pending := pending \<rparr>) 0"
proof -
  from ok have "hm_wf (rl_pending st)" by (simp add: probes_ok_def)
  note d = drop_probes_spec [OF this assms(2)]
  from d ok have "probes_ok (st\<lparr> rl_peer_ids := ids, rl_pending := pending \<rparr>)"
    by (auto simp: probes_ok_def split: if_splits)
  with d show ?thesis by (simp add: balanced_def)
qed

lemma rotate_name_balanced:
  assumes "hex16 hash hex" and "probes_ok st"
  shows "\<exists>st' eff. rotate_name hash hex spec current st = Returned (st', eff) \<and> balanced st eff st' 0
    \<and> rl_pending st' = rl_pending st \<and> rl_next_nonce st' = rl_next_nonce st \<and> rl_sends st' = rl_sends st"
  using assms by (auto simp: rotate_name_def rotating_node_name_returns balanced_def probes_ok_def)

lemma refresh_balanced:
  assumes hex: "hex16 hash hex" and ok: "probes_ok st" and bound: "unat (rl_next_nonce st) + length (rs_peers spec) < 2 ^ 64"
  shows "\<exists>st' eff. refresh hash hex data_type spec tk st = Returned (st', eff) \<and> balanced st eff st' (length (rs_peers spec))"
proof -
  obtain st1 eff1 where
    a: "rotate_name hash hex spec (current_peer_id_period (tk_period tk)) st = Returned (st1, eff1 :: 'a relay_effect list)"
      "balanced st eff1 st1 0" "rl_next_nonce st1 = rl_next_nonce st"
    using rotate_name_balanced [OF hex ok] by blast
  obtain pending eff2 where
    b: "drop_probes (tk_recorded tk) (expired_probes (rl_pending st1) (tk_now tk)) (rl_pending st1) =
        (pending, eff2 :: 'a relay_effect list)" by (metis surj_pair)
  let ?ids = "fold (\<lambda>r m. hm_insert (ro_hostname r) (ro_peer_id r) m) (tk_routes tk) []"
  let ?st2 = "st1\<lparr> rl_peer_ids := ?ids, rl_pending := pending \<rparr>"
  have c: "balanced st1 eff2 ?st2 0" using expire_balanced [OF balanced_probes_ok [OF a(2)] b] .
  from probe_peers_balanced [OF hex balanced_probes_ok [OF c], of "rs_peers spec"] bound a(3) obtain st3 eff3 where
    d: "probe_peers hash hex data_type spec (fold (\<lambda>r m. hm_insert (ro_hostname r) (ro_path_latency r) m) (tk_routes tk) [])
          tk 0 (rs_peers spec) ?st2 = Returned (st3, eff3)" "balanced ?st2 eff3 st3 (length (rs_peers spec))"
    by fastforce
  from balanced_trans [OF balanced_trans [OF a(2) c] d(2)] show ?thesis
    using a(1) b d(1) by (simp add: refresh_def Let_def)
qed

lemma set_remove_nth: "set (remove_nth i xs) \<subseteq> set xs"
  by (auto simp: remove_nth_def dest: in_set_takeD in_set_dropD)

lemma length_remove_nth: "length (remove_nth i xs) \<le> length xs"
  by (simp add: remove_nth_def)

lemma probes_ok_shrink:
  assumes "probes_ok st" and "set sends \<subseteq> set (rl_sends st)" and "length sends \<le> length (rl_sends st)"
  shows "probes_ok (st\<lparr> rl_sends := sends \<rparr>)" "probes_ok (st\<lparr> rl_sends := sends, rl_pending := hm_remove n (rl_pending st) \<rparr>)"
  using assms by (auto simp: probes_ok_def split: if_splits)

lemma probe_sent_balanced:
  assumes ok: "probes_ok st" and "probe_sent i err recorded st = (st', eff)"
  shows "balanced st eff st' 0"
proof (cases "i < length (rl_sends st)")
  case False
  with assms show ?thesis by (auto simp: probe_sent_def balanced_refl)
next
  case True
  note shrink = probes_ok_shrink [OF ok set_remove_nth length_remove_nth]
  have wf: "hm_wf (rl_pending st)" using ok by (simp add: probes_ok_def)
  show ?thesis
  proof (cases "\<exists>nonce key e v. rl_sends st ! i = Some (nonce, key) \<and> err = Some e \<and> hm_get (rl_pending st) nonce = Some v")
    case True
    then obtain nonce key e q s where t: "rl_sends st ! i = Some (nonce, key)" "err = Some e"
      "hm_get (rl_pending st) nonce = Some (q, s)" by auto
    have "Some (nonce, key) \<in> set (rl_sends st)" using t(1) \<open>i < length (rl_sends st)\<close> by (metis nth_mem)
    then have "q = key" using ok t(3) by (auto simp: probes_ok_def)
    with t assms(2) \<open>i < length (rl_sends st)\<close> show ?thesis
      using shrink(2) [of nonce i] outstanding_remove [OF wf t(3)]
      by (auto simp: probe_sent_def Let_def balanced_def)
  next
    case False
    with assms(2) \<open>i < length (rl_sends st)\<close> have "eff = [] \<and> st' = st\<lparr> rl_sends := remove_nth i (rl_sends st) \<rparr>"
      by (auto simp: probe_sent_def Let_def split: option.splits)
    then show ?thesis using shrink(1) by (simp add: balanced_def)
  qed
qed

text \<open>
  A stray reply: it answers a nonce that is pending, and its sender is not the peer that was probed.
\<close>

definition stray_reply :: "relay_state \<Rightarrow> 'f relay_input \<Rightarrow> bool" where
  "stray_reply st x \<longleftrightarrow>
     (case x of
        Probe (Some probe) _ _ \<Rightarrow>
          (case irp_channel probe of
             PathProbe nonce _ True \<Rightarrow>
               (case hm_get (rl_pending st) nonce of
                  Some (peer_key, _) \<Rightarrow> peer_key \<noteq> irp_source_key probe
                | None \<Rightarrow> False)
           | _ \<Rightarrow> False)
      | _ \<Rightarrow> False)"

lemma handle_probe_balanced:
  assumes hex: "hex16 hash hex" and ok: "probes_ok st" and "\<not> stray_reply st (Probe (Some probe) now unix_seconds :: 'f relay_input)"
  shows "\<exists>st' eff. handle_probe hash hex data_type spec probe now unix_seconds st = Returned (st', eff :: 'f relay_effect list)
    \<and> balanced st eff st' 0"
proof (cases "irp_channel probe")
  case (PathProbe nonce micros reply)
  show ?thesis
  proof (cases reply)
    case True
    show ?thesis
    proof (cases "hm_get (rl_pending st) nonce")
      case None
      with True PathProbe ok show ?thesis by (simp add: handle_probe_def balanced_refl)
    next
      case (Some v)
      obtain k s where v: "v = (k, s)" by (cases v)
      have wf: "hm_wf (rl_pending st)" using ok by (simp add: probes_ok_def)
      have "k = irp_source_key probe" using assms(3) True PathProbe Some v by (simp add: stray_reply_def)
      moreover have "probes_ok (st\<lparr> rl_pending := hm_remove nonce (rl_pending st) \<rparr>)"
        using probes_ok_shrink(2) [OF ok order_refl order_refl] by simp
      ultimately show ?thesis
        using True PathProbe Some v outstanding_remove [OF wf, of nonce k s]
        by (simp add: handle_probe_def balanced_def)
    qed
  next
    case False
    show ?thesis
    proof (cases "resolved hash hex (rl_peer_ids st) (irp_source_key probe) unix_seconds")
      case None
      with False PathProbe ok show ?thesis
        by (simp add: handle_probe_def resolve_peer_id_returns [OF hex] balanced_refl)
    next
      case (Some r)
      obtain pd hostname dst where r: "r = (pd, hostname, dst)" by (cases r)
      have "probes_ok (st\<lparr> rl_sends := rl_sends st @ [None] \<rparr>)" if "length (rl_sends st) < MAX_IN_FLIGHT_PROBE_SENDS"
        using ok that by (auto simp: probes_ok_def)
      with False PathProbe ok Some r show ?thesis
        by (simp add: handle_probe_def resolve_peer_id_returns [OF hex] Let_def queue_probe_send_def balanced_def)
    qed
  qed
qed (use ok in \<open>simp_all add: handle_probe_def balanced_refl\<close>)

lemma add_candidates_spec:
  assumes "distinct urls" and "add_candidates parse_url urls cs = (urls', eff, fl)"
  shows "distinct urls' \<and> set urls' = set urls \<union> set (connectors eff) \<and> distinct (connectors eff)
    \<and> set (connectors eff) \<inter> set urls = {} \<and> attempts key eff = 0 \<and> outcomes key eff = 0"
  using assms
proof (induction cs arbitrary: urls urls' eff fl)
  case Nil
  then show ?case by simp
next
  case (Cons c cs)
  show ?case
  proof (cases "parse_url (''udp://'' @ socket_addr_string c)")
    case (Inl e)
    with Cons.prems show ?thesis by auto
  next
    case (Inr url)
    show ?thesis
    proof (cases "url \<in> set urls")
      case True
      with Inr Cons.prems Cons.IH [OF Cons.prems(1), of urls' eff fl] show ?thesis by simp
    next
      case False
      with Inr Cons.prems obtain eff1 where
        e: "add_candidates parse_url (url # urls) cs = (urls', eff1, fl)" "eff = AddConnector url # eff1"
        by (auto split: prod.splits)
      from Cons.IH [OF _ e(1)] False Cons.prems(1) e(2) show ?thesis by auto
    qed
  qed
qed

lemma handle_outbound_returns:
  assumes "hex16 hash hex"
  shows "\<exists>eff. handle_outbound hash hex data_type spec packet unix_seconds sent now st = Returned (eff :: 'f relay_effect list)
    \<and> (\<forall>key. attempts key eff = 0 \<and> outcomes key eff = 0) \<and> connectors eff = []"
  by (auto simp: handle_outbound_def resolve_peer_id_returns [OF assms] Let_def split: option.splits sum.splits)

lemma relay_step_balanced:
  assumes hex: "hex16 hash hex" and ok: "probes_ok st" and calm: "\<not> stray_reply st x"
    and bound: "unat (rl_next_nonce st) + length (rs_peers spec) < 2 ^ 64"
  shows "\<exists>st' eff fl. relay_step hash hex parse_url data_type spec st x = Returned (st', eff, fl)
    \<and> balanced st eff st' (length (rs_peers spec))"
proof -
  have weaken: "balanced st eff st' (length (rs_peers spec))" if "balanced st eff st' 0" for eff :: "'a relay_effect list" and st'
    using that by (simp add: balanced_def)
  show ?thesis
  proof (cases x)
    case (Candidates cs)
    show ?thesis
    proof (cases cs)
      case (Some candidates)
      obtain urls eff fl where
        add: "add_candidates parse_url (rl_candidate_urls st) candidates = (urls, eff :: 'a relay_effect list, fl)"
        by (metis surj_pair)
      have "distinct (rl_candidate_urls st)" using ok by (simp add: probes_ok_def)
      note spec = add_candidates_spec [OF this add]
      then have "balanced st eff (st\<lparr> rl_candidate_urls := urls \<rparr>) 0" using ok by (simp add: balanced_def probes_ok_def)
      then show ?thesis using Candidates Some add weaken by simp
    qed (use Candidates ok in \<open>simp add: balanced_refl\<close>)
  next
    case (Tick tk)
    then show ?thesis using refresh_balanced [OF hex ok bound, of data_type tk] by auto
  next
    case (ProbeSent i err now)
    obtain st' eff where e: "probe_sent i err now st = (st', eff :: 'a relay_effect list)" by (metis surj_pair)
    from weaken [OF probe_sent_balanced [OF ok e]] show ?thesis using ProbeSent e by simp
  next
    case (ProbeSenderFailed i)
    then show ?thesis
      using probes_ok_shrink(1) [OF ok set_remove_nth length_remove_nth, of i] ok by (simp add: balanced_def)
  next
    case (Probe probe now unix_seconds)
    then show ?thesis
    proof (cases probe)
      case (Some p)
      then show ?thesis
        using handle_probe_balanced [OF hex ok, of p now unix_seconds data_type spec] calm Probe weaken by fastforce
    qed (use Probe ok in \<open>simp add: balanced_refl\<close>)
  next
    case (Outbound packet unix_seconds sent now)
    then show ?thesis
    proof (cases packet)
      case (Some p)
      from handle_outbound_returns [OF hex] obtain eff :: "'a relay_effect list" where
        "handle_outbound hash hex data_type spec p unix_seconds sent now st = Returned eff"
        "\<forall>key. attempts key eff = 0 \<and> outcomes key eff = 0" "connectors eff = []" by blast
      then show ?thesis using Outbound Some ok by (simp add: balanced_def)
    qed (use Outbound ok in \<open>simp add: balanced_refl\<close>)
  qed (use ok in \<open>simp add: balanced_refl\<close>)
qed

text \<open>A run in which no stray reply arrives.\<close>

fun calm_run ::
    "(bytes \<Rightarrow> bytes) \<Rightarrow> (bytes \<Rightarrow> string) \<Rightarrow> (string \<Rightarrow> string res) \<Rightarrow> u8 \<Rightarrow> relay_spec \<Rightarrow> relay_state \<Rightarrow> 'f relay_input list \<Rightarrow> bool"
  where
  "calm_run hash hex parse_url data_type spec st [] \<longleftrightarrow> True"
| "calm_run hash hex parse_url data_type spec st (x # xs) \<longleftrightarrow> \<not> stray_reply st x
     \<and> (case relay_step hash hex parse_url data_type spec st x of
          Returned (st', _, _) \<Rightarrow> calm_run hash hex parse_url data_type spec st' xs
        | Panicked \<Rightarrow> True)"

lemma relay_run_balanced:
  assumes hex: "hex16 hash hex" and "probes_ok st" and "calm_run hash hex parse_url data_type spec st xs"
    and "unat (rl_next_nonce st) + length xs * length (rs_peers spec) < 2 ^ 64"
  shows "\<exists>st' eff. relay_run hash hex parse_url data_type spec st xs = Returned (st', eff)
    \<and> balanced st eff st' (length xs * length (rs_peers spec))"
  using assms(2-)
proof (induction xs arbitrary: st)
  case Nil
  then show ?case by (simp add: balanced_refl)
next
  case (Cons x xs)
  from Cons.prems have "unat (rl_next_nonce st) + length (rs_peers spec) < 2 ^ 64" "\<not> stray_reply st x" by simp_all
  from relay_step_balanced [OF hex Cons.prems(1) this(2,1)] obtain st1 eff1 fl where
    one: "relay_step hash hex parse_url data_type spec st x = Returned (st1, eff1, fl)"
      "balanced st eff1 st1 (length (rs_peers spec))" by blast
  have ok1: "probes_ok st1" and next1: "unat (rl_next_nonce st1) \<le> unat (rl_next_nonce st) + length (rs_peers spec)"
    using one(2) by (simp_all add: balanced_def)
  show ?case
  proof (cases fl)
    case (Stop r)
    then show ?thesis using one by (simp add: balanced_def)
  next
    case Continue
    from Cons.prems(2) one(1) have "calm_run hash hex parse_url data_type spec st1 xs" by simp
    moreover have "unat (rl_next_nonce st1) + length xs * length (rs_peers spec) < 2 ^ 64"
      using Cons.prems(3) next1 by simp
    ultimately obtain st2 eff2 where
      "relay_run hash hex parse_url data_type spec st1 xs = Returned (st2, eff2)"
      "balanced st1 eff2 st2 (length xs * length (rs_peers spec))" using Cons.IH [OF ok1] by blast
    with Continue one(1) balanced_trans [OF one(2) this(2)] show ?thesis by simp
  qed
qed

section \<open>Path health\<close>

lemma is_available_apply:
  assumes "\<not> pm_available dflt"
  shows "is_available (apply_effect F dflt path e reg) key path =
     (case e of
        SetAvailable k b \<Rightarrow> if k = key then b else is_available reg key path
      | RecordProbe k rtt now \<Rightarrow> k = key \<and> rtt \<noteq> None \<or> is_available reg key path
      | _ \<Rightarrow> is_available reg key path)"
  using assms
  by (cases e)
     (auto simp: is_available_def set_available_def set_route_latency_def record_probe_def record_tx_def with_path_def
       entry_or_default_def Let_def split: option.splits)

lemma apply_metrics_append: "apply_metrics F dflt path (xs @ ys) reg = apply_metrics F dflt path ys (apply_metrics F dflt path xs reg)"
  by (simp add: apply_metrics_def)

lemma apply_metrics_simps [simp]:
  "apply_metrics F dflt path [] reg = reg"
  "apply_metrics F dflt path (e # es) reg = apply_metrics F dflt path es (apply_effect F dflt path e reg)"
  by (simp_all add: apply_metrics_def)

lemma probe_peer_available:
  assumes hex: "hex16 hash hex" and d: "\<not> pm_available dflt"
    and "probe_peer hash hex data_type spec latencies tk i key st = Returned (st', eff)"
  shows "rl_peer_ids st' = rl_peer_ids st \<and>
    is_available (apply_metrics F dflt path eff reg) k path =
      (if k = key then resolved hash hex (rl_peer_ids st) key (tk_unix tk i) \<noteq> None else is_available reg k path)"
  using assms(3)
  by (auto simp: probe_peer_def resolve_peer_id_returns [OF hex] Let_def queue_probe_send_def is_available_apply [OF d]
      simp del: apply_effect.simps split: option.splits prod.splits if_splits)

lemma probe_peers_available:
  assumes hex: "hex16 hash hex" and d: "\<not> pm_available dflt"
    and "probe_peers hash hex data_type spec latencies tk i ps st = Returned (st', eff)" and "distinct ps"
  shows "is_available (apply_metrics F dflt path eff reg) k path =
      (if k \<in> set ps then \<exists>j < length ps. ps ! j = k \<and> resolved hash hex (rl_peer_ids st) k (tk_unix tk (i + j)) \<noteq> None
       else is_available reg k path)"
  using assms(3,4)
proof (induction ps arbitrary: i st eff reg)
  case Nil
  then show ?case by simp
next
  case (Cons key ps)
  from Cons.prems(1) obtain st1 eff1 eff2 where
    one: "probe_peer hash hex data_type spec latencies tk i key st = Returned (st1, eff1)"
    and two: "probe_peers hash hex data_type spec latencies tk (Suc i) ps st1 = Returned (st', eff2)" and eff: "eff = eff1 @ eff2"
    by (auto simp: exec_bind_Returned split: prod.splits)
  note p = probe_peer_available [OF hex d one, of F path reg k]
  note q = Cons.IH [OF two, of "apply_metrics F dflt path eff1 reg"]
  show ?case
    using p q Cons.prems(2) unfolding eff apply_metrics_append by (auto simp: less_Suc_eq_0_disj)
qed

lemma hm_get_fold_insert:
  "hm_get (fold (\<lambda>r m. hm_insert (f r) (g r) m) rs m0) n \<noteq> None \<longleftrightarrow> (\<exists>r \<in> set rs. f r = n) \<or> hm_get m0 n \<noteq> None"
  by (induction rs arbitrary: m0) auto

lemma resolved_iff:
  "resolved hash hex ids key t \<noteq> None \<longleftrightarrow>
   (\<exists>p \<in> set (active_peer_id_periods t). hm_get ids (node_name hash hex key p) \<noteq> None)"
  by (auto simp: resolved_def active_peer_id_periods_def Let_def split: option.splits)

lemma refresh_cases:
  assumes hex: "hex16 hash hex" and "refresh hash hex data_type spec tk st = Returned (st', eff)"
  obtains st1 pending eff1 eff2 eff3 where
    "drop_probes (tk_recorded tk) (expired_probes (rl_pending st) (tk_now tk)) (rl_pending st) = (pending, eff2)"
    "probe_peers hash hex data_type spec (fold (\<lambda>r m. hm_insert (ro_hostname r) (ro_path_latency r) m) (tk_routes tk) [])
       tk 0 (rs_peers spec) (st1\<lparr> rl_peer_ids := fold (\<lambda>r m. hm_insert (ro_hostname r) (ro_peer_id r) m) (tk_routes tk) [],
         rl_pending := pending \<rparr>) = Returned (st', eff3)"
    "eff = eff1 @ eff2 @ eff3"
proof -
  have "\<exists>st1 eff1. rotate_name hash hex spec (current_peer_id_period (tk_period tk)) st = Returned (st1, eff1 :: 'a relay_effect list)
      \<and> rl_pending st1 = rl_pending st"
    by (simp add: rotate_name_def rotating_node_name_returns [OF hex])
  then obtain st1 and eff1 :: "'a relay_effect list" where
    rot: "rotate_name hash hex spec (current_peer_id_period (tk_period tk)) st = Returned (st1, eff1)"
      "rl_pending st1 = rl_pending st" by blast
  obtain pending and eff2 :: "'a relay_effect list" where
    drop: "drop_probes (tk_recorded tk) (expired_probes (rl_pending st) (tk_now tk)) (rl_pending st) = (pending, eff2)"
    by (metis surj_pair)
  from assms(2) rot drop that show ?thesis
    by (auto simp: refresh_def Let_def exec_bind_Returned split: prod.splits)
qed

lemma probe_peers_recent:
  assumes hex: "hex16 hash hex" and "probe_peers hash hex data_type spec latencies tk i ps st = Returned (st', eff)"
    and "hm_get (rl_pending st') n = Some (k, s)"
  shows "s = tk_now tk \<or> hm_get (rl_pending st) n = Some (k, s)"
  using assms(2,3)
proof (induction ps arbitrary: i st eff)
  case Nil
  then show ?case by simp
next
  case (Cons key ps)
  from Cons.prems(1) obtain st1 eff1 eff2 where
    one: "probe_peer hash hex data_type spec latencies tk i key st = Returned (st1, eff1)"
    and two: "probe_peers hash hex data_type spec latencies tk (Suc i) ps st1 = Returned (st', eff2)"
    by (auto simp: exec_bind_Returned split: prod.splits)
  from one have "s = tk_now tk \<or> hm_get (rl_pending st) n = Some (k, s)" if "hm_get (rl_pending st1) n = Some (k, s)"
    using that
    by (auto simp: probe_peer_def resolve_peer_id_returns [OF hex] Let_def queue_probe_send_def split: option.splits if_splits)
  with Cons.IH [OF two Cons.prems(2)] show ?case by blast
qed

lemma expired_probes_complete:
  "hm_get pending n = Some (k, s) \<Longrightarrow> n \<notin> set (expired_probes pending now) \<Longrightarrow> now - s \<le> secs 3"
proof (rule ccontr)
  assume get: "hm_get pending n = Some (k, s)" and "n \<notin> set (expired_probes pending now)" and "\<not> now - s \<le> secs 3"
  then have "\<forall>x \<in> set pending. (case x of (nonce, (_, sent)) \<Rightarrow> if secs 3 < now - sent then Some nonce else None) \<noteq> Some n"
    by (simp add: expired_probes_def)
  with map_of_SomeD [OF get] \<open>\<not> now - s \<le> secs 3\<close> show False by fastforce
qed

section \<open>Stray replies\<close>

text \<open>
  The pending probe is removed before its peer is compared with the sender of the reply: a reply
  with a guessed nonce from any other peer makes the probe vanish.  Neither its answer nor a loss
  is recorded for it afterwards.
\<close>

lemma stray_reply_loses_probe:
  assumes "hm_get (rl_pending st) nonce = Some (key, sent)" and "other \<noteq> key"
    and "probe = \<lparr> irp_source_key = other, irp_channel = PathProbe nonce m True, irp_payload = pl \<rparr>"
    and "answer = \<lparr> irp_source_key = key, irp_channel = PathProbe nonce m' True, irp_payload = pl' \<rparr>"
  shows "\<exists>st'. handle_probe hash hex ty spec probe now t st = Returned (st', []) \<and> hm_get (rl_pending st') nonce = None
    \<and> handle_probe hash hex ty spec answer now' t' st' = Returned (st', [])"
  using assms by (simp add: handle_probe_def)

section \<open>Properties\<close>

definition sample_spec :: "string \<Rightarrow> string list \<Rightarrow> relay_spec" where
  "sample_spec key peers = \<lparr> rs_local_public_key = key, rs_path_id = ''relay'', rs_relay = ''udp://relay'',
     rs_listener_port = 42000, rs_peers = peers \<rparr>"

definition sample_hex :: "bytes \<Rightarrow> string" where
  "sample_hex b = replicate 16 (CHR ''a'')"

definition sample_tick :: "int tick" where
  "sample_tick = \<lparr> tk_period = Some 0, tk_routes = [\<lparr> ro_hostname = node_name id sample_hex ''bob'' 0, ro_peer_id = 7,
     ro_path_latency = 1 \<rparr>], tk_now = 0, tk_recorded = 0, tk_unix = (\<lambda>i. 0), tk_micros = (\<lambda>i. 0) \<rparr>"

lemma sample_hex16: "hex16 id sample_hex"
  by (simp add: hex16_def sample_hex_def)

text \<open>
  C24.  Every probe is accounted for exactly once: in every run of the relay task from its start, as long
  as no reply comes from a peer that was not probed, the task never panics, and for each peer the
  probes it made are the outcomes it recorded plus the probes still waiting.  At most eight
  senders are in flight, and no connector is added twice.
\<close>

theorem relay_probe_accounting:
  assumes "hex16 hash hex" and "calm_run hash hex parse_url data_type spec (relay_init period) inputs"
    and "length inputs * length (rs_peers spec) + 1 < 2 ^ 64"
  shows "\<exists>st effs. relay_run hash hex parse_url data_type spec (relay_init period) inputs = Returned (st, effs)
    \<and> attempts key effs = outcomes key effs + outstanding key (rl_pending st)
    \<and> length (rl_sends st) \<le> MAX_IN_FLIGHT_PROBE_SENDS \<and> distinct (connectors effs)"
proof -
  have init: "probes_ok (relay_init period)" by (simp add: probes_ok_def relay_init_def)
  have "unat (rl_next_nonce (relay_init period)) + length inputs * length (rs_peers spec) < 2 ^ 64"
    using assms(3) by (simp add: relay_init_def)
  from relay_run_balanced [OF assms(1) init assms(2) this] obtain st effs where
    run: "relay_run hash hex parse_url data_type spec (relay_init period) inputs = Returned (st, effs)"
    and b: "balanced (relay_init period) effs st (length inputs * length (rs_peers spec))" by blast
  from b have "outstanding key (rl_pending st) + outcomes key effs = outstanding key (rl_pending (relay_init period)) + attempts key effs"
    unfolding balanced_def by blast
  then have "attempts key effs = outcomes key effs + outstanding key (rl_pending st)"
    by (simp add: relay_init_def)
  moreover from b have "distinct (connectors effs)" "length (rl_sends st) \<le> MAX_IN_FLIGHT_PROBE_SENDS"
    unfolding balanced_def probes_ok_def by blast+
  ultimately show ?thesis using run by blast
qed

theorem relay_probe_accounting_witness:
  "\<exists>st effs. relay_run id sample_hex Inr 1 (sample_spec ''alice'' [''bob'']) (relay_init 0) [Tick sample_tick, RelayCancelled] =
     Returned (st, effs)
    \<and> attempts ''bob'' effs = outcomes ''bob'' effs + outstanding ''bob'' (rl_pending st)
    \<and> length (rl_sends st) \<le> MAX_IN_FLIGHT_PROBE_SENDS \<and> distinct (connectors effs)"
proof (rule relay_probe_accounting [OF sample_hex16])
  show "calm_run id sample_hex Inr 1 (sample_spec ''alice'' [''bob'']) (relay_init 0) [Tick sample_tick, RelayCancelled]"
    by (simp add: stray_reply_def split: exec.splits prod.splits)
qed (simp add: sample_spec_def)

text \<open>
  Path health: after a refresh the registry marks the path to a configured peer available exactly
  when EasyTier lists a node whose name is the peer's in the current or the previous hour, and no
  probe older than three seconds is left waiting.
\<close>

theorem refresh_path_health:
  assumes hex: "hex16 hash hex" and "distinct (rs_peers spec)" and i: "i < length (rs_peers spec)"
    and wf: "hm_wf (rl_pending st)"
    and run: "refresh hash hex data_type spec tk st = Returned (st', eff)"
  shows "(is_available (apply_metrics F (path_metrics_default F t1 t2) (rs_path_id spec) eff reg)
        (rs_peers spec ! i) (rs_path_id spec) \<longleftrightarrow>
      (\<exists>p \<in> set (active_peer_id_periods (tk_unix tk i)). \<exists>r \<in> set (tk_routes tk).
         ro_hostname r = node_name hash hex (rs_peers spec ! i) p))
    \<and> (\<forall>n k s. hm_get (rl_pending st') n = Some (k, s) \<longrightarrow> tk_now tk - s \<le> secs 3)"
proof -
  let ?dflt = "path_metrics_default F t1 t2" and ?key = "rs_peers spec ! i"
  let ?ids = "fold (\<lambda>r m. hm_insert (ro_hostname r) (ro_peer_id r) m) (tk_routes tk) []"
  obtain st1 pending eff1 eff2 eff3 where
    drop: "drop_probes (tk_recorded tk) (expired_probes (rl_pending st) (tk_now tk)) (rl_pending st) = (pending, eff2)"
    and peers: "probe_peers hash hex data_type spec (fold (\<lambda>r m. hm_insert (ro_hostname r) (ro_path_latency r) m) (tk_routes tk) [])
       tk 0 (rs_peers spec) (st1\<lparr> rl_peer_ids := ?ids, rl_pending := pending \<rparr>) = Returned (st', eff3)"
    and eff: "eff = eff1 @ eff2 @ eff3" by (rule refresh_cases [OF hex run])
  have un: "\<not> pm_available ?dflt" by (simp add: path_metrics_default_def)
  have key: "?key \<in> set (rs_peers spec)" using i by simp
  have "(\<exists>j < length (rs_peers spec). rs_peers spec ! j = ?key \<and> resolved hash hex ?ids ?key (tk_unix tk (0 + j)) \<noteq> None)
      \<longleftrightarrow> resolved hash hex ?ids ?key (tk_unix tk i) \<noteq> None"
    using i by (auto simp: nth_eq_iff_index_eq [OF assms(2) _ i])
  then have "is_available (apply_metrics F ?dflt (rs_path_id spec) eff reg) ?key (rs_path_id spec) \<longleftrightarrow>
      resolved hash hex ?ids ?key (tk_unix tk i) \<noteq> None"
    unfolding eff apply_metrics_append probe_peers_available [OF hex un peers assms(2)] if_P [OF key] by simp
  then have health: "is_available (apply_metrics F ?dflt (rs_path_id spec) eff reg) ?key (rs_path_id spec) \<longleftrightarrow>
      (\<exists>p \<in> set (active_peer_id_periods (tk_unix tk i)). \<exists>r \<in> set (tk_routes tk). ro_hostname r = node_name hash hex ?key p)"
    unfolding resolved_iff hm_get_fold_insert by simp
  have "tk_now tk - s \<le> secs 3" if "hm_get (rl_pending st') n = Some (k, s)" for n k s
  proof -
    from probe_peers_recent [OF hex peers that] consider "s = tk_now tk" | "hm_get pending n = Some (k, s)" by auto
    then show ?thesis
    proof cases
      case 2
      with drop_probes_spec [OF wf drop]
      have "n \<notin> set (expired_probes (rl_pending st) (tk_now tk))" "hm_get (rl_pending st) n = Some (k, s)"
        by (auto split: if_splits)
      then show ?thesis using expired_probes_complete by blast
    qed simp
  qed
  then show ?thesis unfolding health by simp
qed

theorem refresh_path_health_witness:
  "\<exists>st' eff. refresh id sample_hex 1 (sample_spec ''alice'' [''bob'']) sample_tick (relay_init 0) = Returned (st', eff)
     \<and> is_available (apply_metrics sample_f64 (path_metrics_default sample_f64 0 0) ''relay'' eff []) ''bob'' ''relay''"
proof -
  have "\<exists>st' eff. refresh id sample_hex 1 (sample_spec ''alice'' [''bob'']) sample_tick (relay_init 0) = Returned (st', eff)"
    using refresh_balanced [OF sample_hex16, of "relay_init 0" "sample_spec ''alice'' [''bob'']" 1 sample_tick]
    by (auto simp: probes_ok_def relay_init_def sample_spec_def)
  then obtain st' eff where
    run: "refresh id sample_hex 1 (sample_spec ''alice'' [''bob'']) sample_tick (relay_init 0) = Returned (st', eff)" by blast
  from refresh_path_health [OF sample_hex16 _ _ _ run, of 0 sample_f64 0 0 "[]"]
  have "is_available (apply_metrics sample_f64 (path_metrics_default sample_f64 0 0) ''relay'' eff []) ''bob'' ''relay''"
    by (simp add: sample_spec_def sample_tick_def relay_init_def active_peer_id_periods_def peer_id_period_def Let_def)
  with run show ?thesis by blast
qed

text \<open>
  C25.  Probes come back: when \<open>alice\<close> waits for the answer of \<open>bob\<close> to a probe, \<open>bob\<close>'s filter hands her
  probe to its task, which, knowing her node and with a sender free, queues one reply to it; her
  filter hands that reply to her task, which takes the probe off its list and records the round
  trip time, and that makes the path to \<open>bob\<close> available.
\<close>

theorem probe_round_trip:
  assumes keys: "key_ok alice" "key_ok bob"
    and locals: "wf_local_public_key fa = alice" "wf_local_public_key fb = bob"
      "rs_local_public_key sa = alice" "rs_local_public_key sb = bob"
    and known: "resolve_peer_id hash hex (rl_peer_ids stb) alice unix_b = Returned (Some (period, hostname, dst))"
    and room: "length (rl_sends stb) < MAX_IN_FLIGHT_PROBE_SENDS"
    and waiting: "hm_get (rl_pending sta) nonce = Some (bob, sent)"
  shows "\<exists>request reply answer.
     try_process_packet ty fb (data_packet ty (encode_frame alice bob (PathProbe nonce micros False) (as_bytes ''p''))) =
       Returned ([ToProbe request], None)
   \<and> handle_probe hash hex ty sb request now_b unix_b stb =
       Returned (stb\<lparr> rl_sends := rl_sends stb @ [None] \<rparr>, [SpawnSend reply dst :: 'f relay_effect])
   \<and> try_process_packet ty fa reply = Returned ([ToProbe answer], None)
   \<and> handle_probe hash hex ty sa answer now unix_a sta =
       Returned (sta\<lparr> rl_pending := hm_remove nonce (rl_pending sta) \<rparr>, [RecordProbe bob (Some (now - sent)) now :: 'f relay_effect])
   \<and> is_available (apply_metrics F dflt path [RecordProbe bob (Some (now - sent)) now] reg) bob path"
proof -
  let ?p = "as_bytes ''p''"
  let ?req = "\<lparr> irp_source_key = alice, irp_channel = PathProbe nonce micros False, irp_payload = ?p \<rparr>"
  let ?rep = "data_packet ty (encode_frame bob alice (PathProbe nonce micros True) ?p)"
  let ?ans = "\<lparr> irp_source_key = bob, irp_channel = PathProbe nonce micros True, irp_payload = ?p \<rparr>"
  have p: "?p \<noteq> []" by (simp add: as_bytes_def)
  have d1: "decode_frame (encode_frame alice bob (PathProbe nonce micros False) ?p) =
      Returned (Some \<lparr> df_source = alice, df_target = bob, df_channel = PathProbe nonce micros False, df_payload = ?p \<rparr>)"
    by (rule decode_frame_encoded [OF keys p]) simp
  have d2: "decode_frame (encode_frame bob alice (PathProbe nonce micros True) ?p) =
      Returned (Some \<lparr> df_source = bob, df_target = alice, df_channel = PathProbe nonce micros True, df_payload = ?p \<rparr>)"
    by (rule decode_frame_encoded [OF keys(2,1) p]) simp
  have "try_process_packet ty fb (data_packet ty (encode_frame alice bob (PathProbe nonce micros False) ?p)) =
      Returned ([ToProbe ?req], None)"
    unfolding try_process_packet_def data_packet_def by (simp add: d1 locals Let_def del: encode_frame.simps)
  moreover have "handle_probe hash hex ty sb ?req now_b unix_b stb =
      Returned (stb\<lparr> rl_sends := rl_sends stb @ [None] \<rparr>, [SpawnSend ?rep dst :: 'f relay_effect])"
    using room by (simp add: handle_probe_def known locals Let_def queue_probe_send_def del: encode_frame.simps)
  moreover have "try_process_packet ty fa ?rep = Returned ([ToProbe ?ans], None)"
    unfolding try_process_packet_def data_packet_def by (simp add: d2 locals Let_def del: encode_frame.simps)
  moreover have "handle_probe hash hex ty sa ?ans now unix_a sta =
      Returned (sta\<lparr> rl_pending := hm_remove nonce (rl_pending sta) \<rparr>, [RecordProbe bob (Some (now - sent)) now :: 'f relay_effect])"
    by (simp add: handle_probe_def waiting)
  moreover have "is_available (apply_metrics F dflt path [RecordProbe bob (Some (now - sent)) now] reg) bob path"
    by (simp add: is_available_def record_probe_def with_path_def Let_def)
  ultimately show ?thesis by blast
qed

theorem probe_round_trip_witness:
  "\<exists>request reply answer.
     try_process_packet 1 \<lparr> wf_local_public_key = ''bob'', wf_peers = [(''alice'', 0 :: nat)], wf_path_id = ''relay'' \<rparr>
       (data_packet 1 (encode_frame ''alice'' ''bob'' (PathProbe 1 5 False) (as_bytes ''p''))) = Returned ([ToProbe request], None)
   \<and> handle_probe id sample_hex 1 (sample_spec ''bob'' []) request 0 0
       ((relay_init 0)\<lparr> rl_peer_ids := [(node_name id sample_hex ''alice'' 0, 9)] \<rparr>) =
       Returned ((relay_init 0)\<lparr> rl_peer_ids := [(node_name id sample_hex ''alice'' 0, 9)], rl_sends := [None] \<rparr>,
         [SpawnSend reply 9 :: int relay_effect])
   \<and> try_process_packet 1 \<lparr> wf_local_public_key = ''alice'', wf_peers = [(''bob'', 0 :: nat)], wf_path_id = ''relay'' \<rparr> reply =
       Returned ([ToProbe answer], None)
   \<and> handle_probe id sample_hex 1 (sample_spec ''alice'' []) answer 8 0 ((relay_init 0)\<lparr> rl_pending := [(1, ''bob'', 3)] \<rparr>) =
       Returned (relay_init 0, [RecordProbe ''bob'' (Some 5) 8 :: int relay_effect])
   \<and> is_available (apply_metrics sample_f64 (path_metrics_default sample_f64 0 0) ''relay'' [RecordProbe ''bob'' (Some 5) 8] [])
       ''bob'' ''relay''"
proof -
  have "rust_str ''alice''" "rust_str ''bob''" by code_simp+
  then have k: "key_ok ''alice''" "key_ok ''bob''" by (simp_all add: key_ok_def)
  let ?stb = "(relay_init 0)\<lparr> rl_peer_ids := [(node_name id sample_hex ''alice'' 0, 9)] \<rparr>"
  have known: "resolve_peer_id id sample_hex (rl_peer_ids ?stb) ''alice'' 0 = Returned (Some (0, node_name id sample_hex ''alice'' 0, 9))"
    by (simp add: resolve_peer_id_returns [OF sample_hex16] resolved_def peer_id_period_def Let_def)
  note rt = probe_round_trip [where ?'f = int and alice = "''alice''" and bob = "''bob''"
      and fa = "\<lparr> wf_local_public_key = ''alice'', wf_peers = [(''bob'', 0)], wf_path_id = ''relay'' \<rparr>"
      and fb = "\<lparr> wf_local_public_key = ''bob'', wf_peers = [(''alice'', 0)], wf_path_id = ''relay'' \<rparr>"
      and sa = "sample_spec ''alice'' []" and sb = "sample_spec ''bob'' []" and ty = 1
      and sta = "(relay_init 0)\<lparr> rl_pending := [(1, ''bob'', 3)] \<rparr>" and nonce = 1 and sent = 3 and now = 8 and micros = 5,
      OF k _ _ _ _ known]
  show ?thesis using rt [where F = sample_f64 and dflt = "path_metrics_default sample_f64 0 0" and path = "''relay''" and reg = "[]"
      and now_b = 0 and unix_a = 0]
    by (simp add: sample_spec_def relay_init_def MAX_IN_FLIGHT_PROBE_SENDS_def del: encode_frame.simps)
qed

text \<open>
  Outbound packets: a packet for a peer that advertised its name less than an hour ago, under which
  EasyTier knows its node, is sent once, to that node, as a frame that decodes at the peer to the
  packet's channel and payload; the bytes are counted when the send succeeds and the path becomes
  unavailable when it fails.  A packet for a peer that no active name resolves is dropped.
\<close>

theorem outbound_reaches_peer:
  assumes hex: "hex16 hash hex" and keys: "key_ok (rs_local_public_key spec)" "key_ok (rp_peer_key packet)"
    and "rp_payload packet \<noteq> []" and "channel_ok (rp_channel packet)"
    and named: "hm_get (rl_peer_ids st) (node_name hash hex (rp_peer_key packet) (peer_id_period t0)) = Some dst"
    and one: "\<forall>p. hm_get (rl_peer_ids st) (node_name hash hex (rp_peer_key packet) p) \<in> {None, Some dst}"
    and recent: "unat t0 \<le> unat t" "unat t < unat t0 + 3600"
  shows "\<exists>frame rest. handle_outbound hash hex ty spec packet t sent now st = Returned (SendMsg (data_packet ty frame) dst # rest)
    \<and> decode_frame frame = Returned (Some \<lparr> df_source = rs_local_public_key spec, df_target = rp_peer_key packet,
        df_channel = rp_channel packet, df_payload = rp_payload packet \<rparr>)
    \<and> rest = (if is_ok sent then [RecordTx (rp_peer_key packet) (word_of_nat (length (rp_payload packet))) now]
              else [SetAvailable (rp_peer_key packet) False])
    \<and> handle_outbound hash hex ty spec packet t sent now (st\<lparr> rl_peer_ids := [] \<rparr>) = Returned ([] :: 'f relay_effect list)"
proof -
  let ?key = "rp_peer_key packet"
  have "peer_id_period t0 \<in> set (active_peer_id_periods t)"
  proof -
    have cur: "unat (peer_id_period x) = unat x div 3600" for x
      by (simp add: peer_id_period_def PEER_ID_PERIOD_SECONDS_def unat_div)
    have "unat t0 div 3600 = unat t div 3600 \<or> unat t0 div 3600 = unat t div 3600 - 1"
    proof -
      have "unat t0 div 3600 \<le> unat t div 3600" using recent(1) by (rule div_le_mono)
      moreover have "unat t div 3600 \<le> (unat t0 + 3600) div 3600" using recent(2) by (intro div_le_mono) simp
      ultimately show ?thesis by auto
    qed
    then show ?thesis
      by (auto simp: active_peer_id_periods_def Let_def word_unat_eq_iff unat_sat_sub cur)
  qed
  then have "resolved hash hex (rl_peer_ids st) ?key t \<noteq> None" using named unfolding resolved_iff by force
  moreover have "pid = dst" if "resolved hash hex (rl_peer_ids st) ?key t = Some (p, h, pid)" for p h pid
    using that one by (auto simp: resolved_def Let_def split: option.splits) (metis insertE option.inject option.simps(3) singletonD)+
  ultimately obtain p h where "resolved hash hex (rl_peer_ids st) ?key t = Some (p, h, dst)" by (metis not_None_eq prod_cases3)
  moreover have "decode_frame (encode_frame (rs_local_public_key spec) ?key (rp_channel packet) (rp_payload packet)) =
      Returned (Some \<lparr> df_source = rs_local_public_key spec, df_target = ?key,
        df_channel = rp_channel packet, df_payload = rp_payload packet \<rparr>)"
    by (rule decode_frame_encoded [OF keys assms(4,5)])
  moreover have "resolved hash hex [] ?key t = None" by (simp add: resolved_def Let_def)
  ultimately show ?thesis
    by (cases sent) (auto simp: data_packet_def handle_outbound_def resolve_peer_id_returns [OF hex] Let_def)
qed

theorem outbound_reaches_peer_witness:
  "\<exists>frame. handle_outbound id sample_hex 1 (sample_spec ''alice'' [''bob''])
       \<lparr> rp_peer_key = ''bob'', rp_channel = BaseWireGuard, rp_payload = [1, 2] \<rparr> 4000 (Inr ()) 9
       ((relay_init 0)\<lparr> rl_peer_ids := [(node_name id sample_hex ''bob'' 0, 7)] \<rparr>) =
     Returned [SendMsg (data_packet 1 frame) 7, RecordTx ''bob'' 2 9 :: int relay_effect]
   \<and> decode_frame frame = Returned (Some \<lparr> df_source = ''alice'', df_target = ''bob'', df_channel = BaseWireGuard,
       df_payload = [1, 2] \<rparr>)"
proof -
  have "rust_str ''alice''" "rust_str ''bob''" by code_simp+
  then have k: "key_ok ''alice''" "key_ok ''bob''" by (simp_all add: key_ok_def)
  have names: "node_name id sample_hex ''bob'' p = node_name id sample_hex ''bob'' 0" for p
    by (simp add: node_name_def sample_hex_def)
  show ?thesis
    using outbound_reaches_peer [OF sample_hex16, where spec = "sample_spec ''alice'' [''bob'']" and ty = 1 and ?'f = int
        and packet = "\<lparr> rp_peer_key = ''bob'', rp_channel = BaseWireGuard, rp_payload = [1, 2] \<rparr>"
        and st = "(relay_init 0)\<lparr> rl_peer_ids := [(node_name id sample_hex ''bob'' 0, 7)] \<rparr>" and ?t0.0 = 3000 and t = 4000
        and dst = 7 and sent = "Inr ()" and now = 9] k names
    by (auto simp: sample_spec_def)
qed

end
