(* ===== verification/Base_Control.thy ===== *)
theory Base_Control
  imports Control
begin

text \<open>
  \<open>src/src/shortcut/base_control.rs\<close>: how control messages enter and leave a node: the UDP sockets
  on the WireGuard addresses, the packet capture on the WireGuard interface, and the sending side.
  The operating system's sockets and the capture channel are parameters; the parsing of captured
  packets works on slices that panic out of range and returns an \<open>exec\<close>.
\<close>

definition CONTROL_PORT :: u16 where "CONTROL_PORT = 51821"

record received_control =
  rc_source :: ip_addr
  rc_message :: control_message

section \<open>Captured packets\<close>

definition drop_from :: "'a list \<Rightarrow> nat \<Rightarrow> 'a list exec" where
  "drop_from xs n = (if n \<le> length xs then Returned (drop n xs) else Panicked)"

definition link_offset :: "bytes \<Rightarrow> nat option exec" where
  "link_offset packet =
     (if packet \<noteq> [] \<and> drop_bit 4 (hd packet) = 4 then Returned (Some 0)
      else if 14 \<le> length packet then
        exec_bind (index_at packet 14) (\<lambda>b. if drop_bit 4 b = 4 then Returned (Some 14) else Returned None)
      else Returned None)"

definition ipv4_udp_payload :: "bytes \<Rightarrow> (ip_addr \<times> bytes) option exec" where
  "ipv4_udp_payload frame = exec_bind (link_offset frame) (\<lambda>off.
     case off of
       None \<Rightarrow> Returned None
     | Some offset \<Rightarrow> exec_bind (drop_from frame offset) (\<lambda>packet.
         if length packet < 20 then Returned None
         else exec_bind (index_at packet 9) (\<lambda>protocol.
           if protocol \<noteq> 17 then Returned None
           else exec_bind (index_at packet 0) (\<lambda>b0.
             let header_len = unat (b0 AND 0x0f) * 4 in
             if header_len < 20 \<or> length packet < header_len + 8 then Returned None
             else exec_bind (index_at packet 12) (\<lambda>a. exec_bind (index_at packet 13) (\<lambda>b.
               exec_bind (index_at packet 14) (\<lambda>c. exec_bind (index_at packet 15) (\<lambda>d.
                 exec_bind (drop_from packet header_len) (\<lambda>payload.
                   Returned (Some (v4_of_octets [a, b, c, d], payload)))))))))))"

text \<open>One captured packet in \<open>capture_interface\<close>: the message handed on, if any.\<close>

definition capture_packet :: "(bytes \<Rightarrow> control_message res) \<Rightarrow> bytes \<Rightarrow> received_control option exec" where
  "capture_packet from_json packet = exec_bind (ipv4_udp_payload packet) (\<lambda>r.
     case r of
       None \<Rightarrow> Returned None
     | Some (source, payload) \<Rightarrow>
         if length payload < 8 then Returned None
         else exec_bind (index_at payload 2) (\<lambda>p0. exec_bind (index_at payload 3) (\<lambda>p1.
           if (from_be_bytes [p0, p1] :: u16) \<noteq> CONTROL_PORT then Returned None
           else exec_bind (drop_from payload 8) (\<lambda>body.
             case decode_control from_json body of
               Inl e \<Rightarrow> Returned None
             | Inr message \<Rightarrow> Returned (Some \<lparr> rc_source = source, rc_message = message \<rparr>)))))"

section \<open>Sockets\<close>

text \<open>What the task of a control socket does with a received datagram.\<close>

definition control_socket_step ::
    "(bytes \<Rightarrow> control_message res) \<Rightarrow> (bytes \<times> socket_addr) res \<Rightarrow> received_control option" where
  "control_socket_step from_json received =
     (case received of
        Inl e \<Rightarrow> None
      | Inr (datagram, source) \<Rightarrow>
          (case decode_control from_json datagram of
             Inl e \<Rightarrow> None
           | Inr message \<Rightarrow> Some \<lparr> rc_source = sa_ip source, rc_message = message \<rparr>))"

text \<open>\<open>base_control::start\<close>: the addresses the control sockets bind to.\<close>

fun bind_all :: "(socket_addr \<Rightarrow> unit res) \<Rightarrow> ip_addr list \<Rightarrow> socket_addr list res" where
  "bind_all bind_udp [] = Inr []"
| "bind_all bind_udp (a # as) =
     (case bind_udp (SocketAddr a CONTROL_PORT) of
        Inl e \<Rightarrow> Inl e
      | Inr _ \<Rightarrow> (case bind_all bind_udp as of Inl e \<Rightarrow> Inl e | Inr ss \<Rightarrow> Inr (SocketAddr a CONTROL_PORT # ss)))"

definition control_start :: "(socket_addr \<Rightarrow> unit res) \<Rightarrow> ip_addr list \<Rightarrow> socket_addr list res" where
  "control_start bind_udp addresses =
     (if addresses = [] then Inl (ControlError NoControlAddress) else bind_all bind_udp addresses)"

text \<open>
  \<open>base_control::send\<close>: \<open>open_socket\<close> stands for creating the socket, setting its mark, binding it to
  the local address and setting the hop limit, \<open>send_to\<close> for the transmission.
\<close>

definition control_send ::
    "(control_message \<Rightarrow> bytes res) \<Rightarrow> (ip_addr \<Rightarrow> unit res) \<Rightarrow> (bytes \<Rightarrow> socket_addr \<Rightarrow> unit res)
     \<Rightarrow> ip_addr \<Rightarrow> ip_addr \<Rightarrow> control_message \<Rightarrow> unit res" where
  "control_send to_json open_socket send_to local target message =
     (if is_ipv4 local \<noteq> is_ipv4 target then Inl (ControlError AddressFamilyMismatch)
      else case open_socket local of
        Inl e \<Rightarrow> Inl e
      | Inr _ \<Rightarrow>
          (case encode_control to_json message of
             Inl e \<Rightarrow> Inl e
           | Inr frame \<Rightarrow> send_to frame (SocketAddr target CONTROL_PORT)))"

section \<open>Parsing\<close>

lemma link_offset_le: "link_offset packet = Returned (Some n) \<Longrightarrow> n \<le> length packet"
  by (auto simp: link_offset_def index_at_def split: if_splits)

lemma link_offset_panics:
  "link_offset packet = Panicked \<longleftrightarrow> length packet = 14 \<and> drop_bit 4 (packet ! 0) \<noteq> 4"
proof (cases packet)
  case (Cons b bs)
  then show ?thesis by (auto simp: link_offset_def index_at_def)
qed (simp add: link_offset_def)

lemma unat_header_len: "unat (b AND 0x0f :: u8) \<le> 15"
proof -
  have "b AND 0x0f \<le> 0x0f" by (rule word_and_le1)
  then show ?thesis by (simp add: word_le_nat_alt)
qed

lemma ipv4_udp_payload_panics:
  "ipv4_udp_payload packet = Panicked \<longleftrightarrow> length packet = 14 \<and> drop_bit 4 (packet ! 0) \<noteq> 4"
proof -
  have "ipv4_udp_payload packet = Panicked \<longleftrightarrow> link_offset packet = Panicked"
  proof (cases "link_offset packet")
    case (Returned off)
    show ?thesis
    proof (cases off)
      case (Some n)
      with Returned have "drop_from packet n = Returned (drop n packet)"
        using link_offset_le by (simp add: drop_from_def)
      with Returned Some show ?thesis
        by (auto simp: ipv4_udp_payload_def exec_simps drop_from_def Let_def)
    qed (simp add: ipv4_udp_payload_def Returned)
  qed (simp add: ipv4_udp_payload_def)
  then show ?thesis by (simp add: link_offset_panics)
qed

lemma length_two: "length xs = 2 \<Longrightarrow> \<exists>a b. xs = [a, b]"
  by (cases xs; cases "tl xs") auto

lemma length_double: "length xs = 2 * n \<Longrightarrow> \<exists>ys zs. xs = ys @ zs \<and> length ys = n \<and> length zs = n"
  by (rule exI [of _ "take n xs"], rule exI [of _ "drop n xs"]) simp

lemma length_four:
  assumes "length xs = 4"
  shows "\<exists>a b c d. xs = [a, b, c, d]"
  using length_double [of xs 2] assms by (auto dest!: length_two)

lemma length_eight:
  assumes "length xs = 8"
  shows "\<exists>a b c d e f g h. xs = [a, b, c, d, e, f, g, h]"
  using length_double [of xs 4] assms by (auto dest!: length_four)

text \<open>An IPv4 packet without options that carries UDP: the payload is everything after its 20 bytes.\<close>

lemma ipv4_udp_payload_datagram:
  assumes "length pre = 8" "length chk = 2" "length src = 4" "length dst = 4"
    and "length udp = 8"
  shows "ipv4_udp_payload (0x45 # pre @ [17] @ chk @ src @ dst @ udp @ body) =
    Returned (Some (v4_of_octets src, udp @ body))"
proof -
  obtain c0 c1 where chk: "chk = [c0, c1]" using length_two [OF assms(2)] by auto
  obtain s0 s1 s2 s3 where src: "src = [s0, s1, s2, s3]" using length_four [OF assms(3)] by auto
  obtain d0 d1 d2 d3 where dst: "dst = [d0, d1, d2, d3]" using length_four [OF assms(4)] by auto
  obtain p0 p1 p2 p3 p4 p5 p6 p7 where pre: "pre = [p0, p1, p2, p3, p4, p5, p6, p7]"
    using length_eight [OF assms(1)] by auto
  have h20: "unat ((0x45 :: u8) AND 0x0f) * 4 = 20" by simp
  have off: "link_offset (0x45 # rest) = Returned (Some 0)" for rest by (simp add: link_offset_def)
  show ?thesis
    unfolding pre chk src dst
    by (simp add: ipv4_udp_payload_def off drop_from_def index_at_def Let_def assms(5) del: of_nat_numeral)
qed

section \<open>Properties\<close>

text \<open>
  C39.  Capture and panics: parsing a captured packet panics exactly on packets of 14 bytes whose first
  nibble is not 4, because the guard lets byte 14 be read from a packet of length 14; on every
  other packet it returns.
\<close>

theorem capture_panics_iff:
  "capture_packet from_json packet = Panicked \<longleftrightarrow> length packet = 14 \<and> drop_bit 4 (packet ! 0) \<noteq> 4"
proof -
  have "capture_packet from_json packet = Panicked \<longleftrightarrow> ipv4_udp_payload packet = Panicked"
    by (cases "ipv4_udp_payload packet")
       (auto simp: capture_packet_def exec_simps drop_from_def split: option.splits sum.splits)
  then show ?thesis by (simp add: ipv4_udp_payload_panics)
qed

text \<open>
  C38.  Control messages arrive: when the JSON conversions are inverse, the frame that \<open>send\<close> puts on
  the wire, inside a UDP datagram to the control port in an IPv4 packet from \<open>src\<close>, is captured as
  that message from \<open>src\<close>; the same frame received on a control socket gives the same message;
  and \<open>send\<close> refuses a target of the other address family before it opens a socket.
\<close>

theorem control_message_arrives:
  assumes json: "\<And>m b. to_json m = Inr b \<Longrightarrow> b \<noteq> [] \<and> from_json b = Inr m"
    and "encode_control to_json message = Inr frame"
    and "length pre = 8" "length chk = 2" "length src = 4" "length dst = 4" "length sport = 2" "length rest = 4"
  shows "capture_packet from_json
      (0x45 # pre @ [17] @ chk @ src @ dst @ sport @ to_be_bytes CONTROL_PORT @ rest @ frame) =
      Returned (Some \<lparr> rc_source = v4_of_octets src, rc_message = message \<rparr>)
    \<and> control_socket_step from_json (Inr (frame, SocketAddr a port)) = Some \<lparr> rc_source = a, rc_message = message \<rparr>
    \<and> (is_ipv4 l \<noteq> is_ipv4 t \<longrightarrow>
         control_send to_json open_socket send_to l t message = Inl (ControlError AddressFamilyMismatch))"
proof -
  have dec: "decode_control from_json frame = Inr message"
    using assms(2) json [of message]
    by (auto simp: encode_control_def decode_control_def control_consts CONTROL_MAGIC_def starts_with_def
        split: sum.splits if_splits)
  let ?udp = "sport @ to_be_bytes CONTROL_PORT @ rest"
  have udp: "length ?udp = 8" using assms(7,8) by simp
  have pay: "ipv4_udp_payload (0x45 # pre @ [17] @ chk @ src @ dst @ sport @ to_be_bytes CONTROL_PORT @ rest @ frame) =
      Returned (Some (v4_of_octets src, ?udp @ frame))"
    using ipv4_udp_payload_datagram [OF assms(3-6) udp, of frame] by simp
  have two: "[xs ! 0, xs ! 1] = xs" if "length xs = 2" for xs :: bytes
    using length_two [OF that] by auto
  have "[to_be_bytes CONTROL_PORT ! 0, to_be_bytes CONTROL_PORT ! 1] = to_be_bytes CONTROL_PORT" by (rule two) simp
  moreover have "(?udp @ frame) ! 2 = to_be_bytes CONTROL_PORT ! 0" "(?udp @ frame) ! 3 = to_be_bytes CONTROL_PORT ! 1"
    using assms(7) by (simp_all add: nth_append)
  ultimately have port: "(from_be_bytes [(?udp @ frame) ! 2, (?udp @ frame) ! 3] :: u16) = CONTROL_PORT" by simp
  have idx: "index_at (?udp @ frame) 2 = Returned ((?udp @ frame) ! 2)"
    "index_at (?udp @ frame) 3 = Returned ((?udp @ frame) ! 3)" "drop_from (?udp @ frame) 8 = Returned frame"
    using udp assms(7,8) by (simp_all add: index_at_def drop_from_def)
  have long: "\<not> length (?udp @ frame) < 8" using udp by simp
  have "capture_packet from_json
      (0x45 # pre @ [17] @ chk @ src @ dst @ sport @ to_be_bytes CONTROL_PORT @ rest @ frame) =
      Returned (Some \<lparr> rc_source = v4_of_octets src, rc_message = message \<rparr>)"
    unfolding capture_packet_def pay exec_bind.simps option.case prod.case idx port dec sum.case if_not_P [OF long]
    by simp
  moreover have "control_socket_step from_json (Inr (frame, SocketAddr a port)) = Some \<lparr> rc_source = a, rc_message = message \<rparr>"
    by (simp add: control_socket_step_def dec)
  ultimately show ?thesis by (simp add: control_send_def)
qed

theorem control_message_arrives_witness:
  "capture_packet (\<lambda>b. case b of [x] \<Rightarrow> Inr (Keepalive (x = 1)) | _ \<Rightarrow> Inl (External 0))
     (0x45 # replicate 8 0 @ [17] @ [0, 0] @ [10, 0, 0, 1] @ [10, 0, 0, 2] @ [1, 2]
        @ to_be_bytes CONTROL_PORT @ [0, 0, 0, 0] @ CONTROL_MAGIC @ [1]) =
   Returned (Some \<lparr> rc_source = v4_of_octets [10, 0, 0, 1], rc_message = Keepalive True \<rparr>)"
proof -
  let ?to = "\<lambda>m. case m of Keepalive b \<Rightarrow> Inr [if b then 1 else 0] | _ \<Rightarrow> Inl (External 0)"
  let ?from = "\<lambda>b. case b of [x] \<Rightarrow> Inr (Keepalive (x = 1)) | _ \<Rightarrow> Inl (External 0)"
  have json: "b \<noteq> [] \<and> ?from b = Inr m" if "?to m = Inr b" for m and b :: bytes
    using that by (auto split: control_message.splits)
  have enc: "encode_control ?to (Keepalive True) = Inr (CONTROL_MAGIC @ [1])"
    by (simp add: encode_control_def control_consts)
  from control_message_arrives [OF json enc, of "replicate 8 0" "[0, 0]" "[10, 0, 0, 1]" "[10, 0, 0, 2]" "[1, 2]"
      "[0, 0, 0, 0]"] show ?thesis by simp
qed

end
