(* ===== verification/Renewal.thy ===== *)
theory Renewal
  imports Shortcut_State
begin

text \<open>
  \<open>src/src/shortcut/renewal.rs\<close>: the scheduler that decides when a hub issues, and re-issues, a
  shortcut for a pair of peers.
\<close>

section \<open>Data and operations\<close>

definition ISSUE_RETRY_SECONDS :: u64 where "ISSUE_RETRY_SECONDS = 5"
definition HANDSHAKE_TIMEOUT_SECONDS :: u64 where "HANDSHAKE_TIMEOUT_SECONDS = 10"
definition RENEWAL_LEAD_SECONDS :: u64 where "RENEWAL_LEAD_SECONDS = 90"

lemmas renewal_consts = ISSUE_RETRY_SECONDS_def HANDSHAKE_TIMEOUT_SECONDS_def RENEWAL_LEAD_SECONDS_def

datatype issue_key = IssueKey (ik_peer: string) (ik_selector: ipnet)

record issue_state =
  is_active :: "session_key option"
  is_pending :: "session_key option"
  is_next_issue :: u64

record session_lease =
  sl_issue :: issue_key
  sl_renew_at :: u64

record renewal_scheduler =
  rs_issues :: "(issue_key, issue_state) hashmap"
  rs_sessions :: "(session_key, session_lease) hashmap"

datatype issue_attempt = IssueAttempt (stale_pending: "session_key option")

definition scheduler_default :: renewal_scheduler where
  "scheduler_default = \<lparr> rs_issues = [], rs_sessions = [] \<rparr>"

definition issue_state_default :: issue_state where
  "issue_state_default = \<lparr> is_active = None, is_pending = None, is_next_issue = 0 \<rparr>"

definition issue_entry :: "renewal_scheduler \<Rightarrow> issue_key \<Rightarrow> issue_state" where
  "issue_entry rs issue = (case hm_get (rs_issues rs) issue of Some s \<Rightarrow> s | None \<Rightarrow> issue_state_default)"

abbreviation set_issue :: "issue_key \<Rightarrow> issue_state \<Rightarrow> renewal_scheduler \<Rightarrow> renewal_scheduler" where
  "set_issue issue s rs \<equiv> rs\<lparr> rs_issues := hm_insert issue s (rs_issues rs) \<rparr>"

definition has_active :: "renewal_scheduler \<Rightarrow> issue_key \<Rightarrow> bool" where
  "has_active rs issue =
     (case hm_get (rs_issues rs) issue of None \<Rightarrow> False | Some s \<Rightarrow> is_active s \<noteq> None)"

definition begin_issue :: "renewal_scheduler \<Rightarrow> issue_key \<Rightarrow> u64 \<Rightarrow> renewal_scheduler \<times> issue_attempt option" where
  "begin_issue rs issue now =
     (let s = issue_entry rs issue in
      if now < is_next_issue s then (set_issue issue s rs, None)
      else (set_issue issue (s\<lparr> is_next_issue := sat_add now ISSUE_RETRY_SECONDS, is_pending := None \<rparr>) rs,
            Some (IssueAttempt (is_pending s))))"

definition scheduler_issued :: "renewal_scheduler \<Rightarrow> issue_key \<Rightarrow> session_key \<Rightarrow> u64 \<Rightarrow> u64 \<Rightarrow> renewal_scheduler" where
  "scheduler_issued rs issue session renew_at now =
     (let s = (issue_entry rs issue)\<lparr> is_pending := Some session,
                is_next_issue := sat_add now HANDSHAKE_TIMEOUT_SECONDS \<rparr>;
          rs1 = set_issue issue s rs
      in rs1\<lparr> rs_sessions := hm_insert session \<lparr> sl_issue = issue, sl_renew_at = renew_at \<rparr> (rs_sessions rs1) \<rparr>)"

definition scheduler_authenticated :: "renewal_scheduler \<Rightarrow> session_key \<Rightarrow> u64 \<Rightarrow> renewal_scheduler \<times> u64 option" where
  "scheduler_authenticated rs session now =
     (case hm_get (rs_sessions rs) session of
        None \<Rightarrow> (rs, None)
      | Some lease \<Rightarrow>
          (case hm_get (rs_issues rs) (sl_issue lease) of
             None \<Rightarrow> (rs, None)
           | Some s \<Rightarrow>
               if is_pending s \<noteq> Some session then (rs, None)
               else let next = max (sat_sub (sl_renew_at lease) RENEWAL_LEAD_SECONDS) (sat_add now 1) in
                 (set_issue (sl_issue lease) (s\<lparr> is_active := Some session, is_pending := None,
                    is_next_issue := next \<rparr>) rs, Some next)))"

definition scheduler_removed :: "renewal_scheduler \<Rightarrow> session_key \<Rightarrow> u64 \<Rightarrow> renewal_scheduler" where
  "scheduler_removed rs session now =
     (case hm_get (rs_sessions rs) session of
        None \<Rightarrow> rs
      | Some lease \<Rightarrow>
          let rs1 = rs\<lparr> rs_sessions := hm_remove session (rs_sessions rs) \<rparr> in
          (case hm_get (rs_issues rs1) (sl_issue lease) of
             None \<Rightarrow> rs1
           | Some s \<Rightarrow>
               let was_pending = (is_pending s = Some session);
                   was_active = (is_active s = Some session);
                   s1 = (if was_pending then s\<lparr> is_pending := None \<rparr> else s);
                   s2 = (if was_active then s1\<lparr> is_active := None \<rparr> else s1);
                   s3 = (if was_pending \<or> (was_active \<and> is_pending s2 = None)
                         then s2\<lparr> is_next_issue := min (is_next_issue s2) (sat_add now ISSUE_RETRY_SECONDS) \<rparr>
                         else s2)
               in set_issue (sl_issue lease) s3 rs1))"

section \<open>Sequences of calls\<close>

datatype scheduler_op =
    OpBegin issue_key u64
  | OpIssued issue_key session_key u64 u64
  | OpAuthenticated session_key u64
  | OpRemoved session_key u64

fun op_time :: "scheduler_op \<Rightarrow> u64" where
  "op_time (OpBegin _ now) = now"
| "op_time (OpIssued _ _ _ now) = now"
| "op_time (OpAuthenticated _ now) = now"
| "op_time (OpRemoved _ now) = now"

fun run_op :: "renewal_scheduler \<Rightarrow> scheduler_op \<Rightarrow> renewal_scheduler" where
  "run_op rs (OpBegin issue now) = fst (begin_issue rs issue now)"
| "run_op rs (OpIssued issue session renew_at now) = scheduler_issued rs issue session renew_at now"
| "run_op rs (OpAuthenticated session now) = fst (scheduler_authenticated rs session now)"
| "run_op rs (OpRemoved session now) = scheduler_removed rs session now"

definition run_ops :: "renewal_scheduler \<Rightarrow> scheduler_op list \<Rightarrow> renewal_scheduler" where
  "run_ops rs ops = fold (\<lambda>op rs. run_op rs op) ops rs"

text \<open>
  A session that is pending or active for an issue has a lease for that issue.  A new session id
  is random, so \<open>issued\<close> never reuses the id of a session that has a lease.
\<close>

definition scheduler_ok :: "renewal_scheduler \<Rightarrow> bool" where
  "scheduler_ok rs \<longleftrightarrow>
     (\<forall>issue s session. hm_get (rs_issues rs) issue = Some s \<longrightarrow>
        is_active s = Some session \<or> is_pending s = Some session \<longrightarrow>
        (\<exists>lease. hm_get (rs_sessions rs) session = Some lease \<and> sl_issue lease = issue))"

fun op_fresh :: "renewal_scheduler \<Rightarrow> scheduler_op \<Rightarrow> bool" where
  "op_fresh rs (OpIssued _ session _ _) = (hm_get (rs_sessions rs) session = None)"
| "op_fresh rs _ = True"

fun ops_fresh :: "renewal_scheduler \<Rightarrow> scheduler_op list \<Rightarrow> bool" where
  "ops_fresh rs [] = True"
| "ops_fresh rs (op # ops) = (op_fresh rs op \<and> ops_fresh (run_op rs op) ops)"

lemma issue_entry_active: "is_active (issue_entry rs i) = Some x \<Longrightarrow> \<exists>s. hm_get (rs_issues rs) i = Some s \<and> is_active s = Some x"
  by (auto simp: issue_entry_def issue_state_default_def split: option.splits)

lemma issue_entry_pending: "is_pending (issue_entry rs i) = Some x \<Longrightarrow> \<exists>s. hm_get (rs_issues rs) i = Some s \<and> is_pending s = Some x"
  by (auto simp: issue_entry_def issue_state_default_def split: option.splits)

lemma scheduler_okD:
  "scheduler_ok rs \<Longrightarrow> hm_get (rs_issues rs) issue = Some s \<Longrightarrow> is_active s = Some session \<or> is_pending s = Some session
   \<Longrightarrow> \<exists>lease. hm_get (rs_sessions rs) session = Some lease \<and> sl_issue lease = issue"
  unfolding scheduler_ok_def by blast

lemma scheduler_ok_op:
  assumes ok: "scheduler_ok rs" and fresh: "op_fresh rs op"
  shows "scheduler_ok (run_op rs op)"
proof (cases op)
  case (OpBegin issue now)
  then show ?thesis
    using scheduler_okD [OF ok] issue_entry_active [of rs issue] issue_entry_pending [of rs issue]
    unfolding scheduler_ok_def by (fastforce simp: begin_issue_def Let_def split: if_splits)
next
  case (OpIssued issue session renew_at now)
  have "\<exists>lease. hm_get (rs_sessions (run_op rs op)) x = Some lease \<and> sl_issue lease = i"
    if s: "hm_get (rs_issues (run_op rs op)) i = Some s" and x: "is_active s = Some x \<or> is_pending s = Some x" for i s x
  proof (cases "i = issue \<and> x = session")
    case True
    then show ?thesis by (simp add: OpIssued scheduler_issued_def Let_def)
  next
    case False
    then have "\<exists>lease. hm_get (rs_sessions rs) x = Some lease \<and> sl_issue lease = i"
      using s x scheduler_okD [OF ok] issue_entry_active [of rs issue]
      by (fastforce simp: OpIssued scheduler_issued_def Let_def split: if_splits)
    moreover from this fresh OpIssued have "x \<noteq> session" by auto
    ultimately show ?thesis by (simp add: OpIssued scheduler_issued_def Let_def)
  qed
  then show ?thesis unfolding scheduler_ok_def by blast
next
  case (OpAuthenticated session now)
  then show ?thesis
    using ok unfolding scheduler_ok_def
    by (auto simp: scheduler_authenticated_def Let_def split: option.splits if_splits)
next
  case (OpRemoved session now)
  show ?thesis
  proof (cases "hm_get (rs_sessions rs) session")
    case None
    with OpRemoved ok show ?thesis by (simp add: scheduler_removed_def)
  next
    case (Some lease)
    have "\<exists>l. hm_get (rs_sessions (run_op rs op)) x = Some l \<and> sl_issue l = i"
      if s: "hm_get (rs_issues (run_op rs op)) i = Some s" and x: "is_active s = Some x \<or> is_pending s = Some x" for i s x
    proof -
      from s x obtain s' where s': "hm_get (rs_issues rs) i = Some s'" "is_active s' = Some x \<or> is_pending s' = Some x"
        and ne: "i = sl_issue lease \<longrightarrow> x \<noteq> session"
        by (fastforce simp: OpRemoved scheduler_removed_def Some Let_def split: option.splits if_splits)
      from scheduler_okD [OF ok s'] obtain l where l: "hm_get (rs_sessions rs) x = Some l" "sl_issue l = i" by blast
      with Some ne have "x \<noteq> session" by auto
      with l show ?thesis
        by (auto simp: OpRemoved scheduler_removed_def Some Let_def split: option.splits)
    qed
    then show ?thesis unfolding scheduler_ok_def by blast
  qed
qed

lemma scheduler_ok_ops: "scheduler_ok rs \<Longrightarrow> ops_fresh rs ops \<Longrightarrow> scheduler_ok (run_ops rs ops)"
  by (induction ops arbitrary: rs) (auto simp: run_ops_def scheduler_ok_op)

text \<open>The earliest next attempt for an issue, as a number.\<close>

definition next_attempt :: "renewal_scheduler \<Rightarrow> issue_key \<Rightarrow> nat" where
  "next_attempt rs issue = unat (is_next_issue (issue_entry rs issue))"

lemma begin_issue_None: "snd (begin_issue rs issue now) = None \<longleftrightarrow> unat now < next_attempt rs issue"
  by (simp add: begin_issue_def next_attempt_def Let_def word_less_nat_alt)

lemma next_attempt_set_issue:
  "next_attempt (set_issue i s rs) j = (if j = i then unat (is_next_issue s) else next_attempt rs j)"
  "next_attempt (rs\<lparr> rs_sessions := x, rs_issues := hm_insert i s (rs_issues rs) \<rparr>) j =
     (if j = i then unat (is_next_issue s) else next_attempt rs j)"
  by (simp_all add: next_attempt_def issue_entry_def)

lemma next_attempt_sessions [simp]: "next_attempt (rs\<lparr> rs_sessions := x \<rparr>) j = next_attempt rs j"
  by (simp add: next_attempt_def issue_entry_def)

lemma next_attempt_get: "hm_get (rs_issues rs) i = Some s \<Longrightarrow> next_attempt rs i = unat (is_next_issue s)"
  by (simp add: next_attempt_def issue_entry_def)

lemma next_attempt_entry: "unat (is_next_issue (issue_entry rs i)) = next_attempt rs i"
  by (simp add: next_attempt_def)

text \<open>No call except an authentication moves an attempt closer than five seconds after that call.\<close>

lemma run_op_next:
  assumes t: "unat t + 5 < 2 ^ 64" and later: "t \<le> op_time op" and nx: "unat t + 5 \<le> next_attempt rs issue"
    and noauth: "\<And>s now. op \<noteq> OpAuthenticated s now"
  shows "unat t + 5 \<le> next_attempt (run_op rs op) issue"
proof (cases op)
  case (OpBegin i now)
  with later nx t show ?thesis
    by (auto simp: begin_issue_def Let_def next_attempt_set_issue next_attempt_entry renewal_consts wnat)
next
  case (OpIssued i session renew_at now)
  with later nx t show ?thesis
    by (auto simp: scheduler_issued_def Let_def next_attempt_set_issue renewal_consts wnat)
next
  case (OpAuthenticated s now)
  with noauth [of s now] show ?thesis by simp
next
  case (OpRemoved s now)
  with later nx t show ?thesis
    by (auto simp: scheduler_removed_def Let_def next_attempt_set_issue renewal_consts wnat
        next_attempt_get split: option.splits)
qed

lemma run_ops_next:
  assumes "unat t + 5 < 2 ^ 64" and "\<forall>op\<in>set ops. t \<le> op_time op \<and> (\<forall>s now. op \<noteq> OpAuthenticated s now)"
    and "unat t + 5 \<le> next_attempt rs issue"
  shows "unat t + 5 \<le> next_attempt (run_ops rs ops) issue"
  using assms(2,3)
proof (induction ops arbitrary: rs)
  case Nil
  then show ?case by (simp add: run_ops_def)
next
  case (Cons op ops)
  then have "unat t + 5 \<le> next_attempt (run_op rs op) issue"
    using run_op_next [OF assms(1), of op rs issue] by auto
  with Cons show ?case by (simp add: run_ops_def)
qed

section \<open>Properties\<close>

text \<open>
  Attempts are spaced: after a granted attempt at time \<open>t\<close>, whatever calls follow, for this or
  any other issue and in any order, as long as the clock does not run back and no session
  authenticates in between, no attempt for the same issue is granted before \<open>t + 5\<close>.
\<close>

theorem issue_attempts_spaced:
  assumes "begin_issue rs issue t = (rs1, Some a)"
    and "\<forall>op\<in>set ops. t \<le> op_time op \<and> (\<forall>s now. op \<noteq> OpAuthenticated s now)"
    and "unat t + 5 < 2 ^ 64" and "unat now < unat t + 5"
  shows "snd (begin_issue (run_ops rs1 ops) issue now) = None"
proof -
  have "unat t + 5 \<le> next_attempt rs1 issue"
    using assms(1,3)
    by (auto simp: begin_issue_def Let_def next_attempt_set_issue renewal_consts wnat split: if_splits)
  from run_ops_next [OF assms(3,2) this] assms(4) show ?thesis by (simp add: begin_issue_None)
qed

theorem issue_attempts_spaced_witness:
  "snd (begin_issue (run_ops (fst (begin_issue scheduler_default (IssueKey ''p'' (IpNet (V4 1) 32)) 100))
      [OpIssued (IssueKey ''p'' (IpNet (V4 1) 32)) (SessionKey (ShortcutId []) 1) 220 101,
       OpRemoved (SessionKey (ShortcutId []) 1) 102]) (IssueKey ''p'' (IpNet (V4 1) 32)) 104) = None"
proof -
  have b: "begin_issue scheduler_default (IssueKey ''p'' (IpNet (V4 1) 32)) 100 =
      (fst (begin_issue scheduler_default (IssueKey ''p'' (IpNet (V4 1) 32)) 100), Some (IssueAttempt None))"
    by (simp add: begin_issue_def scheduler_default_def issue_entry_def issue_state_default_def Let_def)
  show ?thesis by (rule issue_attempts_spaced [OF b]) simp_all
qed

text \<open>
  C36.  Bookkeeping: in every state reached from the empty scheduler by calls in any order, where a
  new session has a new id, each session that is pending or active for an issue has a lease, and
  the lease names that issue.
\<close>

theorem scheduler_leases_agree:
  assumes "ops_fresh scheduler_default ops"
    and "hm_get (rs_issues (run_ops scheduler_default ops)) issue = Some s"
    and "is_active s = Some session \<or> is_pending s = Some session"
  shows "\<exists>lease. hm_get (rs_sessions (run_ops scheduler_default ops)) session = Some lease \<and> sl_issue lease = issue"
proof -
  have "scheduler_ok scheduler_default" by (simp add: scheduler_ok_def scheduler_default_def)
  from scheduler_okD [OF scheduler_ok_ops [OF this assms(1)] assms(2,3)] show ?thesis .
qed

theorem scheduler_leases_agree_witness:
  "\<exists>lease. hm_get (rs_sessions (run_ops scheduler_default
      [OpIssued (IssueKey ''p'' (IpNet (V4 1) 32)) (SessionKey (ShortcutId []) 1) 220 101]))
      (SessionKey (ShortcutId []) 1) = Some lease \<and> sl_issue lease = IssueKey ''p'' (IpNet (V4 1) 32)"
  by (rule scheduler_leases_agree [where s = "issue_state_default\<lparr> is_pending := Some (SessionKey (ShortcutId []) 1),
        is_next_issue := sat_add 101 HANDSHAKE_TIMEOUT_SECONDS \<rparr>"])
     (simp_all add: scheduler_default_def run_ops_def scheduler_issued_def issue_entry_def Let_def)

text \<open>
  Renewal timing: authenticating the pending session of an issue makes it the active one and
  schedules the next attempt ninety seconds before the lease's renewal time, but at least one
  second from now; and removing the session it replaced, at any time, changes neither the new
  active session nor that schedule.
\<close>

theorem renewal_scheduled:
  assumes "scheduler_authenticated rs session now = (rs1, Some next)"
  shows "\<exists>lease s. hm_get (rs_sessions rs) session = Some lease
    \<and> hm_get (rs_issues rs1) (sl_issue lease) = Some s
    \<and> is_active s = Some session \<and> is_pending s = None \<and> is_next_issue s = next
    \<and> unat next = max (unat (sl_renew_at lease) - 90) (min (unat now + 1) (2 ^ 64 - 1))
    \<and> (\<forall>old later. old \<noteq> session \<longrightarrow>
         hm_get (rs_issues (scheduler_removed rs1 old later)) (sl_issue lease) = Some s)"
proof -
  from assms obtain lease s0 where l: "hm_get (rs_sessions rs) session = Some lease"
    and s0: "hm_get (rs_issues rs) (sl_issue lease) = Some s0"
    and nxt: "next = max (sat_sub (sl_renew_at lease) RENEWAL_LEAD_SECONDS) (sat_add now 1)"
    and rs1: "rs1 = set_issue (sl_issue lease) (s0\<lparr> is_active := Some session, is_pending := None,
        is_next_issue := next \<rparr>) rs"
    by (auto simp: scheduler_authenticated_def Let_def split: option.splits if_splits)
  let ?s = "s0\<lparr> is_active := Some session, is_pending := None, is_next_issue := next \<rparr>"
  have s: "hm_get (rs_issues rs1) (sl_issue lease) = Some ?s" by (simp add: rs1)
  have "hm_get (rs_issues (scheduler_removed rs1 old later)) (sl_issue lease) = Some ?s"
    if "old \<noteq> session" for old later
    using that s by (auto simp: scheduler_removed_def Let_def split: option.splits)
  with l s nxt show ?thesis
    by (intro exI [of _ lease] exI [of _ ?s]) (simp add: renewal_consts wnat)
qed

theorem renewal_scheduled_witness:
  "\<exists>rs1. scheduler_authenticated (scheduler_issued scheduler_default (IssueKey ''p'' (IpNet (V4 1) 32))
      (SessionKey (ShortcutId []) 1) 220 101) (SessionKey (ShortcutId []) 1) 103 = (rs1, Some 130)
    \<and> (\<exists>s. hm_get (rs_issues rs1) (IssueKey ''p'' (IpNet (V4 1) 32)) = Some s
         \<and> is_active s = Some (SessionKey (ShortcutId []) 1))"
proof -
  let ?rs = "scheduler_issued scheduler_default (IssueKey ''p'' (IpNet (V4 1) 32)) (SessionKey (ShortcutId []) 1) 220 101"
  have val: "max (sat_sub 220 RENEWAL_LEAD_SECONDS) (sat_add 103 1) = (130 :: u64)"
    by (simp add: renewal_consts sat_sub_def sat_add_def)
  have "\<exists>rs1. scheduler_authenticated ?rs (SessionKey (ShortcutId []) 1) 103 = (rs1, Some 130)"
    by (simp add: scheduler_authenticated_def scheduler_issued_def scheduler_default_def Let_def val)
  then obtain rs1 where a: "scheduler_authenticated ?rs (SessionKey (ShortcutId []) 1) 103 = (rs1, Some 130)" ..
  from renewal_scheduled [OF a] obtain lease s
    where "hm_get (rs_sessions ?rs) (SessionKey (ShortcutId []) 1) = Some lease"
      "hm_get (rs_issues rs1) (sl_issue lease) = Some s" "is_active s = Some (SessionKey (ShortcutId []) 1)"
    by blast
  then have "hm_get (rs_issues rs1) (IssueKey ''p'' (IpNet (V4 1) 32)) = Some s"
    by (simp add: scheduler_issued_def Let_def scheduler_default_def) (metis session_lease.select_convs(1))
  with a \<open>is_active s = Some (SessionKey (ShortcutId []) 1)\<close> show ?thesis by blast
qed

end
