(* ===== verification/Cascade.thy ===== *)
theory Cascade
  imports Shortcut_State
begin

text \<open>
  \<open>src/src/shortcut/cascade.rs\<close>: planning a pair of tickets that connects two peers of the issuer,
  with the lineage of delegated shortcuts.  The random id and secret are arguments; \<open>hash\<close> is
  BLAKE3.
\<close>

section \<open>Data and operations\<close>

record cascade_peer =
  cp_public_key :: string
  cp_peer_id :: string
  cp_endpoint_candidates :: "socket_addr list"

record cascade_request =
  cr_issuer_public_key :: string
  cr_upstream :: cascade_peer
  cr_downstream :: cascade_peer
  cr_upstream_selector :: ipnet
  cr_downstream_selector :: ipnet
  cr_parent :: "active_lease option"
  cr_expires_at_limit :: "u64 option"
  cr_renew_after_seconds :: "u64 option"
  cr_now :: u64

record shortcut_ticket_pair =
  tp_upstream :: shortcut_ticket
  tp_downstream :: shortcut_ticket

definition peer_fingerprint :: "(bytes \<Rightarrow> bytes) \<Rightarrow> string \<Rightarrow> bytes" where
  "peer_fingerprint hash public_key = take 16 (hash (as_bytes public_key))"

definition delegation :: "(bytes \<Rightarrow> bytes) \<Rightarrow> string \<Rightarrow> active_lease option \<Rightarrow> shortcut_delegation option res" where
  "delegation hash issuer_public_key parent_opt =
     (case parent_opt of
        None \<Rightarrow> Inr None
      | Some parent \<Rightarrow>
          let issuer = peer_fingerprint hash issuer_public_key in
          (case (case al_delegation parent of
                   Some lineage \<Rightarrow>
                     if remaining_delegations lineage = 0 then Inl (CascadeError DelegationBudgetExhausted)
                     else Inr (root_shortcut_id lineage, sat_add (depth lineage) 1,
                               remaining_delegations lineage - 1, visited_issuers lineage)
                 | None \<Rightarrow> Inr (sk_shortcut_id (al_session parent), 1, MAX_DELEGATION_DEPTH - 1, [])) of
             Inl e \<Rightarrow> Inl e
           | Inr (root, dep, rem, visited) \<Rightarrow>
               if MAX_DELEGATION_DEPTH < dep \<or> issuer \<in> set visited then Inl (CascadeError DelegationLoop)
               else Inr (Some \<lparr> root_shortcut_id = root,
                                parent_shortcut_id = sk_shortcut_id (al_session parent),
                                depth = dep, remaining_delegations = rem,
                                visited_issuers = visited @ [issuer] \<rparr>)))"

definition plan_expires_at :: "cascade_request \<Rightarrow> u64" where
  "plan_expires_at req =
     min (min (sat_add (cr_now req) DEFAULT_EXPIRES_AFTER_SECONDS)
              (case cr_parent req of None \<Rightarrow> - 1 | Some parent \<Rightarrow> al_expires_at parent))
         (case cr_expires_at_limit req of None \<Rightarrow> - 1 | Some limit \<Rightarrow> limit)"

definition plan_renew_at :: "cascade_request \<Rightarrow> u64" where
  "plan_renew_at req =
     min (sat_add (cr_now req)
            (case cr_renew_after_seconds req of None \<Rightarrow> DEFAULT_RENEW_AFTER_SECONDS | Some s \<Rightarrow> s))
         (plan_expires_at req - 1)"

definition common_ticket ::
    "cascade_request \<Rightarrow> bytes \<Rightarrow> bytes \<Rightarrow> shortcut_delegation option \<Rightarrow> shortcut_role \<Rightarrow> ipnet
     \<Rightarrow> cascade_peer \<Rightarrow> cascade_peer \<Rightarrow> shortcut_ticket" where
  "common_ticket req rid secret deleg role selector recipient remote =
     \<lparr> t_version = CONTROL_VERSION, t_shortcut_id = ShortcutId rid, t_epoch = 1, t_role = role,
       t_issued_at = cr_now req, t_renew_at = plan_renew_at req, t_expires_at = plan_expires_at req,
       t_selector = selector, t_issuer_public_key = cr_issuer_public_key req,
       t_recipient_public_key = cp_public_key recipient, t_remote_public_key = cp_public_key remote,
       t_remote_peer_id = cp_peer_id remote, t_endpoint_candidates = cp_endpoint_candidates remote,
       t_delegation = deleg, t_master_secret = secret \<rparr>"

definition plan ::
    "(bytes \<Rightarrow> bytes) \<Rightarrow> bytes \<Rightarrow> bytes \<Rightarrow> cascade_request \<Rightarrow> shortcut_ticket_pair res" where
  "plan hash rid secret req =
     (if cr_issuer_public_key req = [] then Inl (CascadeError EmptyIssuer)
      else if cp_public_key (cr_upstream req) = cp_public_key (cr_downstream req)
        then Inl (CascadeError SelfConnection)
      else if cp_peer_id (cr_upstream req) = [] \<or> cp_peer_id (cr_downstream req) = []
        then Inl (CascadeError EmptyPeerId)
      else case delegation hash (cr_issuer_public_key req) (cr_parent req) of
        Inl e \<Rightarrow> Inl e
      | Inr deleg \<Rightarrow>
          if plan_expires_at req \<le> sat_add (cr_now req) 1
            then Inl (CascadeError ParentTooCloseToExpiry)
          else Inr \<lparr> tp_upstream = common_ticket req rid secret deleg Left (cr_upstream_selector req)
                       (cr_upstream req) (cr_downstream req),
                     tp_downstream = common_ticket req rid secret deleg Right (cr_downstream_selector req)
                       (cr_downstream req) (cr_upstream req) \<rparr>)"

section \<open>Lineage\<close>

text \<open>A lineage as this code makes it: the budget and the depth add up, and every hop is listed once.\<close>

definition lineage_ok :: "shortcut_delegation \<Rightarrow> bool" where
  "lineage_ok d \<longleftrightarrow> depth d \<noteq> 0 \<and> unat (depth d) + unat (remaining_delegations d) = 8
     \<and> length (visited_issuers d) = unat (depth d) \<and> distinct (visited_issuers d)"

definition parent_ok :: "active_lease option \<Rightarrow> bool" where
  "parent_ok p \<longleftrightarrow> (case p of None \<Rightarrow> True
     | Some lease \<Rightarrow> (case al_delegation lease of None \<Rightarrow> True | Some d \<Rightarrow> lineage_ok d))"

lemma lineage_ok_delegation_ok: "lineage_ok d \<Longrightarrow> delegation_ok d"
  by (auto simp: lineage_ok_def delegation_ok_def)

lemma u8_succ: "unat d < 255 \<Longrightarrow> unat (sat_add d 1 :: u8) = unat d + 1"
  by (simp add: unat_sat_add)

lemma u8_pred: "r \<noteq> 0 \<Longrightarrow> unat (r - 1 :: u8) = unat r - 1"
  by (simp add: unat_minus_one)

lemma delegation_extends:
  assumes "parent_ok (Some parent)" and "delegation hash issuer (Some parent) = Inr (Some d)"
  shows "lineage_ok d" and "parent_shortcut_id d = sk_shortcut_id (al_session parent)"
    and "last (visited_issuers d) = peer_fingerprint hash issuer"
    and "case al_delegation parent of
           None \<Rightarrow> depth d = 1 \<and> root_shortcut_id d = sk_shortcut_id (al_session parent)
             \<and> visited_issuers d = [peer_fingerprint hash issuer]
         | Some l \<Rightarrow> unat (depth d) = unat (depth l) + 1 \<and> root_shortcut_id d = root_shortcut_id l
             \<and> visited_issuers d = visited_issuers l @ [peer_fingerprint hash issuer]"
proof -
  have all: "lineage_ok d \<and> parent_shortcut_id d = sk_shortcut_id (al_session parent)
    \<and> last (visited_issuers d) = peer_fingerprint hash issuer
    \<and> (case al_delegation parent of
           None \<Rightarrow> depth d = 1 \<and> root_shortcut_id d = sk_shortcut_id (al_session parent)
             \<and> visited_issuers d = [peer_fingerprint hash issuer]
         | Some l \<Rightarrow> unat (depth d) = unat (depth l) + 1 \<and> root_shortcut_id d = root_shortcut_id l
             \<and> visited_issuers d = visited_issuers l @ [peer_fingerprint hash issuer])"
  proof (cases "al_delegation parent")
    case None
    with assms(2) have "d = \<lparr> root_shortcut_id = sk_shortcut_id (al_session parent),
        parent_shortcut_id = sk_shortcut_id (al_session parent), depth = 1, remaining_delegations = 7,
        visited_issuers = [peer_fingerprint hash issuer] \<rparr>"
      by (auto simp: delegation_def MAX_DELEGATION_DEPTH_def Let_def split: if_splits)
    with None show ?thesis by (simp add: lineage_ok_def)
  next
    case (Some l)
    from assms(2) Some have rem: "remaining_delegations l \<noteq> 0"
      and new: "peer_fingerprint hash issuer \<notin> set (visited_issuers l)"
      and d: "d = \<lparr> root_shortcut_id = root_shortcut_id l,
        parent_shortcut_id = sk_shortcut_id (al_session parent), depth = sat_add (depth l) 1,
        remaining_delegations = remaining_delegations l - 1,
        visited_issuers = visited_issuers l @ [peer_fingerprint hash issuer] \<rparr>"
      by (auto simp: delegation_def Let_def split: if_splits)
    from assms(1) Some have l: "lineage_ok l" by (simp add: parent_ok_def)
    then have "unat (depth l) < 255" by (auto simp: lineage_ok_def)
    note up = u8_succ [OF this] and down = u8_pred [OF rem]
    have "unat (remaining_delegations l) \<noteq> 0" using rem by (simp add: unat_eq_0)
    moreover have "sat_add (depth l) 1 \<noteq> 0" using up by (auto simp: word_unat_eq_iff)
    ultimately have "lineage_ok d" using l new up down by (auto simp: lineage_ok_def d)
    with Some up show ?thesis by (simp add: d)
  qed
  then show "lineage_ok d" and "parent_shortcut_id d = sk_shortcut_id (al_session parent)"
    and "last (visited_issuers d) = peer_fingerprint hash issuer"
    and "case al_delegation parent of
           None \<Rightarrow> depth d = 1 \<and> root_shortcut_id d = sk_shortcut_id (al_session parent)
             \<and> visited_issuers d = [peer_fingerprint hash issuer]
         | Some l \<Rightarrow> unat (depth d) = unat (depth l) + 1 \<and> root_shortcut_id d = root_shortcut_id l
             \<and> visited_issuers d = visited_issuers l @ [peer_fingerprint hash issuer]" by blast+
qed

text \<open>\<open>delegation\<close> on a parent whose ticket was accepted, decided case by case.\<close>

definition delegation_decided :: "(bytes \<Rightarrow> bytes) \<Rightarrow> string \<Rightarrow> active_lease \<Rightarrow> bool" where
  "delegation_decided hash issuer parent \<longleftrightarrow> (case al_delegation parent of
       None \<Rightarrow> \<exists>d. delegation hash issuer (Some parent) = Inr (Some d)
           \<and> depth d = 1 \<and> remaining_delegations d = 7 \<and> root_shortcut_id d = sk_shortcut_id (al_session parent)
           \<and> parent_shortcut_id d = sk_shortcut_id (al_session parent)
           \<and> visited_issuers d = [peer_fingerprint hash issuer]
     | Some l \<Rightarrow>
         if remaining_delegations l = 0
           then delegation hash issuer (Some parent) = Inl (CascadeError DelegationBudgetExhausted)
         else if peer_fingerprint hash issuer \<in> set (visited_issuers l)
           then delegation hash issuer (Some parent) = Inl (CascadeError DelegationLoop)
         else \<exists>d. delegation hash issuer (Some parent) = Inr (Some d)
           \<and> unat (depth d) = unat (depth l) + 1
           \<and> unat (remaining_delegations d) + 1 = unat (remaining_delegations l)
           \<and> root_shortcut_id d = root_shortcut_id l
           \<and> parent_shortcut_id d = sk_shortcut_id (al_session parent)
           \<and> visited_issuers d = visited_issuers l @ [peer_fingerprint hash issuer])"

lemma delegation_step_words:
  assumes "delegation_ok l" and "remaining_delegations l \<noteq> 0"
  shows "unat (sat_add (depth l) 1) = unat (depth l) + 1"
    and "unat (remaining_delegations l - 1) + 1 = unat (remaining_delegations l)"
    and "\<not> MAX_DELEGATION_DEPTH < sat_add (depth l) 1"
    and "unat (depth l) + unat (remaining_delegations l) \<le> 8"
proof -
  have r: "unat (remaining_delegations l) \<noteq> 0" using assms(2) by (simp add: unat_eq_0)
  with assms(1) have b: "unat (depth l) + unat (remaining_delegations l) \<le> 8"
    by (auto simp: delegation_ok_def)
  then show "unat (depth l) + unat (remaining_delegations l) \<le> 8" .
  from b show up: "unat (sat_add (depth l) 1) = unat (depth l) + 1" by (intro u8_succ) simp
  show "unat (remaining_delegations l - 1) + 1 = unat (remaining_delegations l)"
    using u8_pred [OF assms(2)] r by simp
  show "\<not> MAX_DELEGATION_DEPTH < sat_add (depth l) 1"
    using up b r by (simp add: MAX_DELEGATION_DEPTH_def word_less_nat_alt)
qed

lemma delegation_exact:
  assumes ok: "\<And>l. al_delegation parent = Some l \<Longrightarrow> delegation_ok l"
  shows "delegation_decided hash issuer parent"
proof (cases "al_delegation parent")
  case None
  then show ?thesis by (simp add: delegation_decided_def delegation_def MAX_DELEGATION_DEPTH_def Let_def)
next
  case (Some l)
  note W = delegation_step_words [OF ok [OF Some]]
  show ?thesis
  proof (cases "remaining_delegations l = 0")
    case True
    with Some show ?thesis by (simp add: delegation_decided_def delegation_def Let_def)
  next
    case False
    with Some W show ?thesis by (simp add: delegation_decided_def delegation_def Let_def)
  qed
qed

lemma delegation_bounds:
  assumes ok: "\<And>l. al_delegation parent = Some l \<Longrightarrow> delegation_ok l"
    and d: "delegation hash issuer (Some parent) = Inr (Some d)"
  shows "1 \<le> unat (depth d) \<and> unat (depth d) + unat (remaining_delegations d) \<le> 8
    \<and> (delegation_ok d \<longleftrightarrow> length (visited_issuers d) \<le> 8)"
proof -
  have ex: "delegation_decided hash issuer parent" by (rule delegation_exact) (rule ok)
  have sum: "1 \<le> unat (depth d) \<and> unat (depth d) + unat (remaining_delegations d) \<le> 8"
  proof (cases "al_delegation parent")
    case None
    with ex d show ?thesis by (auto simp: delegation_decided_def)
  next
    case (Some l)
    with ex d delegation_step_words(4) [OF ok [OF Some]] show ?thesis
      by (auto simp: delegation_decided_def split: if_splits)
  qed
  then have "depth d \<noteq> 0" by (auto simp: unat_eq_0)
  with sum show ?thesis by (auto simp: delegation_ok_def)
qed

section \<open>Plans\<close>

lemma unat_max_u64: "unat (- 1 :: u64) = 18446744073709551615"
  by (simp add: unsigned_minus_1_eq_mask mask_eq_exp_minus_1)

lemma plan_expires_bounds:
  "unat (plan_expires_at req) \<le> unat (cr_now req) + 180"
  "cr_parent req = Some parent \<Longrightarrow> plan_expires_at req \<le> al_expires_at parent"
  "cr_expires_at_limit req = Some limit \<Longrightarrow> plan_expires_at req \<le> limit"
  by (auto simp: plan_expires_at_def wnat control_consts split: option.splits)

lemma plan_SomeD:
  assumes "plan hash rid secret req = Inr pair"
  obtains deleg where "cr_issuer_public_key req \<noteq> []"
    and "cp_public_key (cr_upstream req) \<noteq> cp_public_key (cr_downstream req)"
    and "cp_peer_id (cr_upstream req) \<noteq> []" and "cp_peer_id (cr_downstream req) \<noteq> []"
    and "delegation hash (cr_issuer_public_key req) (cr_parent req) = Inr deleg"
    and "unat (cr_now req) + 1 < unat (plan_expires_at req)"
    and "tp_upstream pair = common_ticket req rid secret deleg Left (cr_upstream_selector req)
           (cr_upstream req) (cr_downstream req)"
    and "tp_downstream pair = common_ticket req rid secret deleg Right (cr_downstream_selector req)
           (cr_downstream req) (cr_upstream req)"
  using assms unat_u64_bound [of "plan_expires_at req"]
  by (auto simp: plan_def wnat split: if_splits sum.splits)

lemma plan_renew_bounds:
  assumes "unat (cr_now req) + 1 < unat (plan_expires_at req)"
  shows "plan_renew_at req < plan_expires_at req"
    and "cr_renew_after_seconds req = Some 0 \<Longrightarrow> plan_renew_at req = cr_now req"
proof -
  have e: "unat (plan_expires_at req - 1) = unat (plan_expires_at req) - 1"
    using assms by (intro unat_minus_one) auto
  show "plan_renew_at req < plan_expires_at req"
    using assms e by (auto simp: plan_renew_at_def wnat)
  show "plan_renew_at req = cr_now req" if "cr_renew_after_seconds req = Some 0"
    using assms e that unat_u64_bound [of "cr_now req"] by (simp add: plan_renew_at_def word_unat_eq_iff wnat)
qed

lemma plan_times:
  assumes "unat (cr_now req) + 1 < unat (plan_expires_at req)" and "cr_renew_after_seconds req \<noteq> Some 0"
  shows "cr_now req < plan_renew_at req"
proof -
  have e: "unat (plan_expires_at req - 1) = unat (plan_expires_at req) - 1"
    using assms(1) by (intro unat_minus_one) auto
  have r: "0 < unat (case cr_renew_after_seconds req of None \<Rightarrow> DEFAULT_RENEW_AFTER_SECONDS | Some s \<Rightarrow> s)"
    using assms(2) by (auto simp: control_consts unat_gt_0 split: option.splits)
  show "cr_now req < plan_renew_at req"
    using assms(1) e r unat_u64_bound [of "plan_expires_at req"] by (auto simp: plan_renew_at_def wnat)
qed

lemma delegation_ok_result:
  assumes "parent_ok p" and "delegation hash issuer p = Inr deleg"
  shows "case deleg of None \<Rightarrow> True | Some d \<Rightarrow> lineage_ok d"
proof (cases p)
  case None
  with assms(2) show ?thesis by (auto simp: delegation_def)
next
  case (Some parent)
  with assms delegation_extends(1) [of parent hash issuer] show ?thesis by (auto split: option.splits)
qed

lemma plan_ticket_ok:
  assumes "plan hash rid secret req = Inr pair" and "parent_ok (cr_parent req)"
    and "cr_renew_after_seconds req \<noteq> Some 0"
    and "cp_public_key (cr_upstream req) \<noteq> []" and "cp_public_key (cr_downstream req) \<noteq> []"
  shows "ticket_ok (tp_upstream pair) (cr_now req)" and "ticket_ok (tp_downstream pair) (cr_now req)"
proof -
  from assms(1) obtain deleg where P: "cr_issuer_public_key req \<noteq> []"
    "cp_peer_id (cr_upstream req) \<noteq> []" "cp_peer_id (cr_downstream req) \<noteq> []"
    "delegation hash (cr_issuer_public_key req) (cr_parent req) = Inr deleg"
    "unat (cr_now req) + 1 < unat (plan_expires_at req)"
    and up: "tp_upstream pair = common_ticket req rid secret deleg Left (cr_upstream_selector req)
           (cr_upstream req) (cr_downstream req)"
    and down: "tp_downstream pair = common_ticket req rid secret deleg Right (cr_downstream_selector req)
           (cr_downstream req) (cr_upstream req)"
    by (rule plan_SomeD)
  note T = plan_times [OF P(5) assms(3)] plan_renew_bounds(1) [OF P(5)]
  have D: "case deleg of None \<Rightarrow> True | Some d \<Rightarrow> delegation_ok d"
    using delegation_ok_result [OF assms(2) P(4)] by (auto intro: lineage_ok_delegation_ok split: option.splits)
  have now: "cr_now req < plan_expires_at req" using P(5) by (simp add: word_less_nat_alt)
  have lease: "unat (plan_expires_at req) \<le> unat (cr_now req) + 300" using plan_expires_bounds(1) [of req] by simp
  show "ticket_ok (tp_upstream pair) (cr_now req)" and "ticket_ok (tp_downstream pair) (cr_now req)"
    unfolding up down using P(1-3) T D now lease assms(4,5)
    by (simp_all add: ticket_ok_def common_ticket_def CONTROL_VERSION_def)
qed

section \<open>Properties\<close>

definition sample_peer :: "string \<Rightarrow> cascade_peer" where
  "sample_peer name = \<lparr> cp_public_key = name, cp_peer_id = ''17'', cp_endpoint_candidates = [] \<rparr>"

definition sample_request :: "active_lease option \<Rightarrow> cascade_request" where
  "sample_request parent =
     \<lparr> cr_issuer_public_key = ''hub'', cr_upstream = sample_peer ''alice'', cr_downstream = sample_peer ''bob'',
       cr_upstream_selector = IpNet (V4 2) 32, cr_downstream_selector = IpNet (V4 1) 32,
       cr_parent = parent, cr_expires_at_limit = None, cr_renew_after_seconds = None, cr_now = 1000 \<rparr>"

text \<open>
  C28.  Issued tickets work: if \<open>plan\<close> succeeds, with named peers, a renewal delay that is not zero
  and a parent whose lineage this code made, then at any time from the issue to the expiry both
  receivers accept their ticket from the issuer as a new session; it is the same session on both
  sides, and the keys they derive match crosswise.
\<close>

theorem plan_tickets_accepted:
  assumes "plan hash rid secret req = Inr pair" and "parent_ok (cr_parent req)"
    and "cr_renew_after_seconds req \<noteq> Some 0"
    and "cp_public_key (cr_upstream req) \<noteq> []" and "cp_public_key (cr_downstream req) \<noteq> []"
    and "cr_now req \<le> now" and "now < plan_expires_at req"
    and "hm_get (sm_sessions mu) (SessionKey (ShortcutId rid) 1) = None"
    and "hm_get (sm_sessions md) (SessionKey (ShortcutId rid) 1) = None"
  shows "\<exists>mu' md' pu pd.
      manager_receive_ticket kh pub mu (tp_upstream pair) (cr_issuer_public_key req)
        (cp_public_key (cr_upstream req)) now = (mu', Inr pu)
    \<and> manager_receive_ticket kh pub md (tp_downstream pair) (cr_issuer_public_key req)
        (cp_public_key (cr_downstream req)) now = (md', Inr pd)
    \<and> ps_session pu = SessionKey (ShortcutId rid) 1 \<and> ps_session pd = ps_session pu
    \<and> \<not> ps_already_present pu \<and> \<not> ps_already_present pd
    \<and> remote_public (ps_keys pu) = local_public (ps_keys pd)
    \<and> remote_public (ps_keys pd) = local_public (ps_keys pu)
    \<and> preshared_key (ps_keys pu) = preshared_key (ps_keys pd)"
proof -
  from assms(1) obtain deleg where
    up: "tp_upstream pair = common_ticket req rid secret deleg Left (cr_upstream_selector req)
           (cr_upstream req) (cr_downstream req)"
    and down: "tp_downstream pair = common_ticket req rid secret deleg Right (cr_downstream_selector req)
           (cr_downstream req) (cr_upstream req)"
    by (rule plan_SomeD)
  have "t_expires_at (tp_upstream pair) = plan_expires_at req" "t_expires_at (tp_downstream pair) = plan_expires_at req"
    by (simp_all add: up down common_ticket_def)
  with plan_ticket_ok [OF assms(1-5)] assms(6,7)
  have "validate (tp_upstream pair) now = Inr ()" "validate (tp_downstream pair) now = Inr ()"
    by (simp_all add: validate_ok_iff ticket_ok_later)
  with assms(8,9) show ?thesis
    by (simp add: manager_receive_ticket_def up down common_ticket_def derive_keys_def Let_def)
qed

theorem plan_tickets_accepted_witness:
  "\<exists>pair mu' pu. plan (\<lambda>b. b) (replicate 16 7) (replicate 32 9) (sample_request None) = Inr pair
    \<and> manager_receive_ticket (\<lambda>k m. m) (\<lambda>b. b) (manager_new ()) (tp_upstream pair) ''hub'' ''alice'' 1010 = (mu', Inr pu)"
proof -
  let ?req = "sample_request None"
  have e: "plan_expires_at ?req = 1180"
    by (simp add: plan_expires_at_def sample_request_def control_consts sat_add_def min_def)
  have "\<exists>pair. plan (\<lambda>b. b) (replicate 16 7) (replicate 32 9) ?req = Inr pair"
    unfolding plan_def e
    by (simp add: sample_request_def sample_peer_def delegation_def sat_add_def)
  then obtain pair where p: "plan (\<lambda>b. b) (replicate 16 7) (replicate 32 9) ?req = Inr pair" ..
  have H: "parent_ok (cr_parent ?req)" "cr_renew_after_seconds ?req \<noteq> Some 0"
    "cp_public_key (cr_upstream ?req) \<noteq> []" "cp_public_key (cr_downstream ?req) \<noteq> []"
    "cr_now ?req \<le> 1010" "1010 < plan_expires_at ?req"
    by (simp_all add: e) (simp_all add: sample_request_def sample_peer_def parent_ok_def)
  have none: "hm_get (sm_sessions (manager_new ())) (SessionKey (ShortcutId (replicate 16 7)) 1) = None"
    by (simp add: manager_new_def)
  from plan_tickets_accepted [OF p H none none, of "\<lambda>k m. m" "\<lambda>b. b"] p show ?thesis
    by (auto simp: sample_request_def sample_peer_def)
qed

text \<open>
  C30.  Lease bounds: a planned ticket pair is issued now, lives at most 180 seconds, and outlives
  neither the parent lease nor the given limit; nothing is planned unless at least two seconds
  remain; the renewal time is before the expiry, and it is after the issue unless the caller asked
  for a renewal delay of zero seconds, when it is the issue time itself; and no arithmetic wraps.
\<close>

theorem plan_lease_bounds:
  assumes "plan hash rid secret req = Inr pair" and "t \<in> {tp_upstream pair, tp_downstream pair}"
  shows "t_issued_at t = cr_now req \<and> unat (cr_now req) + 2 \<le> unat (t_expires_at t)
    \<and> unat (t_expires_at t) \<le> unat (cr_now req) + 180
    \<and> unat (t_renew_at t) < unat (t_expires_at t)
    \<and> (if cr_renew_after_seconds req = Some 0 then t_renew_at t = cr_now req
       else unat (cr_now req) < unat (t_renew_at t))
    \<and> (\<forall>parent. cr_parent req = Some parent \<longrightarrow> t_expires_at t \<le> al_expires_at parent)
    \<and> (\<forall>limit. cr_expires_at_limit req = Some limit \<longrightarrow> t_expires_at t \<le> limit)"
proof -
  from assms(1) obtain deleg where e: "unat (cr_now req) + 1 < unat (plan_expires_at req)"
    and up: "tp_upstream pair = common_ticket req rid secret deleg Left (cr_upstream_selector req)
           (cr_upstream req) (cr_downstream req)"
    and down: "tp_downstream pair = common_ticket req rid secret deleg Right (cr_downstream_selector req)
           (cr_downstream req) (cr_upstream req)"
    by (rule plan_SomeD)
  have t: "t_issued_at t = cr_now req" "t_expires_at t = plan_expires_at req" "t_renew_at t = plan_renew_at req"
    using assms(2) by (auto simp: up down common_ticket_def)
  show ?thesis
    unfolding t using e plan_times [OF e] plan_renew_bounds [OF e] plan_expires_bounds [of req]
    by (auto simp: word_less_nat_alt)
qed

theorem plan_lease_bounds_witness:
  "\<exists>pair. plan (\<lambda>b. b) (replicate 16 7) (replicate 32 9) (sample_request None) = Inr pair
    \<and> unat (t_expires_at (tp_upstream pair)) \<le> 1180"
proof -
  let ?req = "sample_request None"
  have e: "plan_expires_at ?req = 1180"
    by (simp add: plan_expires_at_def sample_request_def control_consts sat_add_def min_def)
  have "\<exists>pair. plan (\<lambda>b. b) (replicate 16 7) (replicate 32 9) ?req = Inr pair"
    unfolding plan_def e
    by (simp add: sample_request_def sample_peer_def delegation_def sat_add_def)
  then obtain pair where p: "plan (\<lambda>b. b) (replicate 16 7) (replicate 32 9) ?req = Inr pair" ..
  from plan_lease_bounds [OF p, of "tp_upstream pair"] p show ?thesis
    by (auto simp: sample_request_def)
qed

text \<open>
  C29.  Delegation is bounded and loop free, for a parent lease whose ticket \<open>validate\<close> accepted.  The
  result is decided exactly: an error when the parent's budget is spent, an error when the issuer
  is already on its lineage, and a lineage otherwise.  The new lineage extends the parent's by one
  hop: depth one more, budget one less, the same root, the issuer appended as last; a parent without a
  lineage starts one at depth one with seven left.  So depth never exceeds eight, the sum of depth
  and budget stays what it was (at most eight), issuers listed once stay listed once, and the
  lineage is again one \<open>validate\<close> accepts exactly when it lists at most eight issuers.  On lineages
  that this code made from a first shortcut the sum is always eight and there are as many issuers,
  all distinct, as the depth says.
\<close>

theorem delegation_lineage:
  assumes "\<And>l. al_delegation parent = Some l \<Longrightarrow> validate_delegation l = Inr ()"
  shows "(case al_delegation parent of
       None \<Rightarrow> \<exists>d. delegation hash issuer (Some parent) = Inr (Some d)
           \<and> depth d = 1 \<and> remaining_delegations d = 7 \<and> root_shortcut_id d = sk_shortcut_id (al_session parent)
           \<and> parent_shortcut_id d = sk_shortcut_id (al_session parent)
           \<and> visited_issuers d = [peer_fingerprint hash issuer]
     | Some l \<Rightarrow>
         if remaining_delegations l = 0
           then delegation hash issuer (Some parent) = Inl (CascadeError DelegationBudgetExhausted)
         else if peer_fingerprint hash issuer \<in> set (visited_issuers l)
           then delegation hash issuer (Some parent) = Inl (CascadeError DelegationLoop)
         else \<exists>d. delegation hash issuer (Some parent) = Inr (Some d)
           \<and> unat (depth d) = unat (depth l) + 1
           \<and> unat (remaining_delegations d) + 1 = unat (remaining_delegations l)
           \<and> root_shortcut_id d = root_shortcut_id l
           \<and> parent_shortcut_id d = sk_shortcut_id (al_session parent)
           \<and> visited_issuers d = visited_issuers l @ [peer_fingerprint hash issuer])
    \<and> (\<forall>d. delegation hash issuer (Some parent) = Inr (Some d) \<longrightarrow>
         1 \<le> unat (depth d) \<and> unat (depth d) + unat (remaining_delegations d) \<le> 8
         \<and> (validate_delegation d = Inr () \<longleftrightarrow> length (visited_issuers d) \<le> 8)
         \<and> (parent_ok (Some parent) \<longrightarrow> unat (depth d) + unat (remaining_delegations d) = 8
              \<and> length (visited_issuers d) = unat (depth d) \<and> distinct (visited_issuers d)))"
proof -
  have ok: "delegation_ok l" if "al_delegation parent = Some l" for l
    using assms [OF that] by (simp add: validate_delegation_ok)
  have A: "delegation_decided hash issuer parent"
    by (rule delegation_exact) (rule ok)
  have B: "1 \<le> unat (depth d) \<and> unat (depth d) + unat (remaining_delegations d) \<le> 8
      \<and> (validate_delegation d = Inr () \<longleftrightarrow> length (visited_issuers d) \<le> 8)"
    if "delegation hash issuer (Some parent) = Inr (Some d)" for d
    unfolding validate_delegation_ok by (rule delegation_bounds [OF _ that]) (rule ok)
  have C: "unat (depth d) + unat (remaining_delegations d) = 8
      \<and> length (visited_issuers d) = unat (depth d) \<and> distinct (visited_issuers d)"
    if "parent_ok (Some parent)" "delegation hash issuer (Some parent) = Inr (Some d)" for d
    using delegation_extends(1) [OF that] by (simp add: lineage_ok_def)
  show ?thesis using A B C unfolding delegation_decided_def by blast
qed

theorem delegation_lineage_witness:
  "\<exists>d. delegation (\<lambda>b. b) ''hub'' (Some \<lparr> al_session = SessionKey (ShortcutId [2]) 1, al_expires_at = 5,
       al_delegation = Some \<lparr> root_shortcut_id = ShortcutId [1], parent_shortcut_id = ShortcutId [1], depth = 2,
         remaining_delegations = 3, visited_issuers = [[5], [6]] \<rparr> \<rparr>) = Inr (Some d)
     \<and> unat (depth d) = 3 \<and> unat (remaining_delegations d) = 2"
proof -
  define l where "l = \<lparr> root_shortcut_id = ShortcutId [1], parent_shortcut_id = ShortcutId [1], depth = 2,
         remaining_delegations = 3, visited_issuers = [[5], [6]] \<rparr>"
  define parent where "parent = \<lparr> al_session = SessionKey (ShortcutId [2]) 1, al_expires_at = 5, al_delegation = Some l \<rparr>"
  have ok: "validate_delegation k = Inr ()" if "al_delegation parent = Some k" for k
    using that by (auto simp: parent_def l_def validate_delegation_ok delegation_ok_def)
  have new: "peer_fingerprint (\<lambda>b. b) ''hub'' \<notin> set (visited_issuers l)"
    by (simp add: l_def peer_fingerprint_def as_bytes_def)
  have al: "al_delegation parent = Some l" "remaining_delegations l \<noteq> 0" by (simp_all add: parent_def l_def)
  have u: "unat (depth l) = 2" "unat (remaining_delegations l) = 3" by (simp_all add: l_def)
  have "\<exists>d. delegation (\<lambda>b. b) ''hub'' (Some parent) = Inr (Some d) \<and> unat (depth d) = 3
      \<and> unat (remaining_delegations d) = 2"
    using conjunct1 [OF delegation_lineage [of parent, OF ok, of "\<lambda>b. b" "''hub''"]] new
    by (auto simp: al u)
  then show ?thesis by (simp only: parent_def l_def)
qed

end
