(* ===== verification/Transit.thy ===== *)
theory Transit
  imports Shortcut_State Wireguard
begin

text \<open>
  \<open>src/src/shortcut/transit.rs\<close>: the detector that turns a forwarded packet into an opportunity for a
  shortcut between its two neighbours, at most once in ten seconds for each flow.
\<close>

section \<open>Data and operations\<close>

definition AUTHENTICATED_PATH_SECONDS :: u64 where "AUTHENTICATED_PATH_SECONDS = 180"
definition SUPPRESSION_SECONDS :: u64 where "SUPPRESSION_SECONDS = 10"

datatype ingress_path = IngressBase string | IngressShortcut string session_key

fun ingress_public_key :: "ingress_path \<Rightarrow> string" where
  "ingress_public_key (IngressBase k) = k"
| "ingress_public_key (IngressShortcut k _) = k"

fun ingress_parent_session :: "ingress_path \<Rightarrow> session_key option" where
  "ingress_parent_session (IngressBase _) = None"
| "ingress_parent_session (IngressShortcut _ s) = Some s"

record transit_opportunity =
  to_upstream_public_key :: string
  to_downstream_public_key :: string
  to_upstream_selector :: ipnet
  to_downstream_selector :: ipnet
  to_parent_session :: "session_key option"

datatype flow_key = FlowKey (fk_upstream: string) (fk_downstream: string) (fk_source: ip_addr) (fk_destination: ip_addr)

type_synonym transit_detector = "(flow_key, u64) hashmap"

definition handshake_is_fresh :: "u64 \<Rightarrow> u64 \<Rightarrow> bool" where
  "handshake_is_fresh latest now \<longleftrightarrow> latest \<noteq> 0 \<and> sat_sub now latest \<le> AUTHENTICATED_PATH_SECONDS"

definition host_selector :: "ip_addr \<Rightarrow> ipnet" where
  "host_selector address = (case address of V4 a \<Rightarrow> IpNet (V4 a) 32 | V6 a \<Rightarrow> IpNet (V6 a) 128)"

definition suppressed :: "transit_detector \<Rightarrow> flow_key \<Rightarrow> u64 \<Rightarrow> bool" where
  "suppressed observed fk now =
     (case hm_get observed fk of None \<Rightarrow> False | Some at \<Rightarrow> sat_sub now at < SUPPRESSION_SECONDS)"

definition observe ::
    "(ipnet \<Rightarrow> ip_addr \<Rightarrow> bool) \<Rightarrow> transit_detector \<Rightarrow> snapshot \<Rightarrow> ingress_path \<Rightarrow> ip_addr \<Rightarrow> ip_addr \<Rightarrow> u64
     \<Rightarrow> transit_detector \<times> transit_opportunity option" where
  "observe contains observed s ingress source destination now =
     (let upstream = ingress_public_key ingress in
      if (case ingress of
            IngressBase _ \<Rightarrow> (case snapshot_peer s upstream of
                None \<Rightarrow> True | Some p \<Rightarrow> \<not> handshake_is_fresh (p_latest_handshake p) now)
          | IngressShortcut _ _ \<Rightarrow> False)
      then (observed, None)
      else case route_peer contains s destination (Some upstream) of
        None \<Rightarrow> (observed, None)
      | Some downstream \<Rightarrow>
          if p_public_key downstream = upstream \<or> \<not> handshake_is_fresh (p_latest_handshake downstream) now
          then (observed, None)
          else let fk = FlowKey upstream (p_public_key downstream) source destination in
            if suppressed observed fk now then (observed, None)
            else (filter (\<lambda>(_, at). sat_sub now at < SUPPRESSION_SECONDS) (hm_insert fk now observed),
                  Some \<lparr> to_upstream_public_key = upstream, to_downstream_public_key = p_public_key downstream,
                         to_upstream_selector = host_selector destination,
                         to_downstream_selector = host_selector source,
                         to_parent_session = ingress_parent_session ingress \<rparr>))"

section \<open>Suppression\<close>

lemma observe_cases:
  assumes "observe contains ob s ingress src dst now = (ob', r)"
  obtains (unreported) "ob' = ob" "r = None"
  | (found) downstream fk where
      "route_peer contains s dst (Some (ingress_public_key ingress)) = Some downstream"
      "handshake_is_fresh (p_latest_handshake downstream) now"
      "\<And>k. ingress = IngressBase k \<Longrightarrow> \<exists>p. snapshot_peer s k = Some p \<and> handshake_is_fresh (p_latest_handshake p) now"
      "fk = FlowKey (ingress_public_key ingress) (p_public_key downstream) src dst"
      "\<not> suppressed ob fk now"
      "ob' = filter (\<lambda>(_, at). sat_sub now at < SUPPRESSION_SECONDS) (hm_insert fk now ob)"
      "r = Some \<lparr> to_upstream_public_key = ingress_public_key ingress,
                  to_downstream_public_key = p_public_key downstream,
                  to_upstream_selector = host_selector dst, to_downstream_selector = host_selector src,
                  to_parent_session = ingress_parent_session ingress \<rparr>"
proof (cases "r = None")
  case True
  with assms have "ob' = ob" by (auto simp: observe_def Let_def split: option.splits if_splits)
  from unreported [OF this True] show ?thesis .
next
  case False
  with assms obtain downstream where
    d: "route_peer contains s dst (Some (ingress_public_key ingress)) = Some downstream"
      "handshake_is_fresh (p_latest_handshake downstream) now"
    and base: "\<not> (case ingress of IngressBase _ \<Rightarrow> (case snapshot_peer s (ingress_public_key ingress) of
                None \<Rightarrow> True | Some p \<Rightarrow> \<not> handshake_is_fresh (p_latest_handshake p) now)
          | IngressShortcut _ _ \<Rightarrow> False)"
    and rest: "\<not> suppressed ob (FlowKey (ingress_public_key ingress) (p_public_key downstream) src dst) now"
      "ob' = filter (\<lambda>(_, at). sat_sub now at < SUPPRESSION_SECONDS)
         (hm_insert (FlowKey (ingress_public_key ingress) (p_public_key downstream) src dst) now ob)"
      "r = Some \<lparr> to_upstream_public_key = ingress_public_key ingress,
                  to_downstream_public_key = p_public_key downstream,
                  to_upstream_selector = host_selector dst, to_downstream_selector = host_selector src,
                  to_parent_session = ingress_parent_session ingress \<rparr>"
    by (auto simp: observe_def Let_def split: option.splits if_splits)
  from base have base': "\<exists>p. snapshot_peer s k = Some p \<and> handshake_is_fresh (p_latest_handshake p) now"
    if "ingress = IngressBase k" for k using that by (auto split: option.splits)
  show ?thesis by (rule found [OF d _ refl rest]) (rule base')
qed

record observation =
  ob_snapshot :: snapshot
  ob_ingress :: ingress_path
  ob_source :: ip_addr
  ob_destination :: ip_addr
  ob_now :: u64

definition run_observation ::
    "(ipnet \<Rightarrow> ip_addr \<Rightarrow> bool) \<Rightarrow> transit_detector \<Rightarrow> observation \<Rightarrow> transit_detector \<times> transit_opportunity option" where
  "run_observation contains d x =
     observe contains d (ob_snapshot x) (ob_ingress x) (ob_source x) (ob_destination x) (ob_now x)"

fun run_observations :: "(ipnet \<Rightarrow> ip_addr \<Rightarrow> bool) \<Rightarrow> transit_detector \<Rightarrow> observation list \<Rightarrow> transit_detector" where
  "run_observations contains d [] = d"
| "run_observations contains d (x # xs) = run_observations contains (fst (run_observation contains d x)) xs"

lemma observe_keeps:
  assumes wf: "hm_wf ob" and seen: "hm_get ob fk = Some t" and lt: "unat now < unat t' + 10"
    and t': "t' \<le> t" "t' \<le> now" and obs: "observe contains ob s ingress src dst now = (ob', r)"
  shows "hm_wf ob' \<and> (\<exists>u. t' \<le> u \<and> hm_get ob' fk = Some u)"
  using obs
proof (cases rule: observe_cases)
  case unreported
  with wf seen t' show ?thesis by auto
next
  case (found downstream fk')
  have "unat now - unat t < 10" and "unat now - unat now < 10" using lt t' by (auto simp: wnat)
  then have "hm_get ob' fk = (if fk = fk' then Some now else Some t)"
    using seen wf by (auto simp: found(6) hm_get_filter SUPPRESSION_SECONDS_def wnat)
  with wf t' show ?thesis by (auto simp: found(6))
qed

lemma observe_wf: "hm_wf ob \<Longrightarrow> observe contains ob s ingress src dst now = (ob', r) \<Longrightarrow> hm_wf ob'"
  by (erule observe_cases) auto

lemma run_observations_keeps:
  assumes "hm_wf d" and "hm_get d fk = Some t" and "t0 \<le> t"
    and "\<forall>x \<in> set xs. t0 \<le> ob_now x \<and> unat (ob_now x) < unat t0 + 10"
  shows "hm_wf (run_observations contains d xs)
    \<and> (\<exists>u. t0 \<le> u \<and> hm_get (run_observations contains d xs) fk = Some u)"
  using assms
proof (induction xs arbitrary: d t)
  case Nil
  then show ?case by auto
next
  case (Cons x xs)
  obtain d' r where o: "run_observation contains d x = (d', r)" by (rule prod.exhaust)
  from observe_keeps [OF Cons.prems(1,2) _ Cons.prems(3) _ o [unfolded run_observation_def]] Cons.prems(4)
  obtain u where "hm_wf d'" "hm_get d' fk = Some u" "t0 \<le> u" by auto
  from Cons.IH [OF this] Cons.prems(4) o show ?case by simp
qed

section \<open>Properties\<close>

text \<open>
  C37.  A transit opportunity is real: the downstream peer is the longest-prefix route of the packet's
  destination among the peers other than the sender, both neighbours shook hands within the last
  180 seconds (for a shortcut ingress, the downstream), and the selectors are the host routes of
  the packet's two addresses, each of which contains just that address.
\<close>

theorem transit_opportunity_sound:
  assumes "ipnet_crate contains"
    and "observe contains ob s ingress src dst now = (ob', Some opp)"
  shows "\<exists>p. route_peer contains s dst (Some (ingress_public_key ingress)) = Some p \<and> p \<in> set (s_peers s)
    \<and> to_upstream_public_key opp = ingress_public_key ingress
    \<and> to_downstream_public_key opp = p_public_key p
    \<and> to_upstream_public_key opp \<noteq> to_downstream_public_key opp
    \<and> p_latest_handshake p \<noteq> 0 \<and> unat now \<le> unat (p_latest_handshake p) + 180
    \<and> (\<forall>k. ingress = IngressBase k \<longrightarrow> (\<exists>q. snapshot_peer s k = Some q
          \<and> p_latest_handshake q \<noteq> 0 \<and> unat now \<le> unat (p_latest_handshake q) + 180))
    \<and> to_parent_session opp = ingress_parent_session ingress
    \<and> (\<forall>a. contains (to_upstream_selector opp) a \<longleftrightarrow> a = dst)
    \<and> (\<forall>a. contains (to_downstream_selector opp) a \<longleftrightarrow> a = src)"
  using assms(2)
proof (cases rule: observe_cases)
  case (found p fk)
  have host: "host_selector a = host_net a" for a
    by (cases a) (simp_all add: host_selector_def host_net_def)
  have sel: "contains (host_selector a) b \<longleftrightarrow> b = a" for a b
    using ipnet_crate.host_contains_iff [OF assms(1), of a b] by (auto simp: host)
  have fresh: "handshake_is_fresh l now \<longleftrightarrow> l \<noteq> 0 \<and> unat now \<le> unat l + 180" for l
    by (auto simp: handshake_is_fresh_def AUTHENTICATED_PATH_SECONDS_def wnat)
  show ?thesis
    using found(1,2,3,7) route_peer_in [OF found(1)] route_peer_excluded [OF found(1)] unfolding fresh
    by (intro exI [of _ p]) (auto simp: sel)
qed simp

definition sample_snapshot :: snapshot where
  "sample_snapshot = \<lparr> s_public_key = ''hub'', s_listen_port = 51820,
     s_peers = [\<lparr> p_public_key = ''alice'', p_endpoint = None, p_allowed_ips = [IpNet (V4 1) 32],
                  p_latest_handshake = 900, p_receive_bytes = 0, p_transmit_bytes = 0 \<rparr>,
                \<lparr> p_public_key = ''bob'', p_endpoint = None, p_allowed_ips = [IpNet (V4 2) 32],
                  p_latest_handshake = 950, p_receive_bytes = 0, p_transmit_bytes = 0 \<rparr>] \<rparr>"

lemma sample_observe:
  "observe cidr_contains [] sample_snapshot (IngressBase ''alice'') (V4 1) (V4 2) 1000 =
     ([(FlowKey ''alice'' ''bob'' (V4 1) (V4 2), 1000)],
      Some \<lparr> to_upstream_public_key = ''alice'', to_downstream_public_key = ''bob'',
             to_upstream_selector = IpNet (V4 2) 32, to_downstream_selector = IpNet (V4 1) 32,
             to_parent_session = None \<rparr>)"
  by (simp add: observe_def sample_snapshot_def snapshot_peer_def route_peer_def longest_matching_prefix_def
      best_prefix_def handshake_is_fresh_def AUTHENTICATED_PATH_SECONDS_def SUPPRESSION_SECONDS_def
      suppressed_def host_selector_def sat_sub_def Let_def)

theorem transit_opportunity_sound_witness:
  "\<exists>p. route_peer cidr_contains sample_snapshot (V4 2) (Some ''alice'') = Some p \<and> p_public_key p = ''bob''"
  using transit_opportunity_sound [OF cidr.ipnet_crate_axioms sample_observe] by auto

text \<open>
  Suppression: once a flow has been reported at time \<open>t\<close>, no packet of the same flow is reported
  again before \<open>t + 10\<close>, whatever other packets are observed in between, while the clock does not
  run back.
\<close>

theorem transit_suppression:
  assumes "hm_wf ob" and "observe contains ob s ingress src dst t = (ob1, Some opp)"
    and "\<forall>x \<in> set xs. t \<le> ob_now x \<and> unat (ob_now x) < unat t + 10"
    and "t \<le> now" and "unat now < unat t + 10"
    and "observe contains (run_observations contains ob1 xs) s2 ingress2 src dst now = (ob2, Some opp2)"
  shows "to_upstream_public_key opp2 \<noteq> to_upstream_public_key opp
    \<or> to_downstream_public_key opp2 \<noteq> to_downstream_public_key opp"
proof -
  let ?fk = "FlowKey (to_upstream_public_key opp) (to_downstream_public_key opp) src dst"
  from assms(2) have "hm_get ob1 ?fk = Some t" "hm_wf ob1"
    using assms(1)
    by (auto elim!: observe_cases simp: hm_get_filter SUPPRESSION_SECONDS_def sat_sub_def)
  from run_observations_keeps [OF this(2,1) order_refl assms(3)] obtain u
    where u: "t \<le> u" "hm_get (run_observations contains ob1 xs) ?fk = Some u" by blast
  have "unat now - unat u < 10" using u(1) assms(5) by (auto simp: wnat)
  then have "suppressed (run_observations contains ob1 xs) ?fk now"
    using u(2) by (simp add: suppressed_def SUPPRESSION_SECONDS_def wnat)
  then show "to_upstream_public_key opp2 \<noteq> to_upstream_public_key opp
      \<or> to_downstream_public_key opp2 \<noteq> to_downstream_public_key opp"
    using assms(6) by (auto elim!: observe_cases)
qed

theorem transit_suppression_witness:
  "snd (observe cidr_contains [(FlowKey ''alice'' ''bob'' (V4 1) (V4 2), 1000)] sample_snapshot
     (IngressBase ''alice'') (V4 1) (V4 2) 1009) = None"
proof (rule ccontr)
  let ?ob = "[(FlowKey ''alice'' ''bob'' (V4 1) (V4 2), 1000)]"
  assume "snd (observe cidr_contains ?ob sample_snapshot (IngressBase ''alice'') (V4 1) (V4 2) 1009) \<noteq> None"
  then obtain ob2 opp2 where o: "observe cidr_contains (run_observations cidr_contains ?ob []) sample_snapshot
      (IngressBase ''alice'') (V4 1) (V4 2) 1009 = (ob2, Some opp2)" by (metis option.exhaust run_observations.simps(1) surjective_pairing)
  then have "to_upstream_public_key opp2 = ''alice''" "to_downstream_public_key opp2 = ''bob''"
    by (auto simp: observe_def sample_snapshot_def route_peer_def longest_matching_prefix_def
        best_prefix_def Let_def split: option.splits if_splits)
  with transit_suppression [OF _ sample_observe _ _ _ o] show False by simp
qed

end
