(* ===== verification/Hub.thy ===== *)
theory Hub
  imports Cascade Base_Control Identity Wireguard "HOL-Library.List_Lexorder" "HOL-Library.Char_ord"
begin

text \<open>
  \<open>src/src/main.rs\<close>, the hub's part: on every poll, \<open>issue_hub_shortcuts\<close> walks over the pairs of
  WireGuard peers, refreshes their handshakes or plans a pair of tickets and sends one to each
  peer.  \<open>send\<close> is \<open>base_control::send\<close>; every call of it is listed in the result, in order, with
  its arguments.  \<open>rng\<close> gives the random id and secret drawn for a pair.
\<close>

definition BASE_HANDSHAKE_LIFETIME_SECONDS :: u64 where "BASE_HANDSHAKE_LIFETIME_SECONDS = 180"
definition HUB_SHORTCUT_RENEWAL_LEAD_SECONDS :: u64 where "HUB_SHORTCUT_RENEWAL_LEAD_SECONDS = 30"

lemmas hub_consts = BASE_HANDSHAKE_LIFETIME_SECONDS_def HUB_SHORTCUT_RENEWAL_LEAD_SECONDS_def

datatype hub_issue_key = HubIssueKey (left_public_key: string) (right_public_key: string)

type_synonym send_fn = "ip_addr \<Rightarrow> ip_addr \<Rightarrow> control_message \<Rightarrow> unit res"
type_synonym control_sends = "(ip_addr \<times> ip_addr \<times> control_message) list"

definition ordered_hub_issue_key :: "string \<Rightarrow> string \<Rightarrow> hub_issue_key" where
  "ordered_hub_issue_key left right = (if left \<le> right then HubIssueKey left right else HubIssueKey right left)"

definition fresh_handshake :: "u64 \<Rightarrow> u64 \<Rightarrow> bool" where
  "fresh_handshake latest_handshake now \<longleftrightarrow>
     latest_handshake \<noteq> 0 \<and> sat_sub now latest_handshake \<le> BASE_HANDSHAKE_LIFETIME_SECONDS"

definition renewable_handshake :: "u64 \<Rightarrow> u64 \<Rightarrow> bool" where
  "renewable_handshake latest_handshake now \<longleftrightarrow> fresh_handshake latest_handshake now
     \<and> sat_add now (DEFAULT_RENEW_AFTER_SECONDS + 1) \<le> sat_add latest_handshake BASE_HANDSHAKE_LIFETIME_SECONDS"

definition host_allowed_address :: "peer \<Rightarrow> ip_addr option" where
  "host_allowed_address p = find_map (\<lambda>network.
     if (is_ipv4 (net_addr network) \<and> prefix_len network = 32) \<or> (is_ipv6 (net_addr network) \<and> prefix_len network = 128)
     then Some (net_addr network) else None) (p_allowed_ips p)"

definition hub_host_selector :: "ip_addr \<Rightarrow> ipnet" where
  "hub_host_selector address = (case address of V4 a \<Rightarrow> IpNet (V4 a) 32 | V6 a \<Rightarrow> IpNet (V6 a) 128)"

definition plan_peer_pair ::
    "(bytes \<Rightarrow> bytes) \<Rightarrow> (bytes \<Rightarrow> string) \<Rightarrow> bytes \<times> bytes \<Rightarrow> string \<Rightarrow> peer \<Rightarrow> ip_addr \<Rightarrow> peer \<Rightarrow> ip_addr \<Rightarrow> u64
     \<Rightarrow> (shortcut_ticket_pair \<times> u64) res exec" where
  "plan_peer_pair hash hex rnd issuer left left_address right right_address now =
     exec_bind (rotating_node_name hash hex (p_public_key left) (peer_id_period now)) (\<lambda>left_name.
     exec_bind (rotating_node_name hash hex (p_public_key right) (peer_id_period now)) (\<lambda>right_name.
       let left_peer = \<lparr> cp_public_key = p_public_key left, cp_peer_id = left_name, cp_endpoint_candidates = [] \<rparr>;
           right_peer = \<lparr> cp_public_key = p_public_key right, cp_peer_id = right_name, cp_endpoint_candidates = [] \<rparr>;
           handshake_deadline = min (sat_add (p_latest_handshake left) BASE_HANDSHAKE_LIFETIME_SECONDS)
                                    (sat_add (p_latest_handshake right) BASE_HANDSHAKE_LIFETIME_SECONDS) in
       Returned (case plan hash (fst rnd) (snd rnd)
                   \<lparr> cr_issuer_public_key = issuer, cr_upstream = left_peer, cr_downstream = right_peer,
                     cr_upstream_selector = hub_host_selector right_address,
                     cr_downstream_selector = hub_host_selector left_address, cr_parent = None,
                     cr_expires_at_limit = Some handshake_deadline, cr_renew_after_seconds = None, cr_now = now \<rparr> of
           Inl e \<Rightarrow> Inl e
         | Inr pair \<Rightarrow>
             Inr (pair, max (sat_sub (t_renew_at (tp_upstream pair)) HUB_SHORTCUT_RENEWAL_LEAD_SECONDS) (now + 1)))))"

text \<open>\<open>send a; send b\<close> with the question mark operator after each.\<close>

definition send_two ::
    "send_fn \<Rightarrow> ip_addr \<Rightarrow> ip_addr \<Rightarrow> control_message \<Rightarrow> ip_addr \<Rightarrow> control_message \<Rightarrow> control_sends \<times> unit res" where
  "send_two send local left_address m1 right_address m2 =
     (case send local left_address m1 of
        Inl e \<Rightarrow> ([(local, left_address, m1)], Inl e)
      | Inr _ \<Rightarrow> ([(local, left_address, m1), (local, right_address, m2)], send local right_address m2))"

definition refresh_hub_handshakes :: "send_fn \<Rightarrow> ip_addr \<Rightarrow> ip_addr \<Rightarrow> ip_addr \<Rightarrow> control_sends \<times> unit res" where
  "refresh_hub_handshakes send local left_address right_address =
     send_two send local left_address (Keepalive True) right_address (Keepalive True)"

definition issue_peer_pair ::
    "(bytes \<Rightarrow> bytes) \<Rightarrow> (bytes \<Rightarrow> string) \<Rightarrow> bytes \<times> bytes \<Rightarrow> send_fn \<Rightarrow> string \<Rightarrow> ip_addr \<Rightarrow> peer \<Rightarrow> ip_addr \<Rightarrow> peer \<Rightarrow> ip_addr
     \<Rightarrow> u64 \<Rightarrow> (control_sends \<times> u64 res) exec" where
  "issue_peer_pair hash hex rnd send issuer local left left_address right right_address now =
     exec_bind (plan_peer_pair hash hex rnd issuer left left_address right right_address now) (\<lambda>planned.
       Returned (case planned of
           Inl e \<Rightarrow> ([], Inl e)
         | Inr (pair, next_issue) \<Rightarrow>
             (case send_two send local left_address (Ticket (tp_upstream pair)) right_address (Ticket (tp_downstream pair)) of
                (sends, Inl e) \<Rightarrow> (sends, Inl e)
              | (sends, Inr _) \<Rightarrow> (sends, Inr next_issue))))"

text \<open>The body of the loops over the peers, for one pair.\<close>

definition hub_pair_step ::
    "(bytes \<Rightarrow> bytes) \<Rightarrow> (bytes \<Rightarrow> string) \<Rightarrow> (hub_issue_key \<Rightarrow> bytes \<times> bytes) \<Rightarrow> send_fn \<Rightarrow> string \<Rightarrow> ip_addr list \<Rightarrow> u64
     \<Rightarrow> peer \<times> peer \<Rightarrow> (hub_issue_key, u64) hashmap \<Rightarrow> ((hub_issue_key, u64) hashmap \<times> control_sends) exec" where
  "hub_pair_step hash hex rng send issuer addresses now pr issues =
     (case pr of (left, right) \<Rightarrow>
      case (host_allowed_address left, host_allowed_address right) of
        (Some left_address, Some right_address) \<Rightarrow>
          if is_ipv4 left_address \<noteq> is_ipv4 right_address then Returned (issues, [])
          else (case find (\<lambda>a. is_ipv4 a = is_ipv4 left_address) addresses of
             None \<Rightarrow> Returned (issues, [])
           | Some local_address \<Rightarrow>
               let key = ordered_hub_issue_key (p_public_key left) (p_public_key right) in
               if now < (case hm_get issues key of None \<Rightarrow> 0 | Some t \<Rightarrow> t) then Returned (issues, [])
               else if \<not> renewable_handshake (p_latest_handshake left) now
                       \<or> \<not> renewable_handshake (p_latest_handshake right) now then
                 (case refresh_hub_handshakes send local_address left_address right_address of
                    (sends, Inr _) \<Rightarrow> Returned (hm_insert key (sat_add now 1) issues, sends)
                  | (sends, Inl e) \<Rightarrow> Returned (hm_insert key (sat_add now 5) issues, sends))
               else
                 exec_bind (issue_peer_pair hash hex (rng key) send issuer local_address left left_address
                              right right_address now) (\<lambda>issued.
                   case issued of
                     (sends, Inr next_issue) \<Rightarrow> Returned (hm_insert key next_issue issues, sends)
                   | (sends, Inl e) \<Rightarrow> Returned (hm_insert key (sat_add now 5) issues, sends)))
      | _ \<Rightarrow> Returned (issues, []))"

fun hub_pairs :: "'a list \<Rightarrow> ('a \<times> 'a) list" where
  "hub_pairs [] = []"
| "hub_pairs (x # xs) = map (Pair x) xs @ hub_pairs xs"

fun hub_loop ::
    "(bytes \<Rightarrow> bytes) \<Rightarrow> (bytes \<Rightarrow> string) \<Rightarrow> (hub_issue_key \<Rightarrow> bytes \<times> bytes) \<Rightarrow> send_fn \<Rightarrow> string \<Rightarrow> ip_addr list \<Rightarrow> u64
     \<Rightarrow> (peer \<times> peer) list \<Rightarrow> (hub_issue_key, u64) hashmap \<Rightarrow> ((hub_issue_key, u64) hashmap \<times> control_sends) exec" where
  "hub_loop hash hex rng send issuer addresses now [] issues = Returned (issues, [])"
| "hub_loop hash hex rng send issuer addresses now (pr # prs) issues =
     exec_bind (hub_pair_step hash hex rng send issuer addresses now pr issues) (\<lambda>(issues1, sends1).
       exec_bind (hub_loop hash hex rng send issuer addresses now prs issues1) (\<lambda>(issues2, sends2).
         Returned (issues2, sends1 @ sends2)))"

definition issue_hub_shortcuts ::
    "(bytes \<Rightarrow> bytes) \<Rightarrow> (bytes \<Rightarrow> string) \<Rightarrow> (hub_issue_key \<Rightarrow> bytes \<times> bytes) \<Rightarrow> send_fn \<Rightarrow> string \<Rightarrow> ip_addr list
     \<Rightarrow> snapshot \<Rightarrow> u64 \<Rightarrow> (hub_issue_key, u64) hashmap \<Rightarrow> ((hub_issue_key, u64) hashmap \<times> control_sends) exec" where
  "issue_hub_shortcuts hash hex rng send issuer addresses s now issues =
     (if length (s_peers s) < 2 then Returned (issues, [])
      else hub_loop hash hex rng send issuer addresses now (hub_pairs (s_peers s)) issues)"

section \<open>Plans\<close>

definition hub_request ::
    "(bytes \<Rightarrow> bytes) \<Rightarrow> (bytes \<Rightarrow> string) \<Rightarrow> string \<Rightarrow> peer \<Rightarrow> ip_addr \<Rightarrow> peer \<Rightarrow> ip_addr \<Rightarrow> u64 \<Rightarrow> cascade_request" where
  "hub_request hash hex issuer left left_address right right_address now =
     \<lparr> cr_issuer_public_key = issuer,
       cr_upstream = \<lparr> cp_public_key = p_public_key left,
         cp_peer_id = node_name hash hex (p_public_key left) (peer_id_period now), cp_endpoint_candidates = [] \<rparr>,
       cr_downstream = \<lparr> cp_public_key = p_public_key right,
         cp_peer_id = node_name hash hex (p_public_key right) (peer_id_period now), cp_endpoint_candidates = [] \<rparr>,
       cr_upstream_selector = hub_host_selector right_address,
       cr_downstream_selector = hub_host_selector left_address, cr_parent = None,
       cr_expires_at_limit = Some (min (sat_add (p_latest_handshake left) BASE_HANDSHAKE_LIFETIME_SECONDS)
                                       (sat_add (p_latest_handshake right) BASE_HANDSHAKE_LIFETIME_SECONDS)),
       cr_renew_after_seconds = None, cr_now = now \<rparr>"

lemma plan_peer_pair_returns:
  assumes "hex16 hash hex"
  shows "plan_peer_pair hash hex rnd issuer left la right ra now =
    Returned (case plan hash (fst rnd) (snd rnd) (hub_request hash hex issuer left la right ra now) of
        Inl e \<Rightarrow> Inl e
      | Inr pair \<Rightarrow> Inr (pair, max (sat_sub (t_renew_at (tp_upstream pair)) HUB_SHORTCUT_RENEWAL_LEAD_SECONDS) (now + 1)))"
  by (simp add: plan_peer_pair_def rotating_node_name_returns [OF assms] hub_request_def Let_def)

lemma renewable_deadline:
  assumes "renewable_handshake h now" and "unat now + 300 < 2 ^ 64"
  shows "unat now + 121 \<le> unat (sat_add h BASE_HANDSHAKE_LIFETIME_SECONDS)"
  using assms by (simp add: renewable_handshake_def hub_consts control_consts wnat)

lemma hub_plan_expiry:
  assumes "renewable_handshake (p_latest_handshake left) now" and "renewable_handshake (p_latest_handshake right) now"
    and bound: "unat now + 300 < 2 ^ 64"
  shows "unat now + 121 \<le> unat (plan_expires_at (hub_request hash hex issuer left la right ra now))"
    and "plan_renew_at (hub_request hash hex issuer left la right ra now) = now + 120"
proof -
  let ?req = "hub_request hash hex issuer left la right ra now"
  have "unat (sat_add now DEFAULT_EXPIRES_AFTER_SECONDS) = unat now + 180"
    using bound by (simp add: control_consts wnat)
  then show e: "unat now + 121 \<le> unat (plan_expires_at ?req)"
    using renewable_deadline [OF assms(1) bound] renewable_deadline [OF assms(2) bound] bound
    by (simp add: plan_expires_at_def hub_request_def min_def word_le_nat_alt unat_max_u64)
  have e1: "unat (plan_expires_at ?req - 1) = unat (plan_expires_at ?req) - 1"
    using e by (intro unat_minus_one) auto
  have r: "unat (now + 120) = unat now + 120" using bound by (simp add: unat_word_ariths)
  have "unat (plan_renew_at ?req) = unat now + 120"
    using e e1 bound by (simp add: plan_renew_at_def hub_request_def control_consts wnat)
  then show "plan_renew_at ?req = now + 120" using r by (simp add: word_unat_eq_iff)
qed

lemma hub_ticket_ok:
  assumes "plan hash rid secret (hub_request hash hex issuer left la right ra now) = Inr pair"
    and "p_public_key left \<noteq> []" and "p_public_key right \<noteq> []" and "now \<le> t" and "t < t_expires_at (tp_upstream pair)"
  shows "validate (tp_upstream pair) t = Inr ()" and "validate (tp_downstream pair) t = Inr ()"
proof -
  let ?req = "hub_request hash hex issuer left la right ra now"
  from assms(1) obtain deleg where
    up: "tp_upstream pair = common_ticket ?req rid secret deleg Left (cr_upstream_selector ?req) (cr_upstream ?req) (cr_downstream ?req)"
    and down: "tp_downstream pair = common_ticket ?req rid secret deleg Right (cr_downstream_selector ?req) (cr_downstream ?req) (cr_upstream ?req)"
    by (rule plan_SomeD)
  have "ticket_ok (tp_upstream pair) now" "ticket_ok (tp_downstream pair) now"
    using plan_ticket_ok [OF assms(1)] assms(2,3) by (simp_all add: hub_request_def parent_ok_def)
  moreover have "t_expires_at (tp_downstream pair) = t_expires_at (tp_upstream pair)" by (simp add: up down common_ticket_def)
  ultimately show "validate (tp_upstream pair) t = Inr ()" "validate (tp_downstream pair) t = Inr ()"
    using assms(4,5) by (simp_all add: validate_ok_iff ticket_ok_later)
qed

section \<open>One pair\<close>

text \<open>The ticket \<open>t\<close>, sent from \<open>l\<close> to \<open>a\<close>, serves its receiver \<open>p\<close> for reaching \<open>q\<close>.\<close>

definition serves :: "string \<Rightarrow> u64 \<Rightarrow> ip_addr \<times> ip_addr \<times> control_message \<Rightarrow> shortcut_ticket \<Rightarrow> peer \<Rightarrow> peer \<Rightarrow> bool" where
  "serves issuer now x t p q \<longleftrightarrow>
     (\<exists>l a b. x = (l, a, Ticket t) \<and> host_allowed_address p = Some a \<and> host_allowed_address q = Some b
        \<and> is_ipv4 a = is_ipv4 b \<and> is_ipv4 l = is_ipv4 a \<and> t_selector t = hub_host_selector b)
     \<and> t_issuer_public_key t = issuer \<and> t_recipient_public_key t = p_public_key p
     \<and> t_remote_public_key t = p_public_key q \<and> p_public_key p \<noteq> p_public_key q
     \<and> fresh_handshake (p_latest_handshake p) now \<and> fresh_handshake (p_latest_handshake q) now
     \<and> unat (t_expires_at t) \<le> unat (p_latest_handshake p) + 180
     \<and> unat (t_expires_at t) \<le> unat (p_latest_handshake q) + 180
     \<and> (p_public_key p \<noteq> [] \<and> p_public_key q \<noteq> [] \<longrightarrow>
          (\<forall>later. now \<le> later \<and> later < t_expires_at t \<longrightarrow> validate t later = Inr ()))"

lemma handshake_limit: "unat (sat_add h BASE_HANDSHAKE_LIFETIME_SECONDS) \<le> unat h + 180"
  by (simp add: hub_consts wnat)

lemma issue_peer_pair_serves:
  assumes hex: "hex16 hash hex"
    and "issue_peer_pair hash hex rnd send issuer l left la right ra now = Returned (sends, r)"
    and "(x, y, Ticket t) \<in> set sends"
    and la: "host_allowed_address left = Some la" and ra: "host_allowed_address right = Some ra"
    and "is_ipv4 la = is_ipv4 ra" and "is_ipv4 l = is_ipv4 la"
    and fresh: "fresh_handshake (p_latest_handshake left) now" "fresh_handshake (p_latest_handshake right) now"
  shows "serves issuer now (x, y, Ticket t) t left right \<or> serves issuer now (x, y, Ticket t) t right left"
proof -
  let ?req = "hub_request hash hex issuer left la right ra now"
  from assms(2,3) obtain pair where p: "plan hash (fst rnd) (snd rnd) ?req = Inr pair"
    and sends: "x = l \<and> (y = la \<and> t = tp_upstream pair \<or> y = ra \<and> t = tp_downstream pair)"
    by (auto simp: issue_peer_pair_def plan_peer_pair_returns [OF hex] send_two_def split: sum.splits)
  from p obtain deleg where ne: "cp_public_key (cr_upstream ?req) \<noteq> cp_public_key (cr_downstream ?req)" and
    up: "tp_upstream pair = common_ticket ?req (fst rnd) (snd rnd) deleg Left (cr_upstream_selector ?req) (cr_upstream ?req) (cr_downstream ?req)"
    and down: "tp_downstream pair = common_ticket ?req (fst rnd) (snd rnd) deleg Right (cr_downstream_selector ?req) (cr_downstream ?req) (cr_upstream ?req)"
    by (rule plan_SomeD)
  have "plan_expires_at ?req \<le> min (sat_add (p_latest_handshake left) BASE_HANDSHAKE_LIFETIME_SECONDS)
      (sat_add (p_latest_handshake right) BASE_HANDSHAKE_LIFETIME_SECONDS)"
    by (rule plan_expires_bounds(3)) (simp add: hub_request_def)
  then have e: "unat (plan_expires_at ?req) \<le> unat (p_latest_handshake left) + 180"
    "unat (plan_expires_at ?req) \<le> unat (p_latest_handshake right) + 180"
    using handshake_limit [of "p_latest_handshake left"] handshake_limit [of "p_latest_handshake right"]
    by (auto simp: word_le_nat_alt min_def split: if_splits)
  have te: "t_expires_at (tp_upstream pair) = plan_expires_at ?req" "t_expires_at (tp_downstream pair) = plan_expires_at ?req"
    by (simp_all add: up down common_ticket_def)
  have ok: "validate (tp_upstream pair) later = Inr () \<and> validate (tp_downstream pair) later = Inr ()"
    if "p_public_key left \<noteq> []" "p_public_key right \<noteq> []" "now \<le> later" "later < plan_expires_at ?req" for later
    using hub_ticket_ok [OF p that(1-3)] that(4) te(1) by simp
  have flds: "t_issuer_public_key (tp_upstream pair) = issuer" "t_recipient_public_key (tp_upstream pair) = p_public_key left"
    "t_remote_public_key (tp_upstream pair) = p_public_key right" "t_selector (tp_upstream pair) = hub_host_selector ra"
    "t_issuer_public_key (tp_downstream pair) = issuer" "t_recipient_public_key (tp_downstream pair) = p_public_key right"
    "t_remote_public_key (tp_downstream pair) = p_public_key left" "t_selector (tp_downstream pair) = hub_host_selector la"
    "p_public_key left \<noteq> p_public_key right"
    using ne by (simp_all add: up down common_ticket_def hub_request_def)
  from sends consider "x = l" "y = la" "t = tp_upstream pair" | "x = l" "y = ra" "t = tp_downstream pair" by blast
  then show ?thesis
  proof cases
    case 1
    then have "serves issuer now (x, y, Ticket t) t left right"
      unfolding serves_def using assms(4-) flds e te ok by simp
    then show ?thesis ..
  next
    case 2
    then have "serves issuer now (x, y, Ticket t) t right left"
      unfolding serves_def using assms(4-) flds e te ok by simp
    then show ?thesis ..
  qed
qed

lemma refresh_no_ticket:
  "refresh_hub_handshakes send l la ra = (sends, r) \<Longrightarrow> (x, y, Ticket t) \<notin> set sends"
  by (auto simp: refresh_hub_handshakes_def send_two_def split: sum.splits)

lemma hub_pair_step_serves:
  assumes hex: "hex16 hash hex"
    and run: "hub_pair_step hash hex rng send issuer addresses now (left, right) issues = Returned (issues', sends)"
    and t: "(x, y, Ticket t) \<in> set sends"
  shows "serves issuer now (x, y, Ticket t) t left right \<or> serves issuer now (x, y, Ticket t) t right left"
proof -
  from run t obtain la ra where a: "host_allowed_address left = Some la" "host_allowed_address right = Some ra"
    "is_ipv4 la = is_ipv4 ra"
    by (cases "host_allowed_address left"; cases "host_allowed_address right") (auto simp: hub_pair_step_def split: if_splits)
  with run t obtain l where l: "find (\<lambda>a. is_ipv4 a = is_ipv4 la) addresses = Some l"
    by (auto simp: hub_pair_step_def split: option.splits)
  then have fam: "is_ipv4 l = is_ipv4 la" by (metis (mono_tags, lifting) find_Some_iff)
  let ?key = "ordered_hub_issue_key (p_public_key left) (p_public_key right)"
  have "renewable_handshake (p_latest_handshake left) now \<and> renewable_handshake (p_latest_handshake right) now"
    using run t a l refresh_no_ticket [of send l la ra _ _ x y t]
    by (auto simp: hub_pair_step_def Let_def split: if_splits prod.splits sum.splits)
  moreover from this run a l obtain sends0 r where
    i: "issue_peer_pair hash hex (rng ?key) send issuer l left la right ra now = Returned (sends0, r)"
    using t by (cases "issue_peer_pair hash hex (rng ?key) send issuer l left la right ra now")
       (auto simp: hub_pair_step_def Let_def split: if_splits)
  moreover have "sends0 = sends"
    using run t a l i calculation(1) by (cases r) (auto simp: hub_pair_step_def Let_def split: if_splits)
  ultimately show ?thesis
    using issue_peer_pair_serves [OF hex _ t a(1,2) a(3) fam] by (simp add: renewable_handshake_def)
qed

lemma hub_loop_serves:
  assumes hex: "hex16 hash hex"
    and "hub_loop hash hex rng send issuer addresses now prs issues = Returned (issues', sends)"
    and "(x, y, Ticket t) \<in> set sends"
  shows "\<exists>left right. (left, right) \<in> set prs
    \<and> (serves issuer now (x, y, Ticket t) t left right \<or> serves issuer now (x, y, Ticket t) t right left)"
  using assms(2,3)
proof (induction prs arbitrary: issues sends)
  case Nil
  then show ?case by simp
next
  case (Cons pr prs)
  obtain left right where pr: "pr = (left, right)" by (cases pr)
  from Cons.prems(1) obtain issues1 sends1 sends2 where
    one: "hub_pair_step hash hex rng send issuer addresses now pr issues = Returned (issues1, sends1)"
    and two: "hub_loop hash hex rng send issuer addresses now prs issues1 = Returned (issues', sends2)"
    and sends: "sends = sends1 @ sends2" by (auto simp: exec_bind_Returned)
  from Cons.prems(2) sends consider "(x, y, Ticket t) \<in> set sends1" | "(x, y, Ticket t) \<in> set sends2" by auto
  then show ?case
  proof cases
    case 1
    with hub_pair_step_serves [OF hex one [unfolded pr]] pr show ?thesis by (metis list.set_intros(1))
  next
    case 2
    with Cons.IH [OF two] show ?thesis by (metis list.set_intros(2))
  qed
qed

lemma hub_pairs_set: "(a, b) \<in> set (hub_pairs xs) \<Longrightarrow> a \<in> set xs \<and> b \<in> set xs"
  by (induction xs) auto

section \<open>Attempts\<close>

text \<open>A pair the walk would act on.\<close>

definition actionable :: "ip_addr list \<Rightarrow> peer \<times> peer \<Rightarrow> bool" where
  "actionable addresses pr \<longleftrightarrow>
     (case (host_allowed_address (fst pr), host_allowed_address (snd pr)) of
        (Some la, Some ra) \<Rightarrow> is_ipv4 la = is_ipv4 ra \<and> find (\<lambda>a. is_ipv4 a = is_ipv4 la) addresses \<noteq> None
      | _ \<Rightarrow> False)"

definition pair_key :: "peer \<times> peer \<Rightarrow> hub_issue_key" where
  "pair_key pr = ordered_hub_issue_key (p_public_key (fst pr)) (p_public_key (snd pr))"

definition due :: "(hub_issue_key, u64) hashmap \<Rightarrow> hub_issue_key \<Rightarrow> u64" where
  "due issues key = (case hm_get issues key of None \<Rightarrow> 0 | Some t \<Rightarrow> t)"

lemma hub_pair_step_quiet:
  "\<not> actionable addresses pr \<or> now < due issues (pair_key pr) \<Longrightarrow>
   hub_pair_step hash hex rng send issuer addresses now pr issues = Returned (issues, [])"
  by (auto simp: hub_pair_step_def actionable_def due_def pair_key_def Let_def split: prod.splits option.splits)

lemma unat_not_max: "now \<noteq> - 1 \<Longrightarrow> unat (now :: u64) < 18446744073709551615"
  using unat_u64_bound [of now] unat_max_u64 by (metis le_neq_implies_less word_unat_eq_iff)

lemma sat_add_greater: "now \<noteq> - 1 \<Longrightarrow> 0 < d \<Longrightarrow> now < sat_add now (d :: u64)"
  using unat_not_max [of now] by (simp add: wnat)

lemma less_succ: "now \<noteq> - 1 \<Longrightarrow> now < now + (1 :: u64)"
  using unat_not_max [of now] by (simp add: word_less_nat_alt unat_word_ariths)

lemma due_insert [simp]: "due (hm_insert key t issues) k = (if k = key then t else due issues k)"
  by (simp add: due_def)

lemma issue_peer_pair_next:
  assumes hex: "hex16 hash hex" and "now \<noteq> - 1"
  shows "\<exists>sends r. issue_peer_pair hash hex rnd send issuer l left la right ra now = Returned (sends, r)
    \<and> (\<forall>t. r = Inr t \<longrightarrow> now < t)"
proof -
  have "now < max x (now + 1)" for x using less_succ [OF assms(2)] by (simp add: less_max_iff_disj)
  then show ?thesis
    by (auto simp: issue_peer_pair_def plan_peer_pair_returns [OF hex] send_two_def split: sum.splits)
qed

lemma hub_pair_step_due:
  assumes hex: "hex16 hash hex" and now: "now \<noteq> - 1"
  shows "\<exists>issues' sends. hub_pair_step hash hex rng send issuer addresses now pr issues = Returned (issues', sends)
    \<and> (actionable addresses pr \<longrightarrow> now < due issues' (pair_key pr))
    \<and> (\<forall>k. now < due issues k \<longrightarrow> now < due issues' k)"
proof (cases "\<not> actionable addresses pr \<or> now < due issues (pair_key pr)")
  case True
  then show ?thesis using hub_pair_step_quiet [OF True] by auto
next
  case False
  obtain left right where pr: "pr = (left, right)" by (cases pr)
  from False pr obtain la ra l where a: "host_allowed_address left = Some la" "host_allowed_address right = Some ra"
    "is_ipv4 la = is_ipv4 ra" "find (\<lambda>a. is_ipv4 a = is_ipv4 la) addresses = Some l"
    by (auto simp: actionable_def split: option.splits)
  from issue_peer_pair_next [OF hex now] obtain sends r where
    i: "issue_peer_pair hash hex (rng (pair_key pr)) send issuer l left la right ra now = Returned (sends, r)"
      "\<forall>t. r = Inr t \<longrightarrow> now < t" by blast
  obtain sends1 r1 where f: "refresh_hub_handshakes send l la ra = (sends1, r1)" by (cases "refresh_hub_handshakes send l la ra")
  show ?thesis
    using False a i f sat_add_greater [OF now, of 1] sat_add_greater [OF now, of 5]
    by (cases r; cases r1) (auto simp: hub_pair_step_def pr pair_key_def due_def [symmetric] Let_def)
qed

lemma hub_loop_due:
  assumes hex: "hex16 hash hex" and now: "now \<noteq> - 1"
  shows "\<exists>issues' sends. hub_loop hash hex rng send issuer addresses now prs issues = Returned (issues', sends)
    \<and> (\<forall>pr \<in> set prs. actionable addresses pr \<longrightarrow> now < due issues' (pair_key pr))
    \<and> (\<forall>k. now < due issues k \<longrightarrow> now < due issues' k)"
proof (induction prs arbitrary: issues)
  case Nil
  then show ?case by simp
next
  case (Cons pr prs)
  from hub_pair_step_due [OF hex now] obtain issues1 sends1 where
    one: "hub_pair_step hash hex rng send issuer addresses now pr issues = Returned (issues1, sends1)"
      "actionable addresses pr \<longrightarrow> now < due issues1 (pair_key pr)" "\<forall>k. now < due issues k \<longrightarrow> now < due issues1 k" by blast
  from Cons.IH [of issues1] obtain issues2 sends2 where
    two: "hub_loop hash hex rng send issuer addresses now prs issues1 = Returned (issues2, sends2)"
      "\<forall>pr \<in> set prs. actionable addresses pr \<longrightarrow> now < due issues2 (pair_key pr)"
      "\<forall>k. now < due issues1 k \<longrightarrow> now < due issues2 k" by blast
  have "hub_loop hash hex rng send issuer addresses now (pr # prs) issues = Returned (issues2, sends1 @ sends2)"
    using one(1) two(1) by simp
  with one(2,3) two(2,3) show ?case by auto
qed

lemma hub_loop_quiet:
  "\<forall>pr \<in> set prs. actionable addresses pr \<longrightarrow> now < due issues (pair_key pr) \<Longrightarrow>
   hub_loop hash hex rng send issuer addresses now prs issues = Returned (issues, [])"
  by (induction prs) (auto simp: hub_pair_step_quiet)

section \<open>Properties\<close>

definition sample_wg_peer :: "string \<Rightarrow> 32 word \<Rightarrow> peer" where
  "sample_wg_peer key a = \<lparr> p_public_key = key, p_endpoint = None, p_allowed_ips = [IpNet (V4 a) 32],
     p_latest_handshake = 7200, p_receive_bytes = 0, p_transmit_bytes = 0 \<rparr>"

definition sample_hub_snapshot :: snapshot where
  "sample_hub_snapshot = \<lparr> s_public_key = ''hub'', s_listen_port = 51820,
     s_peers = [sample_wg_peer ''left'' 2, sample_wg_peer ''right'' 3] \<rparr>"

definition sample_node_hex :: "bytes \<Rightarrow> string" where
  "sample_node_hex b = replicate 16 (CHR ''a'')"

lemma sample_node_hex16: "hex16 id sample_node_hex"
  by (simp add: hex16_def sample_node_hex_def)

lemma sample_renewable: "renewable_handshake 7200 7200"
  by (simp add: renewable_handshake_def fresh_handshake_def hub_consts control_consts sat_add_def sat_sub_def)

text \<open>
  C16.  What the hub sends: every ticket that leaves the hub in a pass goes, from an address of the same
  family, to the host address of one of its peers; it was issued by the hub for that peer, names
  another peer of the hub as the remote and selects that peer's host address.  Both peers have
  shaken hands with the hub in the last 180 seconds, the ticket outlives neither handshake by more
  than 180 seconds, and its receiver accepts it until it expires.
\<close>

theorem hub_tickets_serve_pairs:
  assumes "hex16 hash hex"
    and "issue_hub_shortcuts hash hex rng send issuer addresses s now issues = Returned (issues', sends)"
    and "(source, target, Ticket t) \<in> set sends"
  shows "\<exists>p q. p \<in> set (s_peers s) \<and> q \<in> set (s_peers s) \<and> p_public_key p \<noteq> p_public_key q
     \<and> t_issuer_public_key t = issuer \<and> t_recipient_public_key t = p_public_key p \<and> t_remote_public_key t = p_public_key q
     \<and> (\<exists>a. host_allowed_address p = Some target \<and> host_allowed_address q = Some a
          \<and> is_ipv4 source = is_ipv4 target \<and> is_ipv4 target = is_ipv4 a \<and> t_selector t = hub_host_selector a)
     \<and> fresh_handshake (p_latest_handshake p) now \<and> fresh_handshake (p_latest_handshake q) now
     \<and> unat (t_expires_at t) \<le> unat (p_latest_handshake p) + 180
     \<and> unat (t_expires_at t) \<le> unat (p_latest_handshake q) + 180
     \<and> (p_public_key p \<noteq> [] \<and> p_public_key q \<noteq> [] \<longrightarrow>
          (\<forall>later. now \<le> later \<and> later < t_expires_at t \<longrightarrow> validate t later = Inr ()))"
proof -
  from assms(2,3) have "hub_loop hash hex rng send issuer addresses now (hub_pairs (s_peers s)) issues = Returned (issues', sends)"
    by (auto simp: issue_hub_shortcuts_def split: if_splits)
  from hub_loop_serves [OF assms(1) this assms(3)] obtain left right where
    pair: "(left, right) \<in> set (hub_pairs (s_peers s))"
    and v: "serves issuer now (source, target, Ticket t) t left right \<or> serves issuer now (source, target, Ticket t) t right left" by blast
  from hub_pairs_set [OF pair] v
  have "\<exists>p q. p \<in> set (s_peers s) \<and> q \<in> set (s_peers s) \<and> serves issuer now (source, target, Ticket t) t p q" by metis
  then obtain p q where m: "p \<in> set (s_peers s)" "q \<in> set (s_peers s)" and v: "serves issuer now (source, target, Ticket t) t p q"
    by blast
  from v have "\<exists>a. host_allowed_address p = Some target \<and> host_allowed_address q = Some a
      \<and> is_ipv4 source = is_ipv4 target \<and> is_ipv4 target = is_ipv4 a \<and> t_selector t = hub_host_selector a"
    unfolding serves_def by blast
  then show ?thesis using m v unfolding serves_def by (intro exI [of _ p] exI [of _ q]) simp
qed

text \<open>
  The hub keeps a shortcut alive: for two different peers whose handshakes are young enough to
  outlast a renewal period, planning succeeds; the tickets are renewed after 120 seconds and live
  at least one second longer, and the next issue is due after 90 seconds, 30 seconds before the
  renewal time and more than 30 before the expiry, so a working hub replaces a lease before it ends.
\<close>

theorem hub_plan_in_time:
  assumes "hex16 hash hex" and "issuer \<noteq> []" and "p_public_key left \<noteq> p_public_key right"
    and "renewable_handshake (p_latest_handshake left) now" and "renewable_handshake (p_latest_handshake right) now"
    and bound: "unat now + 300 < 2 ^ 64"
  shows "\<exists>pair. plan_peer_pair hash hex rnd issuer left la right ra now = Returned (Inr (pair, now + 90))
    \<and> t_renew_at (tp_upstream pair) = now + 120 \<and> t_renew_at (tp_downstream pair) = now + 120
    \<and> t_expires_at (tp_upstream pair) = t_expires_at (tp_downstream pair)
    \<and> now + 120 < t_expires_at (tp_upstream pair) \<and> t_expires_at (tp_upstream pair) \<le> now + 180"
proof -
  let ?req = "hub_request hash hex issuer left la right ra now"
  note e = hub_plan_expiry [OF assms(4,5) bound, of hash hex issuer la ra]
  have n1: "unat (sat_add now 1) = unat now + 1" using bound by (simp add: wnat)
  have "\<not> plan_expires_at ?req \<le> sat_add now 1" using e(1) n1 by (simp add: word_le_nat_alt)
  then obtain pair where p: "plan hash (fst rnd) (snd rnd) ?req = Inr pair"
    using assms(2,3) by (auto simp: plan_def delegation_def hub_request_def node_name_def)
  from p obtain deleg where
    up: "tp_upstream pair = common_ticket ?req (fst rnd) (snd rnd) deleg Left (cr_upstream_selector ?req) (cr_upstream ?req) (cr_downstream ?req)"
    and down: "tp_downstream pair = common_ticket ?req (fst rnd) (snd rnd) deleg Right (cr_downstream_selector ?req) (cr_downstream ?req) (cr_upstream ?req)"
    by (rule plan_SomeD)
  have w: "unat (now + 120) = unat now + 120" "unat (now + 180) = unat now + 180" "unat (now + 90) = unat now + 90" "unat (now + 1) = unat now + 1"
    using bound by (simp_all add: unat_word_ariths)
  have "unat (sat_sub (now + 120) HUB_SHORTCUT_RENEWAL_LEAD_SECONDS) = unat now + 90" using w by (simp add: hub_consts wnat)
  then have "max (sat_sub (now + 120) HUB_SHORTCUT_RENEWAL_LEAD_SECONDS) (now + 1) = now + 90"
    using w by (auto simp: max_def word_le_nat_alt word_unat_eq_iff)
  moreover have "now + 120 < plan_expires_at ?req" using e(1) w(1) by (simp add: word_less_nat_alt)
  moreover have "plan_expires_at ?req \<le> now + 180"
    using plan_expires_bounds(1) [of ?req] w(2) by (simp add: word_le_nat_alt hub_request_def)
  ultimately show ?thesis
    using p e(2) by (simp add: plan_peer_pair_returns [OF assms(1)] up down common_ticket_def)
qed

theorem hub_plan_in_time_witness:
  "\<exists>pair. plan_peer_pair id sample_node_hex (replicate 16 1, replicate 32 2) ''hub'' (sample_wg_peer ''left'' 2) (V4 2)
      (sample_wg_peer ''right'' 3) (V4 3) 7200 = Returned (Inr (pair, 7290))
    \<and> t_renew_at (tp_upstream pair) = 7320"
  using hub_plan_in_time [OF sample_node_hex16, of "''hub''" "sample_wg_peer ''left'' 2" "sample_wg_peer ''right'' 3" 7200
      "(replicate 16 1, replicate 32 2)" "V4 2" "V4 3"]
  by (auto simp: sample_wg_peer_def sample_renewable)

theorem hub_tickets_serve_pairs_witness:
  "\<exists>issues' sends source target t. issue_hub_shortcuts id sample_node_hex (\<lambda>k. (replicate 16 1, replicate 32 2))
      (\<lambda>l t m. Inr ()) ''hub'' [V4 1] sample_hub_snapshot 7200 [] = Returned (issues', sends)
    \<and> (source, target, Ticket t) \<in> set sends \<and> t_issuer_public_key t = ''hub'' \<and> unat (t_expires_at t) \<le> 7380"
proof -
  let ?l = "sample_wg_peer ''left'' 2" and ?r = "sample_wg_peer ''right'' 3"
  from hub_plan_expiry(1) [of ?l 7200 ?r id sample_node_hex "''hub''" "V4 2" "V4 3"]
  have "\<not> plan_expires_at (hub_request id sample_node_hex ''hub'' ?l (V4 2) ?r (V4 3) 7200) \<le> sat_add 7200 1"
    by (simp add: sample_wg_peer_def sample_renewable word_le_nat_alt sat_add_def)
  then obtain pair where p: "plan id (replicate 16 1) (replicate 32 2) (hub_request id sample_node_hex ''hub'' ?l (V4 2) ?r (V4 3) 7200) = Inr pair"
    by (auto simp: plan_def delegation_def hub_request_def node_name_def sample_wg_peer_def)
  let ?t = "tp_upstream pair"
  obtain issues' sends where run: "issue_hub_shortcuts id sample_node_hex (\<lambda>k. (replicate 16 1, replicate 32 2))
      (\<lambda>l t m. Inr ()) ''hub'' [V4 1] sample_hub_snapshot 7200 [] = Returned (issues', sends)"
    and t: "(V4 1, V4 2, Ticket ?t) \<in> set sends"
    using p
    by (simp add: issue_hub_shortcuts_def sample_hub_snapshot_def hub_pair_step_def sample_wg_peer_def host_allowed_address_def
        sample_renewable issue_peer_pair_def plan_peer_pair_returns [OF sample_node_hex16] send_two_def Let_def)
  from hub_tickets_serve_pairs [OF sample_node_hex16 run t] obtain q where
    "t_issuer_public_key ?t = ''hub''" "unat (t_expires_at ?t) \<le> unat (p_latest_handshake q) + 180" "q \<in> set (s_peers sample_hub_snapshot)"
    by blast
  with run t show ?thesis by (fastforce simp: sample_hub_snapshot_def sample_wg_peer_def)
qed

text \<open>
  No flooding: a pass of the hub always returns, and repeating it in the same second, whatever the
  sends of the first pass did, sends nothing at all and leaves the schedule as it is.
\<close>

theorem hub_pass_idempotent:
  assumes "hex16 hash hex" and "now \<noteq> - 1"
  shows "\<exists>issues' sends. issue_hub_shortcuts hash hex rng send issuer addresses s now issues = Returned (issues', sends)
    \<and> issue_hub_shortcuts hash hex rng' send' issuer addresses s now issues' = Returned (issues', [])"
proof (cases "length (s_peers s) < 2")
  case True
  then show ?thesis by (simp add: issue_hub_shortcuts_def)
next
  case False
  from hub_loop_due [OF assms] obtain issues' sends where
    "hub_loop hash hex rng send issuer addresses now (hub_pairs (s_peers s)) issues = Returned (issues', sends)"
    "\<forall>pr \<in> set (hub_pairs (s_peers s)). actionable addresses pr \<longrightarrow> now < due issues' (pair_key pr)" by blast
  with False hub_loop_quiet show ?thesis by (auto simp: issue_hub_shortcuts_def)
qed

theorem hub_pass_idempotent_witness:
  "\<exists>issues' sends. issue_hub_shortcuts id sample_node_hex (\<lambda>k. (replicate 16 1, replicate 32 2))
      (\<lambda>l t m. Inr ()) ''hub'' [V4 1] sample_hub_snapshot 7200 [] = Returned (issues', sends)
    \<and> issue_hub_shortcuts id sample_node_hex (\<lambda>k. (replicate 16 3, replicate 32 4))
      (\<lambda>l t m. Inl (External 0)) ''hub'' [V4 1] sample_hub_snapshot 7200 issues' = Returned (issues', [])"
  by (rule hub_pass_idempotent [OF sample_node_hex16]) simp

end
