(* ===== verification/Generation.thy ===== *)
theory Generation
  imports Hub Controller Route_Stack
begin

text \<open>
  \<open>src/src/main.rs\<close>, one generation: the \<open>select!\<close> loop of \<open>run_generation_inner\<close>, which drives the
  hub, the controller and the device, and its shutdown.  \<open>generation_step\<close> is one iteration; the
  record \<open>gen_env\<close> holds what the generation was started with and the services it calls.  A call
  on the device handle acts on the device's sessions (\<open>Controller\<close>), except that a datagram is an
  effect: the device task takes it from its command queue.  \<open>Hang\<close> is the branch that awaits
  \<open>pending\<close> for ever.
\<close>

section \<open>State\<close>

record ('w, 'c) gen_env =
  ge_addresses :: "ip_addr list"
  ge_ports :: "(string, u16) hashmap"
  ge_outbound :: 'c
  ge_set_endpoint :: "string \<Rightarrow> u16 \<Rightarrow> unit res"
  ge_send :: send_fn
  ge_rng :: "hub_issue_key \<Rightarrow> bytes \<times> bytes"
  ge_contains :: "ipnet \<Rightarrow> ip_addr \<Rightarrow> bool"
  ge_hash :: "bytes \<Rightarrow> bytes"
  ge_hex :: "bytes \<Rightarrow> string"
  ge_keyed_hash :: "bytes \<Rightarrow> bytes \<Rightarrow> bytes"
  ge_public :: "bytes \<Rightarrow> bytes"
  ge_tunn :: "'w tunn_api"
  ge_device :: "'c device_env"
  ge_device_running :: bool

record ('r, 'w, 'c) generation =
  gn_controller :: "('r, 'w, 'c) controller"
  gn_snapshot :: snapshot
  gn_hub_issues :: "(hub_issue_key, u64) hashmap"
  gn_baselines :: "(string, u64) hashmap"

datatype gen_input =
    GenCancelled
  | GenPoll "snapshot res" u64
  | GenControl "received_control option" u64
  | GenInbound "inbound_relay_packet option"
  | GenEvent "device_event option" u64

datatype 'c gen_effect =
    EndpointSet string u16
  | ControlSent "ip_addr \<times> ip_addr \<times> control_message"
  | DeviceSent "'c device_command"
  | DeviceDid "'c device_effect"

datatype gen_flow = GoOn | Leave "unit res" | Hang

section \<open>Polling\<close>

definition broker_endpoint :: "u16 \<Rightarrow> string" where
  "broker_endpoint port = ''127.0.0.1:'' @ dec_string (unat port)"

fun poll_peers ::
    "('w, 'c) gen_env \<Rightarrow> peer list \<Rightarrow> (string, u64) hashmap \<Rightarrow> (string, u64) hashmap \<times> 'c gen_effect list \<times> unit res" where
  "poll_peers env [] baselines = (baselines, [], Inr ())"
| "poll_peers env (p # ps) baselines =
     (case hm_get (ge_ports env) (p_public_key p) of
        None \<Rightarrow> poll_peers env ps baselines
      | Some port \<Rightarrow>
          let wrong = (p_endpoint p \<noteq> Some (broker_endpoint port));
              eff = (if wrong then [EndpointSet (p_public_key p) port] else []) in
          (case (if wrong then ge_set_endpoint env (p_public_key p) port else Inr ()) of
             Inl e \<Rightarrow> (baselines, eff, Inl e)
           | Inr _ \<Rightarrow>
               let baseline = (case hm_get baselines (p_public_key p) of None \<Rightarrow> 0 | Some b \<Rightarrow> b) in
               (case poll_peers env ps (hm_insert (p_public_key p) (max baseline (p_latest_handshake p)) baselines) of
                  (baselines', eff', r) \<Rightarrow> (baselines', eff @ eff', r))))"

text \<open>\<open>for session in sessions \{ device.remove(session).await?; \}\<close>\<close>

fun remove_all :: "bool \<Rightarrow> session_key list \<Rightarrow> ('w, 'c) sessions \<Rightarrow> ('w, 'c) sessions \<times> unit res" where
  "remove_all running [] ss = (ss, Inr ())"
| "remove_all running (k # ks) ss =
     (case handle_remove running k ss of
        (ss', Inl e) \<Rightarrow> (ss', Inl e)
      | (ss', Inr _) \<Rightarrow> remove_all running ks ss')"

definition gen_poll ::
    "'r deactivate_fn \<Rightarrow> ('w, 'c) gen_env \<Rightarrow> ('r, 'w, 'c) generation \<Rightarrow> snapshot res \<Rightarrow> u64
     \<Rightarrow> (('r, 'w, 'c) generation \<times> 'c gen_effect list \<times> gen_flow) exec" where
  "gen_poll deact env st read now =
     (case read of
        Inl e \<Rightarrow> Returned (st, [], Leave (Inl e))
      | Inr current \<Rightarrow>
          (case poll_peers env (s_peers current) (gn_baselines st) of
             (baselines, eff, Inl e) \<Rightarrow> Returned (st\<lparr> gn_baselines := baselines \<rparr>, eff, Leave (Inl e))
           | (baselines, eff, Inr _) \<Rightarrow>
               exec_bind (issue_hub_shortcuts (ge_hash env) (ge_hex env) (ge_rng env) (ge_send env)
                   (ct_local_public_key (gn_controller st)) (ge_addresses env) current now (gn_hub_issues st)) (\<lambda>(issues, sends).
                 let st1 = st\<lparr> gn_baselines := baselines, gn_snapshot := current, gn_hub_issues := issues \<rparr>;
                     eff1 = eff @ map ControlSent sends in
                 Returned (case controller_expire deact (gn_controller st1) now of
                     (ct, Inl e) \<Rightarrow> (st1\<lparr> gn_controller := ct \<rparr>, eff1, Leave (Inl e))
                   | (ct, Inr expired) \<Rightarrow>
                       (case remove_all (ge_device_running env) expired (ct_device ct) of
                          (dev, Inl e) \<Rightarrow> (st1\<lparr> gn_controller := ct\<lparr> ct_device := dev \<rparr> \<rparr>, eff1, Leave (Inl e))
                        | (dev, Inr _) \<Rightarrow> (st1\<lparr> gn_controller := ct\<lparr> ct_device := dev \<rparr> \<rparr>, eff1, GoOn))))))"

section \<open>Control messages\<close>

definition gen_ticket ::
    "'r deactivate_fn \<Rightarrow> ('w, 'c) gen_env \<Rightarrow> ('r, 'w, 'c) generation \<Rightarrow> ip_addr \<Rightarrow> shortcut_ticket \<Rightarrow> u64
     \<Rightarrow> ('r, 'w, 'c) generation \<times> 'c gen_effect list" where
  "gen_ticket deact env st source ticket now =
     (case route_peer (ge_contains env) (gn_snapshot st) source None of
        None \<Rightarrow> (st, [])
      | Some sender \<Rightarrow>
          if \<not> fresh_handshake (p_latest_handshake sender) now then (st, [])
          else (case controller_receive_ticket deact (ge_keyed_hash env) (ge_public env) (ge_tunn env) (ge_hash env)
                       (ge_device env) (ge_device_running env) (gn_controller st) ticket (p_public_key sender) now
                       (ge_outbound env) of
                  (ct, eff, _) \<Rightarrow> (st\<lparr> gn_controller := ct \<rparr>, map DeviceDid eff)))"

fun gen_control ::
    "'r deactivate_fn \<Rightarrow> ('w, 'c) gen_env \<Rightarrow> ('r, 'w, 'c) generation \<Rightarrow> ip_addr \<Rightarrow> control_message \<Rightarrow> u64
     \<Rightarrow> ('r, 'w, 'c) generation \<times> 'c gen_effect list" where
  "gen_control deact env st source (Keepalive True) now =
     (case find (\<lambda>a. is_ipv4 a = is_ipv4 source) (ge_addresses env) of
        None \<Rightarrow> (st, [])
      | Some local_address \<Rightarrow> (st, [ControlSent (local_address, source, Keepalive False)]))"
| "gen_control deact env st source (Keepalive False) now = (st, [])"
| "gen_control deact env st source (Ticket ticket) now = gen_ticket deact env st source ticket now"
| "gen_control deact env st source _ now = (st, [])"

section \<open>Device events\<close>

definition gen_event ::
    "'r activate_fn \<Rightarrow> 'r deactivate_fn \<Rightarrow> ('w, 'c) gen_env \<Rightarrow> ('r, 'w, 'c) generation \<Rightarrow> device_event \<Rightarrow> u64
     \<Rightarrow> ('r, 'w, 'c) generation \<times> gen_flow" where
  "gen_event act deact env st event now =
     (case event of
        SessionFailed session \<Rightarrow>
          (case controller_fail deact (gn_controller st) session of (ct, _) \<Rightarrow> (st\<lparr> gn_controller := ct \<rparr>, GoOn))
      | _ \<Rightarrow>
          (case handle_device_event act (gn_controller st) event now of
             (ct, Inr outcome) \<Rightarrow>
               (case remove_all (ge_device_running env) (eo_retired outcome) (ct_device ct) of
                  (dev, Inl e) \<Rightarrow> (st\<lparr> gn_controller := ct\<lparr> ct_device := dev \<rparr> \<rparr>, Leave (Inl e))
                | (dev, Inr _) \<Rightarrow> (st\<lparr> gn_controller := ct\<lparr> ct_device := dev \<rparr> \<rparr>, GoOn))
           | (ct, Inl e) \<Rightarrow>
               (case event of
                  AuthenticatedHandshake session \<Rightarrow>
                    (case controller_fail deact ct session of
                       (ct1, _) \<Rightarrow>
                         (case handle_remove (ge_device_running env) session (ct_device ct1) of
                            (dev, _) \<Rightarrow> (st\<lparr> gn_controller := ct1\<lparr> ct_device := dev \<rparr> \<rparr>, GoOn)))
                | _ \<Rightarrow> (st\<lparr> gn_controller := ct \<rparr>, GoOn))))"

section \<open>The loop\<close>

fun generation_step ::
    "'r activate_fn \<Rightarrow> 'r deactivate_fn \<Rightarrow> ('w, 'c) gen_env \<Rightarrow> ('r, 'w, 'c) generation \<Rightarrow> gen_input
     \<Rightarrow> (('r, 'w, 'c) generation \<times> 'c gen_effect list \<times> gen_flow) exec" where
  "generation_step act deact env st GenCancelled = Returned (st, [], Leave (Inr ()))"
| "generation_step act deact env st (GenPoll read now) = gen_poll deact env st read now"
| "generation_step act deact env st (GenControl None now) = Returned (st, [], Hang)"
| "generation_step act deact env st (GenControl (Some control) now) =
     (case gen_control deact env st (rc_source control) (rc_message control) now of
        (st', eff) \<Rightarrow> Returned (st', eff, GoOn))"
| "generation_step act deact env st (GenInbound None) = Returned (st, [], Hang)"
| "generation_step act deact env st (GenInbound (Some inbound)) =
     Returned (st,
       (case irp_channel inbound of
          ShortcutWireGuard session \<Rightarrow>
            if ge_device_running env then [DeviceSent (CmdReceive session (irp_source_key inbound) (irp_payload inbound))]
            else []
        | _ \<Rightarrow> []), GoOn)"
| "generation_step act deact env st (GenEvent None now) = Returned (st, [], Leave (Inr ()))"
| "generation_step act deact env st (GenEvent (Some event) now) =
     (case gen_event act deact env st event now of (st', fl) \<Rightarrow> Returned (st', [], fl))"

text \<open>
  After the loop: everything is cancelled, every session expires, the device is told to forget
  those that did, and then the tasks of the generation are awaited one after the other.  A task
  that never ends, although it was cancelled, is \<open>None\<close>; one that ends gives its result or, when it
  panicked, a \<open>JoinError\<close>.  A removal command is sent through the device's bounded channel; it
  returns when the device makes room or has dropped the channel, and \<open>gt_removals_return\<close> says whether
  that happens (\<open>Device_Channels\<close> shows when it does not, and when the device task never ends).
\<close>

datatype task_outcome = Joined "unit res" | JoinError

type_synonym task_end = "task_outcome option"

record gen_tasks =
  gt_removals_return :: bool
  gt_device :: task_end
  gt_control :: "task_end list"
  gt_brokers :: "task_end list"
  gt_dispatcher :: task_end
  gt_relays :: "task_end list"

datatype shutdown_effect = TasksCancelled | TaskWarned string task_outcome

definition shutdown_sessions ::
    "'r deactivate_fn \<Rightarrow> ('w, 'c) gen_env \<Rightarrow> ('r, 'w, 'c) generation
     \<Rightarrow> ('r, 'w, 'c) generation \<times> session_key list res" where
  "shutdown_sessions deact env st =
     (case controller_expire deact (gn_controller st) (- 1) of
        (ct, Inl e) \<Rightarrow> (st\<lparr> gn_controller := ct \<rparr>, Inl e)
      | (ct, Inr expired) \<Rightarrow>
          (st\<lparr> gn_controller := ct\<lparr> ct_device := fst (remove_all (ge_device_running env) expired (ct_device ct)) \<rparr> \<rparr>,
           Inr expired))"

text \<open>Awaiting a list of tasks in order, with a warning for each that did not end well when they are reported.\<close>

fun task_warning :: "string \<Rightarrow> task_outcome \<Rightarrow> shutdown_effect list" where
  "task_warning what (Joined (Inr _)) = []"
| "task_warning what outcome = [TaskWarned what outcome]"

fun await_all :: "(task_outcome \<Rightarrow> shutdown_effect list) \<Rightarrow> task_end list \<Rightarrow> shutdown_effect list option" where
  "await_all warn [] = Some []"
| "await_all warn (None # tasks) = None"
| "await_all warn (Some outcome # tasks) = map_option ((@) (warn outcome)) (await_all warn tasks)"

definition shutdown_awaits :: "gen_tasks \<Rightarrow> shutdown_effect list option" where
  "shutdown_awaits tasks =
     Option.bind (await_all (task_warning ''device'') [gt_device tasks]) (\<lambda>w1.
     Option.bind (await_all (\<lambda>_. []) (gt_control tasks)) (\<lambda>_.
     Option.bind (await_all (\<lambda>_. []) (gt_brokers tasks)) (\<lambda>_.
     Option.bind (await_all (task_warning ''dispatcher'') [gt_dispatcher tasks]) (\<lambda>w2.
     Option.bind (await_all (task_warning ''relay'') (gt_relays tasks)) (\<lambda>w3.
       Some (w1 @ w2 @ w3))))))"

text \<open>\<open>None\<close> when the shutdown never returns; the sessions of a device task that ended are gone with it.\<close>

definition generation_shutdown ::
    "'r deactivate_fn \<Rightarrow> ('w, 'c) gen_env \<Rightarrow> gen_tasks \<Rightarrow> ('r, 'w, 'c) generation
     \<Rightarrow> (('r, 'w, 'c) generation \<times> shutdown_effect list \<times> unit res) option" where
  "generation_shutdown deact env tasks st =
     (case shutdown_sessions deact env st of
        (st', Inl e) \<Rightarrow> Some (st', [TasksCancelled], Inl e)
      | (st', Inr expired) \<Rightarrow>
          if expired \<noteq> [] \<and> \<not> gt_removals_return tasks then None
          else map_option (\<lambda>warnings.
                 (st'\<lparr> gn_controller := (gn_controller st')\<lparr> ct_device := [] \<rparr> \<rparr>, TasksCancelled # warnings, Inr ()))
               (shutdown_awaits tasks))"

lemma await_all_iff: "await_all warn tasks = None \<longleftrightarrow> None \<in> set tasks"
  by (induction warn tasks rule: await_all.induct) auto

lemma shutdown_awaits_iff:
  "shutdown_awaits tasks = None \<longleftrightarrow> None \<in> set (gt_device tasks # gt_dispatcher tasks #
     gt_control tasks @ gt_brokers tasks @ gt_relays tasks)"
  unfolding shutdown_awaits_def bind_eq_None_conv
  by (auto simp: await_all_iff simp del: await_all.simps)

section \<open>What an iteration can be\<close>

lemma controller_failD:
  assumes "controller_fail deact ct k = (ct', r)"
  obtains mgr where "manager_fail deact (ct_manager ct) k = (mgr, r)" "ct' = ct\<lparr> ct_manager := mgr \<rparr>"
  using assms by (auto simp: controller_fail_def split: prod.splits)

lemma handle_device_event_keeps:
  "handle_device_event act ct ev now = (ct', r) \<Longrightarrow>
     ct_device ct' = ct_device ct \<and> ct_local_public_key ct' = ct_local_public_key ct"
  by (auto simp: handle_device_event_def split: prod.splits sum.splits)

lemma gen_poll_cases:
  assumes "gen_poll deact env st read now = Returned (st', eff, fl)"
  obtains (stopped) e where "gn_controller st' = gn_controller st" "fl = Leave (Inl e)"
  | (failed) mgr e where "manager_expire deact (ct_manager (gn_controller st)) now = (mgr, Inl e)"
      "gn_controller st' = (gn_controller st)\<lparr> ct_manager := mgr \<rparr>" "fl = Leave (Inl e)"
  | (expired) current eff1 sends mgr ks dev r where "read = Inr current" "gn_snapshot st' = current"
      "poll_peers env (s_peers current) (gn_baselines st) = (gn_baselines st', eff1, Inr ())"
      "issue_hub_shortcuts (ge_hash env) (ge_hex env) (ge_rng env) (ge_send env)
         (ct_local_public_key (gn_controller st)) (ge_addresses env) current now (gn_hub_issues st)
         = Returned (gn_hub_issues st', sends)"
      "eff = eff1 @ map ControlSent sends"
      "manager_expire deact (ct_manager (gn_controller st)) now = (mgr, Inr ks)"
      "remove_all (ge_device_running env) ks (ct_device (gn_controller st)) = (dev, r)"
      "gn_controller st' = (gn_controller st)\<lparr> ct_manager := mgr, ct_device := dev \<rparr>"
      "fl = (case r of Inl e \<Rightarrow> Leave (Inl e) | Inr _ \<Rightarrow> GoOn)"
proof (cases read)
  case (Inl e)
  with assms show ?thesis by (intro stopped) (auto simp: gen_poll_def)
next
  case (Inr current)
  obtain bl eff1 pr where pp: "poll_peers env (s_peers current) (gn_baselines st) = (bl, eff1, pr)"
    by (metis surj_pair)
  show ?thesis
  proof (cases pr)
    case (Inl e)
    with assms \<open>read = Inr current\<close> pp show ?thesis by (intro stopped) (auto simp: gen_poll_def)
  next
    case ok: (Inr u)
    obtain mgr er where ex: "manager_expire deact (ct_manager (gn_controller st)) now = (mgr, er)"
      by (rule prod.exhaust)
    obtain issues sends where hub: "issue_hub_shortcuts (ge_hash env) (ge_hex env) (ge_rng env) (ge_send env)
         (ct_local_public_key (gn_controller st)) (ge_addresses env) current now (gn_hub_issues st)
         = Returned (issues, sends)"
      using assms Inr pp ok by (auto simp: gen_poll_def exec_bind_Returned)
    show ?thesis
    proof (cases er)
      case (Inl e)
      with assms Inr pp ok hub ex \<open>read = Inr current\<close> show ?thesis
        by (intro failed [of mgr e]) (auto simp: gen_poll_def controller_expire_def Let_def)
    next
      case ks: (Inr ks)
      obtain dev r where rm: "remove_all (ge_device_running env) ks (ct_device (gn_controller st)) = (dev, r)"
        by (rule prod.exhaust)
      show ?thesis
        by (rule expired [OF Inr, of eff1 sends mgr ks dev r])
          (use assms Inr pp ok hub ex ks rm in \<open>auto simp: gen_poll_def controller_expire_def Let_def split: sum.splits\<close>)
    qed
  qed
qed

lemma gen_control_cases:
  assumes "gen_control deact env st source msg now = (st', eff)"
  obtains (quiet) "gn_controller st' = gn_controller st" "\<forall>e. DeviceDid e \<notin> set eff"
  | (ticket) ticket sender deff r where "msg = Ticket ticket"
      "route_peer (ge_contains env) (gn_snapshot st) source None = Some sender"
      "fresh_handshake (p_latest_handshake sender) now"
      "controller_receive_ticket deact (ge_keyed_hash env) (ge_public env) (ge_tunn env) (ge_hash env)
         (ge_device env) (ge_device_running env) (gn_controller st) ticket (p_public_key sender) now
         (ge_outbound env) = (gn_controller st', deff, r)"
      "eff = map DeviceDid deff"
proof (cases msg)
  case (Ticket t)
  show ?thesis
  proof (cases "\<exists>sender. route_peer (ge_contains env) (gn_snapshot st) source None = Some sender
      \<and> fresh_handshake (p_latest_handshake sender) now")
    case False
    with assms Ticket show ?thesis by (intro quiet) (auto simp: gen_ticket_def split: option.splits if_splits)
  next
    case True
    then obtain sender where s: "route_peer (ge_contains env) (gn_snapshot st) source None = Some sender"
      "fresh_handshake (p_latest_handshake sender) now" by blast
    obtain ct deff r where c: "controller_receive_ticket deact (ge_keyed_hash env) (ge_public env) (ge_tunn env)
         (ge_hash env) (ge_device env) (ge_device_running env) (gn_controller st) t (p_public_key sender) now
         (ge_outbound env) = (ct, deff, r)" by (metis surj_pair)
    show ?thesis by (rule ticket [OF Ticket s, of deff r]) (use assms Ticket s c in \<open>auto simp: gen_ticket_def\<close>)
  qed
next
  case (Keepalive b)
  with assms show ?thesis by (intro quiet) (cases b; auto split: option.splits)+
qed (use assms in \<open>auto intro: quiet\<close>)

lemma gen_event_cases:
  assumes "gen_event act deact env st ev now = (st', fl)"
  obtains (failure) k r where "ev = SessionFailed k" "fl = GoOn"
      "controller_fail deact (gn_controller st) k = (gn_controller st', r)"
  | (handled) ct outcome dev r where "\<forall>k. ev \<noteq> SessionFailed k"
      "handle_device_event act (gn_controller st) ev now = (ct, Inr outcome)"
      "remove_all (ge_device_running env) (eo_retired outcome) (ct_device ct) = (dev, r)"
      "gn_controller st' = ct\<lparr> ct_device := dev \<rparr>" "fl = (case r of Inl e \<Rightarrow> Leave (Inl e) | Inr _ \<Rightarrow> GoOn)"
  | (rejected) k ct e ct1 x where "ev = AuthenticatedHandshake k" "fl = GoOn"
      "handle_device_event act (gn_controller st) ev now = (ct, Inl e)" "controller_fail deact ct k = (ct1, x)"
      "gn_controller st' = ct1\<lparr> ct_device := fst (handle_remove (ge_device_running env) k (ct_device ct1)) \<rparr>"
proof (cases "\<exists>k. ev = SessionFailed k")
  case True
  then obtain k where k: "ev = SessionFailed k" ..
  obtain ct r where "controller_fail deact (gn_controller st) k = (ct, r)" by (rule prod.exhaust)
  with assms k show ?thesis by (intro failure [of k r]) (auto simp: gen_event_def)
next
  case False
  obtain ct er where h: "handle_device_event act (gn_controller st) ev now = (ct, er)" by (rule prod.exhaust)
  show ?thesis
  proof (cases er)
    case (Inr outcome)
    obtain dev r where "remove_all (ge_device_running env) (eo_retired outcome) (ct_device ct) = (dev, r)"
      by (rule prod.exhaust)
    with False h Inr assms show ?thesis
      by (intro handled [of ct outcome dev r]) (auto simp: gen_event_def split: device_event.splits sum.splits)
  next
    case (Inl e)
    with h obtain k where k: "ev = AuthenticatedHandshake k"
      by (cases ev) (auto simp: handle_device_event_def)
    obtain ct1 x where "controller_fail deact ct k = (ct1, x)" by (rule prod.exhaust)
    with h Inl k assms show ?thesis
      by (intro rejected [of k ct e ct1 x]) (auto simp: gen_event_def split: prod.splits)
  qed
qed

section \<open>The loop keeps the manager's invariant\<close>

context sure_routes
begin

lemma controller_receive_inv:
  assumes inv: "inv (ct_local_public_key ct) (ct_manager ct)"
    and rcv: "controller_receive_ticket deact kh pub api hash env running ct ticket sender now outbound = (ct', eff, r)"
  shows "inv (ct_local_public_key ct') (ct_manager ct') \<and> ct_local_public_key ct' = ct_local_public_key ct"
proof -
  obtain mgr pr where m: "manager_receive_ticket kh pub (ct_manager ct) ticket sender (ct_local_public_key ct) now
      = (mgr, pr)" by (rule prod.exhaust)
  note inv1 = inv_receive [OF inv m]
  have key: "ct_local_public_key ct' = ct_local_public_key ct"
    using rcv m by (auto simp: controller_receive_ticket_def split: sum.splits if_splits prod.splits)
  have "ct_manager ct' = mgr \<or> (\<exists>k x. manager_fail deact mgr k = (ct_manager ct', x))
      \<or> (\<exists>k x. mark_handshaking mgr k = (ct_manager ct', x))"
    using rcv m by (auto simp: controller_receive_ticket_def split: sum.splits if_splits prod.splits)
  with inv1 fail_inv inv_mark key show ?thesis by metis
qed

lemma controller_event_inv:
  assumes "inv local (ct_manager ct)" and "handle_device_event act ct ev now = (ct', r)"
  shows "inv local (ct_manager ct')"
proof -
  obtain mgr ar where a: "(case ev of AuthenticatedHandshake k \<Rightarrow> authenticated_handshake act (ct_manager ct) k now
      | _ \<Rightarrow> (ct_manager ct, Inr False)) = (mgr, ar)" by (rule prod.exhaust)
  have "inv local mgr" using a assms(1) inv_auth by (auto split: device_event.splits)
  moreover have "ct_manager ct' = mgr \<or> (\<exists>ks. retire_draining mgr = (ct_manager ct', ks))"
    using assms(2) a by (auto simp: handle_device_event_def split: sum.splits if_splits prod.splits)
  ultimately show ?thesis using inv_retire(1) by metis
qed

lemma gen_event_inv:
  assumes inv: "inv (ct_local_public_key (gn_controller st)) (ct_manager (gn_controller st))"
    and ev: "gen_event act deact env st e now = (st', fl)"
  shows "inv (ct_local_public_key (gn_controller st')) (ct_manager (gn_controller st'))
    \<and> ct_local_public_key (gn_controller st') = ct_local_public_key (gn_controller st)"
  using ev
proof (cases rule: gen_event_cases)
  case (failure k r)
  from controller_failD [OF failure(3)] obtain mgr where
    "manager_fail deact (ct_manager (gn_controller st)) k = (mgr, r)"
    "gn_controller st' = (gn_controller st)\<lparr> ct_manager := mgr \<rparr>" .
  with fail_inv [OF inv] show ?thesis by simp
next
  case (handled ct outcome dev r)
  with controller_event_inv [OF inv handled(2)] handle_device_event_keeps [OF handled(2)]
  show ?thesis by simp
next
  case (rejected k ct x ct1 y)
  from controller_failD [OF rejected(4)] obtain mgr where
    "manager_fail deact (ct_manager ct) k = (mgr, y)" "ct1 = ct\<lparr> ct_manager := mgr \<rparr>" .
  with fail_inv [OF controller_event_inv [OF inv rejected(3)]] rejected(5)
    handle_device_event_keeps [OF rejected(3)] show ?thesis by simp
qed

lemma gen_poll_inv:
  assumes inv: "inv (ct_local_public_key (gn_controller st)) (ct_manager (gn_controller st))"
    and poll: "gen_poll deact env st read now = Returned (st', eff, fl)"
  shows "inv (ct_local_public_key (gn_controller st')) (ct_manager (gn_controller st'))
    \<and> ct_local_public_key (gn_controller st') = ct_local_public_key (gn_controller st)"
  using poll
proof (cases rule: gen_poll_cases)
  case stopped
  with inv show ?thesis by simp
next
  case failed
  with expire_total [OF inv, of now] show ?thesis by simp
next
  case expired
  with expire_cases(2) [OF inv expired(6)] show ?thesis by simp
qed

lemma gen_control_inv:
  assumes inv: "inv (ct_local_public_key (gn_controller st)) (ct_manager (gn_controller st))"
    and control: "gen_control deact env st source message now = (st', eff)"
  shows "inv (ct_local_public_key (gn_controller st')) (ct_manager (gn_controller st'))
    \<and> ct_local_public_key (gn_controller st') = ct_local_public_key (gn_controller st)"
  using control
proof (cases rule: gen_control_cases)
  case quiet
  with inv show ?thesis by simp
next
  case ticket
  from controller_receive_inv [OF inv ticket(4)] show ?thesis .
qed

lemma generation_step_inv:
  assumes inv: "inv (ct_local_public_key (gn_controller st)) (ct_manager (gn_controller st))"
    and step: "generation_step act deact env st i = Returned (st', eff, fl)"
  shows "inv (ct_local_public_key (gn_controller st')) (ct_manager (gn_controller st'))
    \<and> ct_local_public_key (gn_controller st') = ct_local_public_key (gn_controller st)"
proof (cases i)
  case GenCancelled
  with step inv show ?thesis by simp
next
  case (GenPoll read now)
  with step show ?thesis by (intro gen_poll_inv [OF inv]) simp
next
  case (GenControl c now)
  with step inv show ?thesis by (cases c) (auto split: prod.splits dest!: gen_control_inv [OF inv])
next
  case (GenInbound p)
  with step inv show ?thesis by (cases p) auto
next
  case (GenEvent ev now)
  with step inv show ?thesis by (cases ev) (auto split: prod.splits dest!: gen_event_inv [OF inv])
qed

end

section \<open>The generation beside its device task\<close>

text \<open>
  The generation loop and the device task share the routing table and the event channel.  A state
  is the loop's state and the events that wait in the channel; a step is an iteration of the loop,
  the handling of the first event, or an iteration of the device task on a packet, a datagram or
  the timer (its other commands are the loop's own calls).  These are the states in which both go
  on: the loop has not left and the device task has not stopped.  The services in \<open>gen_env\<close> are
  functions of their arguments, the same for the whole run; the theorems hold for every such
  environment.
\<close>

fun emitted :: "'c device_effect list \<Rightarrow> device_event list" where
  "emitted [] = []"
| "emitted (Emitted ev # eff) = ev # emitted eff"
| "emitted (_ # eff) = emitted eff"

fun device_part :: "'c gen_effect list \<Rightarrow> 'c device_effect list" where
  "device_part [] = []"
| "device_part (DeviceDid e # eff) = e # device_part eff"
| "device_part (_ # eff) = device_part eff"

fun own_input :: "'c device_input \<Rightarrow> bool" where
  "own_input (DevCommand (Some (CmdReceive _ _ _))) = True"
| "own_input (DevCommand _) = False"
| "own_input _ = True"

inductive generation_reachable ::
    "'k node_routes activate_fn \<Rightarrow> 'k node_routes deactivate_fn \<Rightarrow> ('w, 'c) gen_env
     \<Rightarrow> ('k node_routes, 'w, 'c) generation \<Rightarrow> ('k node_routes, 'w, 'c) generation \<Rightarrow> device_event list \<Rightarrow> bool"
  for act deact env st0 where
  gen_start: "generation_reachable act deact env st0 st0 []"
| gen_iterate: "generation_reachable act deact env st0 st q \<Longrightarrow> \<forall>ev now. i \<noteq> GenEvent ev now \<Longrightarrow>
     generation_step act deact env st i = Returned (st', eff, GoOn) \<Longrightarrow>
     generation_reachable act deact env st0 st' (q @ emitted (device_part eff))"
| gen_take_event: "generation_reachable act deact env st0 st (ev # q) \<Longrightarrow>
     generation_step act deact env st (GenEvent (Some ev) now) = Returned (st', eff, GoOn) \<Longrightarrow>
     generation_reachable act deact env st0 st' q"
| gen_device: "generation_reachable act deact env st0 st q \<Longrightarrow> own_input di \<Longrightarrow>
     device_step (ge_tunn env) (ge_hash env) (ge_contains env) (ge_device env)
       (ar_userspace (sm_routes (ct_manager (gn_controller st)))) (ct_device (gn_controller st)) di
       = Some (dev, eff, Continue) \<Longrightarrow>
     generation_reachable act deact env st0
       (st\<lparr> gn_controller := (gn_controller st)\<lparr> ct_device := dev \<rparr> \<rparr>) (q @ emitted eff)"

text \<open>Every session the manager knows has a tunnel, or the notice of its failure is waiting.\<close>

definition tunnels :: "('r, 'w, 'c) controller \<Rightarrow> device_event list \<Rightarrow> bool" where
  "tunnels ct q \<longleftrightarrow> device_sessions_ok (ct_device ct) \<and>
     (\<forall>k. hm_get (sm_sessions (ct_manager ct)) k \<noteq> None \<longrightarrow>
        hm_get (ct_device ct) k \<noteq> None \<or> SessionFailed k \<in> set q)"

lemma tunnels_mono: "tunnels ct q \<Longrightarrow> set q \<subseteq> set q' \<Longrightarrow> tunnels ct q'"
  by (auto simp: tunnels_def)

lemma in_emitted [simp]: "ev \<in> set (emitted eff) \<longleftrightarrow> Emitted ev \<in> set eff"
  by (induction eff rule: emitted.induct) auto

lemma remove_all_get:
  "remove_all running ks ss = (ss', Inr u) \<Longrightarrow> hm_get ss' k = (if k \<in> set ks then None else hm_get ss k)"
  by (induction ks arbitrary: ss) (auto simp: handle_remove_def split: if_splits)

lemma remove_all_ok: "remove_all running ks ss = (ss', r) \<Longrightarrow> device_sessions_ok ss \<Longrightarrow> device_sessions_ok ss'"
  by (induction ks arbitrary: ss)
    (auto simp: handle_remove_def split: if_splits dest: device_sessions_ok_remove)

subsection \<open>The device task announces what it drops\<close>

lemma drive_session_lost:
  assumes "drive_session env call k rt ss = (ss', eff, r)" and "env_events_open env"
    and "hm_get ss j \<noteq> None"
  shows "hm_get ss' j \<noteq> None \<or> Emitted (SessionFailed j) \<in> set eff"
  using assms
  by (auto simp: drive_session_def fail_session_def emit_cases Let_def split: prod.splits sum.splits)

lemma handle_timer_lost:
  assumes "handle_timer api env ks ss = (ss', eff, r)" and "env_events_open env" and "hm_get ss j \<noteq> None"
  shows "hm_get ss' j \<noteq> None \<or> Emitted (SessionFailed j) \<in> set eff"
  using assms(1,3)
proof (induction ks arbitrary: ss eff)
  case (Cons k ks)
  show ?case
  proof (cases "hm_get ss k")
    case None
    with Cons show ?thesis by simp
  next
    case (Some rt)
    obtain s1 e1 r1 where d: "drive_session env (tunnel_update_timers api) k rt ss = (s1, e1, r1)"
      by (metis surj_pair)
    note lost = drive_session_lost [OF d assms(2) Cons.prems(2)]
    show ?thesis
    proof (cases r1)
      case (Inl e)
      with Cons.prems(1) Some d lost show ?thesis by auto
    next
      case (Inr u)
      with Cons.prems(1) Some d obtain e2 where h: "handle_timer api env ks s1 = (ss', e2, r)" "eff = e1 @ e2"
        by (auto split: prod.splits)
      with Cons.IH [OF h(1)] lost show ?thesis by auto
    qed
  qed
qed auto

lemma handle_receive_lost:
  assumes "handle_receive api env ss k source d = Some (ss', eff, r)" and "env_events_open env"
    and "hm_get ss j \<noteq> None"
  shows "hm_get ss' j \<noteq> None \<or> Emitted (SessionFailed j) \<in> set eff"
  using assms
  by (auto simp: handle_receive_def fail_session_def emit_cases Let_def
      split: option.splits prod.splits sum.splits if_splits)

lemma handle_tun_lost:
  assumes "handle_tun api contains env routes ss inner = (ss', eff, r)" and "env_events_open env"
    and "hm_get ss j \<noteq> None"
  shows "hm_get ss' j \<noteq> None \<or> Emitted (SessionFailed j) \<in> set eff"
  using assms drive_session_lost [OF _ assms(2,3)]
  by (auto simp: handle_tun_def split: exec.splits option.splits prod.splits)

lemma device_step_lost:
  assumes step: "device_step api hash contains env routes ss di = Some (ss', eff, Continue)" and own: "own_input di"
    and ev: "env_events_open env" and ok: "device_sessions_ok ss"
  shows "device_sessions_ok ss'
    \<and> (\<forall>j. hm_get ss j \<noteq> None \<longrightarrow> hm_get ss' j \<noteq> None \<or> Emitted (SessionFailed j) \<in> set eff)"
proof -
  have went: "\<exists>r. x = (ss', eff, r)" if "continue_or_stop x = (ss', eff, Continue)" for x
    using that by (auto simp: continue_or_stop_def split: prod.splits sum.splits)
  consider (tun) inner r where "handle_tun api contains env routes ss inner = (ss', eff, r)"
    | (datagram) k source d r where "handle_receive api env ss k source d = Some (ss', eff, r)"
    | (timer) r where "handle_timer api env (map fst ss) ss = (ss', eff, r)"
  proof (cases di)
    case (DevTun x)
    with step obtain inner where "continue_or_stop (handle_tun api contains env routes ss inner) = (ss', eff, Continue)"
      by (cases x) auto
    from went [OF this] tun show ?thesis by blast
  next
    case (DevCommand c)
    with step own obtain k source d y where "handle_receive api env ss k source d = Some y"
      and "continue_or_stop y = (ss', eff, Continue)" by (cases c; cases "the c") auto
    with went [OF this(2)] datagram show ?thesis by blast
  next
    case DevTick
    with step have "continue_or_stop (handle_timer api env (map fst ss) ss) = (ss', eff, Continue)" by simp
    from went [OF this] timer show ?thesis by blast
  qed (use step in simp)
  then show ?thesis
  proof cases
    case tun
    with handle_tun_spec(2) [OF ok tun] handle_tun_lost [OF tun ev] show ?thesis by blast
  next
    case datagram
    with handle_receive_spec(1) [OF ok datagram] handle_receive_lost [OF datagram ev] show ?thesis by blast
  next
    case timer
    with handle_timer_spec [OF ok _ timer] device_sessions_okD(1) [OF ok] handle_timer_lost [OF timer ev]
    show ?thesis by (auto simp: hm_wf_def)
  qed
qed

subsection \<open>The loop keeps tunnels and sessions together\<close>

lemma manager_fail_sessions:
  "manager_fail deact mgr k = (mgr', r) \<Longrightarrow>
     hm_get (sm_sessions mgr') j = (if j = k then None else hm_get (sm_sessions mgr) j)"
  by (auto simp: manager_fail_def Let_def split: option.splits sum.splits prod.splits if_splits)

lemma receive_rejected:
  "manager_receive_ticket kh pub mgr t sender local now = (mgr', r) \<Longrightarrow>
     (\<forall>p. r = Inr p \<longrightarrow> ps_already_present p) \<Longrightarrow> mgr' = mgr"
  by (auto simp: manager_receive_ticket_def Let_def split: sum.splits if_splits option.splits)

lemma prepare_session_keeps_ok:
  "prepare_session api hash env k keys remote c ss = (ss', eff, r) \<Longrightarrow> device_sessions_ok ss \<Longrightarrow> device_sessions_ok ss'"
  by (auto simp: prepare_session_def Let_def split: prod.splits sum.splits)

lemma mark_handshaking_sessions:
  "mark_handshaking mgr k = (mgr', r) \<Longrightarrow> hm_get (sm_sessions mgr') j \<noteq> None \<longleftrightarrow> hm_get (sm_sessions mgr) j \<noteq> None"
  by (auto simp: mark_handshaking_def split: option.splits if_splits)

lemma tunnels_receive:
  assumes t: "tunnels ct q" and ev: "env_events_open env"
    and rcv: "controller_receive_ticket deact kh pub api hash env running ct ticket sender now outbound = (ct', eff, r)"
  shows "tunnels ct' q"
proof -
  obtain mgr pr where m: "manager_receive_ticket kh pub (ct_manager ct) ticket sender (ct_local_public_key ct) now
      = (mgr, pr)" by (rule prod.exhaust)
  show ?thesis
  proof (cases "\<exists>p. pr = Inr p \<and> \<not> ps_already_present p")
    case False
    with receive_rejected [OF m] rcv m have "ct' = ct"
      by (auto simp: controller_receive_ticket_def split: sum.splits if_splits)
    with t show ?thesis by simp
  next
    case True
    then obtain p where p: "pr = Inr p" "\<not> ps_already_present p" by blast
    note F = receive_fresh [OF m [unfolded p(1)] p(2)]
    let ?k = "ticket_session ticket"
    obtain dev eff1 dr where h: "handle_prepare api hash env running ?k (derive_keys kh pub ticket)
        (t_remote_public_key ticket) outbound (ct_device ct) = (dev, eff1, dr)" by (metis surj_pair)
    have prep: "dev = ct_device ct \<and> dr \<noteq> Inr ()
        \<or> prepare_session api hash env ?k (derive_keys kh pub ticket) (t_remote_public_key ticket) outbound
            (ct_device ct) = (dev, eff1, dr)"
      using h by (auto simp: handle_prepare_def split: if_splits)
    have ok: "device_sessions_ok dev"
      using prep prepare_session_keeps_ok t by (auto simp: tunnels_def)
    have others: "hm_get dev j = hm_get (ct_device ct) j" if "j \<noteq> ?k" for j
      using prep prepare_session_ok(3) [OF _ that] by auto
    have here: "hm_get dev ?k \<noteq> None" if "dr = Inr ()"
      using prep that prepare_session_ok(1) by fastforce
    have new: "hm_get (sm_sessions mgr) j = hm_get (sm_sessions (ct_manager ct)) j" if "j \<noteq> ?k" for j
      using that F(2) by simp
    have "device_sessions_ok (ct_device ct') \<and> ct_device ct' = dev
        \<and> (if dr = Inr () then (\<exists>y. mark_handshaking mgr ?k = (ct_manager ct', y))
           else (\<exists>y. manager_fail deact mgr ?k = (ct_manager ct', y)))"
      using rcv m p F(3,4) h ok
      by (cases dr) (auto simp: controller_receive_ticket_def split: sum.splits prod.splits)
    then have dev': "ct_device ct' = dev" and mgr': "j \<noteq> ?k \<Longrightarrow> hm_get (sm_sessions (ct_manager ct')) j \<noteq> None \<Longrightarrow>
        hm_get (sm_sessions mgr) j \<noteq> None" "dr \<noteq> Inr () \<Longrightarrow> hm_get (sm_sessions (ct_manager ct')) ?k = None" for j
      using mark_handshaking_sessions manager_fail_sessions by (metis, metis, metis)
    have "hm_get dev j \<noteq> None \<or> SessionFailed j \<in> set q" if "hm_get (sm_sessions (ct_manager ct')) j \<noteq> None" for j
    proof (cases "j = ?k")
      case True
      with that mgr'(2) here show ?thesis by metis
    next
      case False
      with that mgr'(1) new others t show ?thesis by (simp add: tunnels_def)
    qed
    with ok dev' show ?thesis by (simp add: tunnels_def)
  qed
qed

lemma expire_routes_sessions: "expire_routes deact mgr es = (mgr', r) \<Longrightarrow> sm_sessions mgr' = sm_sessions mgr"
  by (induction es arbitrary: mgr) (auto simp: Let_def split: option.splits if_splits sum.splits prod.splits)

lemma expire_sessions:
  assumes "manager_expire deact mgr now = (mgr', r)"
  shows "hm_get (sm_sessions mgr') j = (case r of Inl e \<Rightarrow> hm_get (sm_sessions mgr) j
    | Inr ks \<Rightarrow> if j \<in> set ks then None else hm_get (sm_sessions mgr) j)"
proof -
  obtain m1 r1 where e: "expire_routes deact mgr (expired_sessions mgr now) = (m1, r1)" by (rule prod.exhaust)
  with assms have "(\<exists>e. r = Inl e \<and> mgr' = m1) \<or> (\<exists>ks. r = Inr ks \<and> mgr' = remove_sessions ks m1)"
    by (auto simp: manager_expire_def Let_def split: sum.splits)
  with expire_routes_sessions [OF e] show ?thesis by (auto simp: remove_sessions_def fold_remove_get)
qed

lemma authenticated_sessions:
  assumes "authenticated_handshake act mgr k now = (mgr', r)"
  shows "hm_get (sm_sessions mgr') j \<noteq> None \<longleftrightarrow> hm_get (sm_sessions mgr) j \<noteq> None"
  using assms
  by (auto simp: authenticated_handshake_def set_phase_get Let_def
      split: option.splits if_splits sum.splits prod.splits)

lemma handle_device_event_sessions:
  assumes h: "handle_device_event act ct ev now = (ct', r)" and j: "hm_get (sm_sessions (ct_manager ct')) j \<noteq> None"
  shows "hm_get (sm_sessions (ct_manager ct)) j \<noteq> None \<and> (\<forall>outcome. r = Inr outcome \<longrightarrow> j \<notin> set (eo_retired outcome))"
proof -
  obtain mgr ar where a: "(case ev of AuthenticatedHandshake k \<Rightarrow> authenticated_handshake act (ct_manager ct) k now
      | _ \<Rightarrow> (ct_manager ct, Inr False)) = (mgr, ar)" by (rule prod.exhaust)
  have same: "hm_get (sm_sessions mgr) j \<noteq> None \<longleftrightarrow> hm_get (sm_sessions (ct_manager ct)) j \<noteq> None"
  proof (cases "\<exists>k. ev = AuthenticatedHandshake k")
    case True
    with a obtain k where "authenticated_handshake act (ct_manager ct) k now = (mgr, ar)" by auto
    then show ?thesis by (rule authenticated_sessions)
  next
    case False
    with a show ?thesis by (cases ev) simp_all
  qed
  show ?thesis
  proof (cases "ar = Inr True")
    case False
    then have "ct_manager ct' = mgr \<and> (\<forall>outcome. r = Inr outcome \<longrightarrow> eo_retired outcome = [])"
      using h a by (cases ar) (auto simp: handle_device_event_def)
    with same j show ?thesis by simp
  next
    case True
    obtain mgr2 ks where rt: "retire_draining mgr = (mgr2, ks)" by (rule prod.exhaust)
    have "ct_manager ct' = mgr2" "r = Inr \<lparr> eo_activated = True, eo_retired = ks \<rparr>"
      using h a True rt by (auto simp: handle_device_event_def)
    moreover have "hm_get (sm_sessions mgr2) j = (if j \<in> set ks then None else hm_get (sm_sessions mgr) j)"
      using rt by (auto simp: retire_draining_def remove_sessions_def fold_remove_get Let_def)
    ultimately show ?thesis using j same by (auto split: if_splits)
  qed
qed

lemma tunnels_event:
  assumes t: "tunnels (gn_controller st) (ev # q)" and g: "gen_event act deact env st ev now = (st', GoOn)"
  shows "tunnels (gn_controller st') q"
  using g
proof (cases rule: gen_event_cases)
  case (failure k r)
  obtain mgr where "manager_fail deact (ct_manager (gn_controller st)) k = (mgr, r)"
    "gn_controller st' = (gn_controller st)\<lparr> ct_manager := mgr \<rparr>" using controller_failD [OF failure(3)] .
  with t failure(1) manager_fail_sessions [OF this(1)] show ?thesis by (auto simp: tunnels_def split: if_splits)
next
  case (handled ct outcome dev r)
  then obtain u where r: "r = Inr u" by (cases r) auto
  note D = handle_device_event_keeps [OF handled(2)]
  have "hm_get dev j \<noteq> None \<or> SessionFailed j \<in> set q" if "hm_get (sm_sessions (ct_manager ct)) j \<noteq> None" for j
    using handle_device_event_sessions [OF handled(2) that] t handled(1) D
      remove_all_get [OF handled(3) [unfolded r], of j] by (auto simp: tunnels_def)
  with handled(4) remove_all_ok [OF handled(3)] D t show ?thesis by (auto simp: tunnels_def)
next
  case (rejected k ct e ct1 x)
  obtain mgr where f: "manager_fail deact (ct_manager ct) k = (mgr, x)" and ct1: "ct1 = ct\<lparr> ct_manager := mgr \<rparr>"
    using controller_failD [OF rejected(4)] .
  note D = handle_device_event_keeps [OF rejected(3)]
  have get: "j \<noteq> k \<and> hm_get (sm_sessions (ct_manager (gn_controller st))) j \<noteq> None"
    if "hm_get (sm_sessions mgr) j \<noteq> None" for j
    using that manager_fail_sessions [OF f, of j] handle_device_event_sessions [OF rejected(3), of j]
    by (auto split: if_splits)
  have dev: "device_sessions_ok (ct_device (gn_controller st')) \<and>
      (j \<noteq> k \<longrightarrow> hm_get (ct_device (gn_controller st')) j = hm_get (ct_device (gn_controller st)) j)" for j
    using rejected(5) D ct1 t by (auto simp: handle_remove_def tunnels_def)
  have mgr: "ct_manager (gn_controller st') = mgr" using rejected(5) ct1 by simp
  show ?thesis
    unfolding tunnels_def
  proof (intro conjI allI impI)
    show "device_sessions_ok (ct_device (gn_controller st'))" using dev by blast
    fix j assume "hm_get (sm_sessions (ct_manager (gn_controller st'))) j \<noteq> None"
    with get mgr have j: "j \<noteq> k" "hm_get (sm_sessions (ct_manager (gn_controller st))) j \<noteq> None" by auto
    with t rejected(1) dev show "hm_get (ct_device (gn_controller st')) j \<noteq> None \<or> SessionFailed j \<in> set q"
      by (auto simp: tunnels_def)
  qed
qed

lemma tunnels_step:
  assumes t: "tunnels (gn_controller st) q" and ev: "env_events_open (ge_device env)"
    and i: "\<forall>ev now. i \<noteq> GenEvent ev now"
    and step: "generation_step act deact env st i = Returned (st', eff, GoOn)"
  shows "tunnels (gn_controller st') q"
proof (cases i)
  case (GenPoll read now)
  with step have "gen_poll deact env st read now = Returned (st', eff, GoOn)" by simp
  then show ?thesis
  proof (cases rule: gen_poll_cases)
    case (expired current eff1 sends mgr ks dev r)
    then obtain u where r: "r = Inr u" by (cases r) auto
    have "hm_get dev j \<noteq> None \<or> SessionFailed j \<in> set q" if "hm_get (sm_sessions mgr) j \<noteq> None" for j
      using that t expire_sessions [OF expired(6), of j] remove_all_get [OF expired(7) [unfolded r], of j]
      by (auto simp: tunnels_def split: if_splits)
    with expired(8) remove_all_ok [OF expired(7)] t show ?thesis by (auto simp: tunnels_def)
  qed simp_all
next
  case (GenControl c now)
  show ?thesis
  proof (cases c)
    case (Some rc)
    with step GenControl have "gen_control deact env st (rc_source rc) (rc_message rc) now = (st', eff)"
      by (auto split: prod.splits)
    then show ?thesis
    proof (cases rule: gen_control_cases)
      case quiet
      with t show ?thesis by simp
    next
      case ticket
      show ?thesis by (rule tunnels_receive [OF t ev ticket(4)])
    qed
  qed (use step GenControl in simp)
next
  case (GenInbound p)
  with step t show ?thesis by (cases p) auto
qed (use i step in auto)

lemma reachable_tunnels:
  assumes "generation_reachable act deact env st0 st q" and ev: "env_events_open (ge_device env)"
    and st0: "tunnels (gn_controller st0) []"
  shows "tunnels (gn_controller st) q"
  using assms(1)
proof induction
  case gen_start
  show ?case by (rule st0)
next
  case (gen_iterate st q i st' eff)
  from tunnels_step [OF gen_iterate(4) ev gen_iterate(2,3)] show ?case by (rule tunnels_mono) simp
next
  case (gen_take_event st e q now st' eff)
  then have "gen_event act deact env st e now = (st', GoOn)" by (auto split: prod.splits)
  from tunnels_event [OF gen_take_event(3) this] show ?case .
next
  case (gen_device st q di dev eff)
  have "device_sessions_ok (ct_device (gn_controller st))" using gen_device(4) by (simp add: tunnels_def)
  note lost = device_step_lost [OF gen_device(3,2) ev this]
  have "hm_get dev k \<noteq> None \<or> SessionFailed k \<in> set (q @ emitted eff)"
    if "hm_get (sm_sessions (ct_manager (gn_controller st))) k \<noteq> None" for k
    using that lost gen_device(4) unfolding tunnels_def set_append Un_iff in_emitted by blast
  with lost show ?case by (simp add: tunnels_def)
qed

section \<open>The generation on a node\<close>

lemma reachable_ready:
  assumes tool: "ip_tool ip hash ns sp rules" and k0: "rules k0 = {}"
    and del: "\<And>k s. \<exists>k'. policy_remove ip hash ns sp k s = (k', Inr ())"
    and start: "gn_controller st0 = controller_new local (manager_new (atomic_new device_routes_default k0)) []"
    and reach: "generation_reachable (node_activate ip hash ns sp) (node_deactivate ip hash ns sp) env st0 st q"
  shows "manager_inv (\<lambda>a. device_table (ar_userspace a)) (ready_inv rules)
      (ct_local_public_key (gn_controller st)) (ct_manager (gn_controller st))
    \<and> ct_local_public_key (gn_controller st) = local"
  using reach
proof induction
  case gen_start
  have "ready_inv rules (atomic_new device_routes_default k0)"
    "device_table (ar_userspace (atomic_new device_routes_default k0)) = Map.empty"
    using k0 by (simp_all add: ready_inv_def atomic_inv_def atomic_new_def device_routes_default_def)
  from route_manager.inv_new [OF sure_routes.axioms(1) [OF ip_tool.node_sure [OF tool del]] this]
  show ?case by (simp add: start controller_new_def)
next
  case gen_iterate
  with sure_routes.generation_step_inv [OF ip_tool.node_sure [OF tool del] _ gen_iterate(3)] show ?case by blast
next
  case gen_take_event
  with sure_routes.generation_step_inv [OF ip_tool.node_sure [OF tool del] _ gen_take_event(2)] show ?case by blast
next
  case (gen_device st q di dev eff)
  from gen_device.IH show ?case by auto
qed

lemma controller_receive_admits:
  assumes rcv: "controller_receive_ticket deact kh pub api hash env running ct ticket sender now outbound = (ct', eff, r)"
    and new: "hm_get (sm_sessions (ct_manager ct)) k = None" "hm_get (sm_sessions (ct_manager ct')) k = Some m"
  shows "k = ticket_session ticket \<and> ms_ticket m = ticket \<and> validate ticket now = Inr ()
    \<and> t_issuer_public_key ticket = sender \<and> t_recipient_public_key ticket = ct_local_public_key ct"
proof -
  obtain mgr pr where r: "manager_receive_ticket kh pub (ct_manager ct) ticket sender (ct_local_public_key ct) now
      = (mgr, pr)" by (rule prod.exhaust)
  have fresh: "\<exists>p. pr = Inr p \<and> \<not> ps_already_present p"
  proof (rule ccontr)
    assume "\<not> ?thesis"
    with receive_rejected [OF r] rcv r have "ct' = ct"
      by (auto simp: controller_receive_ticket_def split: sum.splits if_splits)
    with new show False by simp
  qed
  then obtain p where p: "pr = Inr p" "\<not> ps_already_present p" by blast
  note F = receive_fresh [OF r [unfolded p(1)] p(2)]
  have checks: "validate ticket now = Inr ()" "t_issuer_public_key ticket = sender"
    "t_recipient_public_key ticket = ct_local_public_key ct"
    using r p by (auto simp: manager_receive_ticket_def Let_def split: sum.splits if_splits option.splits)
  have "(\<exists>y. mark_handshaking mgr (ps_session p) = (ct_manager ct', y))
      \<or> (\<exists>y. manager_fail deact mgr (ps_session p) = (ct_manager ct', y))"
    using rcv r p by (auto simp: controller_receive_ticket_def split: sum.splits prod.splits)
  then show ?thesis
  proof (elim disjE exE)
    fix y assume mk: "mark_handshaking mgr (ps_session p) = (ct_manager ct', y)"
    have "hm_get (sm_sessions mgr) (ticket_session ticket) = Some \<lparr> ms_ticket = ticket, ms_phase = Prepared \<rparr>"
      by (simp add: F(2))
    with mk F(3) have "fst (ct_manager ct', y) = mgr\<lparr> sm_sessions := hm_insert (ticket_session ticket)
        \<lparr> ms_ticket = ticket, ms_phase = Handshaking \<rparr> (sm_sessions mgr) \<rparr>"
      by (simp add: mark_handshaking_def flip: mk)
    with new checks F(2) show ?thesis by (auto split: if_splits)
  next
    fix y assume "manager_fail deact mgr (ps_session p) = (ct_manager ct', y)"
    from manager_fail_sessions [OF this, of k] new F(2,3) show ?thesis by (simp split: if_splits)
  qed
qed

section \<open>Properties\<close>

text \<open>Nothing but a control datagram adds a session.\<close>

lemma generation_step_sessions:
  assumes step: "generation_step act deact env st i = Returned (st', eff, fl)" and i: "\<forall>c now. i \<noteq> GenControl c now"
    and j: "hm_get (sm_sessions (ct_manager (gn_controller st'))) j \<noteq> None"
  shows "hm_get (sm_sessions (ct_manager (gn_controller st))) j \<noteq> None"
proof (cases i)
  case (GenPoll read now)
  with step have "gen_poll deact env st read now = Returned (st', eff, fl)" by simp
  then show ?thesis
    by (cases rule: gen_poll_cases) (use j expire_sessions [of deact "ct_manager (gn_controller st)" now]
      in \<open>auto split: if_splits\<close>)
next
  case (GenEvent ev now)
  show ?thesis
  proof (cases ev)
    case (Some e)
    with step GenEvent have "gen_event act deact env st e now = (st', fl)" by (auto split: prod.splits)
    then show ?thesis
    proof (cases rule: gen_event_cases)
      case (failure k r)
      obtain mgr where "manager_fail deact (ct_manager (gn_controller st)) k = (mgr, r)"
        "gn_controller st' = (gn_controller st)\<lparr> ct_manager := mgr \<rparr>" using controller_failD [OF failure(3)] .
      with j manager_fail_sessions [OF this(1), of j] show ?thesis by (auto split: if_splits)
    next
      case (handled ct outcome dev r)
      with handle_device_event_sessions [OF handled(2), of j] j show ?thesis by simp
    next
      case (rejected k ct x ct1 y)
      obtain mgr where "manager_fail deact (ct_manager ct) k = (mgr, y)" "ct1 = ct\<lparr> ct_manager := mgr \<rparr>"
        using controller_failD [OF rejected(4)] .
      with manager_fail_sessions [OF this(1), of j] handle_device_event_sessions [OF rejected(3), of j] rejected(5) j
      show ?thesis by (auto split: if_splits)
    qed
  qed (use step GenEvent j in auto)
next
  case (GenInbound p)
  with step j show ?thesis by (cases p) auto
qed (use i step j in auto)

text \<open>
  No black hole: in every state a generation can reach, with its loop, its device task and the
  event channel interleaved in any order, a selector is routed to a session exactly when that
  session is active for it; the kernel diverts only selectors that are routed; and every session
  the node knows, so every routed one, has a live tunnel in the device or the notice of its
  failure is waiting in the channel.  Rules can be deleted throughout.
\<close>

theorem generation_no_black_hole:
  assumes tool: "ip_tool ip hash ns sp rules" and k0: "rules k0 = {}"
    and del: "\<And>k s. \<exists>k'. policy_remove ip hash ns sp k s = (k', Inr ())"
    and ev: "env_events_open (ge_device env)"
    and start: "gn_controller st0 = controller_new local (manager_new (atomic_new device_routes_default k0)) []"
    and reach: "generation_reachable (node_activate ip hash ns sp) (node_deactivate ip hash ns sp) env st0 st q"
    and mgr: "mgr = ct_manager (gn_controller st)"
  shows "(\<forall>sel k. node_table mgr sel = Some (RouteTarget k) \<longleftrightarrow>
      (\<exists>m. hm_get (sm_sessions mgr) k = Some m \<and> ms_phase m = Active \<and> t_selector (ms_ticket m) = sel))
    \<and> node_rules rules mgr \<subseteq> dom (node_table mgr)
    \<and> (\<forall>k. hm_get (sm_sessions mgr) k \<noteq> None \<longrightarrow>
         hm_get (ct_device (gn_controller st)) k \<noteq> None \<or> SessionFailed k \<in> set q)"
proof -
  have inv: "manager_inv (\<lambda>a. device_table (ar_userspace a)) (atomic_inv device_table rules) local mgr"
    using reachable_ready [OF tool k0 del start reach] ready_manager_inv by (auto simp: mgr)
  have "tunnels (gn_controller st0) []"
    by (simp add: start tunnels_def controller_new_def manager_new_def device_sessions_ok_def)
  from reachable_tunnels [OF reach ev this] have t: "tunnels (gn_controller st) q" .
  have "atomic_inv device_table rules (sm_routes mgr)" by (rule manager_invD(1) [OF inv])
  with ip_tool.node_table_iff [OF tool inv] t show ?thesis
    unfolding atomic_inv_def tunnels_def mgr by blast
qed

text \<open>
  C10.  Admission: the only input that adds a session is a ticket in a control datagram, and only
  when the datagram's source address is routed, by the longest matching allowed network of the
  latest snapshot, to a peer that completed a handshake at most 180 seconds ago and is the ticket's
  issuer, the ticket is addressed to this node, and \<open>validate\<close> accepts it at that moment.
\<close>

theorem session_needs_authenticated_ticket:
  assumes step: "generation_step act deact env st i = Returned (st', eff, fl)"
    and old: "hm_get (sm_sessions (ct_manager (gn_controller st))) k = None"
    and new: "hm_get (sm_sessions (ct_manager (gn_controller st'))) k = Some m"
  shows "\<exists>c t now sender net. i = GenControl (Some c) now \<and> rc_message c = Ticket t
    \<and> k = ticket_session t \<and> ms_ticket m = t \<and> validate t now = Inr ()
    \<and> t_recipient_public_key t = ct_local_public_key (gn_controller st)
    \<and> sender \<in> set (s_peers (gn_snapshot st)) \<and> t_issuer_public_key t = p_public_key sender
    \<and> net \<in> set (p_allowed_ips sender) \<and> ge_contains env net (rc_source c)
    \<and> (\<forall>p n. p \<in> set (s_peers (gn_snapshot st)) \<and> n \<in> set (p_allowed_ips p) \<and> ge_contains env n (rc_source c) \<longrightarrow>
         prefix_len n \<le> prefix_len net)
    \<and> p_latest_handshake sender \<noteq> 0 \<and> unat now \<le> unat (p_latest_handshake sender) + 180"
proof -
  have "\<exists>c now. i = GenControl c now" using generation_step_sessions [OF step] old new by fastforce
  then have "\<exists>c now. i = GenControl (Some c) now \<and> gen_control deact env st (rc_source c) (rc_message c) now = (st', eff)"
    using step old new by (auto split: prod.splits elim!: generation_step.elims)
  then obtain c now where i: "i = GenControl (Some c) now"
    and g: "gen_control deact env st (rc_source c) (rc_message c) now = (st', eff)" by blast
  from g show ?thesis
  proof (cases rule: gen_control_cases)
    case quiet
    with old new show ?thesis by simp
  next
    case (ticket t sender deff r)
    have "lpm_choice (ge_contains env) (s_peers (gn_snapshot st)) (rc_source c) None sender"
      using ticket(2) unfolding route_peer_def by (rule longest_matching_prefix_Some)
    then obtain net where net: "sender \<in> set (s_peers (gn_snapshot st))" "net \<in> set (p_allowed_ips sender)"
      "ge_contains env net (rc_source c)"
      "\<forall>p n. p \<in> set (s_peers (gn_snapshot st)) \<and> n \<in> set (p_allowed_ips p) \<and> ge_contains env n (rc_source c) \<longrightarrow>
         prefix_len n \<le> prefix_len net"
      by (auto simp: lpm_choice_def eligible_def)
    have fresh: "p_latest_handshake sender \<noteq> 0 \<and> unat now \<le> unat (p_latest_handshake sender) + 180"
      using ticket(3) by (auto simp: fresh_handshake_def hub_consts word_le_nat_alt wnat)
    from controller_receive_admits [OF ticket(4) old new] net fresh i ticket(1) show ?thesis by auto
  qed
qed

text \<open>
  C11.  Shutdown, when the kernel lets the node delete its rules: in any state the generation can
  reach, cancelling it expires exactly the sessions the node knows and leaves no session, an empty
  routing table and no rule of the node in the kernel, before any task is awaited.  The shutdown
  then returns exactly if the removal commands are taken and the device task, the control tasks,
  the brokers, the dispatcher and the relays all end; if it returns, it reports success and no
  tunnel is left.  (When a rule cannot be deleted, \<open>expire(u64::MAX)?\<close> returns the error at once and
  no task is awaited; a device task that is blocked on a full event channel never ends.)
\<close>

theorem generation_shutdown_cleans:
  assumes tool: "ip_tool ip hash ns sp rules" and k0: "rules k0 = {}"
    and del: "\<And>k s. \<exists>k'. policy_remove ip hash ns sp k s = (k', Inr ())"
    and start: "gn_controller st0 = controller_new local (manager_new (atomic_new device_routes_default k0)) []"
    and reach: "generation_reachable (node_activate ip hash ns sp) (node_deactivate ip hash ns sp) env st0 st q"
  shows "\<exists>st1 expired mgr1. shutdown_sessions (node_deactivate ip hash ns sp) env st = (st1, Inr expired)
    \<and> mgr1 = ct_manager (gn_controller st1)
    \<and> set expired = {k. hm_get (sm_sessions (ct_manager (gn_controller st))) k \<noteq> None}
    \<and> (\<forall>k. hm_get (sm_sessions mgr1) k = None) \<and> node_table mgr1 = Map.empty \<and> node_rules rules mgr1 = {}
    \<and> (if (expired = [] \<or> gt_removals_return tasks)
           \<and> None \<notin> set (gt_device tasks # gt_dispatcher tasks # gt_control tasks @ gt_brokers tasks @ gt_relays tasks)
       then \<exists>warnings st'. generation_shutdown (node_deactivate ip hash ns sp) env tasks st
                = Some (st', TasksCancelled # warnings, Inr ())
              \<and> ct_manager (gn_controller st') = mgr1 \<and> ct_device (gn_controller st') = []
       else generation_shutdown (node_deactivate ip hash ns sp) env tasks st = None)"
proof -
  let ?mgr = "ct_manager (gn_controller st)" and ?ct = "gn_controller st"
  note R = reachable_ready [OF tool k0 del start reach]
  then have ready: "manager_inv (\<lambda>a. device_table (ar_userspace a)) (ready_inv rules) local ?mgr" by auto
  note inv = ready_manager_inv [OF ready]
  obtain mgr' ks where ex: "manager_expire (node_deactivate ip hash ns sp) ?mgr (- 1) = (mgr', Inr ks)"
    using sure_routes.expire_total [OF ip_tool.node_sure [OF tool del] ready] by blast
  note E = ip_tool.node_expire_exact [OF tool inv ex]
  define st1 where "st1 = st\<lparr> gn_controller := ?ct\<lparr> ct_manager := mgr',
      ct_device := fst (remove_all (ge_device_running env) ks (ct_device ?ct)) \<rparr> \<rparr>"
  have sh: "shutdown_sessions (node_deactivate ip hash ns sp) env st = (st1, Inr ks)"
    by (simp add: shutdown_sessions_def controller_expire_def ex st1_def)
  have mgr1: "ct_manager (gn_controller st1) = mgr'" by (simp add: st1_def)
  have none: "hm_get (sm_sessions mgr') k = None" for k unfolding E(1) by (simp split: option.splits)
  note inv' = route_manager.expire_cases(2) [OF sure_routes.axioms(1) [OF ip_tool.node_sure [OF tool del]] ready ex]
  have table: "node_table mgr' sel = None" for sel
  proof (cases "node_table mgr' sel")
    case (Some t)
    then obtain k where "node_table mgr' sel = Some (RouteTarget k)" by (cases t) simp
    then show ?thesis using ip_tool.node_table_iff [OF tool ready_manager_inv [OF inv']] none by simp
  qed simp
  have rules: "node_rules rules mgr' = {}"
    using manager_invD(1) [OF ready_manager_inv [OF inv']] table by (auto simp: atomic_inv_def dom_def)
  have all: "set ks = {k. hm_get (sm_sessions ?mgr) k \<noteq> None}" using E(2) by auto
  show ?thesis
    using sh all none table rules mgr1 shutdown_awaits_iff [of tasks]
    by (intro exI [of _ st1] exI [of _ ks] exI [of _ mgr'])
       (auto simp: generation_shutdown_def fun_eq_iff)
qed

lemma poll_peers_Cons:
  assumes "poll_peers env (a # ps) bl = (bl', eff, Inr u)"
  obtains (unmanaged) "hm_get (ge_ports env) (p_public_key a) = None" "poll_peers env ps bl = (bl', eff, Inr u)"
  | (managed) port bl1 eff1 where "hm_get (ge_ports env) (p_public_key a) = Some port"
      "poll_peers env ps bl1 = (bl', eff1, Inr u)"
      "eff = (if p_endpoint a \<noteq> Some (broker_endpoint port) then [EndpointSet (p_public_key a) port] else []) @ eff1"
      "p_endpoint a \<noteq> Some (broker_endpoint port) \<longrightarrow> ge_set_endpoint env (p_public_key a) port = Inr ()"
proof (cases "hm_get (ge_ports env) (p_public_key a)")
  case None
  with assms show ?thesis by (intro unmanaged) auto
next
  case (Some port)
  obtain bl2 eff1 r where "poll_peers env ps (hm_insert (p_public_key a) (max
      (case hm_get bl (p_public_key a) of None \<Rightarrow> 0 | Some b \<Rightarrow> b) (p_latest_handshake a)) bl) = (bl2, eff1, r)"
    by (metis surj_pair)
  with assms Some show ?thesis
    by (intro managed [OF Some, of _ eff1]) (auto simp: Let_def split: sum.splits if_splits)
qed

lemma poll_peers_covers:
  "poll_peers env ps bl = (bl', eff, Inr u) \<Longrightarrow> p \<in> set ps \<Longrightarrow> hm_get (ge_ports env) (p_public_key p) = Some port \<Longrightarrow>
     p_endpoint p = Some (broker_endpoint port) \<or> EndpointSet (p_public_key p) port \<in> set eff"
proof (induction ps arbitrary: bl eff)
  case (Cons a ps)
  from Cons.prems(1) show ?case
  proof (cases rule: poll_peers_Cons)
    case unmanaged
    with Cons.IH [OF unmanaged(2)] Cons.prems show ?thesis by auto
  next
    case (managed q bl1 eff1)
    with Cons.IH [OF managed(2)] Cons.prems(2,3) show ?thesis by auto
  qed
qed simp

lemma poll_peers_sets:
  "poll_peers env ps bl = (bl', eff, Inr u) \<Longrightarrow> EndpointSet key port \<in> set eff \<Longrightarrow>
     hm_get (ge_ports env) key = Some port \<and> ge_set_endpoint env key port = Inr ()
     \<and> (\<exists>p\<in>set ps. p_public_key p = key \<and> p_endpoint p \<noteq> Some (broker_endpoint port))"
proof (induction ps arbitrary: bl eff)
  case (Cons a ps)
  from Cons.prems(1) show ?case
  proof (cases rule: poll_peers_Cons)
    case unmanaged
    with Cons.IH [OF unmanaged(2)] Cons.prems show ?thesis by auto
  next
    case (managed q bl1 eff1)
    with Cons.IH [OF managed(2)] Cons.prems(2) show ?thesis by (auto split: if_splits)
  qed
qed simp

text \<open>
  C26.  Upkeep: a poll that goes on leaves exactly the sessions whose lease has not ended, drops the
  tunnels of the others (the removals are commands, which the device takes in order before any
  later one; they are applied here when they are sent), and sees to it that WireGuard sends every managed peer's packets to that
  peer's broker port: it sets the endpoint of exactly the managed peers whose endpoint is another.
\<close>

theorem poll_upkeep:
  assumes step: "generation_step act deact env st (GenPoll read now) = Returned (st', eff, GoOn)"
    and wf: "hm_wf (sm_sessions (ct_manager (gn_controller st)))"
  shows "\<exists>current. read = Inr current \<and> gn_snapshot st' = current
    \<and> (\<forall>k. hm_get (sm_sessions (ct_manager (gn_controller st'))) k =
         (case hm_get (sm_sessions (ct_manager (gn_controller st))) k of None \<Rightarrow> None
          | Some m \<Rightarrow> if now < t_expires_at (ms_ticket m) then Some m else None))
    \<and> (\<forall>k m. hm_get (sm_sessions (ct_manager (gn_controller st))) k = Some m \<and> t_expires_at (ms_ticket m) \<le> now \<longrightarrow>
         hm_get (ct_device (gn_controller st')) k = None)
    \<and> (\<forall>key port. EndpointSet key port \<in> set eff \<longleftrightarrow> hm_get (ge_ports env) key = Some port
         \<and> (\<exists>p\<in>set (s_peers current). p_public_key p = key \<and> p_endpoint p \<noteq> Some (broker_endpoint port)))"
proof -
  from step have "gen_poll deact env st read now = Returned (st', eff, GoOn)" by simp
  then show ?thesis
  proof (cases rule: gen_poll_cases)
    case (expired current eff1 sends mgr ks dev r)
    then obtain u where r: "r = Inr u" by (cases r) auto
    have ks: "ks = expired_sessions (ct_manager (gn_controller st)) now"
      using expired(6) by (auto simp: manager_expire_def Let_def split: prod.splits sum.splits)
    note in_ks = in_expired_sessions [OF wf, of _ now, folded ks]
    note E = expire_sessions [OF expired(6)]
    have sess: "hm_get (sm_sessions mgr) k = (case hm_get (sm_sessions (ct_manager (gn_controller st))) k of None \<Rightarrow> None
        | Some m \<Rightarrow> if now < t_expires_at (ms_ticket m) then Some m else None)" for k
      using E [of k] in_ks [of k] by (auto split: option.splits simp: not_le not_less)
    have dev: "hm_get dev k = None" if "hm_get (sm_sessions (ct_manager (gn_controller st))) k = Some m"
      "t_expires_at (ms_ticket m) \<le> now" for k m
      using remove_all_get [OF expired(7) [unfolded r], of k] in_ks [of k] that by simp
    have "EndpointSet key port \<in> set eff1 \<longleftrightarrow> hm_get (ge_ports env) key = Some port
         \<and> (\<exists>p\<in>set (s_peers current). p_public_key p = key \<and> p_endpoint p \<noteq> Some (broker_endpoint port))" for key port
      using poll_peers_covers [OF expired(3)] poll_peers_sets [OF expired(3)] by blast
    moreover have "EndpointSet key port \<in> set eff \<longleftrightarrow> EndpointSet key port \<in> set eff1" for key port
      using expired(5) by auto
    ultimately show ?thesis using expired(1,2,8) sess dev by (intro exI [of _ current]) auto
  qed simp_all
qed

text \<open>
  A failure notice names a session, not a tunnel: handling it forgets the session and leaves the
  device as it is, also when the device has a newer tunnel under the same name.
\<close>

lemma failure_notice_keeps_device:
  assumes "generation_step act deact env st (GenEvent (Some (SessionFailed k)) now) = Returned (st', eff, fl)"
  shows "hm_get (sm_sessions (ct_manager (gn_controller st'))) k = None"
    and "ct_device (gn_controller st') = ct_device (gn_controller st)"
proof -
  from assms have "gen_event act deact env st (SessionFailed k) now = (st', fl)" by (auto split: prod.splits)
  then obtain r where f: "controller_fail deact (gn_controller st) k = (gn_controller st', r)"
    by (cases rule: gen_event_cases) auto
  obtain mgr where "manager_fail deact (ct_manager (gn_controller st)) k = (mgr, r)"
    "gn_controller st' = (gn_controller st)\<lparr> ct_manager := mgr \<rparr>" using controller_failD [OF f] .
  with manager_fail_sessions [OF this(1), of k]
  show "hm_get (sm_sessions (ct_manager (gn_controller st'))) k = None"
    and "ct_device (gn_controller st') = ct_device (gn_controller st)" by simp_all
qed

section \<open>A generation in use\<close>

definition sample_gen_env :: "(bytes list, nat) gen_env" where
  "sample_gen_env = \<lparr> ge_addresses = [], ge_ports = [(''hub'', 40000)], ge_outbound = 1,
     ge_set_endpoint = (\<lambda>_ _. Inr ()), ge_send = (\<lambda>_ _ _. Inr ()), ge_rng = (\<lambda>_. ([], [])),
     ge_contains = cidr_contains, ge_hash = (\<lambda>b. b), ge_hex = (\<lambda>b. []), ge_keyed_hash = (\<lambda>k m. m),
     ge_public = (\<lambda>b. b), ge_tunn = queue_api, ge_device = sample_env, ge_device_running = True \<rparr>"

definition sample_gen :: "(string list list node_routes, bytes list, nat) generation" where
  "sample_gen = \<lparr> gn_controller = controller_new ''alice'' sample_new [],
     gn_snapshot = \<lparr> s_public_key = ''alice'', s_listen_port = 51820, s_peers = [sample_wg_peer ''hub'' 0x0a000009] \<rparr>,
     gn_hub_issues = [], gn_baselines = [] \<rparr>"

abbreviation sample_gen_step where
  "sample_gen_step \<equiv> generation_step (node_activate list_ip sample_hash raw_net_string sample_policy)
     (node_deactivate list_ip sample_hash raw_net_string sample_policy) sample_gen_env"

abbreviation sample_gen_reach where
  "sample_gen_reach \<equiv> generation_reachable (node_activate list_ip sample_hash raw_net_string sample_policy)
     (node_deactivate list_ip sample_hash raw_net_string sample_policy) sample_gen_env sample_gen"

abbreviation sample_gen_ticket where
  "sample_gen_ticket \<equiv> GenControl (Some \<lparr> rc_source = V4 0x0a000009, rc_message = Ticket (sample_ticket Left 1 0) \<rparr>) 10"

lemma sample_ticket_admitted:
  assumes st: "gn_controller st = controller_new ''alice'' (manager_new r) []" "gn_snapshot st = gn_snapshot sample_gen"
  obtains st' eff where "generation_step act deact sample_gen_env st sample_gen_ticket = Returned (st', eff, GoOn)"
    "hm_get (sm_sessions (ct_manager (gn_controller st'))) (sample_key 1) \<noteq> None"
proof -
  let ?e = sample_gen_env
  have peer: "route_peer (ge_contains ?e) (gn_snapshot st) (V4 0x0a000009) None = Some (sample_wg_peer ''hub'' 0x0a000009)"
    by (simp add: st route_peer_def longest_matching_prefix_def best_prefix_def sample_gen_def sample_gen_env_def sample_wg_peer_def)
  have fresh: "fresh_handshake (p_latest_handshake (sample_wg_peer ''hub'' 0x0a000009)) 10"
    by (simp add: fresh_handshake_def sample_wg_peer_def sat_sub_def hub_consts)
  obtain ct eff r' where h: "controller_receive_ticket deact
      (ge_keyed_hash ?e) (ge_public ?e) (ge_tunn ?e) (ge_hash ?e) (ge_device ?e) (ge_device_running ?e)
      (gn_controller st) (sample_ticket Left 1 0) ''hub'' 10 (ge_outbound ?e) = (ct, eff, r')"
    by (metis surj_pair)
  have "hm_get (sm_sessions (ct_manager ct)) (sample_key 1) \<noteq> None"
    using h sample_ticket_valid [of 1]
    by (auto simp: controller_receive_ticket_def manager_receive_ticket_def controller_new_def manager_new_def
        handle_prepare_def prepare_session_def tunnel_encapsulate_def tunnel_new_def queue_api_def empty_output_def
        send_network_def sample_env_def emit_def mark_handshaking_def sample_ticket_def Let_def sample_gen_env_def
        st sample_key_def)
  with h peer fresh show ?thesis
    by (intro that [of "st\<lparr> gn_controller := ct \<rparr>" "map DeviceDid eff"])
      (simp_all add: gen_ticket_def sample_wg_peer_def)
qed

lemma sample_gen_admits:
  obtains st' eff where "sample_gen_step sample_gen sample_gen_ticket = Returned (st', eff, GoOn)"
    "hm_get (sm_sessions (ct_manager (gn_controller st'))) (sample_key 1) \<noteq> None"
  by (rule sample_ticket_admitted [of sample_gen]) (simp_all add: sample_gen_def)

lemmas sample_gen_assms = sample_tool sample_no_rules list_remove_succeeds

lemma sample_gen_start: "gn_controller sample_gen = controller_new ''alice'' sample_new []"
  by (simp add: sample_gen_def)

lemma sample_gen_iterate:
  "sample_gen_step sample_gen sample_gen_ticket = Returned (st', eff, GoOn) \<Longrightarrow>
     sample_gen_reach st' (emitted (device_part eff))"
  using generation_reachable.gen_iterate [OF generation_reachable.gen_start, of sample_gen_ticket] by fastforce

theorem generation_no_black_hole_witness:
  "\<exists>st q. sample_gen_reach st q \<and> hm_get (sm_sessions (ct_manager (gn_controller st))) (sample_key 1) \<noteq> None
     \<and> (hm_get (ct_device (gn_controller st)) (sample_key 1) \<noteq> None \<or> SessionFailed (sample_key 1) \<in> set q)"
proof (rule sample_gen_admits)
  fix st' eff
  assume a: "sample_gen_step sample_gen sample_gen_ticket = Returned (st', eff, GoOn)"
    "hm_get (sm_sessions (ct_manager (gn_controller st'))) (sample_key 1) \<noteq> None"
  have "env_events_open (ge_device sample_gen_env)" by (simp add: sample_gen_env_def sample_env_def)
  from generation_no_black_hole [OF sample_gen_assms this sample_gen_start sample_gen_iterate [OF a(1)] refl] a
    sample_gen_iterate [OF a(1)] show ?thesis by blast
qed

theorem session_needs_authenticated_ticket_witness:
  "\<exists>t. validate t 10 = Inr () \<and> t_recipient_public_key t = ''alice'' \<and> ticket_session t = sample_key 1"
proof (rule sample_gen_admits)
  fix st' eff
  assume a: "sample_gen_step sample_gen sample_gen_ticket = Returned (st', eff, GoOn)"
    "hm_get (sm_sessions (ct_manager (gn_controller st'))) (sample_key 1) \<noteq> None"
  then obtain m where m: "hm_get (sm_sessions (ct_manager (gn_controller st'))) (sample_key 1) = Some m" by blast
  have old: "hm_get (sm_sessions (ct_manager (gn_controller sample_gen))) (sample_key 1) = None"
    by (simp add: sample_gen_def controller_new_def manager_new_def)
  have key: "ct_local_public_key (gn_controller sample_gen) = ''alice''" by (simp add: sample_gen_def controller_new_def)
  from session_needs_authenticated_ticket [OF a(1) old m] key show ?thesis by auto
qed

theorem generation_shutdown_cleans_witness:
  "\<exists>st q st' warnings. sample_gen_reach st q \<and> hm_get (sm_sessions (ct_manager (gn_controller st))) (sample_key 1) \<noteq> None
     \<and> generation_shutdown (node_deactivate list_ip sample_hash raw_net_string sample_policy) sample_gen_env
         \<lparr> gt_removals_return = True, gt_device = Some (Joined (Inr ())), gt_control = [Some JoinError],
           gt_brokers = [], gt_dispatcher = Some (Joined (Inr ())), gt_relays = [] \<rparr> st
         = Some (st', TasksCancelled # warnings, Inr ())
     \<and> hm_get (sm_sessions (ct_manager (gn_controller st'))) (sample_key 1) = None"
proof (rule sample_gen_admits)
  fix st' eff
  let ?tasks = "\<lparr> gt_removals_return = True, gt_device = Some (Joined (Inr ())), gt_control = [Some JoinError],
           gt_brokers = [], gt_dispatcher = Some (Joined (Inr ())), gt_relays = [] \<rparr>"
  assume a: "sample_gen_step sample_gen sample_gen_ticket = Returned (st', eff, GoOn)"
    "hm_get (sm_sessions (ct_manager (gn_controller st'))) (sample_key 1) \<noteq> None"
  have ends: "gt_removals_return ?tasks \<and> None \<notin> set (gt_device ?tasks # gt_dispatcher ?tasks #
      gt_control ?tasks @ gt_brokers ?tasks @ gt_relays ?tasks)" by simp
  from generation_shutdown_cleans [OF sample_gen_assms sample_gen_start sample_gen_iterate [OF a(1)],
      where tasks = ?tasks] a(2) ends sample_gen_iterate [OF a(1)]
  show ?thesis by (simp only: simp_thms if_True) metis
qed

theorem poll_upkeep_witness:
  "\<exists>st' eff. sample_gen_step sample_gen (GenPoll (Inr (gn_snapshot sample_gen)) 10) = Returned (st', eff, GoOn)
     \<and> EndpointSet ''hub'' 40000 \<in> set eff"
proof -
  obtain st' eff where s: "sample_gen_step sample_gen (GenPoll (Inr (gn_snapshot sample_gen)) 10) = Returned (st', eff, GoOn)"
    by (simp add: gen_poll_def sample_gen_def sample_gen_env_def sample_wg_peer_def issue_hub_shortcuts_def
        controller_expire_def controller_new_def manager_new_def manager_expire_def expired_sessions_def
        remove_sessions_def Let_def)
  have wf: "hm_wf (sm_sessions (ct_manager (gn_controller sample_gen)))"
    by (simp add: sample_gen_def controller_new_def manager_new_def hm_wf_def)
  have "hm_get (ge_ports sample_gen_env) ''hub'' = Some 40000
      \<and> (\<exists>p\<in>set (s_peers (gn_snapshot sample_gen)). p_public_key p = ''hub'' \<and> p_endpoint p \<noteq> Some (broker_endpoint 40000))"
    by (simp add: sample_gen_env_def sample_gen_def sample_wg_peer_def)
  with poll_upkeep [OF s wf] s show ?thesis by blast
qed

end
