(* ===== verification/Management.thy ===== *)
theory Management
  imports Broker Identity Wireguard
begin

text \<open>
  \<open>src/src/management.rs\<close>: the local HTTP interface that shows the paths of every peer and lets the
  user choose one.  A \<open>PathSet\<close> behind its lock is shared with the peer's broker, so the state
  holds handles into a store of path sets; the metrics registry is shared too.  A connection is
  the sequence of results its reads return.  The JSON coding and the page are parameters.
\<close>

section \<open>State\<close>

definition MAX_REQUEST_BYTES :: nat where "MAX_REQUEST_BYTES = 64 * 1024"

record managed_peer =
  mp_peer_key :: string
  mp_key_hint :: string
  mp_paths :: nat

record ('f, 'c) management =
  mg_interface :: string
  mg_peers :: "(string, managed_peer) hashmap"
  mg_paths :: "nat \<Rightarrow> 'c path_set"
  mg_metrics :: "'f metrics_registry"

record 'f path_response =
  pa_id :: string
  pa_label :: string
  pa_protocol :: string
  pa_selected :: bool
  pa_active :: bool
  pa_metrics :: "'f path_metrics_snapshot"

record 'f peer_response =
  pe_id :: string
  pe_key_hint :: string
  pe_selected_path :: "string option"
  pe_active_path :: "string option"
  pe_paths :: "'f path_response list"

record 'f state_response =
  st_interface :: string
  st_peers :: "'f peer_response list"

datatype select_error = PeerNotFound | PathNotFound | PathUnavailable

text \<open>The clock readings and the vacant entry of the registry, which \<open>MetricsRegistry::snapshot\<close> takes.\<close>

record 'f metrics_env =
  me_ops :: "'f f64_ops"
  me_default :: "'f path_metrics"
  me_now :: "string \<Rightarrow> string \<Rightarrow> instant"

section \<open>Operations\<close>

definition management_peer_id :: "(bytes \<Rightarrow> bytes) \<Rightarrow> (bytes \<Rightarrow> string) \<Rightarrow> string \<Rightarrow> string exec" where
  "management_peer_id hash hex peer_key = slice (hex (hash (as_bytes peer_key))) 0 16"

text \<open>\<open>try_read\<close> gives up on a path set that a writer holds (\<open>locked\<close>).\<close>

definition previous_selections ::
    "(nat \<Rightarrow> bool) \<Rightarrow> ('f, 'c) management \<Rightarrow> (string, string) hashmap" where
  "previous_selections locked st =
     collect_map (filter_map (\<lambda>(_, peer).
       if locked (mp_paths peer) then None
       else map_option (Pair (mp_peer_key peer)) (ps_selected (mg_paths st (mp_paths peer)))) (mg_peers st))"

fun manage_peers ::
    "(bytes \<Rightarrow> bytes) \<Rightarrow> (bytes \<Rightarrow> string) \<Rightarrow> (string, string) hashmap \<Rightarrow> (string \<times> nat) list
     \<Rightarrow> (nat \<Rightarrow> 'c path_set) \<Rightarrow> (string, managed_peer) hashmap \<Rightarrow> ((nat \<Rightarrow> 'c path_set) \<times> (string, managed_peer) hashmap) exec" where
  "manage_peers hash hex previous [] paths managed = Returned (paths, managed)"
| "manage_peers hash hex previous ((peer_key, h) # rest) paths managed =
     (let paths' = (case hm_get previous peer_key of
                      None \<Rightarrow> paths
                    | Some selected \<Rightarrow> paths(h := fst (path_select (paths h) (Some selected)))) in
      exec_bind (management_peer_id hash hex peer_key) (\<lambda>pid.
        manage_peers hash hex previous rest paths'
          (hm_insert pid \<lparr> mp_peer_key = peer_key, mp_key_hint = take 12 peer_key, mp_paths = h \<rparr> managed)))"

definition replace_generation ::
    "(bytes \<Rightarrow> bytes) \<Rightarrow> (bytes \<Rightarrow> string) \<Rightarrow> (nat \<Rightarrow> bool) \<Rightarrow> ('f, 'c) management \<Rightarrow> string \<Rightarrow> (string \<times> nat) list
     \<Rightarrow> ('f, 'c) management exec" where
  "replace_generation hash hex locked st interface peers =
     (let metrics = remove_peers_except (mg_metrics st) (map fst peers) in
      exec_bind (manage_peers hash hex (previous_selections locked st) peers (mg_paths st) []) (\<lambda>(paths, managed).
        Returned (st\<lparr> mg_interface := interface, mg_peers := managed, mg_paths := paths, mg_metrics := metrics \<rparr>)))"

fun snapshot_targets ::
    "'f metrics_env \<Rightarrow> string \<Rightarrow> 'c path_target list \<Rightarrow> 'f metrics_registry
     \<Rightarrow> 'f metrics_registry \<times> ('c path_target \<times> 'f path_metrics_snapshot) list" where
  "snapshot_targets me peer_key [] reg = (reg, [])"
| "snapshot_targets me peer_key (t # ts) reg =
     (case metrics_snapshot (me_ops me) (me_default me) reg peer_key (pt_id t) (me_now me peer_key (pt_id t)) of
        (reg1, m) \<Rightarrow> (case snapshot_targets me peer_key ts reg1 of (reg2, ms) \<Rightarrow> (reg2, (t, m) # ms)))"

definition active_path ::
    "'c path_set \<Rightarrow> ('c path_target \<times> 'f path_metrics_snapshot) list \<Rightarrow> string option" where
  "active_path ps snapshots =
     (case ps_selected ps of
        Some selected \<Rightarrow>
          if list_ex (\<lambda>(t, m). pt_id t = selected \<and> ss_available m) snapshots then Some selected
          else map_option (\<lambda>(t, _). pt_id t) (find (\<lambda>(_, m). ss_available m) snapshots)
      | None \<Rightarrow> map_option (\<lambda>(t, _). pt_id t) (find (\<lambda>(_, m). ss_available m) snapshots))"

definition peer_response_of ::
    "string \<Rightarrow> managed_peer \<Rightarrow> 'c path_set \<Rightarrow> ('c path_target \<times> 'f path_metrics_snapshot) list \<Rightarrow> 'f peer_response" where
  "peer_response_of pid peer ps snapshots =
     \<lparr> pe_id = pid, pe_key_hint = mp_key_hint peer, pe_selected_path = ps_selected ps,
       pe_active_path = active_path ps snapshots,
       pe_paths = map (\<lambda>(t, m). \<lparr> pa_id = pt_id t, pa_label = pt_label t, pa_protocol = pt_protocol t,
         pa_selected = (ps_selected ps = Some (pt_id t)), pa_active = (active_path ps snapshots = Some (pt_id t)),
         pa_metrics = m \<rparr>) snapshots \<rparr>"

fun snapshot_peers ::
    "'f metrics_env \<Rightarrow> (nat \<Rightarrow> 'c path_set) \<Rightarrow> (string \<times> managed_peer) list \<Rightarrow> 'f metrics_registry
     \<Rightarrow> 'f metrics_registry \<times> 'f peer_response list" where
  "snapshot_peers me paths [] reg = (reg, [])"
| "snapshot_peers me paths ((pid, peer) # rest) reg =
     (case snapshot_targets me (mp_peer_key peer) (ps_targets (paths (mp_paths peer))) reg of
        (reg1, snapshots) \<Rightarrow>
          (case snapshot_peers me paths rest reg1 of
             (reg2, rs) \<Rightarrow> (reg2, peer_response_of pid peer (paths (mp_paths peer)) snapshots # rs)))"

definition management_snapshot ::
    "'f metrics_env \<Rightarrow> ('f, 'c) management \<Rightarrow> ('f, 'c) management \<times> 'f state_response" where
  "management_snapshot me st =
     (case snapshot_peers me (mg_paths st) (mg_peers st) (mg_metrics st) of
        (reg, response) \<Rightarrow> (st\<lparr> mg_metrics := reg \<rparr>,
          \<lparr> st_interface = mg_interface st, st_peers = sort_key pe_key_hint response \<rparr>))"

definition commit_selection ::
    "('f, 'c) management \<Rightarrow> nat \<Rightarrow> string option \<Rightarrow> ('f, 'c) management \<times> (select_error + unit)" where
  "commit_selection st h path_id =
     (case path_select (mg_paths st h) path_id of
        (ps, ok) \<Rightarrow> (st\<lparr> mg_paths := (mg_paths st)(h := ps) \<rparr>, if ok then Inr () else Inl PathNotFound))"

definition select_path ::
    "'f metrics_env \<Rightarrow> ('f, 'c) management \<Rightarrow> string \<Rightarrow> string option \<Rightarrow> ('f, 'c) management \<times> (select_error + unit)" where
  "select_path me st pid path_id =
     (case hm_get (mg_peers st) pid of
        None \<Rightarrow> (st, Inl PeerNotFound)
      | Some peer \<Rightarrow>
          (case path_id of
             None \<Rightarrow> commit_selection st (mp_paths peer) None
           | Some p \<Rightarrow>
               if \<not> list_ex (\<lambda>t. pt_id t = p) (ps_targets (mg_paths st (mp_paths peer))) then (st, Inl PathNotFound)
               else (case metrics_snapshot (me_ops me) (me_default me) (mg_metrics st) (mp_peer_key peer) p
                            (me_now me (mp_peer_key peer) p) of
                       (reg, m) \<Rightarrow>
                         if \<not> ss_available m then (st\<lparr> mg_metrics := reg \<rparr>, Inl PathUnavailable)
                         else commit_selection (st\<lparr> mg_metrics := reg \<rparr>) (mp_paths peer) (Some p))))"

section \<open>Requests\<close>

record request =
  rq_method :: string
  rq_path :: string
  rq_body :: bytes

definition crlf :: string where "crlf = [char_of (13 :: nat), char_of (10 :: nat)]"

definition header_end_mark :: bytes where "header_end_mark = [13, 10, 13, 10]"

fun windows4 :: "'a list \<Rightarrow> 'a list list" where
  "windows4 (a # b # c # d # r) = [a, b, c, d] # windows4 (b # c # d # r)"
| "windows4 _ = []"

definition find_header_end :: "bytes \<Rightarrow> nat option" where
  "find_header_end data = position (\<lambda>w. w = header_end_mark) (windows4 data)"

definition ascii_lower :: "char \<Rightarrow> char" where
  "ascii_lower c = (let n = (of_char c :: nat) in if 65 \<le> n \<and> n \<le> 90 then char_of (n + 32) else c)"

definition content_length :: "string list \<Rightarrow> usize" where
  "content_length ls =
     (case find_map (\<lambda>line. case split_once (\<lambda>c. c = CHR '':'') line of
               None \<Rightarrow> None
             | Some (name, v) \<Rightarrow> if map ascii_lower name = ''content-length'' then parse_word (trim v) else None) ls of
        None \<Rightarrow> 0 | Some n \<Rightarrow> n)"

definition parse_head :: "string \<Rightarrow> (string \<times> string \<times> usize) res" where
  "parse_head headers =
     (case str_lines headers of
        [] \<Rightarrow> Inl (ManagementError MissingRequestLine)
      | line # ls \<Rightarrow>
          (case split_whitespace line of
             [] \<Rightarrow> Inl (ManagementError MissingMethod)
           | [m] \<Rightarrow> Inl (ManagementError MissingPath)
           | m # p # _ \<Rightarrow> Inr (m, p, content_length ls)))"

text \<open>The two read loops; after the last read of the list the stream is at its end.\<close>

fun read_headers :: "bytes \<Rightarrow> bytes res list \<Rightarrow> (nat \<times> bytes \<times> bytes res list) res" where
  "read_headers data [] = Inl (ManagementError EmptyRequest)"
| "read_headers data (Inl e # reads) = Inl e"
| "read_headers data (Inr chunk # reads) =
     (if chunk = [] then Inl (ManagementError EmptyRequest)
      else if MAX_REQUEST_BYTES < length (data @ chunk) then Inl (ManagementError RequestTooLarge)
      else case find_header_end (data @ chunk) of
             Some i \<Rightarrow> Inr (i, data @ chunk, reads)
           | None \<Rightarrow> read_headers (data @ chunk) reads)"

fun read_body :: "bytes \<Rightarrow> nat \<Rightarrow> bytes res list \<Rightarrow> bytes res" where
  "read_body data needed [] = (if length data < needed then Inl (ManagementError TruncatedBody) else Inr data)"
| "read_body data needed (r # reads) =
     (if length data < needed then
        (case r of
           Inl e \<Rightarrow> Inl e
         | Inr chunk \<Rightarrow>
             if chunk = [] then Inl (ManagementError TruncatedBody)
             else if MAX_REQUEST_BYTES < length (data @ chunk) then Inl (ManagementError RequestTooLarge)
             else read_body (data @ chunk) needed reads)
      else Inr data)"

text \<open>
  \<open>body_start + content_length\<close> beyond \<open>usize\<close> panics: checked arithmetic stops there, and wrapped
  arithmetic makes the range of the final slice end before it starts.
\<close>

definition read_request :: "bytes res list \<Rightarrow> request res exec" where
  "read_request reads =
     (case read_headers [] reads of
        Inl e \<Rightarrow> Returned (Inl e)
      | Inr (header_end, data, rest) \<Rightarrow>
          (case from_utf8 (take header_end data) of
             None \<Rightarrow> Returned (Inl (ManagementError InvalidHeaders))
           | Some headers \<Rightarrow>
               (case parse_head headers of
                  Inl e \<Rightarrow> Returned (Inl e)
                | Inr (method, path, n) \<Rightarrow>
                    let body_start = header_end + 4; body_end = body_start + unat n in
                    if 2 ^ 64 \<le> body_end then Panicked
                    else (case read_body data body_end rest of
                            Inl e \<Rightarrow> Returned (Inl e)
                          | Inr data' \<Rightarrow>
                              exec_bind (slice data' body_start body_end) (\<lambda>body.
                                Returned (Inr \<lparr> rq_method = method, rq_path = path, rq_body = body \<rparr>))))))"

section \<open>Responses\<close>

fun trim_start_matches :: "nat \<Rightarrow> string \<Rightarrow> string \<Rightarrow> string" where
  "trim_start_matches 0 p s = s"
| "trim_start_matches (Suc n) p s = (if starts_with s p then trim_start_matches n p (drop (length p) s) else s)"

definition path_peer_id :: "string \<Rightarrow> string" where
  "path_peer_id path =
     (let a = trim_start_matches (length path) ''/api/peers/'' path;
          b = rev (trim_start_matches (length a) (rev ''/path'') (rev a))
      in trim_end_by (\<lambda>c. c = CHR ''/'') b)"

record 'f web_env =
  we_metrics :: "'f metrics_env"
  we_ui :: string
  we_to_json :: "'f state_response \<Rightarrow> string res"
  we_selection :: "bytes \<Rightarrow> string option option"

definition handle_request ::
    "'f web_env \<Rightarrow> ('f, 'c) management \<Rightarrow> request \<Rightarrow> ('f, 'c) management \<times> (nat \<times> string \<times> string) res" where
  "handle_request we st rq =
     (if rq_method rq = ''GET'' \<and> rq_path rq = ''/'' then (st, Inr (200, ''text/html; charset=utf-8'', we_ui we))
      else if rq_method rq = ''GET'' \<and> rq_path rq = ''/api/state'' then
        (case management_snapshot (we_metrics we) st of
           (st', response) \<Rightarrow>
             (st', case we_to_json we response of Inl e \<Rightarrow> Inl e | Inr t \<Rightarrow> Inr (200, ''application/json'', t)))
      else if rq_method rq = ''POST'' \<and> starts_with (rq_path rq) ''/api/peers/'' \<and> ends_with (rq_path rq) ''/path'' then
        (case we_selection we (rq_body rq) of
           None \<Rightarrow> (st, Inl (ManagementError InvalidSelection))
         | Some path_id \<Rightarrow>
             (case select_path (we_metrics we) st (path_peer_id (rq_path rq)) path_id of
                (st', Inr _) \<Rightarrow> (st', Inr (200, ''application/json'', ''{\"ok\":true}''))
              | (st', Inl PathUnavailable) \<Rightarrow> (st', Inr (409, ''application/json'', ''{\"error\":\"path is not healthy\"}''))
              | (st', Inl _) \<Rightarrow> (st', Inr (404, ''application/json'', ''{\"error\":\"not found\"}''))))
      else (st, Inr (404, ''text/plain; charset=utf-8'', ''not found'')))"

definition response_text :: "nat \<Rightarrow> string \<Rightarrow> string \<Rightarrow> string" where
  "response_text status content_type body =
     ''HTTP/1.1 '' @ dec_string status @ '' ''
       @ (if status = 200 then ''OK'' else if status = 404 then ''Not Found'' else if status = 409 then ''Conflict'' else ''Error'')
       @ crlf @ ''Content-Type: '' @ content_type @ crlf @ ''Content-Length: '' @ dec_string (length body) @ crlf
       @ ''Cache-Control: no-store'' @ crlf @ ''Connection: close'' @ crlf @ crlf @ body"

text \<open>One connection: what is written to it, unless handling it fails.\<close>

definition handle_connection ::
    "'f web_env \<Rightarrow> ('f, 'c) management \<Rightarrow> bytes res list \<Rightarrow> (('f, 'c) management \<times> bytes res) exec" where
  "handle_connection we st reads =
     exec_bind (read_request reads) (\<lambda>r.
       case r of
         Inl e \<Rightarrow> Returned (st, Inl e)
       | Inr rq \<Rightarrow>
           (case handle_request we st rq of
              (st', Inl e) \<Rightarrow> Returned (st', Inl e)
            | (st', Inr (status, content_type, body)) \<Rightarrow>
                Returned (st', Inr (as_bytes (response_text status content_type body)))))"

section \<open>Reading a request\<close>

lemma position_iff:
  "position P xs = Some i \<longleftrightarrow> i < length xs \<and> P (xs ! i) \<and> (\<forall>j<i. \<not> P (xs ! j))"
  by (induction xs arbitrary: i) (auto simp: nth_Cons All_less_Suc2 split: nat.splits)

lemma windows4_eq: "windows4 xs = map (\<lambda>j. take 4 (drop j xs)) [0..<length xs - 3]"
proof (induction xs rule: windows4.induct)
  case (1 a b c d r)
  have "[0..<length (a # b # c # d # r) - 3] = 0 # map Suc [0..<length (b # c # d # r) - 3]"
    by (simp add: map_Suc_upt upt_conv_Cons del: upt_Suc)
  with 1 show ?case by (simp add: numeral_eq_Suc)
qed auto

lemma find_header_end_iff:
  "find_header_end data = Some i \<longleftrightarrow>
     i + 4 \<le> length data \<and> take 4 (drop i data) = header_end_mark \<and> (\<forall>j<i. take 4 (drop j data) \<noteq> header_end_mark)"
  by (auto simp: find_header_end_def position_iff windows4_eq)

lemma find_header_end_prefix:
  assumes "find_header_end (a @ b) = Some i"
  shows "find_header_end a = (if i + 4 \<le> length a then Some i else None)"
proof -
  have same: "take 4 (drop j (a @ b)) = take 4 (drop j a)" if "j + 4 \<le> length a" for j using that by simp
  from assms have here: "take 4 (drop i (a @ b)) = header_end_mark"
    and before: "\<And>j. j < i \<Longrightarrow> take 4 (drop j (a @ b)) \<noteq> header_end_mark" unfolding find_header_end_iff by blast+
  show ?thesis
  proof (cases "i + 4 \<le> length a")
    case True
    have "take 4 (drop j a) \<noteq> header_end_mark" if "j < i" for j
    proof -
      have "j + 4 \<le> length a" using that True by simp
      from before [OF that] show ?thesis unfolding same [OF \<open>j + 4 \<le> length a\<close>] .
    qed
    with True here [unfolded same [OF True]] have "find_header_end a = Some i"
      unfolding find_header_end_iff by blast
    with True show ?thesis by simp
  next
    case False
    have "find_header_end a \<noteq> Some j" for j
    proof
      assume "find_header_end a = Some j"
      then have j: "j + 4 \<le> length a" "take 4 (drop j a) = header_end_mark" unfolding find_header_end_iff by blast+
      with False have "j < i" by simp
      from before [OF this] j(2) show False unfolding same [OF j(1)] by blast
    qed
    with False show ?thesis by (cases "find_header_end a") auto
  qed
qed

lemma read_headers_chunks:
  assumes "find_header_end (data @ concat chunks) = Some i" and "find_header_end data = None"
    and "\<forall>c\<in>set chunks. c \<noteq> []" and "length (data @ concat chunks) \<le> MAX_REQUEST_BYTES"
  shows "\<exists>pre post. chunks = pre @ post \<and> i + 4 \<le> length (data @ concat pre)
    \<and> read_headers data (map Inr chunks) = Inr (i, data @ concat pre, map Inr post)"
  using assms
proof (induction chunks arbitrary: data)
  case (Cons c cs)
  have e: "find_header_end ((data @ c) @ concat cs) = Some i" using Cons.prems(1) by simp
  note P = find_header_end_prefix [OF e]
  show ?case
  proof (cases "i + 4 \<le> length (data @ c)")
    case True
    with P Cons.prems(3,4) have "read_headers data (map Inr (c # cs)) = Inr (i, data @ c, map Inr cs)" by simp
    with True show ?thesis by (intro exI [of _ "[c]"] exI [of _ cs]) simp
  next
    case False
    with P have n: "find_header_end (data @ c) = None" by simp
    with Cons.IH [OF e n] Cons.prems(3,4) obtain pre post where ih: "cs = pre @ post"
      "i + 4 \<le> length ((data @ c) @ concat pre)"
      "read_headers (data @ c) (map Inr cs) = Inr (i, (data @ c) @ concat pre, map Inr post)" by auto
    with n Cons.prems(3,4) have "read_headers data (map Inr (c # cs)) = Inr (i, (data @ c) @ concat pre, map Inr post)"
      by simp
    with ih show ?thesis by (intro exI [of _ "c # pre"] exI [of _ post]) simp
  qed
qed simp

lemma read_body_chunks:
  assumes "needed \<le> length (data @ concat chunks)" and "\<forall>c\<in>set chunks. c \<noteq> []"
    and "length (data @ concat chunks) \<le> MAX_REQUEST_BYTES"
  shows "\<exists>pre post. chunks = pre @ post \<and> needed \<le> length (data @ concat pre)
    \<and> read_body data needed (map Inr chunks) = Inr (data @ concat pre)"
  using assms
proof (induction chunks arbitrary: data)
  case Nil
  then show ?case by simp
next
  case (Cons c cs)
  show ?case
  proof (cases "length data < needed")
    case False
    then show ?thesis by (intro exI [of _ "[]"] exI [of _ "c # cs"]) simp
  next
    case True
    from Cons.IH [of "data @ c"] Cons.prems obtain pre post where ih: "cs = pre @ post"
      "needed \<le> length ((data @ c) @ concat pre)" "read_body (data @ c) needed (map Inr cs) = Inr ((data @ c) @ concat pre)"
      by auto
    with True Cons.prems(2,3) show ?thesis by (intro exI [of _ "c # pre"] exI [of _ post]) simp
  qed
qed

section \<open>Properties\<close>

text \<open>
  C20.  Requests arrive in any pieces: when the bytes sent hold a head that ends with an empty line,
  that parses, and at least the announced number of body bytes after it, and they fit in 64 KiB,
  then reading them yields that method, path and body however the network cuts them up.
\<close>

theorem read_request_any_chunking:
  assumes mark: "find_header_end (concat chunks) = Some i"
    and ne: "\<forall>c\<in>set chunks. c \<noteq> []" and size: "length (concat chunks) \<le> MAX_REQUEST_BYTES"
    and head: "from_utf8 (take i (concat chunks)) = Some headers" "parse_head headers = Inr (method, path, n)"
    and body: "i + 4 + unat n \<le> length (concat chunks)"
  shows "read_request (map Inr chunks) = Returned (Inr \<lparr> rq_method = method, rq_path = path,
    rq_body = take (unat n) (drop (i + 4) (concat chunks)) \<rparr>)"
proof -
  have "find_header_end [] = None" by (simp add: find_header_end_def)
  with read_headers_chunks [of "[]" chunks i] mark ne size obtain pre post where p: "chunks = pre @ post"
    "i + 4 \<le> length (concat pre)" "read_headers [] (map Inr chunks) = Inr (i, concat pre, map Inr post)" by auto
  from read_body_chunks [of "i + 4 + unat n" "concat pre" post] body ne size p(1) obtain pre2 post2 where q: "post = pre2 @ post2"
    "i + 4 + unat n \<le> length (concat pre @ concat pre2)"
    "read_body (concat pre) (i + 4 + unat n) (map Inr post) = Inr (concat pre @ concat pre2)" by auto
  have small: "\<not> 2 ^ 64 \<le> i + 4 + unat n" using body size by (simp add: MAX_REQUEST_BYTES_def)
  have h: "take i (concat pre) = take i (concat chunks)" using p(1,2) by simp
  have whole: "concat chunks = (concat pre @ concat pre2) @ concat post2" using p(1) q(1) by simp
  have b: "take (unat n) (drop (i + 4) (concat pre @ concat pre2)) = take (unat n) (drop (i + 4) (concat chunks))"
    unfolding whole using q(2) by simp
  show ?thesis
    unfolding read_request_def p(3)
    using head q small b by (simp add: h Let_def slice_def)
qed

theorem read_request_any_chunking_witness:
  "read_request (map Inr [as_bytes (''GET / HTTP/1.1'' @ [char_of (13 :: nat)]), [10, 13], [10]])
     = Returned (Inr \<lparr> rq_method = ''GET'', rq_path = ''/'', rq_body = [] \<rparr>)"
proof -
  let ?cs = "[as_bytes (''GET / HTTP/1.1'' @ [char_of (13 :: nat)]), [10, 13], [10]]"
  have "find_header_end (concat ?cs) = Some 14" by code_simp
  moreover have "\<forall>c\<in>set ?cs. c \<noteq> []" by (simp add: as_bytes_def)
  moreover have "length (concat ?cs) \<le> MAX_REQUEST_BYTES" by (simp add: MAX_REQUEST_BYTES_def)
  moreover have "from_utf8 (take 14 (concat ?cs)) = Some ''GET / HTTP/1.1''" by code_simp
  moreover have "parse_head ''GET / HTTP/1.1'' = Inr (''GET'', ''/'', 0)" by code_simp
  ultimately show ?thesis
    using read_request_any_chunking [of ?cs 14 "''GET / HTTP/1.1''" "''GET''" "''/''" 0] by simp
qed

section \<open>Choosing a path\<close>

lemma metrics_snapshot_available:
  assumes "metrics_snapshot F dflt reg peer path now = (reg', m)" and "\<not> pm_available dflt"
  shows "ss_available m \<longleftrightarrow> is_available reg peer path" and "is_available reg' k q \<longleftrightarrow> is_available reg k q"
  using assms
  by (auto simp: metrics_snapshot_def entry_or_default_def is_available_def Let_def split: prod.splits option.splits if_splits)

lemma snapshot_targets_available:
  "snapshot_targets me key ts reg = (reg', ms) \<Longrightarrow> \<not> pm_available (me_default me) \<Longrightarrow>
     map (\<lambda>(t, m). (t, ss_available m)) ms = map (\<lambda>t. (t, is_available reg key (pt_id t))) ts"
proof (induction ts arbitrary: reg ms)
  case (Cons t ts)
  obtain reg1 m where m: "metrics_snapshot (me_ops me) (me_default me) reg key (pt_id t) (me_now me key (pt_id t)) = (reg1, m)"
    by (rule prod.exhaust)
  obtain reg2 ms2 where r: "snapshot_targets me key ts reg1 = (reg2, ms2)" by (rule prod.exhaust)
  note A = metrics_snapshot_available [OF m Cons.prems(2)]
  from Cons.prems(1) m r have "ms = (t, m) # ms2" "reg2 = reg'" by auto
  with Cons.IH [OF _ Cons.prems(2)] r A show ?case by simp
qed simp

lemma selected_first:
  assumes "t \<in> set (ps_targets ps)" and "ps_selected ps = Some (pt_id t)" and "is_available reg key (pt_id t)"
  shows "pt_id (hd (ordered_healthy_targets reg key ps)) = pt_id t"
proof -
  have "target_class reg key ps t = 0" using assms by (simp add: target_class_def path_class_zero)
  moreover have "target_class reg key ps (hd (ordered_healthy_targets reg key ps)) \<le> target_class reg key ps t"
    unfolding ordered_healthy_targets_def by (rule sort_key_hd_least) (use assms(1) in simp)
  ultimately have "target_class reg key ps (hd (ordered_healthy_targets reg key ps)) = 0" by simp
  then show ?thesis using assms(2) by (simp add: target_class_def path_class_zero)
qed

lemma commit_selection_iff:
  "commit_selection st h p = (st', r) \<Longrightarrow>
     (r = Inr () \<longleftrightarrow> (\<forall>q. p = Some q \<longrightarrow> list_ex (\<lambda>t. pt_id t = q) (ps_targets (mg_paths st h))))
     \<and> mg_peers st' = mg_peers st \<and> mg_metrics st' = mg_metrics st \<and> mg_interface st' = mg_interface st
     \<and> mg_paths st' = (if r = Inr () then (mg_paths st)(h := (mg_paths st h)\<lparr> ps_selected := p \<rparr>) else mg_paths st)"
  by (auto simp: commit_selection_def path_select_def split: option.splits if_splits)

text \<open>
  C18.  Choosing a path: the choice is accepted exactly for a known peer and either no path or a path
  of that peer that is available now; an accepted choice changes the selection of that peer's path
  set and no other, and the peer's broker, which shares it, then puts the chosen path first; a
  rejected one leaves every path set as it was, and says what was wrong.
\<close>

theorem select_path_governs_broker:
  assumes sel: "select_path me st pid path_id = (st', r)" and dflt: "\<not> pm_available (me_default me)"
  shows "(r = Inl PeerNotFound \<longleftrightarrow> hm_get (mg_peers st) pid = None)
    \<and> (r \<noteq> Inr () \<longrightarrow> mg_paths st' = mg_paths st)
    \<and> (\<forall>peer ps. hm_get (mg_peers st) pid = Some peer \<and> ps = mg_paths st (mp_paths peer) \<longrightarrow>
         (r = Inr () \<longleftrightarrow> (\<forall>p. path_id = Some p \<longrightarrow>
            p \<in> pt_id ` set (ps_targets ps) \<and> is_available (mg_metrics st) (mp_peer_key peer) p))
         \<and> (r = Inl PathNotFound \<longleftrightarrow> (\<exists>p. path_id = Some p \<and> p \<notin> pt_id ` set (ps_targets ps)))
         \<and> (r = Inr () \<longrightarrow> mg_paths st' = (mg_paths st)(mp_paths peer := ps\<lparr> ps_selected := path_id \<rparr>)
              \<and> (\<forall>p. path_id = Some p \<longrightarrow> pt_id (hd (ordered_healthy_targets (mg_metrics st') (mp_peer_key peer)
                    (mg_paths st' (mp_paths peer)))) = p)))"
proof (cases "hm_get (mg_peers st) pid")
  case None
  with sel show ?thesis by (auto simp: select_path_def)
next
  case (Some peer)
  let ?ps = "mg_paths st (mp_paths peer)" and ?key = "mp_peer_key peer"
  show ?thesis
  proof (cases path_id)
    case None
    with sel Some have "commit_selection st (mp_paths peer) None = (st', r)" by (simp add: select_path_def)
    from commit_selection_iff [OF this] Some None show ?thesis by auto
  next
    case p: (Some p)
    have ex: "list_ex (\<lambda>t. pt_id t = p) (ps_targets ?ps) \<longleftrightarrow> p \<in> pt_id ` set (ps_targets ?ps)"
      by (auto simp: list_ex_iff)
    obtain reg m where ms: "metrics_snapshot (me_ops me) (me_default me) (mg_metrics st) ?key p (me_now me ?key p) = (reg, m)"
      by (rule prod.exhaust)
    note avail = metrics_snapshot_available [OF ms dflt]
    show ?thesis
    proof (cases "p \<in> pt_id ` set (ps_targets ?ps) \<and> is_available (mg_metrics st) ?key p")
      case False
      with sel Some p ex ms avail(1) show ?thesis by (auto simp: select_path_def split: if_splits)
    next
      case True
      with sel Some p ex ms avail(1) have "commit_selection (st\<lparr> mg_metrics := reg \<rparr>) (mp_paths peer) (Some p) = (st', r)"
        by (auto simp: select_path_def)
      from commit_selection_iff [OF this] True ex have r: "r = Inr ()" and reg: "mg_metrics st' = reg"
        and paths: "mg_paths st' = (mg_paths st)(mp_paths peer := ?ps\<lparr> ps_selected := Some p \<rparr>)" by auto
      obtain t where t: "t \<in> set (ps_targets ?ps)" "pt_id t = p" using True by auto
      have "pt_id (hd (ordered_healthy_targets reg ?key (?ps\<lparr> ps_selected := Some p \<rparr>))) = p"
        using selected_first [of t "?ps\<lparr> ps_selected := Some p \<rparr>" reg ?key] t avail(2) True by simp
      with True r reg paths Some p show ?thesis by auto
    qed
  qed
qed

definition sample_management :: "(int, nat) management" where
  "sample_management = \<lparr> mg_interface = ''wg0'',
     mg_peers = [(''id'', \<lparr> mp_peer_key = ''peer'', mp_key_hint = ''peer'', mp_paths = 0 \<rparr>)],
     mg_paths = (\<lambda>_. sample_paths\<lparr> ps_selected := None \<rparr>),
     mg_metrics = [((''peer'', ''b''), (path_metrics_default sample_f64 0 0)\<lparr> pm_available := True \<rparr>)] \<rparr>"

definition sample_metrics_env :: "int metrics_env" where
  "sample_metrics_env = \<lparr> me_ops = sample_f64, me_default = path_metrics_default sample_f64 0 0, me_now = (\<lambda>_ _. 0) \<rparr>"

theorem select_path_governs_broker_witness:
  "\<exists>st'. select_path sample_metrics_env sample_management ''id'' (Some ''b'') = (st', Inr ())
     \<and> pt_id (hd (ordered_healthy_targets (mg_metrics st') ''peer'' (mg_paths st' 0))) = ''b''"
proof -
  obtain st' r where s: "select_path sample_metrics_env sample_management ''id'' (Some ''b'') = (st', r)" by (rule prod.exhaust)
  let ?peer = "\<lparr> mp_peer_key = ''peer'', mp_key_hint = ''peer'', mp_paths = 0 \<rparr>"
  have d: "\<not> pm_available (me_default sample_metrics_env)" by (simp add: sample_metrics_env_def path_metrics_default_def)
  have p: "hm_get (mg_peers sample_management) ''id'' = Some ?peer" by (simp add: sample_management_def)
  have b: "''b'' \<in> pt_id ` set (ps_targets (mg_paths sample_management 0))"
    "is_available (mg_metrics sample_management) ''peer'' ''b''"
    by (simp_all add: sample_management_def sample_paths_def is_available_def)
  note S = select_path_governs_broker [OF s d, THEN conjunct2, THEN conjunct2, rule_format,
      of ?peer "mg_paths sample_management 0"]
  have pre: "hm_get (mg_peers sample_management) ''id'' = Some ?peer
      \<and> mg_paths sample_management 0 = mg_paths sample_management (mp_paths ?peer)" using p by simp
  have r: "r = Inr ()" using S p b by simp
  have "\<forall>q. Some ''b'' = Some q \<longrightarrow> pt_id (hd (ordered_healthy_targets (mg_metrics st') (mp_peer_key ?peer)
      (mg_paths st' (mp_paths ?peer)))) = q" using S [OF pre] r by blast
  then have "pt_id (hd (ordered_healthy_targets (mg_metrics st') ''peer'' (mg_paths st' 0))) = ''b''" by simp
  with s r show ?thesis by blast
qed

text \<open>
  The path shown as active and the path the broker tries first part company when the selected path
  is not healthy: the broker has swapped the selected target with the first one.
\<close>

definition sample_three :: "nat path_set" where
  "sample_three = \<lparr> ps_targets = map (\<lambda>(i, c). \<lparr> pt_id = i, pt_label = i, pt_protocol = ''udp'', pt_sender = c \<rparr>)
       [(''a'', 1), (''b'', 2), (''c'', 3)], ps_selected = Some ''c'' \<rparr>"

definition sample_three_metrics :: "int metrics_registry" where
  "sample_three_metrics = map (\<lambda>p. ((''peer'', p), (path_metrics_default sample_f64 0 0)\<lparr> pm_available := True \<rparr>)) [''a'', ''b'']"

lemma active_path_differs_from_broker:
  "active_path sample_three (snd (snapshot_targets sample_metrics_env ''peer'' (ps_targets sample_three) sample_three_metrics))
     = Some ''a''"
  "pt_id (hd (ordered_healthy_targets sample_three_metrics ''peer'' sample_three)) = ''b''"
proof -
  obtain reg ms where sn: "snapshot_targets sample_metrics_env ''peer'' (ps_targets sample_three) sample_three_metrics = (reg, ms)"
    by (rule prod.exhaust)
  have d: "\<not> pm_available (me_default sample_metrics_env)" by (simp add: sample_metrics_env_def path_metrics_default_def)
  have "map (\<lambda>(t, m). (t, ss_available m)) ms = map (\<lambda>t. (t, pt_id t \<noteq> ''c'')) (ps_targets sample_three)"
    unfolding snapshot_targets_available [OF sn d]
    by (simp add: sample_three_def sample_three_metrics_def is_available_def)
  then have "active_path sample_three ms = Some ''a''"
    by (auto simp: active_path_def sample_three_def map_eq_Cons_conv)
  then show "active_path sample_three (snd (snapshot_targets sample_metrics_env ''peer'' (ps_targets sample_three)
      sample_three_metrics)) = Some ''a''" unfolding sn by simp
  show "pt_id (hd (ordered_healthy_targets sample_three_metrics ''peer'' sample_three)) = ''b''"
    by (simp add: sample_three_def sample_three_metrics_def ordered_healthy_targets_def ordered_targets_def swap_at_def
        target_class_def is_available_def)
qed

section \<open>Panics\<close>

lemma read_body_length: "read_body data needed reads = Inr data' \<Longrightarrow> needed \<le> length data'"
  by (induction reads arbitrary: data) (auto split: if_splits sum.splits)

text \<open>
  Reading a request panics exactly when the announced body length, added to the length of the head,
  leaves the range of \<open>usize\<close>.
\<close>

lemma read_request_panics_iff:
  "read_request reads = Panicked \<longleftrightarrow>
     (\<exists>i data rest headers method path n. read_headers [] reads = Inr (i, data, rest)
        \<and> from_utf8 (take i data) = Some headers \<and> parse_head headers = Inr (method, path, n)
        \<and> 2 ^ 64 \<le> i + 4 + unat n)"
  by (auto simp: read_request_def Let_def slice_def split: sum.splits prod.splits option.splits dest!: read_body_length)

end
