(* ===== verification/Discovery.thy ===== *)
theory Discovery
  imports Net_Types Identity
begin

unbundle bit_operations_syntax

text \<open>
  \<open>src/src/discovery/\<close>: which candidate addresses are public (\<open>mod.rs\<close>), the STUN client
  (\<open>stun.rs\<close>), the BitTorrent tracker client (\<open>tracker.rs\<close>) and the DHT lookup (\<open>dht.rs\<close>), and the
  discovery pass of \<open>src/src/easytier.rs\<close> that runs them.  The network is a parameter: a datagram
  exchange is a function from the peer and the request to the answer.
\<close>

section \<open>Public addresses\<close>

definition is_public_ipv4 :: "32 word \<Rightarrow> bool" where
  "is_public_ipv4 address =
     (let octets = v4_octets address; o0 = octets ! 0; o1 = octets ! 1; o2 = octets ! 2 in
      \<not> octets = [0, 0, 0, 0]
      \<and> \<not> o0 = 127
      \<and> \<not> (o0 = 10 \<or> (o0 = 172 \<and> 16 \<le> o1 \<and> o1 \<le> 31) \<or> (o0 = 192 \<and> o1 = 168))
      \<and> \<not> (o0 = 169 \<and> o1 = 254)
      \<and> \<not> (224 \<le> o0 \<and> o0 \<le> 239)
      \<and> octets \<noteq> [255, 255, 255, 255]
      \<and> \<not> ((o0 = 192 \<and> o1 = 0 \<and> o2 = 2) \<or> (o0 = 198 \<and> o1 = 51 \<and> o2 = 100) \<or> (o0 = 203 \<and> o1 = 0 \<and> o2 = 113))
      \<and> \<not> (o0 = 100 \<and> 64 \<le> o1 \<and> o1 \<le> 127))"

definition is_public_ipv6 :: "128 word \<Rightarrow> bool" where
  "is_public_ipv6 address =
     (let segments = v6_segments address; s0 = segments ! 0; s1 = segments ! 1 in
      \<not> address = 0
      \<and> \<not> address = 1
      \<and> \<not> s0 AND 0xff00 = 0xff00
      \<and> \<not> s0 AND 0xffc0 = 0xfe80
      \<and> \<not> s0 AND 0xfe00 = 0xfc00
      \<and> \<not> (s0 = 0x2001 \<and> s1 = 0x0db8))"

fun is_public_candidate :: "socket_addr \<Rightarrow> bool" where
  "is_public_candidate (SocketAddr (V4 address) port) = is_public_ipv4 address"
| "is_public_candidate (SocketAddr (V6 address) port) = is_public_ipv6 address"

definition retain_public_candidates :: "socket_addr list \<Rightarrow> socket_addr list" where
  "retain_public_candidates candidates = filter is_public_candidate candidates"

section \<open>STUN\<close>

definition MAGIC_COOKIE :: u32 where "MAGIC_COOKIE = 0x2112A442"

definition xor_bytes :: "bytes \<Rightarrow> bytes \<Rightarrow> bytes" where
  "xor_bytes a b = map2 (XOR) a b"

definition attribute_at :: "bytes \<Rightarrow> nat \<Rightarrow> (u16 \<times> nat) exec" where
  "attribute_at message offset =
     exec_bind (slice message offset (offset + 2)) (\<lambda>k. exec_bind (slice message (offset + 2) (offset + 4)) (\<lambda>l.
       Returned (from_be_bytes k, unat (from_be_bytes l :: u16))))"

definition xor_address_at :: "bytes \<Rightarrow> nat \<Rightarrow> nat \<Rightarrow> socket_addr option exec" where
  "xor_address_at message value_start len =
     exec_bind (index_at message (value_start + 1)) (\<lambda>family.
     exec_bind (slice message (value_start + 2) (value_start + 4)) (\<lambda>p.
       let port = from_be_bytes p XOR ucast (drop_bit 16 MAGIC_COOKIE) in
       if family = 1 \<and> 8 \<le> len then
         exec_bind (slice message (value_start + 4) (value_start + 8)) (\<lambda>a.
           Returned (Some (SocketAddr (v4_of_octets (xor_bytes a (to_be_bytes MAGIC_COOKIE))) port)))
       else if family = 2 \<and> 20 \<le> len then
         exec_bind (slice message 8 20) (\<lambda>transaction.
         exec_bind (slice message (value_start + 4) (value_start + 20)) (\<lambda>a.
           Returned (Some (SocketAddr (v6_of_octets (xor_bytes a (to_be_bytes MAGIC_COOKIE @ transaction))) port))))
       else Returned None))"

function xor_mapped_from :: "bytes \<Rightarrow> nat \<Rightarrow> socket_addr res exec" where
  "xor_mapped_from message offset =
     (if offset + 4 \<le> length message then
        (case attribute_at message offset of
           Panicked \<Rightarrow> Panicked
         | Returned (kind, len) \<Rightarrow>
             let value_start = offset + 4; value_end = value_start + len in
             if length message < value_end then Returned (Inl (DiscoveryError NoXorMappedAddress))
             else (case (if kind = 0x0020 \<and> 8 \<le> len then xor_address_at message value_start len else Returned None) of
                     Panicked \<Rightarrow> Panicked
                   | Returned (Some address) \<Rightarrow> Returned (Inr address)
                   | Returned None \<Rightarrow> xor_mapped_from message ((value_end + 3) div 4 * 4)))
      else Returned (Inl (DiscoveryError NoXorMappedAddress)))"
  by pat_completeness auto
termination
  by (relation "measure (\<lambda>(message, offset). length message - offset)") (auto simp: Let_def)

declare xor_mapped_from.simps [simp del]

definition parse_xor_mapped :: "bytes \<Rightarrow> socket_addr res exec" where
  "parse_xor_mapped message = xor_mapped_from message 20"

definition stun_request :: "bytes \<Rightarrow> bytes" where
  "stun_request transaction = to_be_bytes (1 :: u16) @ [0, 0] @ to_be_bytes MAGIC_COOKIE @ transaction"

definition stun_response :: "bytes \<Rightarrow> bytes \<Rightarrow> socket_addr res exec" where
  "stun_response transaction response =
     (if length response < 20 \<or> take 2 response \<noteq> to_be_bytes (0x0101 :: u16) \<or> take 12 (drop 8 response) \<noteq> transaction
      then Returned (Inl (DiscoveryError InvalidStunResponse))
      else parse_xor_mapped response)"

text \<open>\<open>exchange\<close> sends a datagram to a server and returns the answer; \<open>rng\<close> is the transaction id.\<close>

definition public_address_at :: "(socket_addr \<Rightarrow> bytes \<Rightarrow> bytes res) \<Rightarrow> (socket_addr \<Rightarrow> bytes) \<Rightarrow> socket_addr \<Rightarrow> socket_addr res exec" where
  "public_address_at exchange rng server =
     (case exchange server (stun_request (rng server)) of
        Inl e \<Rightarrow> Returned (Inl e)
      | Inr response \<Rightarrow> stun_response (rng server) response)"

definition oks :: "'a res list \<Rightarrow> 'a list" where
  "oks rs = filter_map (\<lambda>r. case r of Inl _ \<Rightarrow> None | Inr x \<Rightarrow> Some x) rs"

definition errors :: "'a res list \<Rightarrow> error list" where
  "errors rs = filter_map (\<lambda>r. case r of Inl e \<Rightarrow> Some e | Inr _ \<Rightarrow> None) rs"

text \<open>A task that panics is a failed join, so one more error.\<close>

definition joined :: "'a res exec \<Rightarrow> 'a res" where
  "joined r = (case r of Panicked \<Rightarrow> Inl Panic | Returned x \<Rightarrow> x)"

definition public_addresses ::
    "(string \<Rightarrow> socket_addr list res) \<Rightarrow> (socket_addr \<Rightarrow> bytes \<Rightarrow> bytes res) \<Rightarrow> (socket_addr \<Rightarrow> bytes) \<Rightarrow> string
     \<Rightarrow> socket_addr list res" where
  "public_addresses lookup_host exchange rng server =
     (case lookup_host server of
        Inl e \<Rightarrow> Inl e
      | Inr addresses \<Rightarrow>
          (let servers = remdups addresses;
               results = map (\<lambda>a. joined (public_address_at exchange rng a)) servers in
           if servers = [] then Inl (DiscoveryError StunUnresolved)
           else if oks results = [] then Inl (last (errors results))
           else Inr (sort (remdups (oks results)))))"

definition public_address ::
    "(string \<Rightarrow> socket_addr list res) \<Rightarrow> (socket_addr \<Rightarrow> bytes \<Rightarrow> bytes res) \<Rightarrow> (socket_addr \<Rightarrow> bytes) \<Rightarrow> string
     \<Rightarrow> socket_addr res" where
  "public_address lookup_host exchange rng server =
     (case public_addresses lookup_host exchange rng server of
        Inl e \<Rightarrow> Inl e
      | Inr [] \<Rightarrow> Inl (DiscoveryError NoPublicAddress)
      | Inr (address # _) \<Rightarrow> Inr address)"

section \<open>Trackers\<close>

datatype announce_event = Update | Started | Stopped

fun http_value :: "announce_event \<Rightarrow> string option" where
  "http_value Update = None"
| "http_value Started = Some ''started''"
| "http_value Stopped = Some ''stopped''"

fun udp_value :: "announce_event \<Rightarrow> u32" where
  "udp_value Update = 0"
| "udp_value Started = 2"
| "udp_value Stopped = 3"

fun chunks_exact :: "nat \<Rightarrow> 'a list \<Rightarrow> 'a list list" where
  "chunks_exact n xs = (if n = 0 \<or> length xs < n then [] else take n xs # chunks_exact n (drop n xs))"

declare chunks_exact.simps [simp del]

definition compact_peers_v4 :: "bytes \<Rightarrow> socket_addr list" where
  "compact_peers_v4 bs = map (\<lambda>c. SocketAddr (v4_of_octets (take 4 c)) (from_be_bytes (drop 4 c))) (chunks_exact 6 bs)"

definition compact_peers_v6 :: "bytes \<Rightarrow> socket_addr list" where
  "compact_peers_v6 bs = map (\<lambda>c. SocketAddr (v6_of_octets (take 16 c)) (from_be_bytes (drop 16 c))) (chunks_exact 18 bs)"

definition upper_hex_digit :: "nat \<Rightarrow> char" where
  "upper_hex_digit d = (if d < 10 then char_of (48 + d) else char_of (55 + d))"

definition percent_byte :: "u8 \<Rightarrow> string" where
  "percent_byte b = [CHR ''%'', upper_hex_digit (unat b div 16), upper_hex_digit (unat b mod 16)]"

definition percent_bytes :: "bytes \<Rightarrow> string" where
  "percent_bytes bs = concat (map percent_byte bs)"

record http_tracker_response =
  tr_peers :: bytes
  tr_peers6 :: bytes
  tr_failure_reason :: "string option"

record tracker_url =
  tu_scheme :: string
  tu_host :: "string option"
  tu_port :: "u16 option"

text \<open>The services the discovery uses: name lookup, datagrams, HTTP, URL and bencode parsing, the DHT.\<close>

record disc_env =
  de_lookup :: "string \<Rightarrow> socket_addr list res"
  de_exchange :: "socket_addr \<Rightarrow> bytes \<Rightarrow> bytes res"
  de_transaction :: "socket_addr \<Rightarrow> bytes"
  de_nonces :: "u32 \<times> u32 \<times> u32"
  de_url :: "string \<Rightarrow> tracker_url res"
  de_resolve :: "string \<Rightarrow> u16 \<Rightarrow> socket_addr list res"
  de_http_get :: "string \<Rightarrow> bytes res"
  de_bencode :: "bytes \<Rightarrow> http_tracker_response res"
  de_dht :: "bytes \<Rightarrow> bytes \<Rightarrow> u16 \<Rightarrow> (32 word \<times> u16) list list res"

definition http_request_url :: "string \<Rightarrow> bytes \<Rightarrow> bytes \<Rightarrow> u16 \<Rightarrow> announce_event \<Rightarrow> string" where
  "http_request_url tracker hash pid port event =
     tracker @ (if CHR ''?'' \<in> set tracker then ''&'' else ''?'') @ ''info_hash='' @ percent_bytes hash
       @ ''&peer_id='' @ percent_bytes pid @ ''&port='' @ dec_string (unat port)
       @ ''&uploaded=0&downloaded=0&left=0&compact=1&numwant=50''
       @ (case http_value event of None \<Rightarrow> [] | Some v \<Rightarrow> ''&event='' @ v)"

definition query_http ::
    "disc_env \<Rightarrow> string \<Rightarrow> bytes \<Rightarrow> bytes \<Rightarrow> u16 \<Rightarrow> announce_event \<Rightarrow> socket_addr list res" where
  "query_http env tracker hash pid port event =
     (case de_http_get env (http_request_url tracker hash pid port event) of
        Inl e \<Rightarrow> Inl e
      | Inr body \<Rightarrow>
          (case de_bencode env body of
             Inl e \<Rightarrow> Inl e
           | Inr response \<Rightarrow>
               if tr_failure_reason response \<noteq> None then Inl (DiscoveryError TrackerRejected)
               else Inr (compact_peers_v4 (tr_peers response) @ compact_peers_v6 (tr_peers6 response))))"

definition connect_request :: "u32 \<Rightarrow> bytes" where
  "connect_request tx = to_be_bytes (0x41727101980 :: u64) @ [0, 0, 0, 0] @ to_be_bytes tx"

definition announce_request :: "u64 \<Rightarrow> u32 \<Rightarrow> bytes \<Rightarrow> bytes \<Rightarrow> announce_event \<Rightarrow> u32 \<Rightarrow> u16 \<Rightarrow> bytes" where
  "announce_request connection_id tx hash pid event key port =
     to_be_bytes connection_id @ to_be_bytes (1 :: u32) @ to_be_bytes tx @ hash @ pid @ replicate 24 0
       @ to_be_bytes (udp_value event) @ replicate 4 0 @ to_be_bytes key @ to_be_bytes (- 1 :: u32) @ to_be_bytes port"

text \<open>The head of a tracker's answer: the action and the transaction id.\<close>

definition tracker_head :: "bytes \<Rightarrow> u32 \<Rightarrow> u32 \<Rightarrow> bool" where
  "tracker_head response action tx \<longleftrightarrow>
     from_be_bytes (take 4 response) = action \<and> from_be_bytes (take 4 (drop 4 response)) = tx"

definition query_udp ::
    "disc_env \<Rightarrow> string \<Rightarrow> bytes \<Rightarrow> bytes \<Rightarrow> u16 \<Rightarrow> announce_event \<Rightarrow> socket_addr list res" where
  "query_udp env tracker hash pid port event =
     (case de_url env tracker of Inl e \<Rightarrow> Inl e | Inr url \<Rightarrow>
      case tu_host url of None \<Rightarrow> Inl (DiscoveryError TrackerWithoutHost) | Some host \<Rightarrow>
      case de_resolve env host (case tu_port url of None \<Rightarrow> 80 | Some p \<Rightarrow> p) of Inl e \<Rightarrow> Inl e
      | Inr [] \<Rightarrow> Inl (DiscoveryError TrackerUnresolved)
      | Inr (address # _) \<Rightarrow>
          (case de_nonces env of (connect_tx, announce_tx, key) \<Rightarrow>
           case de_exchange env address (connect_request connect_tx) of Inl e \<Rightarrow> Inl e | Inr response \<Rightarrow>
           if length response < 16 \<or> \<not> tracker_head response 0 connect_tx then Inl (DiscoveryError InvalidConnectResponse)
           else let connection_id = from_be_bytes (take 8 (drop 8 response)) in
           case de_exchange env address (announce_request connection_id announce_tx hash pid event key port) of
             Inl e \<Rightarrow> Inl e
           | Inr reply \<Rightarrow>
               if length reply < 20 \<or> \<not> tracker_head reply 1 announce_tx then Inl (DiscoveryError InvalidAnnounceResponse)
               else if is_ipv4 (sa_ip address) then Inr (compact_peers_v4 (drop 20 reply))
               else Inr (compact_peers_v6 (drop 20 reply))))"

definition tracker_query ::
    "disc_env \<Rightarrow> string \<Rightarrow> bytes \<Rightarrow> bytes \<Rightarrow> u16 \<Rightarrow> announce_event \<Rightarrow> socket_addr list res" where
  "tracker_query env tracker hash pid port event =
     (case de_url env tracker of
        Inl e \<Rightarrow> Inl e
      | Inr url \<Rightarrow>
          if tu_scheme url = ''udp'' then query_udp env tracker hash pid port event
          else if tu_scheme url = ''http'' \<or> tu_scheme url = ''https'' then query_http env tracker hash pid port event
          else Inl (DiscoveryError UnsupportedScheme))"

section \<open>The DHT\<close>

definition announce_and_discover :: "disc_env \<Rightarrow> bytes \<Rightarrow> bytes \<Rightarrow> u16 \<Rightarrow> socket_addr list res" where
  "announce_and_discover env local_hash peer_hash port =
     (case de_dht env local_hash peer_hash port of
        Inl e \<Rightarrow> Inl e
      | Inr batches \<Rightarrow> Inr (remdups (map (\<lambda>(a, p). SocketAddr (V4 a) p) (concat batches))))"

section \<open>Configuration\<close>

text \<open>\<open>src/src/config.rs\<close>: the command line, as far as the program computes with it.\<close>

record config =
  cf_interface :: string
  cf_relays :: "string list"
  cf_http_trackers :: "string list"
  cf_udp_trackers :: "string list"
  cf_dht :: bool
  cf_stun :: string
  cf_poll_seconds :: u64
  cf_discovery_interval_seconds :: u64
  cf_peer_port_base :: u16
  cf_listener_port_base :: u16
  cf_management_listen :: socket_addr
  cf_public_relay_port :: u16
  cf_disable_public_relay :: bool

definition poll_interval :: "config \<Rightarrow> u64" where
  "poll_interval c = max (cf_poll_seconds c) 1"

definition discovery_interval :: "config \<Rightarrow> u64" where
  "discovery_interval c = max (cf_discovery_interval_seconds c) 30"

section \<open>A discovery pass\<close>

record discovery_context =
  dc_local_public_key :: string
  dc_listener_port :: u16
  dc_peer_public_keys :: "string list"

definition found :: "socket_addr list res \<Rightarrow> socket_addr list" where
  "found r = (case r of Inl _ \<Rightarrow> [] | Inr addresses \<Rightarrow> addresses)"

definition is_local_candidate :: "socket_addr \<Rightarrow> ip_addr set \<Rightarrow> u16 \<Rightarrow> bool" where
  "is_local_candidate candidate local_public_ips listener_port \<longleftrightarrow>
     sa_port candidate = listener_port \<and> sa_ip candidate \<in> local_public_ips"

definition tracker_pass ::
    "disc_env \<Rightarrow> (bytes \<Rightarrow> bytes) \<Rightarrow> discovery_context \<Rightarrow> announce_event \<Rightarrow> string \<Rightarrow> u64 \<Rightarrow> socket_addr list" where
  "tracker_pass env sha1 ctx event tracker period =
     (let provider = discovery_scope period @ ''|tracker|'' @ tracker;
          own_peer_id = peer_id sha1 (dc_local_public_key ctx) provider in
      found (tracker_query env tracker (info_hash sha1 (dc_local_public_key ctx) provider) own_peer_id
               (dc_listener_port ctx) event)
      @ concat (map (\<lambda>key. found (tracker_query env tracker (info_hash sha1 key provider) own_peer_id
                                  (dc_listener_port ctx) Stopped)) (dc_peer_public_keys ctx)))"

definition dht_pass :: "disc_env \<Rightarrow> (bytes \<Rightarrow> bytes) \<Rightarrow> discovery_context \<Rightarrow> u64 \<Rightarrow> socket_addr list" where
  "dht_pass env sha1 ctx period =
     (let provider = discovery_scope period @ ''|dht-mainline'' in
      concat (map (\<lambda>key. found (announce_and_discover env (info_hash sha1 (dc_local_public_key ctx) provider)
                                (info_hash sha1 key provider) (dc_listener_port ctx))) (dc_peer_public_keys ctx)))"

fun retain_unique :: "'a set \<Rightarrow> 'a list \<Rightarrow> 'a list" where
  "retain_unique unique [] = []"
| "retain_unique unique (x # xs) =
     (if x \<in> unique then retain_unique unique xs else x # retain_unique (insert x unique) xs)"

definition discover_candidates ::
    "disc_env \<Rightarrow> (bytes \<Rightarrow> bytes) \<Rightarrow> config \<Rightarrow> discovery_context \<Rightarrow> bool \<Rightarrow> u64 \<Rightarrow> ip_addr set
     \<Rightarrow> ip_addr set \<times> socket_addr list" where
  "discover_candidates env sha1 config ctx first_announce now local_public_ips =
     (let ips = (case public_addresses (de_lookup env) (de_exchange env) (de_transaction env) (cf_stun config) of
                   Inl _ \<Rightarrow> local_public_ips
                 | Inr addresses \<Rightarrow> local_public_ips \<union> set (map sa_ip addresses));
          event = (if first_announce then Started else Update);
          periods = active_peer_id_periods now;
          trackers = cf_http_trackers config @ cf_udp_trackers config;
          candidates = concat (map (\<lambda>tracker. concat (map (tracker_pass env sha1 ctx event tracker) periods)) trackers)
            @ (if cf_dht config then concat (map (dht_pass env sha1 ctx) periods) else [])
      in (ips, retain_unique {} (retain_public_candidates
            (filter (\<lambda>c. \<not> is_local_candidate c ips (dc_listener_port ctx)) candidates))))"

text \<open>One turn of \<open>run_discovery_loop\<close>: the state it carries is the first flag and the own addresses.\<close>

definition discovery_turn ::
    "disc_env \<Rightarrow> (bytes \<Rightarrow> bytes) \<Rightarrow> config \<Rightarrow> discovery_context \<Rightarrow> u64 \<Rightarrow> bool \<times> ip_addr set
     \<Rightarrow> (bool \<times> ip_addr set) \<times> socket_addr list" where
  "discovery_turn env sha1 config ctx now st =
     (case discover_candidates env sha1 config ctx (fst st) now (snd st) of (ips, cs) \<Rightarrow> ((False, ips), cs))"

section \<open>Public addresses as networks\<close>

definition v4_net :: "u8 \<Rightarrow> u8 \<Rightarrow> u8 \<Rightarrow> u8 \<Rightarrow> u8 \<Rightarrow> ipnet" where
  "v4_net a b c d n = IpNet (V4 (from_be_bytes [a, b, c, d])) n"

definition special_v4 :: "ipnet list" where
  "special_v4 = [v4_net 0 0 0 0 32, v4_net 127 0 0 0 8, v4_net 10 0 0 0 8, v4_net 172 16 0 0 12, v4_net 192 168 0 0 16,
     v4_net 169 254 0 0 16, v4_net 224 0 0 0 4, v4_net 255 255 255 255 32, v4_net 192 0 2 0 24, v4_net 198 51 100 0 24,
     v4_net 203 0 113 0 24, v4_net 100 64 0 0 10]"

definition special_v6 :: "ipnet list" where
  "special_v6 = map (\<lambda>(a, n). IpNet (V6 a) n)
     [(0, 128), (1, 128), (0xff000000000000000000000000000000, 8), (0xfe800000000000000000000000000000, 10),
      (0xfc000000000000000000000000000000, 7), (0x20010db8000000000000000000000000, 32)]"

lemma v4_octets_eq:
  "v4_octets a = [word_of_nat (unat a div 16777216), word_of_nat (unat a div 65536), word_of_nat (unat a div 256),
     word_of_nat (unat a)]"
proof -
  have "be_nat 4 x = [word_of_nat (x div 16777216), word_of_nat (x div 65536), word_of_nat (x div 256), word_of_nat x]" for x
  proof -
    have four: "(4 :: nat) = Suc (Suc (Suc (Suc 0)))" by simp
    show ?thesis unfolding four by (simp add: div_mult2_eq [symmetric])
  qed
  then show ?thesis by (simp add: v4_octets_def to_be_bytes_def)
qed

lemma octet_eq: "(word_of_nat n :: u8) = w \<longleftrightarrow> n mod 256 = unat w"
  by (simp add: word_unat_eq_iff unat_of_nat)

lemma octet_le: "w \<le> (word_of_nat n :: u8) \<longleftrightarrow> unat w \<le> n mod 256" "(word_of_nat n :: u8) \<le> w \<longleftrightarrow> n mod 256 \<le> unat w"
  by (simp_all add: word_le_nat_alt unat_of_nat)

lemma drop_bit_eq_nat: "drop_bit k a = drop_bit k (b :: 'a::len word) \<longleftrightarrow> unat a div 2 ^ k = unat b div 2 ^ k"
  unfolding word_unat_eq_iff unat_drop_bit_eq by (simp add: drop_bit_eq_div)

lemma in_v4_net:
  "cidr_contains (v4_net p q r s n) (V4 a) \<longleftrightarrow>
     unat a div 2 ^ (32 - unat n) = (((unat p * 256 + unat q) * 256 + unat r) * 256 + unat s) div 2 ^ (32 - unat n)"
proof -
  have b: "((unat p * 256 + unat q) * 256 + unat r) * 256 + unat s < 2 ^ 32"
    using unat_u8_bound [of p] unat_u8_bound [of q] unat_u8_bound [of r] unat_u8_bound [of s] by simp
  have "unat (from_be_bytes [p, q, r, s] :: 32 word) = ((unat p * 256 + unat q) * 256 + unat r) * 256 + unat s"
  proof -
    have n: "nat_of_be [p, q, r, s] = ((unat p * 256 + unat q) * 256 + unat r) * 256 + unat s" by (simp add: nat_of_be_def)
    have "unat (word_of_nat m :: 32 word) = m" if "m < 2 ^ 32" for m using that by (simp add: unat_of_nat)
    from this [OF b] show ?thesis unfolding from_be_bytes_def n .
  qed
  then show ?thesis by (auto simp: v4_net_def drop_bit_eq_nat)
qed

lemma byte_split: "q < 256 \<Longrightarrow> n = p * 256 + q \<longleftrightarrow> n div 256 = p \<and> n mod 256 = (q :: nat)"
  by auto

lemma byte_div:
  assumes "q < k" and "k = 16 \<or> k = (4 :: nat)"
  shows "n div (256 div k) = p * k + q \<longleftrightarrow> n div 256 = p \<and> (256 div k) * q \<le> n mod 256 \<and> n mod 256 < (256 div k) * (q + 1)"
proof -
  have "n div (256 div k) div k = n div 256" using assms(2) by (auto simp: div_mult2_eq [symmetric])
  moreover have "n div (256 div k) mod k = n mod 256 div (256 div k)"
    using assms(2) mod_mult2_eq [of n "256 div k" k] by auto
  moreover have "n div (256 div k) = p * k + q \<longleftrightarrow> n div (256 div k) div k = p \<and> n div (256 div k) mod k = q"
    using assms(1) by auto
  moreover have "m div (256 div k) = q \<longleftrightarrow> (256 div k) * q \<le> m \<and> m < (256 div k) * (q + 1)" for m
    using assms(2) by auto
  ultimately show ?thesis by simp
qed

lemma half_split: "q < 65536 \<Longrightarrow> n = p * 65536 + q \<longleftrightarrow> n div 65536 = p \<and> n mod 65536 = (q :: nat)"
  by auto

lemma public_ipv4_cidr: "is_public_ipv4 a \<longleftrightarrow> (\<forall>n\<in>set special_v4. \<not> cidr_contains n (V4 a))"
proof -
  define x where "x = unat a"
  have x: "x < 4294967296" using unsigned_less [of a] by (simp add: x_def)
  define y where "y = x div 65536"
  have y: "y < 65536" using x by (simp add: y_def)
  have d: "x div 16777216 = y div 256" "x div 1048576 = y div 16" "x div 268435456 = y div 4096" "x div 4194304 = y div 64"
    by (simp_all add: y_def div_mult2_eq [symmetric])
  define w where "w = x div 256"
  have yw: "y = w div 256" by (simp add: y_def w_def div_mult2_eq [symmetric])
  have z: "w = 12582914 \<longleftrightarrow> y = 49152 \<and> w mod 256 = 2" "w = 12989284 \<longleftrightarrow> y = 50739 \<and> w mod 256 = 100"
    "w = 13303921 \<longleftrightarrow> y = 51968 \<and> w mod 256 = 113"
    unfolding yw by (rule byte_split [of 2 w 49152, simplified], rule byte_split [of 100 w 50739, simplified],
      rule byte_split [of 113 w 51968, simplified])
  have c: "y = 49320 \<longleftrightarrow> y div 256 = 192 \<and> y mod 256 = 168" "y = 43518 \<longleftrightarrow> y div 256 = 169 \<and> y mod 256 = 254"
    "y = 49152 \<longleftrightarrow> y div 256 = 192 \<and> y mod 256 = 0" "y = 50739 \<longleftrightarrow> y div 256 = 198 \<and> y mod 256 = 51"
    "y = 51968 \<longleftrightarrow> y div 256 = 203 \<and> y mod 256 = 0"
    by (rule byte_split [of 168 y 192, simplified], rule byte_split [of 254 y 169, simplified],
      rule byte_split [of 0 y 192, simplified], rule byte_split [of 51 y 198, simplified],
      rule byte_split [of 0 y 203, simplified])
  have r: "y div 16 = 2753 \<longleftrightarrow> y div 256 = 172 \<and> 16 \<le> y mod 256 \<and> y mod 256 < 32"
    "y div 64 = 401 \<longleftrightarrow> y div 256 = 100 \<and> 64 \<le> y mod 256 \<and> y mod 256 < 128"
    by (rule byte_div [of 1 16 y 172, simplified], rule byte_div [of 1 4 y 100, simplified])
  have r4: "y div 4096 = 14 \<longleftrightarrow> 224 \<le> y div 256 \<and> y div 256 \<le> 239" by auto
  have le: "(y mod 256 \<le> 31) = (y mod 256 < 32)" "(y mod 256 \<le> 127) = (y mod 256 < 128)" by auto
  have wx: "w = x div 256" by (rule w_def)
  have e: "x = 0 \<longleftrightarrow> y div 256 = 0 \<and> y mod 256 = 0 \<and> w mod 256 = 0 \<and> x mod 256 = 0"
    using byte_split [of 0 y 0] byte_split [of 0 w 0, folded yw] byte_split [of 0 x 0, folded wx] by auto
  have e': "x = 4294967295 \<longleftrightarrow> y div 256 = 255 \<and> y mod 256 = 255 \<and> w mod 256 = 255 \<and> x mod 256 = 255"
    using byte_split [of 255 y 255, simplified] byte_split [of 255 w 65535, simplified, folded yw]
      byte_split [of 255 x 16777215, simplified, folded wx] by blast
  have m: "y div 256 mod 256 = y div 256" using y by simp
  show ?thesis
    unfolding is_public_ipv4_def special_v4_def Let_def v4_octets_eq
    apply (simp add: in_v4_net octet_eq octet_le del: neq0_conv flip: x_def)
    apply (simp add: d z c e e' r r4 le m del: neq0_conv flip: y_def w_def)
    done
qed

lemma be_nat_nth: "i < n \<Longrightarrow> be_nat n x ! i = word_of_nat (x div 256 ^ (n - 1 - i))"
proof (induction n arbitrary: x)
  case (Suc n)
  show ?case
  proof (cases "i = n")
    case True
    then show ?thesis by (simp add: nth_append)
  next
    case False
    with Suc.prems have i: "i < n" by simp
    then have "n - i = Suc (n - 1 - i)" by simp
    with i Suc.IH [OF i, of "x div 256"] show ?thesis by (simp add: nth_append div_mult2_eq)
  qed
qed simp

lemma v6_segments_head:
  "v6_segments a ! 0 = word_of_nat (unat a div 2 ^ 112)" "v6_segments a ! 1 = word_of_nat (unat a div 2 ^ 96 mod 65536)"
proof -
  let ?x = "unat a"
  have x: "?x < 2 ^ 128" using unsigned_less [of a, where ?'a = nat] by simp
  have len: "length (v6_octets a) = 16" by (simp add: v6_octets_def)
  have four: "\<exists>b0 b1 b2 b3 r. bs = b0 # b1 # b2 # b3 # r" if "4 \<le> length bs" for bs :: bytes
    using that by (cases bs; cases "tl bs"; cases "tl (tl bs)"; cases "tl (tl (tl bs))") auto
  obtain b0 b1 b2 b3 r where bs: "v6_octets a = b0 # b1 # b2 # b3 # r"
    using four [of "v6_octets a"] len by auto
  have nth: "v6_octets a ! i = word_of_nat (?x div 256 ^ (15 - i))" if "i < 16" for i
    using that be_nat_nth [of i 16 ?x] by (simp add: v6_octets_def to_be_bytes_def)
  have b: "unat b0 = ?x div 2 ^ 120 mod 256" "unat b1 = ?x div 2 ^ 112 mod 256"
    "unat b2 = ?x div 2 ^ 104 mod 256" "unat b3 = ?x div 2 ^ 96 mod 256"
    using nth [of 0] nth [of 1] nth [of 2] nth [of 3] by (simp_all add: bs unat_of_nat)
  have top: "?x div 2 ^ 120 = ?x div 2 ^ 112 div 256" "?x div 2 ^ 104 = ?x div 2 ^ 96 div 256"
    by (simp_all add: div_mult2_eq [symmetric])
  have small: "?x div 2 ^ 112 div 256 mod 256 = ?x div 2 ^ 112 div 256"
    using x by (simp add: div_mult2_eq [symmetric])
  have s0: "unat b0 * 256 + unat b1 = ?x div 2 ^ 112" unfolding b top small by simp
  have "(m div 256 mod 256) * 256 + m mod 256 = m mod 65536" for m :: nat
    using mod_mult2_eq [of m 256 256] by simp
  then have s1: "unat b2 * 256 + unat b3 = ?x div 2 ^ 96 mod 65536" unfolding b top by simp
  show "v6_segments a ! 0 = word_of_nat (?x div 2 ^ 112)"
    using s0 by (simp add: v6_segments_def bs from_be_bytes_def nat_of_be_def flip: s0)
  show "v6_segments a ! 1 = word_of_nat (?x div 2 ^ 96 mod 65536)"
    using s1 by (simp add: v6_segments_def bs from_be_bytes_def nat_of_be_def flip: s1)
qed

lemma and_high_bits: "s AND NOT (mask k) = push_bit k c \<longleftrightarrow> drop_bit k s = drop_bit k (push_bit k c)"
  for s c :: "'a::len word"
proof -
  have "s AND NOT (mask k) = push_bit k (drop_bit k s)" for s :: "'a word"
    by (rule bit_eqI) (auto simp: bit_simps)
  moreover have "drop_bit k (push_bit k (drop_bit k s)) = drop_bit k s" for s :: "'a word"
    by (rule bit_eqI) (auto simp: bit_simps dest: bit_imp_le_length)
  moreover have "push_bit k (drop_bit k (push_bit k c)) = push_bit k c"
    by (rule bit_eqI) (auto simp: bit_simps dest: bit_imp_le_length)
  ultimately show ?thesis by metis
qed

lemma drop_bit_is: "drop_bit k (s :: 'a::len word) = c \<longleftrightarrow> unat s div 2 ^ k = unat c"
  unfolding word_unat_eq_iff unat_drop_bit_eq by (simp add: drop_bit_eq_div)

lemma segment_prefix:
  assumes "t < 65536"
  shows "(word_of_nat t :: u16) AND 0xff00 = 0xff00 \<longleftrightarrow> t div 256 = 255"
    and "(word_of_nat t :: u16) AND 0xffc0 = 0xfe80 \<longleftrightarrow> t div 64 = 1018"
    and "(word_of_nat t :: u16) AND 0xfe00 = 0xfc00 \<longleftrightarrow> t div 512 = 126"
proof -
  have u: "unat (word_of_nat t :: u16) = t" using assms by (simp add: unat_of_nat)
  have n: "(0xff00 :: u16) = NOT (mask 8)" "(0xffc0 :: u16) = NOT (mask 6)" "(0xfe00 :: u16) = NOT (mask 9)"
    "(0xff00 :: u16) = push_bit 8 0xff" "(0xfe80 :: u16) = push_bit 6 0x3fa" "(0xfc00 :: u16) = push_bit 9 0x7e"
    by code_simp+
  show "(word_of_nat t :: u16) AND 0xff00 = 0xff00 \<longleftrightarrow> t div 256 = 255"
    using and_high_bits [of "word_of_nat t" 8 "0xff :: u16"] by (simp add: drop_bit_is u flip: n)
  show "(word_of_nat t :: u16) AND 0xffc0 = 0xfe80 \<longleftrightarrow> t div 64 = 1018"
    using and_high_bits [of "word_of_nat t" 6 "0x3fa :: u16"] by (simp add: drop_bit_is u flip: n)
  show "(word_of_nat t :: u16) AND 0xfe00 = 0xfc00 \<longleftrightarrow> t div 512 = 126"
    using and_high_bits [of "word_of_nat t" 9 "0x7e :: u16"] by (simp add: drop_bit_is u flip: n)
qed

lemma public_ipv6_cidr: "is_public_ipv6 a \<longleftrightarrow> (\<forall>n\<in>set special_v6. \<not> cidr_contains n (V6 a))"
proof -
  define t where "t = unat a div 2 ^ 112"
  have x: "unat a < 2 ^ 128" using unsigned_less [of a, where ?'a = nat] by simp
  then have t: "t < 65536" by (simp add: t_def)
  have d: "unat a div 2 ^ 120 = t div 256" "unat a div 2 ^ 118 = t div 64" "unat a div 2 ^ 121 = t div 512"
    by (simp_all add: t_def div_mult2_eq [symmetric])
  have doc: "unat a div 2 ^ 96 = 536939960 \<longleftrightarrow> t = 8193 \<and> unat a div 2 ^ 96 mod 65536 = 3512"
  proof -
    have "unat a div 2 ^ 96 div 65536 = t" by (simp add: t_def div_mult2_eq [symmetric])
    then show ?thesis unfolding half_split [of 3512 _ 8193, simplified] by blast
  qed
  have seg: "(word_of_nat t :: u16) = 0x2001 \<longleftrightarrow> t = 8193"
    "(word_of_nat (n mod 65536) :: u16) = 0x0db8 \<longleftrightarrow> n mod 65536 = 3512" for n :: nat
    using t by (simp_all add: word_unat_eq_iff unat_of_nat)
  show ?thesis
    unfolding is_public_ipv6_def Let_def special_v6_def v6_segments_head t_def [symmetric] segment_prefix [OF t] seg
    using d doc by (simp add: drop_bit_is)
qed

section \<open>STUN answers\<close>

lemma attribute_at_returns: "offset + 4 \<le> length m \<Longrightarrow> \<exists>k l. attribute_at m offset = Returned (k, l)"
  by (simp add: attribute_at_def exec_simps)

lemma xor_address_at_returns:
  "vs + len \<le> length m \<Longrightarrow> 8 \<le> len \<Longrightarrow> 20 \<le> length m \<Longrightarrow> \<exists>r. xor_address_at m vs len = Returned r"
  by (auto simp: xor_address_at_def Let_def exec_simps)

lemma xor_mapped_from_returns: "20 \<le> offset \<Longrightarrow> \<exists>r. xor_mapped_from m offset = Returned r"
proof (induction m offset rule: xor_mapped_from.induct)
  case (1 m offset)
  show ?case
  proof (cases "offset + 4 \<le> length m")
    case False
    then show ?thesis by (simp add: xor_mapped_from.simps)
  next
    case True
    then obtain k l where a: "attribute_at m offset = Returned (k, l)" using attribute_at_returns by blast
    show ?thesis
    proof (cases "length m < offset + 4 + l")
      case True
      with \<open>offset + 4 \<le> length m\<close> a show ?thesis by (simp add: xor_mapped_from.simps [of m offset] Let_def)
    next
      case False
      let ?v = "if k = 0x0020 \<and> 8 \<le> l then xor_address_at m (offset + 4) l else Returned None"
      obtain r where r: "?v = Returned r"
        using xor_address_at_returns [of "offset + 4" l m] False True 1(2) by (cases "k = 0x0020 \<and> 8 \<le> l") auto
      show ?thesis
      proof (cases r)
        case None
        have "20 \<le> (offset + 4 + l + 3) div 4 * 4" using 1(2) by simp
        with 1(1) [OF True a _ refl refl False r None] None a r True False show ?thesis
          by (simp add: xor_mapped_from.simps [of m offset] Let_def)
      next
        case (Some x)
        with a r True False show ?thesis by (simp add: xor_mapped_from.simps [of m offset] Let_def)
      qed
    qed
  qed
qed

text \<open>The other end: attributes padded to four bytes, and the XOR-MAPPED-ADDRESS attribute.\<close>

definition stun_attribute :: "u16 \<Rightarrow> bytes \<Rightarrow> bytes" where
  "stun_attribute kind v =
     to_be_bytes kind @ to_be_bytes (word_of_nat (length v) :: u16) @ v @ replicate ((4 - length v mod 4) mod 4) 0"

fun xor_mapped_value :: "bytes \<Rightarrow> socket_addr \<Rightarrow> bytes" where
  "xor_mapped_value transaction (SocketAddr (V4 a) port) =
     [0, 1] @ to_be_bytes (port XOR ucast (drop_bit 16 MAGIC_COOKIE)) @ xor_bytes (v4_octets a) (to_be_bytes MAGIC_COOKIE)"
| "xor_mapped_value transaction (SocketAddr (V6 a) port) =
     [0, 2] @ to_be_bytes (port XOR ucast (drop_bit 16 MAGIC_COOKIE))
       @ xor_bytes (v6_octets a) (to_be_bytes MAGIC_COOKIE @ transaction)"

lemma slice_at: "length pre = a \<Longrightarrow> length pre + length mid = b \<Longrightarrow> slice (pre @ mid @ post) a b = Returned mid"
  by (auto simp: slice_def)

lemma attribute_at_attribute:
  assumes "length v < 65536"
  shows "attribute_at (pre @ stun_attribute k v @ post) (length pre) = Returned (k, length v)"
proof -
  let ?n = "to_be_bytes (word_of_nat (length v) :: u16)" and ?r = "v @ replicate ((4 - length v mod 4) mod 4) 0 @ post"
  have "slice (pre @ stun_attribute k v @ post) (length pre) (length pre + 2) = Returned (to_be_bytes k)"
    using slice_at [of pre "length pre" "to_be_bytes k" "length pre + 2" "?n @ ?r"] by (simp add: stun_attribute_def)
  moreover have "slice (pre @ stun_attribute k v @ post) (length pre + 2) (length pre + 4) = Returned ?n"
    using slice_at [of "pre @ to_be_bytes k" "length pre + 2" ?n "length pre + 4" ?r] by (simp add: stun_attribute_def)
  ultimately show ?thesis using assms by (simp add: attribute_at_def unat_of_nat)
qed

lemma padded: "(n + 3) div 4 * 4 = n + (4 - n mod 4) mod (4 :: nat)"
proof -
  obtain q r where n: "n = 4 * q + r" "r < 4" by (metis mod_less_divisor mult_div_mod_eq zero_less_numeral)
  then have m: "n mod 4 = r" by simp
  have d: "(n + 3) div 4 = q + (r + 3) div 4" unfolding n(1) using div_mult_self4 [of 4 q "r + 3"] by (simp add: add.assoc)
  from n(2) consider "r = 0" | "r = 1" | "r = 2" | "r = 3" by linarith
  then show ?thesis unfolding d m unfolding n(1) by cases simp_all
qed

lemma skip_attribute:
  assumes "length v < 65536" and "k \<noteq> 0x0020" and "length pre mod 4 = 0"
  shows "xor_mapped_from (pre @ stun_attribute k v @ post) (length pre) =
    xor_mapped_from (pre @ stun_attribute k v @ post) (length (pre @ stun_attribute k v))"
proof -
  let ?m = "pre @ stun_attribute k v @ post"
  obtain q where q: "length pre = 4 * q" using assms(3) by (metis mod_0_imp_dvd dvdE)
  have "(4 * (q + 1) + (length v + 3)) div 4 = (q + 1) + (length v + 3) div 4" by (rule div_mult_self4) simp
  then have "(length pre + 4 + length v + 3) div 4 = q + 1 + (length v + 3) div 4"
    by (simp only: q add_mult_distrib2 mult_1_right add.assoc)
  then have "(length pre + 4 + length v + 3) div 4 * 4 = length pre + 4 + (length v + 3) div 4 * 4"
    by (simp only: q) simp
  then have "(length pre + 4 + length v + 3) div 4 * 4 = length (pre @ stun_attribute k v)"
    by (simp add: padded stun_attribute_def)
  moreover have "length pre + 4 \<le> length ?m" "\<not> length ?m < length pre + 4 + length v" by (simp_all add: stun_attribute_def)
  ultimately show ?thesis
    using attribute_at_attribute [OF assms(1), of pre k post] assms(2)
    by (simp add: xor_mapped_from.simps [of ?m "length pre"] Let_def)
qed

lemma xor_bytes_twice: "length a \<le> length b \<Longrightarrow> xor_bytes (xor_bytes a b) b = a"
  by (induction a b rule: list_induct2') (auto simp: xor_bytes_def xor.assoc)

lemma length_xor_bytes [simp]: "length (xor_bytes a b) = min (length a) (length b)"
  by (simp add: xor_bytes_def)

lemma hit_attribute:
  assumes pre: "length pre \<ge> 20" and t: "take 12 (drop 8 pre) = transaction"
  shows "xor_mapped_from (pre @ stun_attribute 0x0020 (xor_mapped_value transaction address) @ post) (length pre)
    = Returned (Inr address)"
proof -
  let ?v = "xor_mapped_value transaction address"
  let ?m = "pre @ stun_attribute 0x0020 ?v @ post" and ?s = "length pre + 4"
  have tl: "length transaction = 12" using pre t by auto
  obtain ip port where addr: "address = SocketAddr ip port" by (cases address)
  let ?p = "to_be_bytes (port XOR ucast (drop_bit 16 MAGIC_COOKIE))"
  obtain fam x where v: "?v = [0, fam] @ ?p @ x"
    and fx: "(\<exists>a. ip = V4 a \<and> fam = 1 \<and> x = xor_bytes (v4_octets a) (to_be_bytes MAGIC_COOKIE))
      \<or> (\<exists>a. ip = V6 a \<and> fam = 2 \<and> x = xor_bytes (v6_octets a) (to_be_bytes MAGIC_COOKIE @ transaction))"
    by (cases ip) (auto simp: addr)
  have xl: "length x = (if fam = 1 then 4 else 16)" using fx tl by (auto simp: v4_octets_def v6_octets_def)
  have vl: "length ?v = 4 + length x" by (simp add: v)
  let ?h = "pre @ to_be_bytes (0x0020 :: u16) @ to_be_bytes (word_of_nat (length ?v) :: u16)"
  let ?r = "replicate ((4 - length ?v mod 4) mod 4) 0 @ post"
  have m: "?m = (?h @ [0, fam]) @ ?p @ x @ ?r" by (simp add: stun_attribute_def v)
  have hl: "length ?h = ?s" by simp
  have family: "index_at ?m (?s + 1) = Returned fam" unfolding m by (simp add: index_at_def nth_append)
  have port: "slice ?m (?s + 2) (?s + 4) = Returned ?p"
    unfolding m by (rule slice_at) simp_all
  have bytes: "slice ?m (?s + 4) (?s + 4 + length x) = Returned x"
    unfolding m using slice_at [of "(?h @ [0, fam]) @ ?p" "?s + 4" x "?s + 4 + length x" ?r] by simp
  have trans: "slice ?m 8 20 = Returned transaction" using pre t by (simp add: slice_def)
  have unmask: "(port XOR c) XOR c = port" for c :: u16 by (simp add: xor.assoc)
  have "xor_address_at ?m ?s (length ?v) = Returned (Some address)"
    using fx
  proof (elim disjE exE conjE)
    fix a assume a: "ip = V4 a" "fam = 1" "x = xor_bytes (v4_octets a) (to_be_bytes MAGIC_COOKIE)"
    have "v4_of_octets (xor_bytes x (to_be_bytes MAGIC_COOKIE)) = V4 a"
      by (simp add: a(3) xor_bytes_twice v4_octets_def v4_of_octets_def)
    with a family port bytes xl vl unmask show ?thesis by (simp add: xor_address_at_def addr add.assoc)
  next
    fix a assume a: "ip = V6 a" "fam = 2" "x = xor_bytes (v6_octets a) (to_be_bytes MAGIC_COOKIE @ transaction)"
    have "v6_of_octets (xor_bytes x (to_be_bytes MAGIC_COOKIE @ transaction)) = V6 a"
      using tl by (simp add: a(3) xor_bytes_twice v6_octets_def v6_of_octets_def)
    with a family port bytes trans xl vl unmask show ?thesis by (simp add: xor_address_at_def addr add.assoc)
  qed
  moreover have "attribute_at ?m (length pre) = Returned (0x0020, length ?v)"
    by (rule attribute_at_attribute) (use vl xl in auto)
  moreover have "8 \<le> length ?v" "length pre + 4 \<le> length ?m" "\<not> length ?m < length pre + 4 + length ?v"
    using vl xl by (simp_all add: stun_attribute_def)
  ultimately show ?thesis by (simp add: xor_mapped_from.simps [of ?m "length pre"] Let_def)
qed

lemma length_stun_attribute: "length (stun_attribute k v) mod 4 = 0"
proof -
  have "length (stun_attribute k v) = 4 + (length v + 3) div 4 * 4" by (simp add: stun_attribute_def padded)
  then show ?thesis by simp
qed

lemma scan_attributes:
  assumes "\<forall>(k, v)\<in>set attrs. k \<noteq> 0x0020 \<and> length v < 65536" and "length pre mod 4 = 0" and "20 \<le> length pre"
    and "take 12 (drop 8 pre) = transaction"
  shows "xor_mapped_from (pre @ concat (map (\<lambda>(k, v). stun_attribute k v) attrs)
      @ stun_attribute 0x0020 (xor_mapped_value transaction address) @ post) (length pre) = Returned (Inr address)"
  using assms
proof (induction attrs arbitrary: pre)
  case Nil
  then show ?case using hit_attribute [of pre transaction address post] by simp
next
  case (Cons kv attrs)
  obtain k v where kv: "kv = (k, v)" by (rule prod.exhaust)
  let ?pre = "pre @ stun_attribute k v"
  let ?post = "concat (map (\<lambda>(k, v). stun_attribute k v) attrs)
    @ stun_attribute 0x0020 (xor_mapped_value transaction address) @ post"
  have "xor_mapped_from (?pre @ ?post) (length ?pre) = Returned (Inr address)"
  proof (rule Cons.IH)
    show "length ?pre mod 4 = 0"
      using Cons.prems(2) length_stun_attribute [of k v] by (metis length_append mod_add_eq add_0 mod_0)
    show "take 12 (drop 8 ?pre) = transaction" using Cons.prems(3,4) by simp
  qed (use Cons.prems in auto)
  with skip_attribute [of v k pre ?post] Cons.prems(1,2) show ?case by (simp add: kv)
qed

section \<open>Compact peers\<close>

definition compact_v4 :: "32 word \<times> u16 \<Rightarrow> bytes" where
  "compact_v4 ap = v4_octets (fst ap) @ to_be_bytes (snd ap)"

lemma chunks_exact_concat:
  "0 < n \<Longrightarrow> \<forall>c\<in>set cs. length c = n \<Longrightarrow> length tail < n \<Longrightarrow> chunks_exact n (concat cs @ tail) = cs"
  by (induction cs) (auto simp: chunks_exact.simps [of n])

lemma compact_peers_v4_round_trip:
  "length tail < 6 \<Longrightarrow> compact_peers_v4 (concat (map compact_v4 ps) @ tail) = map (\<lambda>(a, p). SocketAddr (V4 a) p) ps"
proof -
  assume "length tail < 6"
  then have "chunks_exact 6 (concat (map compact_v4 ps) @ tail) = map compact_v4 ps"
    by (intro chunks_exact_concat) (auto simp: compact_v4_def v4_octets_def)
  then show ?thesis by (auto simp: compact_peers_v4_def compact_v4_def v4_octets_def v4_of_octets_def)
qed

lemma announce_request_length:
  "length hash = 20 \<Longrightarrow> length pid = 20 \<Longrightarrow> length (announce_request cid tx hash pid event key port) = 98"
  by (simp add: announce_request_def)

section \<open>Unique candidates\<close>

lemma retain_unique_spec: "set (retain_unique seen xs) = set xs - seen \<and> distinct (retain_unique seen xs)"
  by (induction xs arbitrary: seen) auto

lemma in_kept:
  "c \<in> set (retain_unique {} (retain_public_candidates (filter (\<lambda>c. \<not> is_local_candidate c ips port) xs))) \<longleftrightarrow>
     is_public_candidate c \<and> \<not> (sa_port c = port \<and> sa_ip c \<in> ips) \<and> c \<in> set xs"
  unfolding retain_unique_spec [THEN conjunct1] by (auto simp: retain_public_candidates_def is_local_candidate_def)

lemma in_found: "a \<in> set (found r) \<longleftrightarrow> (\<exists>as. r = Inr as \<and> a \<in> set as)"
  by (auto simp: found_def split: sum.splits)

text \<open>What a lookup of one provider reports: for a key and an event at a tracker, and for a key in the DHT.\<close>

definition tracker_reports ::
    "disc_env \<Rightarrow> (bytes \<Rightarrow> bytes) \<Rightarrow> discovery_context \<Rightarrow> string \<Rightarrow> u64 \<Rightarrow> string \<Rightarrow> announce_event \<Rightarrow> socket_addr \<Rightarrow> bool" where
  "tracker_reports env sha1 ctx tracker period key event c \<longleftrightarrow>
     (let provider = discovery_scope period @ ''|tracker|'' @ tracker in
      \<exists>as. c \<in> set as \<and> tracker_query env tracker (info_hash sha1 key provider)
          (peer_id sha1 (dc_local_public_key ctx) provider) (dc_listener_port ctx) event = Inr as)"

definition dht_reports :: "disc_env \<Rightarrow> (bytes \<Rightarrow> bytes) \<Rightarrow> discovery_context \<Rightarrow> u64 \<Rightarrow> string \<Rightarrow> socket_addr \<Rightarrow> bool" where
  "dht_reports env sha1 ctx period key c \<longleftrightarrow>
     (let provider = discovery_scope period @ ''|dht-mainline'' in
      \<exists>as. c \<in> set as \<and> announce_and_discover env (info_hash sha1 (dc_local_public_key ctx) provider)
          (info_hash sha1 key provider) (dc_listener_port ctx) = Inr as)"

lemma in_tracker_pass:
  "c \<in> set (tracker_pass env sha1 ctx event tracker period) \<longleftrightarrow>
     tracker_reports env sha1 ctx tracker period (dc_local_public_key ctx) event c
     \<or> (\<exists>key\<in>set (dc_peer_public_keys ctx). tracker_reports env sha1 ctx tracker period key Stopped c)"
  by (auto simp: tracker_pass_def tracker_reports_def in_found Let_def)

lemma in_dht_pass:
  "c \<in> set (dht_pass env sha1 ctx period) \<longleftrightarrow> (\<exists>key\<in>set (dc_peer_public_keys ctx). dht_reports env sha1 ctx period key c)"
  by (auto simp: dht_pass_def dht_reports_def in_found Let_def)

section \<open>Properties\<close>

text \<open>
  C22.  Public candidates: the octet and segment tests keep a candidate exactly when its address lies
  in none of the special networks: unspecified, loopback, private, link local, multicast,
  broadcast, documentation and shared address space for IPv4, and unspecified, loopback,
  multicast, link local, unique local and documentation for IPv6.
\<close>

theorem public_candidate_cidr:
  "is_public_candidate c \<longleftrightarrow> \<not> (\<exists>n\<in>set (special_v4 @ special_v6). cidr_contains n (sa_ip c))"
proof (cases c)
  case (SocketAddr ip port)
  show ?thesis
  proof (cases ip)
    case (V4 a)
    have "\<not> cidr_contains n (V4 a)" if "n \<in> set special_v6" for n using that by (auto simp: special_v6_def)
    with public_ipv4_cidr [of a] V4 SocketAddr show ?thesis by auto
  next
    case (V6 a)
    have "\<not> cidr_contains n (V6 a)" if "n \<in> set special_v4" for n using that by (auto simp: special_v4_def v4_net_def)
    with public_ipv6_cidr [of a] V6 SocketAddr show ?thesis by auto
  qed
qed

text \<open>
  C21.  STUN: an answer to our request that carries our address, IPv4 or IPv6, in an
  XOR-MAPPED-ADDRESS attribute after any other attributes yields that address; and no answer
  whatever makes the parser panic or run on.
\<close>

theorem stun_finds_address:
  assumes "length header = 20" and "take 2 header = to_be_bytes (0x0101 :: u16)" and "take 12 (drop 8 header) = transaction"
    and "\<forall>(k, v)\<in>set attrs. k \<noteq> 0x0020 \<and> length v < 65536"
  shows "stun_response transaction (header @ concat (map (\<lambda>(k, v). stun_attribute k v) attrs)
      @ stun_attribute 0x0020 (xor_mapped_value transaction address) @ post) = Returned (Inr address)
    \<and> (\<forall>any. \<exists>r. stun_response transaction any = Returned r)"
proof -
  have "\<exists>r. stun_response transaction any = Returned r" for any
    using xor_mapped_from_returns [of 20 any] by (auto simp: stun_response_def parse_xor_mapped_def)
  moreover have "length transaction = 12" using assms(1,3) by auto
  ultimately show ?thesis
    using scan_attributes [OF assms(4), of header transaction address post] assms(1-3)
    by (simp add: stun_response_def parse_xor_mapped_def)
qed

theorem stun_finds_address_witness:
  "stun_response (replicate 12 7) ([1, 1, 0, 0, 0x21, 0x12, 0xa4, 0x42] @ replicate 12 7
      @ stun_attribute 0x8022 [1, 2, 3] @ stun_attribute 0x0020 (xor_mapped_value (replicate 12 7) (SocketAddr (V4 0x01020304) 51820)))
     = Returned (Inr (SocketAddr (V4 0x01020304) 51820))"
proof -
  let ?h = "[1, 1, 0, 0, 0x21, 0x12, 0xa4, 0x42] @ replicate 12 (7 :: u8)"
  have h: "length ?h = 20" "take 12 (drop 8 ?h) = replicate 12 7" by simp_all
  have k: "take 2 ?h = to_be_bytes (0x0101 :: u16)" by code_simp
  have a: "\<forall>(k, v)\<in>set [(0x8022 :: u16, [1, 2, 3 :: u8])]. k \<noteq> 0x0020 \<and> length v < 65536" by simp
  from stun_finds_address [OF h(1) k h(2) a, of "SocketAddr (V4 0x01020304) 51820" "[]"] show ?thesis by simp
qed

text \<open>
  UDP trackers: with a tracker that follows the protocol, echoing the transaction ids and
  returning a connection id and a list of IPv4 peers in compact form, the query returns exactly
  those peers, whatever incomplete record follows them.
\<close>

theorem udp_tracker_returns_peers:
  assumes url: "de_url env tracker = Inr \<lparr> tu_scheme = ''udp'', tu_host = Some host, tu_port = Some p \<rparr>"
    and addr: "de_resolve env host p = Inr (address # others)" "is_ipv4 (sa_ip address)"
    and nonces: "de_nonces env = (ctx, atx, key)"
    and connect: "de_exchange env address (connect_request ctx) = Inr (to_be_bytes (0 :: u32) @ to_be_bytes ctx @ to_be_bytes cid)"
    and announce: "de_exchange env address (announce_request cid atx hash pid event key port) =
      Inr (to_be_bytes (1 :: u32) @ to_be_bytes atx @ head @ concat (map compact_v4 peers) @ tail)"
    and len: "length head = 12" "length tail < 6"
  shows "tracker_query env tracker hash pid port event = Inr (map (\<lambda>(a, q). SocketAddr (V4 a) q) peers)"
proof -
  have "drop 20 (to_be_bytes (1 :: u32) @ to_be_bytes atx @ head @ concat (map compact_v4 peers) @ tail) =
      concat (map compact_v4 peers) @ tail" using len by simp
  with url addr nonces connect announce len compact_peers_v4_round_trip [OF len(2), of peers] show ?thesis
    by (simp add: tracker_query_def query_udp_def tracker_head_def Let_def)
qed

definition sample_disc_env :: disc_env where
  "sample_disc_env = \<lparr> de_lookup = (\<lambda>_. Inr []),
     de_exchange = (\<lambda>_ packet. if packet = connect_request 5
        then Inr (to_be_bytes (0 :: u32) @ to_be_bytes (5 :: u32) @ to_be_bytes (9 :: u64))
        else Inr (to_be_bytes (1 :: u32) @ to_be_bytes (6 :: u32) @ replicate 12 0 @ compact_v4 (0x08080808, 443) @ [1, 2])),
     de_transaction = (\<lambda>_. []), de_nonces = (5, 6, 7),
     de_url = (\<lambda>_. Inr \<lparr> tu_scheme = ''udp'', tu_host = Some ''tracker'', tu_port = Some 6969 \<rparr>),
     de_resolve = (\<lambda>_ p. Inr [SocketAddr (V4 1) p]), de_http_get = (\<lambda>_. Inl (External 0)),
     de_bencode = (\<lambda>_. Inl (External 0)), de_dht = (\<lambda>_ _ _. Inr []) \<rparr>"

lemma sample_not_connect: "length hash = 20 \<Longrightarrow> length pid = 20 \<Longrightarrow> announce_request cid tx hash pid event key port \<noteq> connect_request n"
  by (drule (1) announce_request_length [of _ _ cid tx event key port]) (auto simp: connect_request_def dest: arg_cong [of _ _ length])

lemma sample_tracker_query:
  "length hash = 20 \<Longrightarrow> length pid = 20 \<Longrightarrow>
     tracker_query sample_disc_env tracker hash pid port event = Inr [SocketAddr (V4 0x08080808) 443]"
  by (simp add: tracker_query_def query_udp_def sample_disc_env_def tracker_head_def sample_not_connect
      compact_peers_v4_round_trip [of "[1, 2]" "[(0x08080808, 443)]", simplified] Let_def)

theorem udp_tracker_returns_peers_witness:
  "tracker_query sample_disc_env ''udp://tracker:6969'' (replicate 20 1) (replicate 20 2) 42000 Started =
     Inr [SocketAddr (V4 0x08080808) 443]"
proof -
  have "tracker_query sample_disc_env ''udp://tracker:6969'' (replicate 20 1) (replicate 20 2) 42000 Started =
      Inr (map (\<lambda>(a, q). SocketAddr (V4 a) q) [(0x08080808, 443)])"
    by (rule udp_tracker_returns_peers [of _ _ "''tracker''" 6969 "SocketAddr (V4 1) 6969" "[]" 5 6 7 9 _ _ _ _ "replicate 12 0" _ "[1, 2]"])
      (simp_all add: sample_disc_env_def sample_not_connect)
  then show ?thesis by simp
qed

text \<open>
  C17.  A discovery pass yields exactly the useful addresses.  The node's own public addresses after the
  pass are the ones it had before and those STUN answered in this pass, no others.  The candidates
  are distinct, and they are precisely the addresses that some tracker or DHT lookup for this node
  or one of its peers, in one of the active periods, returned, without the non-public ones and
  without the node's own public addresses at its listener port.  (The answers of one pass are a
  function of what is asked: its transaction ids are drawn once.)
\<close>

theorem discover_candidates_exact:
  assumes "discover_candidates env sha1 config ctx first now ips = (ips', cs)"
  shows "distinct cs
    \<and> ips' = ips \<union> {sa_ip a | a as. a \<in> set as
         \<and> public_addresses (de_lookup env) (de_exchange env) (de_transaction env) (cf_stun config) = Inr as}
    \<and> (\<forall>c. c \<in> set cs \<longleftrightarrow> is_public_candidate c \<and> \<not> (sa_port c = dc_listener_port ctx \<and> sa_ip c \<in> ips')
       \<and> (\<exists>period\<in>set (active_peer_id_periods now).
           (\<exists>tracker\<in>set (cf_http_trackers config @ cf_udp_trackers config).
              tracker_reports env sha1 ctx tracker period (dc_local_public_key ctx) (if first then Started else Update) c
              \<or> (\<exists>key\<in>set (dc_peer_public_keys ctx). tracker_reports env sha1 ctx tracker period key Stopped c))
           \<or> cf_dht config \<and> (\<exists>key\<in>set (dc_peer_public_keys ctx). dht_reports env sha1 ctx period key c)))"
proof -
  let ?pa = "public_addresses (de_lookup env) (de_exchange env) (de_transaction env) (cf_stun config)"
  note eq = assms [symmetric, unfolded discover_candidates_def Let_def prod.inject]
  have ips: "ips' = (case ?pa of Inl _ \<Rightarrow> ips | Inr as \<Rightarrow> ips \<union> set (map sa_ip as))" by (rule eq [THEN conjunct1])
  let ?all = "concat (map (\<lambda>tracker. concat (map (tracker_pass env sha1 ctx (if first then Started else Update) tracker)
        (active_peer_id_periods now))) (cf_http_trackers config @ cf_udp_trackers config))
      @ (if cf_dht config then concat (map (dht_pass env sha1 ctx) (active_peer_id_periods now)) else [])"
  have cs: "cs = retain_unique {} (retain_public_candidates
      (filter (\<lambda>c. \<not> is_local_candidate c ips' (dc_listener_port ctx)) ?all))"
    unfolding ips by (rule eq [THEN conjunct2])
  have all: "c \<in> set ?all \<longleftrightarrow> (\<exists>period\<in>set (active_peer_id_periods now).
           (\<exists>tracker\<in>set (cf_http_trackers config @ cf_udp_trackers config).
              tracker_reports env sha1 ctx tracker period (dc_local_public_key ctx) (if first then Started else Update) c
              \<or> (\<exists>key\<in>set (dc_peer_public_keys ctx). tracker_reports env sha1 ctx tracker period key Stopped c))
           \<or> cf_dht config \<and> (\<exists>key\<in>set (dc_peer_public_keys ctx). dht_reports env sha1 ctx period key c))" for c
    unfolding set_append [of "concat _"] Un_iff set_concat set_map UN_iff if_distrib [of set]
    using in_tracker_pass in_dht_pass by (auto split: if_splits)
  have "distinct cs" unfolding cs using retain_unique_spec by blast
  moreover have "ips' = ips \<union> {sa_ip a | a as. a \<in> set as \<and> ?pa = Inr as}"
    unfolding ips by (auto split: sum.splits)
  moreover have "c \<in> set cs \<longleftrightarrow> is_public_candidate c \<and> \<not> (sa_port c = dc_listener_port ctx \<and> sa_ip c \<in> ips') \<and> c \<in> set ?all" for c
    unfolding cs by (rule in_kept)
  ultimately show ?thesis unfolding all by simp
qed

definition sample_config :: config where
  "sample_config = \<lparr> cf_interface = ''wg0'', cf_relays = [], cf_http_trackers = [], cf_udp_trackers = [''udp://tracker:6969''],
     cf_dht = False, cf_stun = ''stun'', cf_poll_seconds = 2, cf_discovery_interval_seconds = 300,
     cf_peer_port_base = 30000, cf_listener_port_base = 42000,
     cf_management_listen = SocketAddr (V4 0x7f000001) 51821, cf_public_relay_port = 11020, cf_disable_public_relay = False \<rparr>"

theorem discover_candidates_exact_witness:
  "SocketAddr (V4 0x08080808) 443 \<in> set (snd (discover_candidates sample_disc_env (\<lambda>b. replicate 20 0) sample_config
     \<lparr> dc_local_public_key = ''alice'', dc_listener_port = 42000, dc_peer_public_keys = [''bob''] \<rparr> True 7200 {}))"
proof -
  let ?ctx = "\<lparr> dc_local_public_key = ''alice'', dc_listener_port = 42000, dc_peer_public_keys = [''bob''] \<rparr>"
  obtain ips cs where d: "discover_candidates sample_disc_env (\<lambda>b. replicate 20 0) sample_config ?ctx True 7200 {} = (ips, cs)"
    by (rule prod.exhaust)
  let ?c = "SocketAddr (V4 0x08080808) 443"
  have public: "is_public_candidate ?c" by (simp add: is_public_ipv4_def v4_octets_eq octet_eq octet_le Let_def)
  have period: "peer_id_period 7200 \<in> set (active_peer_id_periods 7200)" by (simp add: active_peer_id_periods_def Let_def)
  have tracker: "''udp://tracker:6969'' \<in> set (cf_http_trackers sample_config @ cf_udp_trackers sample_config)"
    by (simp add: sample_config_def)
  have reports: "tracker_reports sample_disc_env (\<lambda>b. replicate 20 0) ?ctx ''udp://tracker:6969'' period key event ?c"
    for period key event by (simp add: tracker_reports_def Let_def sample_tracker_query peer_id_def info_hash_def)
  have own: "\<not> (sa_port ?c = dc_listener_port ?ctx \<and> sa_ip ?c \<in> ips)" by simp
  have "?c \<in> set cs"
    by (rule discover_candidates_exact [OF d, THEN conjunct2, THEN conjunct2, THEN spec, THEN iffD2])
      (intro conjI public own bexI [OF _ period] disjI1 bexI [OF _ tracker] reports)
  with d show ?thesis by simp
qed

end
