(* ===== verification/Lan.thy ===== *)
theory Lan
  imports Discovery
begin

text \<open>
  \<open>src/src/discovery/lan.rs\<close>: nodes on one local network find each other by announcements to a
  multicast group and the broadcast addresses.  An announcement names its sender by the rotating
  node id, so a node recognises its own.  The socket calls, the interface list and the \<open>ipnet\<close>
  crate are parameters.
\<close>

section \<open>Announcements\<close>

definition DISCOVERY_PORT :: u16 where "DISCOVERY_PORT = 38391"
definition DISCOVERY_GROUP :: "32 word" where "DISCOVERY_GROUP = 0xefff2609"
definition LAN_MAGIC :: bytes where "LAN_MAGIC = as_bytes ''WGLAN01'' @ [0]"
definition LAN_VERSION :: u8 where "LAN_VERSION = 1"
definition LAN_MAX_KEY_LEN :: nat where "LAN_MAX_KEY_LEN = 128"
definition MAX_NETWORK_LEN :: nat where "MAX_NETWORK_LEN = 64"

lemmas lan_consts = DISCOVERY_PORT_def DISCOVERY_GROUP_def LAN_VERSION_def LAN_MAX_KEY_LEN_def MAX_NETWORK_LEN_def

record announcement =
  an_node_id :: string
  an_network :: string
  an_period :: u64
  an_listener_port :: u16

definition encode_announcement :: "announcement \<Rightarrow> bytes exec" where
  "encode_announcement a =
     (let key = as_bytes (an_node_id a); network = as_bytes (an_network a) in
      if LAN_MAX_KEY_LEN < length key \<or> MAX_NETWORK_LEN < length network then Panicked
      else Returned (LAN_MAGIC @ [LAN_VERSION] @ to_be_bytes (word_of_nat (length key) :: u16) @ key
             @ to_be_bytes (an_period a) @ to_be_bytes (an_listener_port a)
             @ [word_of_nat (length network)] @ network))"

text \<open>\<open>cursor\<close> is a constant offset up to the key, and moves with its length after it.\<close>

definition decode_announcement :: "bytes \<Rightarrow> announcement option exec" where
  "decode_announcement packet =
     (if length packet < 22 \<or> take 8 packet \<noteq> LAN_MAGIC then Returned None
      else exec_bind (index_at packet 8) (\<lambda>version.
      if version \<noteq> LAN_VERSION then Returned None
      else exec_bind (slice packet 9 11) (\<lambda>k.
      let key_len = unat (from_be_bytes k :: u16) in
      if key_len = 0 \<or> LAN_MAX_KEY_LEN < key_len \<or> length packet < 11 + key_len + 11 then Returned None
      else exec_bind (slice packet 11 (11 + key_len)) (\<lambda>key.
      case from_utf8 key of None \<Rightarrow> Returned None | Some node_id \<Rightarrow>
      let c = 11 + key_len in
      exec_bind (slice packet c (c + 8)) (\<lambda>period.
      exec_bind (slice packet (c + 8) (c + 10)) (\<lambda>port.
      exec_bind (index_at packet (c + 10)) (\<lambda>n.
      let network_len = unat n in
      if network_len = 0 \<or> MAX_NETWORK_LEN < network_len \<or> c + 11 + network_len \<noteq> length packet then Returned None
      else exec_bind (slice packet (c + 11) (length packet)) (\<lambda>net.
      case from_utf8 net of None \<Rightarrow> Returned None | Some network \<Rightarrow>
      Returned (Some \<lparr> an_node_id = node_id, an_network = network, an_period = from_be_bytes period,
                       an_listener_port = from_be_bytes port \<rparr>)))))))))"

section \<open>The loop\<close>

text \<open>
  One tick announces this node and then listens until the deadline.  The period is read twice, once
  for the id and once for the field.
\<close>

definition own_announcement ::
    "(bytes \<Rightarrow> bytes) \<Rightarrow> (bytes \<Rightarrow> string) \<Rightarrow> string \<Rightarrow> string \<Rightarrow> u16 \<Rightarrow> u64 \<Rightarrow> u64 \<Rightarrow> bytes exec" where
  "own_announcement hash hex public_key network port id_period field_period =
     exec_bind (rotating_node_id hash hex public_key id_period) (\<lambda>node_id.
       encode_announcement \<lparr> an_node_id = node_id, an_network = network, an_period = field_period,
         an_listener_port = port \<rparr>)"

definition announce_destinations :: "(ipnet \<Rightarrow> 32 word) \<Rightarrow> (32 word \<times> ipnet) list \<Rightarrow> socket_addr list" where
  "announce_destinations broadcast interfaces =
     remdups (map (\<lambda>a. SocketAddr (V4 a) DISCOVERY_PORT) (DISCOVERY_GROUP # map (\<lambda>(_, network). broadcast network) interfaces))"

definition accept_announcement ::
    "(bytes \<Rightarrow> bytes) \<Rightarrow> (bytes \<Rightarrow> string) \<Rightarrow> (ipnet \<Rightarrow> ip_addr \<Rightarrow> bool) \<Rightarrow> (32 word \<times> ipnet) list \<Rightarrow> string \<Rightarrow> string \<Rightarrow> u64 list
     \<Rightarrow> bytes \<times> socket_addr \<Rightarrow> socket_addr option exec" where
  "accept_announcement hash hex contains interfaces network public_key periods datagram =
     (case sa_ip (snd datagram) of
        V6 _ \<Rightarrow> Returned None
      | V4 source_ip \<Rightarrow>
          if \<not> list_ex (\<lambda>(_, subnet). contains subnet (V4 source_ip)) interfaces then Returned None
          else exec_bind (decode_announcement (take 512 (fst datagram))) (\<lambda>d.
            case d of
              None \<Rightarrow> Returned None
            | Some a \<Rightarrow>
                if an_network a \<noteq> network \<or> an_period a \<notin> set periods then Returned None
                else exec_bind (rotating_node_id hash hex public_key (an_period a)) (\<lambda>own.
                  if an_node_id a = own \<or> an_listener_port a = 0 then Returned None
                  else Returned (Some (SocketAddr (V4 source_ip) (an_listener_port a))))))"

fun lan_receive_loop ::
    "(bytes \<times> socket_addr \<Rightarrow> socket_addr option exec) \<Rightarrow> (bytes \<times> socket_addr) list \<Rightarrow> socket_addr list exec" where
  "lan_receive_loop accept [] = Returned []"
| "lan_receive_loop accept (d # ds) =
     exec_bind (accept d) (\<lambda>c. exec_bind (lan_receive_loop accept ds) (\<lambda>cs.
       Returned (case c of None \<Rightarrow> cs | Some a \<Rightarrow> List.insert a cs)))"

definition receive_candidates ::
    "(bytes \<Rightarrow> bytes) \<Rightarrow> (bytes \<Rightarrow> string) \<Rightarrow> (ipnet \<Rightarrow> ip_addr \<Rightarrow> bool) \<Rightarrow> (32 word \<times> ipnet) list \<Rightarrow> string \<Rightarrow> string \<Rightarrow> u64
     \<Rightarrow> (bytes \<times> socket_addr) list \<Rightarrow> socket_addr list exec" where
  "receive_candidates hash hex contains interfaces network public_key now datagrams =
     lan_receive_loop (accept_announcement hash hex contains interfaces network public_key (active_peer_id_periods now)) datagrams"

section \<open>Interfaces\<close>

record lan_interface =
  li_name :: string
  li_up :: bool
  li_broadcast :: bool
  li_loopback :: bool
  li_point_to_point :: bool
  li_ips :: "(ip_addr \<times> u8) list"

definition lower_ascii :: "char \<Rightarrow> char" where
  "lower_ascii c = (let n = (of_char c :: nat) in if 65 \<le> n \<and> n \<le> 90 then char_of (n + 32) else c)"

definition is_virtual_interface :: "string \<Rightarrow> bool" where
  "is_virtual_interface name =
     list_ex (starts_with (map lower_ascii name))
       [''wg'', ''wgl'', ''tun'', ''tap'', ''easy'', ''docker'', ''br-'', ''veth'', ''virbr'', ''podman'', ''cni'',
        ''tailscale'', ''zerotier'']"

definition is_private_ipv4 :: "32 word \<Rightarrow> bool" where
  "is_private_ipv4 address =
     (let o0 = v4_octets address ! 0; o1 = v4_octets address ! 1 in
      o0 = 10 \<or> (o0 = 172 \<and> 16 \<le> o1 \<and> o1 \<le> 31) \<or> (o0 = 192 \<and> o1 = 168))"

definition lan_address :: "ip_addr \<times> u8 \<Rightarrow> (32 word \<times> ipnet) option" where
  "lan_address n =
     (case n of
        (V4 address, prefix) \<Rightarrow>
          if is_private_ipv4 address \<and> v4_octets address ! 0 \<noteq> 127 \<and> address \<noteq> 0 \<and> prefix \<le> 32
          then Some (address, IpNet (V4 address) prefix) else None
      | (V6 _, _) \<Rightarrow> None)"

definition local_lan_interfaces :: "lan_interface list \<Rightarrow> (32 word \<times> ipnet) list" where
  "local_lan_interfaces interfaces =
     concat (map (\<lambda>i. filter_map lan_address (li_ips i))
       (filter (\<lambda>i. li_up i \<and> li_broadcast i \<and> \<not> li_loopback i \<and> \<not> li_point_to_point i \<and> \<not> is_virtual_interface (li_name i))
         interfaces))"

section \<open>Coding\<close>

lemma length_LAN_MAGIC [simp]: "length LAN_MAGIC = 8"
  by (simp add: LAN_MAGIC_def)

lemma decode_announcement_returns: "\<exists>d. decode_announcement p = Returned d"
  by (auto simp: decode_announcement_def Let_def exec_simps split: option.splits)

definition wf_announcement :: "announcement \<Rightarrow> bool" where
  "wf_announcement a \<longleftrightarrow> rust_str (an_node_id a) \<and> rust_str (an_network a)
     \<and> 0 < length (an_node_id a) \<and> length (an_node_id a) \<le> LAN_MAX_KEY_LEN
     \<and> 0 < length (an_network a) \<and> length (an_network a) \<le> MAX_NETWORK_LEN"

lemma decode_encode:
  assumes "wf_announcement a" and "encode_announcement a = Returned p"
  shows "decode_announcement p = Returned (Some a)"
proof -
  let ?k = "as_bytes (an_node_id a)" and ?n = "as_bytes (an_network a)"
  let ?kl = "to_be_bytes (word_of_nat (length ?k) :: u16)" and ?nl = "word_of_nat (length ?n) :: u8"
  note A = assms(1) [unfolded wf_announcement_def lan_consts]
  have p: "p = LAN_MAGIC @ [LAN_VERSION] @ ?kl @ ?k @ to_be_bytes (an_period a) @ to_be_bytes (an_listener_port a) @ [?nl] @ ?n"
    using assms A by (auto simp: encode_announcement_def Let_def lan_consts)
  have kl: "unat (from_be_bytes ?kl :: u16) = length ?k" using A by (simp add: unat_of_nat)
  have nl: "unat ?nl = length ?n" using A by (simp add: unat_of_nat)
  let ?c = "11 + length ?k"
  have len: "length p = ?c + 11 + length ?n" by (simp add: p)
  have v: "index_at p 8 = Returned LAN_VERSION" by (simp add: p index_at_def nth_append)
  have s1: "slice p 9 11 = Returned ?kl"
    unfolding p using slice_at [of "LAN_MAGIC @ [LAN_VERSION]" 9 ?kl 11] by simp
  have s2: "slice p 11 ?c = Returned ?k"
    unfolding p using slice_at [of "LAN_MAGIC @ [LAN_VERSION] @ ?kl" 11 ?k ?c] by simp
  have s3: "slice p ?c (?c + 8) = Returned (to_be_bytes (an_period a))"
    unfolding p using slice_at [of "LAN_MAGIC @ [LAN_VERSION] @ ?kl @ ?k" ?c "to_be_bytes (an_period a)" "?c + 8"] by simp
  have s4: "slice p (?c + 8) (?c + 10) = Returned (to_be_bytes (an_listener_port a))"
    unfolding p using slice_at [of "LAN_MAGIC @ [LAN_VERSION] @ ?kl @ ?k @ to_be_bytes (an_period a)" "?c + 8"
        "to_be_bytes (an_listener_port a)" "?c + 10"] by simp
  have i: "index_at p (?c + 10) = Returned ?nl" by (simp add: p index_at_def nth_append)
  have s5: "slice p (?c + 11) (length p) = Returned ?n"
    unfolding len unfolding p using slice_at [of "LAN_MAGIC @ [LAN_VERSION] @ ?kl @ ?k @ to_be_bytes (an_period a)
        @ to_be_bytes (an_listener_port a) @ [?nl]" "?c + 11" ?n "?c + 11 + length ?n" "[]"] by simp
  have "take 8 p = LAN_MAGIC" "\<not> length p < 22" using A by (simp_all add: p)
  then show ?thesis
    using v s1 kl s2 s3 s4 i nl s5 A len
    by (simp add: decode_announcement_def Let_def lan_consts)
qed

lemma decode_announcement_Some:
  assumes "decode_announcement p = Returned (Some a)"
  obtains n where "22 \<le> length p" "take 8 p = LAN_MAGIC" "p ! 8 = LAN_VERSION"
    "n = unat (from_be_bytes (take 2 (drop 9 p)) :: u16)" "0 < n" "n \<le> LAN_MAX_KEY_LEN" "11 + n + 11 \<le> length p"
    "from_utf8 (take n (drop 11 p)) = Some (an_node_id a)"
    "an_period a = from_be_bytes (take 8 (drop (11 + n) p))" "an_listener_port a = from_be_bytes (take 2 (drop (19 + n) p))"
    "0 < unat (p ! (21 + n))" "unat (p ! (21 + n)) \<le> MAX_NETWORK_LEN" "22 + n + unat (p ! (21 + n)) = length p"
    "from_utf8 (drop (22 + n) p) = Some (an_network a)"
proof -
  let ?n = "unat (from_be_bytes (take 2 (drop 9 p)) :: u16)"
  have A: "22 \<le> length p" "take 8 p = LAN_MAGIC" using assms by (auto simp: decode_announcement_def split: if_splits)
  then have B: "p ! 8 = LAN_VERSION" "0 < ?n" "?n \<le> LAN_MAX_KEY_LEN" "11 + ?n + 11 \<le> length p"
    using assms by (auto simp: decode_announcement_def Let_def exec_simps split: if_splits)
  with A have C: "\<exists>node. from_utf8 (take ?n (drop 11 p)) = Some node"
    using assms by (auto simp: decode_announcement_def Let_def exec_simps split: if_splits option.splits)
  then obtain node where node: "from_utf8 (take ?n (drop 11 p)) = Some node" by blast
  have i: "11 + ?n + 10 = 21 + ?n" "11 + ?n + 8 = 19 + ?n" "11 + ?n + 11 = 22 + ?n" by simp_all
  have D: "0 < unat (p ! (21 + ?n))" "unat (p ! (21 + ?n)) \<le> MAX_NETWORK_LEN" "22 + ?n + unat (p ! (21 + ?n)) = length p"
    using assms A B node by (auto simp: decode_announcement_def Let_def exec_simps i split: if_splits)
  then obtain net where net: "from_utf8 (drop (22 + ?n) p) = Some net"
    using assms A B node by (auto simp: decode_announcement_def Let_def exec_simps i split: option.splits)
  have "a = \<lparr> an_node_id = node, an_network = net, an_period = from_be_bytes (take 8 (drop (11 + ?n) p)),
      an_listener_port = from_be_bytes (take 2 (drop (19 + ?n) p)) \<rparr>"
    using assms A B node D net by (auto simp: decode_announcement_def Let_def exec_simps i)
  with that [OF A B(1) refl B(2-4)] node D net show thesis by simp
qed

lemma encode_decode:
  assumes "decode_announcement p = Returned (Some a)"
  shows "wf_announcement a \<and> encode_announcement a = Returned p"
proof -
  from assms obtain n where d: "22 \<le> length p" "take 8 p = LAN_MAGIC" "p ! 8 = LAN_VERSION"
    "n = unat (from_be_bytes (take 2 (drop 9 p)) :: u16)" "0 < n" "n \<le> LAN_MAX_KEY_LEN" "11 + n + 11 \<le> length p"
    "from_utf8 (take n (drop 11 p)) = Some (an_node_id a)"
    "an_period a = from_be_bytes (take 8 (drop (11 + n) p))" "an_listener_port a = from_be_bytes (take 2 (drop (19 + n) p))"
    "0 < unat (p ! (21 + n))" "unat (p ! (21 + n)) \<le> MAX_NETWORK_LEN" "22 + n + unat (p ! (21 + n)) = length p"
    "from_utf8 (drop (22 + n) p) = Some (an_network a)" by (rule decode_announcement_Some)
  have k: "as_bytes (an_node_id a) = take n (drop 11 p)" "rust_str (an_node_id a)"
    and w: "as_bytes (an_network a) = drop (22 + n) p" "rust_str (an_network a)"
    using as_bytes_from_utf8 [OF d(8)] as_bytes_from_utf8 [OF d(14)] by blast+
  have kl: "length (an_node_id a) = n" using arg_cong [OF k(1), of length] d(7) by simp
  have wl: "length (an_network a) = unat (p ! (21 + n))" using arg_cong [OF w(1), of length] d(13) by simp
  have kb: "to_be_bytes (word_of_nat n :: u16) = take 2 (drop 9 p)"
    using d(1) by (simp add: d(4) to_be_bytes_from_be_bytes)
  have pb: "to_be_bytes (an_period a) = take 8 (drop (11 + n) p)" "to_be_bytes (an_listener_port a) = take 2 (drop (19 + n) p)"
    using d(7) by (simp_all add: d(9,10) to_be_bytes_from_be_bytes)
  have cut: "drop i p = take j (drop i p) @ drop (i + j) p" for i j by (metis append_take_drop_id drop_drop add.commute)
  have one: "drop i p = [p ! i] @ drop (Suc i) p" if "i < length p" for i using that by (simp add: Cons_nth_drop_Suc)
  have "p = take 8 p @ drop 8 p" by simp
  also have "drop 8 p = [p ! 8] @ drop 9 p" using one [of 8] d(1) by simp
  also have "drop 9 p = take 2 (drop 9 p) @ drop 11 p" using cut [of 9 2] by simp
  also have "drop 11 p = take n (drop 11 p) @ drop (11 + n) p" by (rule cut)
  also have "drop (11 + n) p = take 8 (drop (11 + n) p) @ drop (19 + n) p" using cut [of "11 + n" 8] by simp
  also have "drop (19 + n) p = take 2 (drop (19 + n) p) @ drop (21 + n) p" using cut [of "19 + n" 2] by simp
  also have "drop (21 + n) p = [p ! (21 + n)] @ drop (22 + n) p" using one [of "21 + n"] d(7) by simp
  finally have "p = LAN_MAGIC @ [LAN_VERSION] @ to_be_bytes (word_of_nat n :: u16) @ as_bytes (an_node_id a)
      @ to_be_bytes (an_period a) @ to_be_bytes (an_listener_port a) @ [p ! (21 + n)] @ as_bytes (an_network a)"
    unfolding d(2,3) kb k(1) pb w(1) by simp
  moreover have "word_of_nat (length (an_network a)) = p ! (21 + n)" by (simp add: wl)
  ultimately have "encode_announcement a = Returned p"
    using d(6,12) kl wl by (simp add: encode_announcement_def Let_def)
  moreover have "wf_announcement a" using k(2) w(2) d(5,6,11,12) kl wl by (simp add: wf_announcement_def)
  ultimately show ?thesis by blast
qed

section \<open>Receiving\<close>

definition node_id :: "(bytes \<Rightarrow> bytes) \<Rightarrow> (bytes \<Rightarrow> string) \<Rightarrow> string \<Rightarrow> u64 \<Rightarrow> string" where
  "node_id hash hex key period =
     take 16 (hex (digest hash [as_bytes ''wg-link/hourly-node/v2'', as_bytes key, to_be_bytes period]))"

lemma rotating_node_id_returns:
  "hex16 hash hex \<Longrightarrow> rotating_node_id hash hex key period = Returned (node_id hash hex key period)"
  by (simp add: hex16_def rotating_node_id_def node_id_def slice_def digest_def)

lemma length_node_id: "hex16 hash hex \<Longrightarrow> length (node_id hash hex key period) = 16"
  by (simp add: hex16_def node_id_def digest_def)

text \<open>What makes a datagram a neighbour's announcement.\<close>

definition neighbour ::
    "(bytes \<Rightarrow> bytes) \<Rightarrow> (bytes \<Rightarrow> string) \<Rightarrow> (ipnet \<Rightarrow> ip_addr \<Rightarrow> bool) \<Rightarrow> (32 word \<times> ipnet) list \<Rightarrow> string \<Rightarrow> string \<Rightarrow> u64 list
     \<Rightarrow> bytes \<times> socket_addr \<Rightarrow> socket_addr \<Rightarrow> bool" where
  "neighbour hash hex contains interfaces network key periods d c \<longleftrightarrow>
     (\<exists>ip a. sa_ip (snd d) = V4 ip \<and> (\<exists>address subnet. (address, subnet) \<in> set interfaces \<and> contains subnet (V4 ip))
        \<and> decode_announcement (take 512 (fst d)) = Returned (Some a)
        \<and> an_network a = network \<and> an_period a \<in> set periods \<and> an_node_id a \<noteq> node_id hash hex key (an_period a)
        \<and> an_listener_port a \<noteq> 0 \<and> c = SocketAddr (V4 ip) (an_listener_port a))"

lemma accept_announcement_spec:
  assumes hx: "hex16 hash hex"
  shows "\<exists>r. accept_announcement hash hex contains interfaces network key periods d = Returned r
    \<and> (\<forall>c. r = Some c \<longleftrightarrow> neighbour hash hex contains interfaces network key periods d c)"
proof (cases "sa_ip (snd d)")
  case (V6 a)
  then show ?thesis by (auto simp: accept_announcement_def neighbour_def)
next
  case (V4 ip)
  obtain x where x: "decode_announcement (take 512 (fst d)) = Returned x" using decode_announcement_returns by blast
  show ?thesis
  proof (cases x)
    case None
    with V4 x show ?thesis by (auto simp: accept_announcement_def neighbour_def)
  next
    case (Some a)
    with V4 x show ?thesis
      by (auto simp: accept_announcement_def neighbour_def rotating_node_id_returns [OF hx] list_ex_iff)
  qed
qed

lemma lan_receive_loop_spec:
  assumes "\<And>d. \<exists>r. accept d = Returned r \<and> (\<forall>c. r = Some c \<longleftrightarrow> P d c)"
  shows "\<exists>cs. lan_receive_loop accept ds = Returned cs \<and> distinct cs \<and> (\<forall>c. c \<in> set cs \<longleftrightarrow> (\<exists>d\<in>set ds. P d c))"
proof (induction ds)
  case (Cons d ds)
  obtain r where r: "accept d = Returned r" "\<forall>c. r = Some c \<longleftrightarrow> P d c" using assms by blast
  obtain cs where cs: "lan_receive_loop accept ds = Returned cs" "distinct cs" "\<forall>c. c \<in> set cs \<longleftrightarrow> (\<exists>d\<in>set ds. P d c)"
    using Cons.IH by blast
  show ?case
  proof (cases r)
    case None
    with r cs show ?thesis by auto
  next
    case (Some a)
    with r have "P d c \<longleftrightarrow> c = a" for c by auto
    with r cs Some show ?thesis by auto
  qed
qed simp

lemma own_announcement_decodes:
  assumes hx: "hex16 hash hex" "\<And>b. rust_str (take 16 (hex b))"
    and net: "rust_str network" "0 < length network" "length network \<le> 64"
    and own: "own_announcement hash hex key network port p1 p2 = Returned packet"
  shows "decode_announcement (take 512 packet) = Returned (Some \<lparr> an_node_id = node_id hash hex key p1,
    an_network = network, an_period = p2, an_listener_port = port \<rparr>)"
proof -
  let ?a = "\<lparr> an_node_id = node_id hash hex key p1, an_network = network, an_period = p2, an_listener_port = port \<rparr>"
  have e: "encode_announcement ?a = Returned packet"
    using own by (simp add: own_announcement_def rotating_node_id_returns [OF hx(1)])
  have "rust_str (node_id hash hex key p1)" unfolding node_id_def by (rule hx(2))
  then have w: "wf_announcement ?a"
    using net length_node_id [OF hx(1), of key p1] by (simp add: wf_announcement_def lan_consts)
  have "length packet = 38 + length network"
    using e length_node_id [OF hx(1), of key p1] by (auto simp: encode_announcement_def Let_def split: if_splits)
  with net have "take 512 packet = packet" by simp
  with decode_encode [OF w e] show ?thesis by simp
qed

section \<open>Properties\<close>

text \<open>
  C23.  Announcements: a packet decodes to an announcement exactly when it is that announcement's
  encoding and the announcement is well formed, with valid names of 1 to 128 and 1 to 64 bytes; so
  decoding inverts encoding, every packet has at most one reading, and no packet makes the decoder
  panic.
\<close>

theorem announcement_decodes_iff:
  "(\<exists>d. decode_announcement p = Returned d)
   \<and> (decode_announcement p = Returned (Some a) \<longleftrightarrow> wf_announcement a \<and> encode_announcement a = Returned p)"
  using decode_encode encode_decode decode_announcement_returns by blast

text \<open>
  C19.  Neighbours: a node hears an announcement another node (or it itself) made for the same network,
  from an address of one of its own subnets and with a usable port; the announcing node took its
  id from the clock at period \<open>p1\<close> and the period field at \<open>p2\<close>, two readings.  If \<open>p2\<close> is an
  active period of the listener and the id is not the listener's own id of period \<open>p2\<close>, the node
  obtains exactly the announcing node's address and listener port as a candidate, otherwise
  nothing.  So it ignores its own announcement when both readings fell in the same hour; when the
  hour turned between them, and the ids of the two hours differ, it takes its own announcement for a
  neighbour's.
\<close>

theorem lan_neighbours_found:
  assumes hx: "hex16 hash hex" "\<And>b. rust_str (take 16 (hex b))"
    and net: "rust_str network" "0 < length network" "length network \<le> 64"
    and own: "own_announcement hash hex key network port p1 p2 = Returned packet"
    and at: "(address, subnet) \<in> set interfaces" "contains subnet (V4 ip)" and port: "port \<noteq> 0"
  shows "\<exists>cs. receive_candidates hash hex contains interfaces network other now [(packet, SocketAddr (V4 ip) any)] = Returned cs
    \<and> cs = (if p2 \<in> set (active_peer_id_periods now) \<and> node_id hash hex key p1 \<noteq> node_id hash hex other p2
           then [SocketAddr (V4 ip) port] else [])"
proof -
  let ?d = "(packet, SocketAddr (V4 ip) any)"
  let ?P = "neighbour hash hex contains interfaces network other (active_peer_id_periods now)"
  obtain cs where cs: "receive_candidates hash hex contains interfaces network other now [?d] = Returned cs"
    "distinct cs" "\<forall>c. c \<in> set cs \<longleftrightarrow> (\<exists>d\<in>set [?d]. ?P d c)"
    unfolding receive_candidates_def
    using lan_receive_loop_spec [of "accept_announcement hash hex contains interfaces network other (active_peer_id_periods now)"
        ?P "[?d]", OF accept_announcement_spec [OF hx(1)]] by blast
  have "?P ?d c \<longleftrightarrow> p2 \<in> set (active_peer_id_periods now)
      \<and> node_id hash hex key p1 \<noteq> node_id hash hex other p2 \<and> c = SocketAddr (V4 ip) port" for c
    unfolding neighbour_def using own_announcement_decodes [OF hx net own] at port by auto
  with cs(3) have "set cs = (if p2 \<in> set (active_peer_id_periods now) \<and> node_id hash hex key p1 \<noteq> node_id hash hex other p2
      then {SocketAddr (V4 ip) port} else {})" by auto
  moreover have "cs = [x]" if "set cs = {x}" for x
    using that cs(2) by (cases cs) (auto simp: subset_singleton_iff)
  ultimately show ?thesis using cs(1) by (auto split: if_splits)
qed

text \<open>
  When the clock passes an hour between the two readings of the period, the id and the period of an
  announcement do not belong together, and the node takes its own announcement for a neighbour's.
\<close>

lemma echo_across_hours_accepted:
  assumes hx: "hex16 hash hex" "\<And>b. rust_str (take 16 (hex b))"
    and net: "rust_str network" "0 < length network" "length network \<le> 64"
    and own: "own_announcement hash hex key network port p1 p2 = Returned packet"
    and at: "(address, subnet) \<in> set interfaces" "contains subnet (V4 ip)"
    and live: "p2 \<in> set periods" "port \<noteq> 0" and hour: "node_id hash hex key p1 \<noteq> node_id hash hex key p2"
  shows "accept_announcement hash hex contains interfaces network key periods (packet, SocketAddr (V4 ip) any)
    = Returned (Some (SocketAddr (V4 ip) port))"
proof -
  obtain r where r: "accept_announcement hash hex contains interfaces network key periods (packet, SocketAddr (V4 ip) any) = Returned r"
    "\<forall>c. r = Some c \<longleftrightarrow> neighbour hash hex contains interfaces network key periods (packet, SocketAddr (V4 ip) any) c"
    using accept_announcement_spec [OF hx(1)] by blast
  have "neighbour hash hex contains interfaces network key periods (packet, SocketAddr (V4 ip) any) (SocketAddr (V4 ip) port)"
    unfolding neighbour_def using own_announcement_decodes [OF hx net own] at live hour by auto
  with r show ?thesis by simp
qed

theorem lan_neighbours_found_witness:
  "\<exists>packet cs. own_announcement id (\<lambda>b. replicate 16 (if even (length b) then CHR ''a'' else CHR ''b''))
         ''alice'' ''net'' 42000 2 2 = Returned packet
     \<and> receive_candidates id (\<lambda>b. replicate 16 (if even (length b) then CHR ''a'' else CHR ''b'')) cidr_contains
         [(0x0a000001, IpNet (V4 0x0a000000) 8)] ''net'' ''carl''
         7200 [(packet, SocketAddr (V4 0x0a000002) 38391)] = Returned cs
     \<and> cs = [SocketAddr (V4 0x0a000002) 42000]"
proof -
  let ?hex = "\<lambda>b :: bytes. replicate 16 (if even (length b) then CHR ''a'' else CHR ''b'')"
  have hx: "hex16 id ?hex" by (simp add: hex16_def)
  have str: "rust_str (take 16 (?hex b))" for b by (cases "even (length b)") (simp_all, code_simp+)
  have net: "rust_str ''net''" "0 < length ''net''" "length ''net'' \<le> 64" by code_simp simp_all
  obtain packet where p: "own_announcement id ?hex ''alice'' ''net'' 42000 2 2 = Returned packet"
    by (simp add: own_announcement_def rotating_node_id_returns [OF hx] encode_announcement_def lan_consts node_id_def)
  have live: "2 \<in> set (active_peer_id_periods 7200)" "(42000 :: u16) \<noteq> 0" by code_simp+
  have at: "(0x0a000001, IpNet (V4 0x0a000000) 8) \<in> set [(0x0a000001 :: 32 word, IpNet (V4 0x0a000000) 8)]"
    "cidr_contains (IpNet (V4 0x0a000000) 8) (V4 0x0a000002)" by (simp, code_simp)
  have ids: "node_id id ?hex ''alice'' 2 \<noteq> node_id id ?hex ''carl'' 2" by code_simp
  from lan_neighbours_found [where hash = id and hex = ?hex and contains = cidr_contains and other = "''carl''" and any = 38391,
      OF hx str net p at live(2)] p ids live(1) show ?thesis by auto
qed

end
