(* ===== verification/Cleanup.thy ===== *)
theory Cleanup
  imports Route_Stack
begin

text \<open>
  \<open>src/src/shortcut/policy.rs\<close>, recovery after a crash: what \<open>cleanup_stale\<close> makes of the rules an
  earlier run left in the kernel.  The locale \<open>ip_listing\<close> extends the contract of the \<open>ip\<close> tool by
  its listing: \<open>listing k family\<close> is the sequence of rules of a family, each with its priority and
  the words printed after it.
\<close>

section \<open>Rules as listed\<close>

type_synonym listed_rule = "u32 \<times> string list"

definition lookup_word :: "string list \<Rightarrow> string option" where
  "lookup_word ws = find_map (\<lambda>(a, b). if a = ''lookup'' then Some b else None) (windows2 ws)"

definition in_managed_range :: "u32 \<Rightarrow> bool" where
  "in_managed_range p \<longleftrightarrow> fst MANAGED_RULE_PRIORITY_RANGE \<le> p \<and> p < snd MANAGED_RULE_PRIORITY_RANGE"

definition managed_rule :: "system_policy \<Rightarrow> listed_rule \<Rightarrow> bool" where
  "managed_rule sp r \<longleftrightarrow> in_managed_range (fst r) \<and> lookup_word (snd r) = Some (u32_string (sp_table sp))"

definition rule_family :: "ipnet \<Rightarrow> string" where
  "rule_family s = (if is_ipv6 (net_addr s) then ''-6'' else ''-4'')"

lemma parse_listed:
  assumes "split_whitespace line = (u32_string p @ '':'') # ws"
  shows "parse_managed_rule line (sp_table sp) MANAGED_RULE_PRIORITY_RANGE
    = (if managed_rule sp (p, ws) then Some p else None)"
proof -
  have "parse_word (u32_string p) = Some p" by (simp add: u32_string_def parse_word_dec_string)
  then show ?thesis
    by (auto simp: parse_managed_rule_def assms trim_priority managed_rule_def in_managed_range_def lookup_word_def
        split: bind_splits)
qed

lemma parse_listing:
  "map split_whitespace lines = map (\<lambda>(p, ws). (u32_string p @ '':'') # ws) rs \<Longrightarrow>
     filter_map (\<lambda>line. parse_managed_rule line (sp_table sp) MANAGED_RULE_PRIORITY_RANGE) lines
     = map fst (filter (managed_rule sp) rs)"
proof (induction lines arbitrary: rs)
  case (Cons line lines)
  then obtain p ws rs' where rs: "rs = (p, ws) # rs'" and l: "split_whitespace line = (u32_string p @ '':'') # ws"
    by (cases rs) auto
  with Cons.prems Cons.IH [of rs'] show ?case by (simp add: parse_listed [OF l])
qed simp

section \<open>The tool that lists\<close>

locale ip_listing = ip_tool ip hash net_string sp rules
  for ip :: "'k ip_fn" and hash :: "bytes \<Rightarrow> bytes" and net_string :: "ipnet \<Rightarrow> string"
    and sp :: system_policy and rules :: "'k \<Rightarrow> ipnet set" +
  fixes listing :: "'k \<Rightarrow> string \<Rightarrow> listed_rule list"
  assumes listed: "s \<in> rules k \<Longrightarrow> \<exists>ws. (rule_priority hash net_string sp s, ws) \<in> set (listing k (rule_family s))
      \<and> lookup_word ws = Some (u32_string (sp_table sp))"
    and rule_show: "ip k [family, ''rule'', ''show''] = (k', Inr out) \<Longrightarrow> listing k' = listing k
      \<and> (out_success out \<longrightarrow> map split_whitespace (str_lines (out_stdout out))
           = map (\<lambda>(p, ws). (u32_string p @ '':'') # ws) (listing k family))"
    and rule_del_priority: "ip k [family, ''rule'', ''del'', ''priority'', u32_string p, ''lookup'', u32_string t] = (k', Inr out) \<Longrightarrow>
      out_success out \<Longrightarrow> \<exists>xs ws ys. listing k family = xs @ (p, ws) # ys \<and> lookup_word ws = Some (u32_string t)
        \<and> listing k' = (listing k)(family := xs @ ys)"
    and route_flush: "ip k [family, ''route'', ''flush'', ''table'', tw] = (k', Inr out) \<Longrightarrow> listing k' = listing k"
    and control_rule: "ip k (control_bypass_args operation family) = (k', Inr out) \<Longrightarrow>
      filter (\<lambda>r. fst r \<noteq> CONTROL_RULE_PRIORITY) (listing k' f) = filter (\<lambda>r. fst r \<noteq> CONTROL_RULE_PRIORITY) (listing k f)"
begin

abbreviation managed where "managed k family \<equiv> filter (managed_rule sp) (listing k family)"
abbreviation foreign where "foreign k family \<equiv> filter (\<lambda>r. \<not> managed_rule sp r) (listing k family)"

text \<open>The rules apart from the control rule, which is not managed.\<close>

abbreviation kept where "kept k family \<equiv> filter (\<lambda>r. \<not> managed_rule sp r \<and> fst r \<noteq> CONTROL_RULE_PRIORITY) (listing k family)"

lemma delete_rules_listing:
  assumes "delete_rules ip (sp_table sp) family k ps = (k', Inr u)" and "mset (map fst (managed k family)) = mset ps"
    and "list_all in_managed_range ps"
  shows "managed k' family = [] \<and> foreign k' family = foreign k family \<and> (\<forall>f. f \<noteq> family \<longrightarrow> listing k' f = listing k f)"
  using assms
proof (induction ps arbitrary: k)
  case (Cons p ps)
  from Cons.prems(1) obtain k1 out where
    d: "ip k [family, ''rule'', ''del'', ''priority'', u32_string p, ''lookup'', u32_string (sp_table sp)] = (k1, Inr out)"
    "out_success out" and rest: "delete_rules ip (sp_table sp) family k1 ps = (k', Inr u)"
    by (auto simp: run_ip_def split: prod.splits sum.splits if_splits)
  from rule_del_priority [OF d] obtain xs ws ys where l: "listing k family = xs @ (p, ws) # ys"
    "lookup_word ws = Some (u32_string (sp_table sp))" "listing k1 = (listing k)(family := xs @ ys)" by blast
  have "managed_rule sp (p, ws)" using l(2) Cons.prems(3) by (simp add: managed_rule_def)
  with l Cons.prems(2) have "mset (map fst (managed k1 family)) = mset ps" "foreign k1 family = foreign k family" by auto
  with Cons.IH [OF rest] Cons.prems(3) l(3) show ?case by simp
qed (auto simp: filter_empty_conv)

lemma cleanup_family_listing:
  assumes "cleanup_family ip sp family k = (k', Inr u)"
  shows "managed k' family = [] \<and> foreign k' family = foreign k family \<and> (\<forall>f. f \<noteq> family \<longrightarrow> listing k' f = listing k f)"
proof -
  from assms obtain k1 out where s: "ip k [family, ''rule'', ''show''] = (k1, Inr out)" "out_success out"
    by (auto simp: cleanup_family_def split: prod.splits sum.splits if_splits)
  let ?ps = "filter_map (\<lambda>line. parse_managed_rule line (sp_table sp) MANAGED_RULE_PRIORITY_RANGE) (str_lines (out_stdout out))"
  from assms s obtain k2 v where d: "delete_rules ip (sp_table sp) family k1 ?ps = (k2, Inr v)"
    by (auto simp: cleanup_family_def split: prod.splits sum.splits if_splits)
  from assms s d obtain out' where f: "ip k2 [family, ''route'', ''flush'', ''table'', u32_string (sp_table sp)] = (k', Inr out')"
    by (auto simp: cleanup_family_def split: prod.splits sum.splits if_splits)
  have l: "listing k1 = listing k" and ps: "?ps = map fst (managed k family)"
    using rule_show [OF s(1)] s(2) by (auto intro: parse_listing)
  have "list_all in_managed_range ?ps" by (auto simp: ps list_all_iff managed_rule_def)
  from delete_rules_listing [OF d _ this] show ?thesis by (simp add: l ps route_flush [OF f])
qed

lemma control_rule_unmanaged: "managed_rule sp r \<Longrightarrow> fst r \<noteq> CONTROL_RULE_PRIORITY"
  by (auto simp: managed_rule_def in_managed_range_def MANAGED_RULE_PRIORITY_RANGE_def CONTROL_RULE_PRIORITY_def)

lemma control_rule_keeps:
  assumes "ip k (control_bypass_args operation family) = (k', Inr out)"
  shows "managed k' f = managed k f" and "kept k' f = kept k f"
proof -
  have m: "managed k f = filter (managed_rule sp) (filter (\<lambda>r. fst r \<noteq> CONTROL_RULE_PRIORITY) (listing k f))"
    "kept k f = filter (\<lambda>r. \<not> managed_rule sp r) (filter (\<lambda>r. fst r \<noteq> CONTROL_RULE_PRIORITY) (listing k f))" for k
    using control_rule_unmanaged by (auto intro!: filter_cong)
  show "managed k' f = managed k f" "kept k' f = kept k f" unfolding m control_rule [OF assms] by (rule refl)+
qed

lemma control_families:
  assumes "for_families g fs k = (k', Inr u)"
    and "\<And>family k k'. g family k = (k', Inr ()) \<Longrightarrow> \<exists>out. ip k (control_bypass_args operation family) = (k', Inr out)"
  shows "managed k' f = managed k f" and "kept k' f = kept k f"
proof -
  have "managed k' f = managed k f \<and> kept k' f = kept k f" using assms(1)
  proof (induction fs arbitrary: k)
    case (Cons family fs)
    obtain k1 r where g: "g family k = (k1, r)" by (rule prod.exhaust)
    with Cons.prems have r: "r = Inr ()" and rest: "for_families g fs k1 = (k', Inr u)" by (cases r; simp)+
    from assms(2) [OF g [unfolded r]] obtain out where "ip k (control_bypass_args operation family) = (k1, Inr out)" by blast
    from control_rule_keeps [OF this, of f] Cons.IH [OF rest] show ?case by argo
  qed simp
  then show "managed k' f = managed k f" and "kept k' f = kept k f" by simp_all
qed

lemma bypass_keeps:
  "remove_control_bypass ip k = (k', Inr u) \<Longrightarrow> managed k' f = managed k f \<and> kept k' f = kept k f"
  "ensure_control_bypass ip k = (k', Inr u) \<Longrightarrow> managed k' f = managed k f \<and> kept k' f = kept k f"
  unfolding remove_control_bypass_def ensure_control_bypass_def
  by (rule conjI; rule control_families [where operation = "''del''"], assumption,
      fastforce split: prod.splits sum.splits if_splits)
    (rule conjI; rule control_families [where operation = "''add''"], assumption,
      fastforce split: prod.splits sum.splits if_splits)

lemma cleanup_listing:
  assumes "cleanup_stale ip sp k = (k', Inr u)" and f: "f \<in> set families"
  shows "managed k' f = []" and "kept k' f = kept k f"
proof -
  from assms(1) obtain k0 v where b: "remove_control_bypass ip k = (k0, Inr v)"
    and c: "for_families (cleanup_family ip sp) families k0 = (k', Inr u)"
    by (auto simp: cleanup_stale_def split: prod.splits sum.splits)
  obtain k1 r1 where c1: "cleanup_family ip sp ''-4'' k0 = (k1, r1)" by (rule prod.exhaust)
  obtain k2 r2 where c2: "cleanup_family ip sp ''-6'' k1 = (k2, r2)" by (rule prod.exhaust)
  from c c1 obtain v1 where r1: "r1 = Inr v1" by (cases r1) (auto simp: families_def)
  from c c1 c2 r1 obtain v2 where r2: "r2 = Inr v2" "k2 = k'" by (cases r2) (auto simp: families_def)
  have kept: "kept k f = filter (\<lambda>r. fst r \<noteq> CONTROL_RULE_PRIORITY) (foreign k f)" for k by (simp add: conj_commute)
  note A = cleanup_family_listing [OF c1 [unfolded r1]] and B = cleanup_family_listing [OF c2 [unfolded r2]]
  from f consider "f = ''-4''" | "f = ''-6''" by (auto simp: families_def)
  then have "managed k' f = [] \<and> foreign k' f = foreign k0 f" by cases (use A B in simp_all)
  moreover have "kept k' f = kept k0 f" unfolding kept using calculation by argo
  ultimately show "managed k' f = []" and "kept k' f = kept k f" using bypass_keeps(1) [OF b, of f] by argo+
qed

lemma unmanaged_rules:
  assumes "\<And>f. f \<in> set families \<Longrightarrow> managed k f = []" and "sp_priority_base sp = DEFAULT_RULE_PRIORITY_BASE"
  shows "rules k = {}"
proof (rule ccontr)
  assume "rules k \<noteq> {}"
  then obtain s where "s \<in> rules k" by blast
  from listed [OF this] obtain ws where ws: "(rule_priority hash net_string sp s, ws) \<in> set (listing k (rule_family s))"
    "lookup_word ws = Some (u32_string (sp_table sp))" by blast
  have "in_managed_range (rule_priority hash net_string sp s)"
    using rule_priority_bounds [OF assms(2), of hash net_string s]
    by (simp add: in_managed_range_def MANAGED_RULE_PRIORITY_RANGE_def wnat)
  with ws have "(rule_priority hash net_string sp s, ws) \<in> set (managed k (rule_family s))" by (simp add: managed_rule_def)
  moreover have "rule_family s \<in> set families" by (simp add: rule_family_def families_def)
  ultimately show False using assms(1) by fastforce
qed

end

section \<open>A kernel that lists its rules\<close>

text \<open>Words and lines of printed text.\<close>

definition is_word :: "string \<Rightarrow> bool" where
  "is_word w \<longleftrightarrow> w \<noteq> [] \<and> list_all (\<lambda>c. \<not> is_ws c) w"

lemma split_ws_word:
  "list_all (\<lambda>c. \<not> is_ws c) w \<Longrightarrow> cur @ w \<noteq> [] \<Longrightarrow> is_ws c \<Longrightarrow>
     split_ws_from cur (w @ c # rest) = (cur @ w) # split_ws_from [] rest"
  by (induction w arbitrary: cur) auto

lemma split_ws_last: "list_all (\<lambda>c. \<not> is_ws c) w \<Longrightarrow> cur @ w \<noteq> [] \<Longrightarrow> split_ws_from cur w = [cur @ w]"
  by (induction w arbitrary: cur) auto

lemma split_join_words:
  "list_all is_word ws \<Longrightarrow> split_whitespace (join '' '' ws) = ws"
proof (induction ws rule: induct_list012)
  case (3 a b ws)
  then have "list_all (\<lambda>c. \<not> is_ws c) a" "a \<noteq> []" by (auto simp: is_word_def)
  with split_ws_word [of a "[]" "CHR '' ''" "join '' '' (b # ws)"] 3 show ?case
    by (simp add: split_whitespace_def is_ws_def)
qed (auto simp: split_whitespace_def is_word_def split_ws_last)

lemma lines_from_line: "newline \<notin> set l \<Longrightarrow> lines_from cur (l @ newline # rest) = strip_cr (cur @ l) # lines_from [] rest"
  by (induction l arbitrary: cur) auto

lemma newline_ws: "is_ws newline" "is_ws (char_of (13 :: nat))"
  by (simp_all add: is_ws_def newline_def)

lemma join_words_chars: "c \<in> set (join '' '' ws) \<Longrightarrow> c = CHR '' '' \<or> (\<exists>w\<in>set ws. c \<in> set w)"
  by (induction ws rule: induct_list012) auto

lemma join_words_line:
  assumes "list_all is_word ws"
  shows "newline \<notin> set (join '' '' ws)" and "strip_cr (join '' '' ws) = join '' '' ws"
proof -
  have "\<not> is_ws c \<or> c = CHR '' ''" if "c \<in> set (join '' '' ws)" for c
    using join_words_chars [OF that] assms by (auto simp: list_all_iff is_word_def)
  moreover have "newline \<noteq> CHR '' ''" "char_of (13 :: nat) \<noteq> CHR '' ''" by code_simp+
  ultimately have "newline \<notin> set (join '' '' ws)" "char_of (13 :: nat) \<notin> set (join '' '' ws)"
    using newline_ws by blast+
  then show "newline \<notin> set (join '' '' ws)" and "strip_cr (join '' '' ws) = join '' '' ws"
    by (auto simp: strip_cr_def dest: last_in_set)
qed

lemma str_lines_words:
  "list_all (list_all is_word) wss \<Longrightarrow>
     map split_whitespace (str_lines (concat (map (\<lambda>ws. join '' '' ws @ [newline]) wss))) = wss"
  unfolding str_lines_def
  by (induction wss) (simp_all add: lines_from_line join_words_line split_join_words)

lemma u32_word: "is_word (u32_string n)" "is_word (u32_string n @ '':'')"
proof -
  have "\<not> is_ws (digit_char d)" if "d < 10" for d
  proof -
    have "list_all (\<lambda>d. \<not> is_ws (digit_char d)) [0..<10]" by code_simp
    with that show ?thesis by (simp add: list_all_iff)
  qed
  then have "list_all (\<lambda>c. \<not> is_ws c) (u32_string n)"
    using dec_string_chars by (auto simp: list_all_iff u32_string_def)
  then show "is_word (u32_string n)" "is_word (u32_string n @ '':'')" by (simp_all add: is_word_def u32_string_def is_ws_def)
qed

text \<open>A rule of the kernel in \<open>Route_Stack\<close> as a family, a priority and a table.\<close>

fun entry_rule :: "string list \<Rightarrow> (string \<times> u32 \<times> string) option" where
  "entry_rule [f, a, p, b, n, c, t] =
     (if a = ''priority'' \<and> b = ''to'' \<and> c = ''lookup'' \<and> is_word t
      then map_option (\<lambda>q. (f, q, t)) (parse_word p) else None)"
| "entry_rule _ = None"

definition entries :: "string list list \<Rightarrow> string \<Rightarrow> listed_rule list" where
  "entries k family = filter_map (\<lambda>e. case entry_rule e of None \<Rightarrow> None
     | Some (f, q, t) \<Rightarrow> if f = family then Some (q, [''lookup'', t]) else None) k"

definition listing_ip :: "string list list ip_fn" where
  "listing_ip k args =
     (case args of
        [family, a, b] \<Rightarrow>
          if a = ''rule'' \<and> b = ''show''
          then (k, Inr (tool_ok\<lparr> out_stdout := concat (map (\<lambda>ws. join '' '' ws @ [newline])
                 (map (\<lambda>(p, ws). (u32_string p @ '':'') # ws) (entries k family))) \<rparr>))
          else list_ip k args
      | [family, a, b, c, p, d, t] \<Rightarrow>
          if a = ''rule'' \<and> b = ''del'' \<and> c = ''priority'' \<and> d = ''lookup''
          then (case List.extract (\<lambda>e. case entry_rule e of None \<Rightarrow> False
                  | Some (f, q, u) \<Rightarrow> f = family \<and> u32_string q = p \<and> u = t) k of
                  None \<Rightarrow> (k, Inr (tool_failed ''RTNETLINK answers: No such file or directory''))
                | Some (xs, e, ys) \<Rightarrow> (xs @ ys, Inr tool_ok))
          else list_ip k args
      | _ \<Rightarrow> list_ip k args)"

lemma listing_ip_calls:
  "listing_ip k (rule_arguments hash ns sp operation s) = list_ip k (rule_arguments hash ns sp operation s)"
  "listing_ip k (prepare_args sp s) = list_ip k (prepare_args sp s)"
  "listing_ip k (control_bypass_args operation family) = list_ip k (control_bypass_args operation family)"
  "listing_ip k [family, ''route'', ''flush'', ''table'', t] = list_ip k [family, ''route'', ''flush'', ''table'', t]"
  by (auto simp: listing_ip_def rule_arguments_def prepare_args_def control_bypass_args_def split: option.split)

lemma listing_ip_runs: "\<exists>k' out. listing_ip k args = (k', Inr out)"
  using list_ip_runs [of k args] by (auto simp: listing_ip_def split: list.split option.split)

lemma entries_Nil [simp]: "entries [] family = []"
  by (simp add: entries_def)

lemma entries_append: "entries (xs @ ys) family = entries xs family @ entries ys family"
  by (simp add: entries_def)

lemma entries_Cons:
  "entries (e # k) family = (case entry_rule e of None \<Rightarrow> []
     | Some (f, q, t) \<Rightarrow> if f = family then [(q, [''lookup'', t])] else []) @ entries k family"
  by (auto simp: entries_def split: option.split)

lemma entries_member:
  "(q, ws) \<in> set (entries k family) \<longleftrightarrow> (\<exists>e t. e \<in> set k \<and> entry_rule e = Some (family, q, t) \<and> ws = [''lookup'', t])"
  by (induction k) (auto simp: entries_Cons split: option.splits if_splits)

lemma entries_removeAll: "entry_rule e = None \<Longrightarrow> entries (removeAll e k) family = entries k family"
  by (induction k) (auto simp: entries_Cons)

lemma entries_words: "list_all (list_all is_word) (map (\<lambda>(p, ws). (u32_string p @ '':'') # ws) (entries k family))"
proof -
  have t: "entry_rule e = Some (f, q, t) \<Longrightarrow> is_word t" for e f q t
    by (cases e rule: entry_rule.cases) (auto split: if_splits)
  have "is_word ''lookup''" by code_simp
  then show ?thesis using t
    by (induction k) (auto simp: entries_def u32_word split: option.split)
qed

lemma entry_rule_body: "entry_rule (rule_body hash sp s) =
    Some (rule_family s, rule_priority hash raw_net_string sp s, u32_string (sp_table sp))"
proof -
  have "parse_word (u32_string p) = Some p" for p by (simp add: u32_string_def parse_word_dec_string)
  then show ?thesis by (simp add: rule_body_def rule_family_def u32_word)
qed

lemma control_entries:
  assumes "list_ip k (control_bypass_args operation family) = (k', Inr out)"
  shows "entries k' f = entries k f"
  using assms by (auto simp: list_ip_def control_bypass_args_def entries_removeAll entries_Cons split: if_splits)

interpretation listing_kernel: ip_listing listing_ip hash raw_net_string sp "list_rules hash sp" entries
proof unfold_locales
  fix k k' :: "string list list" and args e s r out family p t tw operation f
  show "list_rules hash sp k' = list_rules hash sp k" if "listing_ip k args = (k', Inl e)"
    using that listing_ip_runs [of k args] by auto
  show "list_rules hash sp k' = list_rules hash sp k" if "listing_ip k (prepare_args sp s) = (k', r)"
    using that unfolding listing_ip_calls by (rule list_kernel.route_replace)
  show "list_rules hash sp k' = (if out_success out then insert s (list_rules hash sp k) else list_rules hash sp k)"
    if "listing_ip k (rule_arguments hash raw_net_string sp ''add'' s) = (k', Inr out)"
    using that unfolding listing_ip_calls by (rule list_kernel.rule_add)
  show "s \<in> list_rules hash sp k"
    if "listing_ip k (rule_arguments hash raw_net_string sp ''add'' s) = (k', Inr out)" "\<not> out_success out"
      "contains_str (out_stderr out) ''File exists''"
    using that unfolding listing_ip_calls by (rule list_kernel.rule_add_exists)
  show "list_rules hash sp k' = (if out_success out then list_rules hash sp k - {s} else list_rules hash sp k)"
    if "listing_ip k (rule_arguments hash raw_net_string sp ''del'' s) = (k', Inr out)"
    using that unfolding listing_ip_calls by (rule list_kernel.rule_del)
  show "s \<notin> list_rules hash sp k"
    if "listing_ip k (rule_arguments hash raw_net_string sp ''del'' s) = (k', Inr out)" "\<not> out_success out"
      "contains_str (out_stderr out) ''No such file'' \<or> contains_str (out_stderr out) ''No such process''"
    using that unfolding listing_ip_calls by (rule list_kernel.rule_del_absent)
  show "\<exists>ws. (rule_priority hash raw_net_string sp s, ws) \<in> set (entries k (rule_family s))
      \<and> lookup_word ws = Some (u32_string (sp_table sp))" if "s \<in> list_rules hash sp k"
    using that by (intro exI [of _ "[''lookup'', u32_string (sp_table sp)]"])
      (force simp: list_rules_def entries_def lookup_word_def entry_rule_body)
  show "entries k' = entries k \<and> (out_success out \<longrightarrow> map split_whitespace (str_lines (out_stdout out))
           = map (\<lambda>(p, ws). (u32_string p @ '':'') # ws) (entries k family))"
    if "listing_ip k [family, ''rule'', ''show''] = (k', Inr out)"
    using that by (auto simp: listing_ip_def str_lines_words [OF entries_words, unfolded map_map])
  show "\<exists>xs ws ys. entries k family = xs @ (p, ws) # ys \<and> lookup_word ws = Some (u32_string t)
        \<and> entries k' = (entries k)(family := xs @ ys)"
    if "listing_ip k [family, ''rule'', ''del'', ''priority'', u32_string p, ''lookup'', u32_string t] = (k', Inr out)"
      "out_success out"
  proof -
    from that obtain xs e ys q where x: "k = xs @ e # ys" "k' = xs @ ys" "entry_rule e = Some (family, q, u32_string t)"
      "u32_string q = u32_string p"
      by (auto simp: listing_ip_def tool_failed_def split: option.splits dest!: extract_SomeE)
    then have "q = p" by (simp add: u32_string_def dec_string_inj word_unat_eq_iff)
    with x show ?thesis
      by (intro exI [of _ "entries xs family"] exI [of _ "[''lookup'', u32_string t]"] exI [of _ "entries ys family"])
        (auto simp: entries_append entries_Cons fun_eq_iff lookup_word_def)
  qed
  show "entries k' = entries k" if "listing_ip k [family, ''route'', ''flush'', ''table'', tw] = (k', Inr out)"
    using that unfolding listing_ip_calls by (auto simp: list_ip_def split: if_splits)
  show "filter (\<lambda>r. fst r \<noteq> CONTROL_RULE_PRIORITY) (entries k' f) = filter (\<lambda>r. fst r \<noteq> CONTROL_RULE_PRIORITY) (entries k f)"
    if "listing_ip k (control_bypass_args operation family) = (k', Inr out)"
    using control_entries [OF that [unfolded listing_ip_calls]] by simp
qed

section \<open>Recovery\<close>

text \<open>
  C15.  Recovery after a crash: when \<open>cleanup_stale\<close> succeeds, whatever rules an earlier run left
  behind and in whatever order the kernel lists them, no rule of the node is left, and of all the
  other rules, the control rule apart, every one is still there in its place.
\<close>

theorem stale_rules_removed:
  assumes tool: "ip_listing ip hash ns sp rules listing" and base: "sp_priority_base sp = DEFAULT_RULE_PRIORITY_BASE"
    and run: "cleanup_stale ip sp k = (k', Inr u)"
  shows "rules k' = {} \<and> (\<forall>f. f \<in> set families \<longrightarrow>
    filter (\<lambda>r. fst r \<noteq> CONTROL_RULE_PRIORITY) (listing k' f)
      = filter (\<lambda>r. \<not> managed_rule sp r \<and> fst r \<noteq> CONTROL_RULE_PRIORITY) (listing k f))"
proof (intro conjI allI impI)
  note C = ip_listing.cleanup_listing [OF tool run]
  show "rules k' = {}" by (rule ip_listing.unmanaged_rules [OF tool C(1) base])
  fix f
  assume f: "f \<in> set families"
  have "filter (\<lambda>r. fst r \<noteq> CONTROL_RULE_PRIORITY) (listing k' f)
      = filter (\<lambda>r. \<not> managed_rule sp r \<and> fst r \<noteq> CONTROL_RULE_PRIORITY) (listing k' f)"
    using C(1) [OF f] by (auto simp: filter_empty_conv intro: filter_cong)
  with C(2) [OF f] show "filter (\<lambda>r. fst r \<noteq> CONTROL_RULE_PRIORITY) (listing k' f)
      = filter (\<lambda>r. \<not> managed_rule sp r \<and> fst r \<noteq> CONTROL_RULE_PRIORITY) (listing k f)" by simp
qed

lemma listing_delete_succeeds:
  "mset ps \<subseteq># mset (map fst (filter (managed_rule sp) (entries k family))) \<Longrightarrow> list_all in_managed_range ps \<Longrightarrow>
     \<exists>k'. delete_rules listing_ip (sp_table sp) family k ps = (k', Inr ())"
proof (induction ps arbitrary: k)
  case (Cons p ps)
  let ?args = "[family, ''rule'', ''del'', ''priority'', u32_string p, ''lookup'', u32_string (sp_table sp)]"
  have "p \<in># mset (map fst (filter (managed_rule sp) (entries k family)))"
    by (rule mset_subset_eqD [OF Cons.prems(1)]) simp
  then obtain e where "e \<in> set k" "entry_rule e = Some (family, p, u32_string (sp_table sp))"
    by (auto simp: managed_rule_def lookup_word_def entries_member)
  then obtain k1 where k1: "listing_ip k ?args = (k1, Inr tool_ok)"
    by (cases "List.extract (\<lambda>e. case entry_rule e of None \<Rightarrow> False
          | Some (f, q, u) \<Rightarrow> f = family \<and> u32_string q = u32_string p \<and> u = u32_string (sp_table sp)) k")
      (auto simp: listing_ip_def extract_None_iff)
  from listing_kernel.rule_del_priority [OF k1] obtain xs ws ys where
    l: "entries k family = xs @ (p, ws) # ys" "entries k1 family = xs @ ys" by (auto simp: tool_ok_def)
  have "mset (map fst (filter (managed_rule sp) (entries k family)))
      \<subseteq># add_mset p (mset (map fst (filter (managed_rule sp) (entries k1 family))))" by (simp add: l)
  from subset_mset.order_trans [OF Cons.prems(1) this]
  have "add_mset p (mset ps) \<subseteq># add_mset p (mset (map fst (filter (managed_rule sp) (entries k1 family))))"
    by (simp only: mset.simps)
  then have "mset ps \<subseteq># mset (map fst (filter (managed_rule sp) (entries k1 family)))" by simp
  from Cons.IH [OF this] Cons.prems(2) show ?case by (auto simp: run_ip_def k1 tool_ok_def)
qed simp

lemma listing_cleanup_family:
  assumes "family \<in> set families"
  shows "\<exists>k'. cleanup_family listing_ip sp family k = (k', Inr ())"
proof -
  let ?out = "tool_ok\<lparr> out_stdout := concat (map (\<lambda>ws. join '' '' ws @ [newline])
      (map (\<lambda>(p, ws). (u32_string p @ '':'') # ws) (entries k family))) \<rparr>"
  have s: "listing_ip k [family, ''rule'', ''show''] = (k, Inr ?out)" by (simp add: listing_ip_def)
  have ps: "filter_map (\<lambda>line. parse_managed_rule line (sp_table sp) MANAGED_RULE_PRIORITY_RANGE) (str_lines (out_stdout ?out))
      = map fst (filter (managed_rule sp) (entries k family))"
    by (rule parse_listing) (use listing_kernel.rule_show [OF s] in \<open>simp add: tool_ok_def\<close>)
  obtain k1 where d: "delete_rules listing_ip (sp_table sp) family k (map fst (filter (managed_rule sp) (entries k family))) = (k1, Inr ())"
    using listing_delete_succeeds [of "map fst (filter (managed_rule sp) (entries k family))" sp k family]
    by (auto simp: list_all_iff managed_rule_def)
  have f: "listing_ip k1 [family, ''route'', ''flush'', ''table'', u32_string (sp_table sp)] = (k1, Inr tool_ok)"
    unfolding listing_ip_calls using assms by (auto simp: list_ip_def families_def)
  have "out_success ?out" "out_success tool_ok" by (simp_all add: tool_ok_def)
  with d [folded ps] f show ?thesis by (simp add: cleanup_family_def s del: process_output.simps)
qed

lemma for_families_succeeds:
  assumes "\<And>family k. family \<in> set fs \<Longrightarrow> \<exists>k'. g family k = (k', Inr ())"
  shows "\<exists>k'. for_families g fs k = (k', Inr ())"
  using assms
proof (induction fs arbitrary: k)
  case (Cons family fs)
  from Cons.prems obtain k1 where "g family k = (k1, Inr ())" by force
  with Cons.IH [of k1] Cons.prems show ?case by auto
qed simp

text \<open>What adding and deleting the control rule can print.\<close>

lemma listing_bypass_outputs:
  assumes "family \<in> set families"
  shows "\<exists>k' out. listing_ip k (control_bypass_args ''del'' family) = (k', Inr out)
      \<and> (out_success out \<or> contains_str (out_stderr out) ''No such file'')"
    and "\<exists>k' out. listing_ip k (control_bypass_args ''add'' family) = (k', Inr out)
      \<and> (out_success out \<or> contains_str (out_stderr out) ''File exists'')"
proof -
  let ?gone = "''RTNETLINK answers: No such file or directory''" and ?there = "''RTNETLINK answers: File exists''"
  have "\<exists>k'. listing_ip k (control_bypass_args ''del'' family) = (k', Inr tool_ok)
      \<or> listing_ip k (control_bypass_args ''del'' family) = (k', Inr (tool_failed ?gone))"
    "\<exists>k'. listing_ip k (control_bypass_args ''add'' family) = (k', Inr tool_ok)
      \<or> listing_ip k (control_bypass_args ''add'' family) = (k', Inr (tool_failed ?there))"
    using assms unfolding listing_ip_calls by (auto simp: list_ip_def control_bypass_args_def families_def)
  moreover have "out_success tool_ok" "contains_str (out_stderr (tool_failed ?gone)) ''No such file''"
    "contains_str (out_stderr (tool_failed ?there)) ''File exists''"
    unfolding tool_ok_def tool_failed_def by (simp, simp_all only: process_output.simps tool_messages)
  ultimately show "\<exists>k' out. listing_ip k (control_bypass_args ''del'' family) = (k', Inr out)
      \<and> (out_success out \<or> contains_str (out_stderr out) ''No such file'')"
    and "\<exists>k' out. listing_ip k (control_bypass_args ''add'' family) = (k', Inr out)
      \<and> (out_success out \<or> contains_str (out_stderr out) ''File exists'')" by blast+
qed

lemma listing_bypass_succeeds:
  "\<exists>k'. remove_control_bypass listing_ip k = (k', Inr ())" "\<exists>k'. ensure_control_bypass listing_ip k = (k', Inr ())"
  unfolding remove_control_bypass_def ensure_control_bypass_def
proof (rule_tac [!] for_families_succeeds)
  fix family and k :: "string list list"
  assume f: "family \<in> set families"
  show "\<exists>k'. (case listing_ip k (control_bypass_args ''del'' family) of (k', Inl e) \<Rightarrow> (k', Inl e)
       | (k', Inr out) \<Rightarrow> if \<not> out_success out \<and> \<not> contains_str (out_stderr out) ''No such file''
             \<and> \<not> contains_str (out_stderr out) ''No such process''
         then (k', Inl (PolicyError ControlBypassDelFailed)) else (k', Inr ())) = (k', Inr ())"
    using listing_bypass_outputs(1) [OF f, of k] by auto
  show "\<exists>k'. (case listing_ip k (control_bypass_args ''add'' family) of (k', Inl e) \<Rightarrow> (k', Inl e)
       | (k', Inr out) \<Rightarrow> if \<not> out_success out \<and> \<not> contains_str (out_stderr out) ''File exists''
         then (k', Inl (PolicyError ControlBypassAddFailed)) else (k', Inr ())) = (k', Inr ())"
    using listing_bypass_outputs(2) [OF f, of k] by auto
qed

lemma listing_cleanup_succeeds: "\<exists>k'. cleanup_stale listing_ip sp k = (k', Inr ())"
proof -
  obtain k1 where "remove_control_bypass listing_ip k = (k1, Inr ())" using listing_bypass_succeeds(1) by blast
  with for_families_succeeds [of families "cleanup_family listing_ip sp" k1] listing_cleanup_family
  show ?thesis by (auto simp: cleanup_stale_def)
qed

lemma listing_remove_succeeds: "\<exists>k'. policy_remove listing_ip hash raw_net_string sp k s = (k', Inr ())"
  using list_remove_succeeds [of hash sp k s] by (simp add: policy_remove_def listing_ip_calls)

theorem stale_rules_removed_witness:
  "\<exists>k'. cleanup_stale listing_ip sample_policy [rule_body sample_hash sample_policy (IpNet (V4 0x0a000009) 32)] = (k', Inr ())
     \<and> list_rules sample_hash sample_policy [rule_body sample_hash sample_policy (IpNet (V4 0x0a000009) 32)] \<noteq> {}
     \<and> list_rules sample_hash sample_policy k' = {}"
proof -
  let ?k = "[rule_body sample_hash sample_policy (IpNet (V4 0x0a000009) 32)]"
  obtain k' where c: "cleanup_stale listing_ip sample_policy ?k = (k', Inr ())" using listing_cleanup_succeeds by blast
  have base: "sp_priority_base sample_policy = DEFAULT_RULE_PRIORITY_BASE" by (simp add: sample_policy_def policy_new_def)
  have "list_rules sample_hash sample_policy ?k \<noteq> {}" by (auto simp: list_rules_def)
  with stale_rules_removed [OF listing_kernel.ip_listing_axioms base c] c show ?thesis by blast
qed

end
