(* ===== verification/Supervisor.thy ===== *)
theory Supervisor
  imports Generation Cleanup Management Relay Discovery "HOL-Library.Product_Lexorder"
begin

text \<open>
  \<open>src/src/main.rs\<close>, the start of a generation and the supervisor.  \<open>generation_start\<close> is
  \<open>run_generation_inner\<close> up to its loop: one broker per peer, one relay task per configured relay,
  the hand-over of the operator's path selections, the policy rules, the device and the control
  sockets, with an early return after each step.  \<open>supervisor_turn\<close> is one iteration of the loop in
  \<open>main\<close>, which restarts the generation when the WireGuard configuration changes or the generation
  stops.  A path set is shared between the broker, the relays and the management interface; a handle
  into the store of path sets stands for the shared pointer, as in \<open>Management\<close>.
\<close>

section \<open>Brokers\<close>

text \<open>The processes and crates a start uses; \<open>up_device\<close> is the result of creating the TUN interface.\<close>

record ('f, 'k, 'c) start_env =
  up_hash :: "bytes \<Rightarrow> bytes"
  up_hex :: "bytes \<Rightarrow> string"
  up_wg :: tool_fn
  up_ip :: tool_fn
  up_records :: "string \<Rightarrow> (ip_addr \<times> string) list list res"
  up_scheme :: "string \<Rightarrow> string option"
  up_sender :: "nat \<Rightarrow> 'c"
  up_metrics :: "'f path_metrics"
  up_kernel :: "'k ip_fn"
  up_device :: "unit res"
  up_bind :: "socket_addr \<Rightarrow> unit res"

record broker_task =
  bt_peer_key :: string
  bt_peer_port :: u16
  bt_wireguard_port :: u16
  bt_paths :: nat

record 'c brokers =
  bs_tasks :: "broker_task list"
  bs_paths :: "(string, nat) hashmap"
  bs_inbound :: "(string, nat) hashmap"
  bs_baselines :: "(string, u64) hashmap"
  bs_ports :: "(string, u16) hashmap"
  bs_store :: "nat \<Rightarrow> 'c path_set"

definition path_set_default :: "'c path_set" where
  "path_set_default = \<lparr> ps_targets = [], ps_selected = None \<rparr>"

text \<open>The broker of the next peer gets the handle \<open>h\<close>, which is also the name of its inbound channel.\<close>

definition add_broker :: "snapshot \<Rightarrow> peer \<Rightarrow> u16 \<Rightarrow> nat \<Rightarrow> 'c brokers \<Rightarrow> 'c brokers" where
  "add_broker snapshot p port h bs =
     bs\<lparr> bs_tasks := bs_tasks bs @ [\<lparr> bt_peer_key = p_public_key p, bt_peer_port = port,
           bt_wireguard_port = s_listen_port snapshot, bt_paths = h \<rparr>],
         bs_paths := hm_insert (p_public_key p) h (bs_paths bs),
         bs_inbound := hm_insert (p_public_key p) h (bs_inbound bs),
         bs_baselines := hm_insert (p_public_key p) (p_latest_handshake p) (bs_baselines bs),
         bs_ports := hm_insert (p_public_key p) port (bs_ports bs),
         bs_store := (bs_store bs)(h := path_set_default) \<rparr>"

fun start_brokers ::
    "('f, 'k, 'c) start_env \<Rightarrow> config \<Rightarrow> snapshot \<Rightarrow> peer list \<Rightarrow> nat \<Rightarrow> 'c brokers \<Rightarrow> ('c brokers \<times> unit res) exec" where
  "start_brokers env config snapshot [] h bs = Returned (bs, Inr ())"
| "start_brokers env config snapshot (p # ps) h bs =
     exec_bind (derive_port (up_hash env) (cf_peer_port_base config) 7000 ''peer-broker''
         [s_public_key snapshot, p_public_key p]) (\<lambda>port.
       case set_endpoint (up_wg env) (cf_interface config) (p_public_key p) port of
         Inl e \<Rightarrow> Returned (bs, Inl e)
       | Inr _ \<Rightarrow> start_brokers env config snapshot ps (Suc h) (add_broker snapshot p port h bs))"

section \<open>Relays\<close>

definition relay_path_id :: "('f, 'k, 'c) start_env \<Rightarrow> string \<Rightarrow> string exec" where
  "relay_path_id env relay =
     exec_bind (slice (up_hex env (up_hash env (as_bytes relay))) 0 12) (\<lambda>prefix. Returned (''et-'' @ prefix))"

definition relay_target :: "('f, 'k, 'c) start_env \<Rightarrow> nat \<Rightarrow> string \<Rightarrow> string \<Rightarrow> 'c path_target" where
  "relay_target env index relay path_id =
     \<lparr> pt_id = path_id, pt_label = ''relay-'' @ dec_string (index + 1),
       pt_protocol = (case up_scheme env relay of None \<Rightarrow> ''unknown'' | Some s \<Rightarrow> s), pt_sender = up_sender env index \<rparr>"

definition push_target :: "'c path_target \<Rightarrow> 'c path_set \<Rightarrow> 'c path_set" where
  "push_target target ps = ps\<lparr> ps_targets := ps_targets ps @ [target] \<rparr>"

fun attach_relay ::
    "('f, 'k, 'c) start_env \<Rightarrow> 'c brokers \<Rightarrow> 'c path_target \<Rightarrow> peer list \<Rightarrow> (nat \<Rightarrow> 'c path_set) \<Rightarrow> 'f metrics_registry
     \<Rightarrow> ((nat \<Rightarrow> 'c path_set) \<times> 'f metrics_registry) exec" where
  "attach_relay env bs target [] store reg = Returned (store, reg)"
| "attach_relay env bs target (p # ps) store reg =
     (case hm_get (bs_inbound bs) (p_public_key p) of
        None \<Rightarrow> Panicked
      | Some _ \<Rightarrow>
          (case hm_get (bs_paths bs) (p_public_key p) of
             None \<Rightarrow> attach_relay env bs target ps store reg
           | Some h \<Rightarrow> attach_relay env bs target ps (store(h := push_target target (store h)))
               (register_path (up_metrics env) reg (p_public_key p) (pt_id target))))"

text \<open>The result lists the relay tasks and the targets of the dispatcher, in the order of the options.\<close>

fun start_relays ::
    "('f, 'k, 'c) start_env \<Rightarrow> config \<Rightarrow> snapshot \<Rightarrow> 'c brokers \<Rightarrow> nat \<Rightarrow> string list \<Rightarrow> (nat \<Rightarrow> 'c path_set) \<Rightarrow> 'f metrics_registry
     \<Rightarrow> (relay_spec list \<times> 'c path_target list \<times> (nat \<Rightarrow> 'c path_set) \<times> 'f metrics_registry) exec" where
  "start_relays env config snapshot bs index [] store reg = Returned ([], [], store, reg)"
| "start_relays env config snapshot bs index (relay # relays) store reg =
     exec_bind (relay_path_id env relay) (\<lambda>path_id.
     exec_bind (derive_port (up_hash env) (cf_listener_port_base config) 3500 ''easytier-listener''
         [s_public_key snapshot, relay]) (\<lambda>listener_port.
     exec_bind (attach_relay env bs (relay_target env index relay path_id) (s_peers snapshot) store reg) (\<lambda>(store', reg').
     exec_bind (start_relays env config snapshot bs (Suc index) relays store' reg') (\<lambda>(specs, targets, store'', reg'').
       Returned (\<lparr> rs_local_public_key = s_public_key snapshot, rs_path_id = path_id, rs_relay = relay,
           rs_listener_port = listener_port, rs_peers = map p_public_key (s_peers snapshot) \<rparr> # specs,
         relay_target env index relay path_id # targets, store'', reg'')))))"

section \<open>A generation starts\<close>

definition SHORTCUT_TUN :: string where "SHORTCUT_TUN = ''wgls0''"

record ('r, 'w, 'c) started =
  sd_generation :: "('r, 'w, 'c) generation"
  sd_brokers :: "'c brokers"
  sd_relays :: "relay_spec list"
  sd_dynamic :: "'c path_target list"
  sd_addresses :: "ip_addr list"
  sd_policy :: system_policy
  sd_control :: "socket_addr list"

text \<open>The policy rules, the device and the control sockets, once the relays run.\<close>

definition start_shortcuts ::
    "('f, 'k, 'c) start_env \<Rightarrow> snapshot \<Rightarrow> ip_addr list \<Rightarrow> 'k \<Rightarrow> 'k \<times> (system_policy \<times> ('k node_routes, 'w, 'c) controller \<times> socket_addr list) res" where
  "start_shortcuts env snapshot addresses k =
     (case addresses of
        [] \<Rightarrow> (k, Inl (WireguardError NoSourceAddress))
      | source # _ \<Rightarrow>
          let policy = policy_new_with_source SHORTCUT_TUN source in
          (case cleanup_stale (up_kernel env) policy k of
             (k1, Inl e) \<Rightarrow> (k1, Inl e)
           | (k1, Inr _) \<Rightarrow>
               (case ensure_control_bypass (up_kernel env) k1 of
                  (k2, Inl e) \<Rightarrow> (k2, Inl e)
                | (k2, Inr _) \<Rightarrow>
                    (k2, case up_device env of
                       Inl e \<Rightarrow> Inl e
                     | Inr _ \<Rightarrow>
                         (case control_start (up_bind env) addresses of
                            Inl e \<Rightarrow> Inl e
                          | Inr sockets \<Rightarrow> Inr (policy,
                              controller_new (s_public_key snapshot) (manager_new (atomic_new device_routes_default k2)) [],
                              sockets))))))"

text \<open>
  \<open>h\<close> is the first unused handle; \<open>locked\<close> tells which path sets of the previous generation a writer
  holds at the hand-over.
\<close>

definition generation_start ::
    "('f, 'k, 'c) start_env \<Rightarrow> (nat \<Rightarrow> bool) \<Rightarrow> nat \<Rightarrow> config \<Rightarrow> snapshot \<Rightarrow> ('f, 'c) management \<Rightarrow> 'k
     \<Rightarrow> (('f, 'c) management \<times> 'k \<times> ('k node_routes, 'w, 'c) started res) exec" where
  "generation_start env locked h config snapshot m k =
     (case interface_addresses (up_ip env) (up_records env) (cf_interface config) of
        Inl e \<Rightarrow> Returned (m, k, Inl e)
      | Inr addresses \<Rightarrow>
          exec_bind (start_brokers env config snapshot (s_peers snapshot) h
              \<lparr> bs_tasks = [], bs_paths = [], bs_inbound = [], bs_baselines = [], bs_ports = [], bs_store = mg_paths m \<rparr>) (\<lambda>(bs, r).
            case r of
              Inl e \<Rightarrow> Returned (m\<lparr> mg_paths := bs_store bs \<rparr>, k, Inl e)
            | Inr _ \<Rightarrow>
                exec_bind (start_relays env config snapshot bs 0 (cf_relays config) (bs_store bs) (mg_metrics m))
                  (\<lambda>(specs, targets, store, reg).
                exec_bind (replace_generation (up_hash env) (up_hex env) locked (m\<lparr> mg_paths := store, mg_metrics := reg \<rparr>)
                    (cf_interface config) (bs_paths bs)) (\<lambda>m'.
                  case start_shortcuts env snapshot addresses k of
                    (k', Inl e) \<Rightarrow> Returned (m', k', Inl e)
                  | (k', Inr (policy, ct, sockets)) \<Rightarrow>
                      Returned (m', k', Inr \<lparr>
                        sd_generation = \<lparr> gn_controller = ct, gn_snapshot = snapshot, gn_hub_issues = [], gn_baselines = bs_baselines bs \<rparr>,
                        sd_brokers = bs, sd_relays = specs, sd_dynamic = targets, sd_addresses = addresses,
                        sd_policy = policy, sd_control = sockets \<rparr>)))))"

section \<open>The supervisor\<close>

datatype generation_key = GenerationKey (gk_public_key: string) (gk_listen_port: u16) (gk_peers: "(string \<times> string list) list")

text \<open>\<open>net_string\<close> is the \<open>Display\<close> of \<open>IpNet\<close>.\<close>

definition generation_key_of :: "(ipnet \<Rightarrow> string) \<Rightarrow> snapshot \<Rightarrow> generation_key" where
  "generation_key_of net_string snapshot =
     GenerationKey (s_public_key snapshot) (s_listen_port snapshot)
       (sort (map (\<lambda>p. (p_public_key p, sort (map net_string (p_allowed_ips p)))) (s_peers snapshot)))"

text \<open>
  The generation task is known by the snapshot it was started with.  An iteration learns the
  snapshot, whether the task has finished by the time it is asked, and, after the pause, whether the
  management task has ended.
\<close>

record supervisor =
  sv_active_key :: "generation_key option"
  sv_generation :: "snapshot option"

record supervisor_input =
  si_snapshot :: "snapshot res"
  si_finished :: bool
  si_management :: "unit res option"

datatype supervisor_effect = CancelAndWait snapshot | SpawnGeneration snapshot | Reaped snapshot

definition supervisor_init :: supervisor where
  "supervisor_init = \<lparr> sv_active_key = None, sv_generation = None \<rparr>"

definition supervisor_update ::
    "(ipnet \<Rightarrow> string) \<Rightarrow> supervisor \<Rightarrow> snapshot res \<Rightarrow> supervisor \<times> supervisor_effect list" where
  "supervisor_update net_string st read =
     (case read of
        Inl e \<Rightarrow> (st, [])
      | Inr snapshot \<Rightarrow>
          let key = generation_key_of net_string snapshot in
          if sv_active_key st \<noteq> Some key
          then (\<lparr> sv_active_key = Some key, sv_generation = Some snapshot \<rparr>,
                (case sv_generation st of None \<Rightarrow> [] | Some old \<Rightarrow> [CancelAndWait old]) @ [SpawnGeneration snapshot])
          else (st, []))"

definition supervisor_reap :: "supervisor \<Rightarrow> bool \<Rightarrow> supervisor \<times> supervisor_effect list" where
  "supervisor_reap st finished =
     (case sv_generation st of
        None \<Rightarrow> (st, [])
      | Some g \<Rightarrow> if finished then (\<lparr> sv_active_key = None, sv_generation = None \<rparr>, [Reaped g]) else (st, []))"

definition supervisor_turn ::
    "(ipnet \<Rightarrow> string) \<Rightarrow> supervisor \<Rightarrow> supervisor_input \<Rightarrow> supervisor \<times> supervisor_effect list \<times> unit res option" where
  "supervisor_turn net_string st i =
     (case supervisor_update net_string st (si_snapshot i) of
        (st1, eff1) \<Rightarrow>
          (case supervisor_reap st1 (si_finished i) of (st2, eff2) \<Rightarrow> (st2, eff1 @ eff2, si_management i)))"

fun supervisor_run ::
    "(ipnet \<Rightarrow> string) \<Rightarrow> supervisor \<Rightarrow> supervisor_input list \<Rightarrow> supervisor \<times> supervisor_effect list \<times> unit res option" where
  "supervisor_run net_string st [] = (st, [], None)"
| "supervisor_run net_string st (i # is) =
     (case supervisor_turn net_string st i of
        (st', eff, Some r) \<Rightarrow> (st', eff, Some r)
      | (st', eff, None) \<Rightarrow>
          (case supervisor_run net_string st' is of (st'', eff', r) \<Rightarrow> (st'', eff @ eff', r)))"

section \<open>Restarts\<close>

text \<open>
  What the key of a generation means: the same interface key and port and, in whatever order \<open>wg\<close>
  lists them, the same peers with the same allowed networks.
\<close>

definition same_configuration :: "(ipnet \<Rightarrow> string) \<Rightarrow> snapshot \<Rightarrow> snapshot \<Rightarrow> bool" where
  "same_configuration net_string a b \<longleftrightarrow> s_public_key a = s_public_key b \<and> s_listen_port a = s_listen_port b
     \<and> image_mset (\<lambda>p. (p_public_key p, image_mset net_string (mset (p_allowed_ips p)))) (mset (s_peers a))
       = image_mset (\<lambda>p. (p_public_key p, image_mset net_string (mset (p_allowed_ips p)))) (mset (s_peers b))"

lemma sort_eq_iff: "sort xs = sort ys \<longleftrightarrow> mset xs = mset ys"
  by (metis mset_sort properties_for_sort sorted_sort)

lemma generation_key_iff: "generation_key_of ns a = generation_key_of ns b \<longleftrightarrow> same_configuration ns a b"
proof -
  let ?canon = "\<lambda>(k :: string, N :: string multiset). (k, sorted_list_of_multiset N)"
  have canon: "image_mset (\<lambda>p. (p_public_key p, sort (map ns (p_allowed_ips p)))) M
      = image_mset ?canon (image_mset (\<lambda>p. (p_public_key p, image_mset ns (mset (p_allowed_ips p)))) M)" for M
    by (simp add: image_mset.compositionality comp_def sorted_list_of_multiset_mset flip: mset_map)
  have "inj ?canon" by (auto simp: inj_def dest: arg_cong [of _ _ mset])
  then have "inj (image_mset ?canon)" by (rule multiset.inj_map)
  then show ?thesis
    unfolding generation_key_of_def same_configuration_def generation_key.inject sort_eq_iff mset_map canon
    by (auto dest: injD)
qed

text \<open>The effects seen as a history of generations: \<open>None\<close> when two would run at once.\<close>

fun history :: "snapshot option \<Rightarrow> supervisor_effect list \<Rightarrow> snapshot option option" where
  "history running [] = Some running"
| "history running (SpawnGeneration s # effs) = (if running = None then history (Some s) effs else None)"
| "history running (CancelAndWait s # effs) = (if running = Some s then history None effs else None)"
| "history running (Reaped s # effs) = (if running = Some s then history None effs else None)"

lemma history_append: "history r (xs @ ys) = Option.bind (history r xs) (\<lambda>r'. history r' ys)"
  by (induction r xs rule: history.induct) auto

definition supervisor_ok :: "(ipnet \<Rightarrow> string) \<Rightarrow> supervisor \<Rightarrow> bool" where
  "supervisor_ok ns st \<longleftrightarrow> sv_active_key st = map_option (generation_key_of ns) (sv_generation st)"

lemma supervisor_init_ok: "supervisor_ok ns supervisor_init"
  by (simp add: supervisor_ok_def supervisor_init_def)

lemma supervisor_turn_ok:
  assumes "supervisor_ok ns st" and "supervisor_turn ns st i = (st', eff, r)"
  shows "supervisor_ok ns st'" and "history (sv_generation st) eff = Some (sv_generation st')"
    and "r = si_management i"
  using assms
  by (auto simp: supervisor_ok_def supervisor_turn_def supervisor_update_def supervisor_reap_def Let_def
      split: sum.splits option.splits if_splits)

lemma supervisor_turn_runs:
  assumes "supervisor_ok ns st" and "supervisor_turn ns st i = (st', eff, r)"
    and "si_snapshot i = Inr s" and "\<not> si_finished i"
  shows "\<exists>g. sv_generation st' = Some g \<and> same_configuration ns g s"
  using assms
  by (auto simp: supervisor_ok_def supervisor_turn_def supervisor_update_def supervisor_reap_def Let_def
      generation_key_iff [symmetric] split: option.splits if_splits)

lemma supervisor_run_ok:
  assumes "supervisor_ok ns st" and "supervisor_run ns st is = (st', eff, r)"
  shows "supervisor_ok ns st' \<and> history (sv_generation st) eff = Some (sv_generation st')"
  using assms
proof (induction ns st "is" arbitrary: eff rule: supervisor_run.induct)
  case (2 ns st i "is")
  obtain st1 eff1 r1 where t: "supervisor_turn ns st i = (st1, eff1, r1)" by (metis surj_pair)
  note T = supervisor_turn_ok [OF "2.prems"(1) t]
  show ?case
  proof (cases r1)
    case None
    obtain st2 eff2 r2 where "supervisor_run ns st1 is = (st2, eff2, r2)" by (metis surj_pair)
    with "2.IH" [OF t [symmetric] refl None T(1)] T(2) "2.prems"(2) t None show ?thesis by (auto simp: history_append)
  qed (use T "2.prems"(2) t in auto)
qed simp

lemma supervisor_run_snoc:
  "supervisor_run ns st (is @ [i]) = (case supervisor_run ns st is of
     (st1, eff, Some r) \<Rightarrow> (st1, eff, Some r)
   | (st1, eff, None) \<Rightarrow> (case supervisor_turn ns st1 i of (st2, eff', r) \<Rightarrow> (st2, eff @ eff', r)))"
  by (induction ns st "is" rule: supervisor_run.induct) (auto split: prod.splits option.splits)

text \<open>
  C13.  One generation for the configuration in force: whatever the readings of \<open>wg\<close>, the failures of
  the generation and their order, the supervisor never has two generations at once (an old one is
  cancelled and awaited before the next is spawned), and after an iteration that could read the
  interface and did not find the generation stopped, a generation runs that was started for a
  configuration equal to the one just read, up to the order of peers and networks.
\<close>

theorem supervisor_follows_configuration:
  assumes run: "supervisor_run ns supervisor_init inputs = (st, eff, None)"
  shows "history None eff = Some (sv_generation st)
    \<and> (\<forall>is i s. inputs = is @ [i] \<and> si_snapshot i = Inr s \<and> \<not> si_finished i \<longrightarrow>
         (\<exists>g. sv_generation st = Some g \<and> same_configuration ns g s))"
proof (intro conjI allI impI)
  show "history None eff = Some (sv_generation st)"
    using supervisor_run_ok [OF supervisor_init_ok run] by (simp add: supervisor_init_def)
next
  fix "is" i s
  assume i: "inputs = is @ [i] \<and> si_snapshot i = Inr s \<and> \<not> si_finished i"
  obtain st1 eff1 r1 where r1: "supervisor_run ns supervisor_init is = (st1, eff1, r1)" by (metis surj_pair)
  obtain st2 eff2 r2 where t: "supervisor_turn ns st1 i = (st2, eff2, r2)" by (metis surj_pair)
  from run i r1 t have "st = st2" by (auto simp: supervisor_run_snoc split: option.splits)
  moreover have "supervisor_ok ns st1" using supervisor_run_ok [OF supervisor_init_ok r1] by simp
  ultimately show "\<exists>g. sv_generation st = Some g \<and> same_configuration ns g s"
    using supervisor_turn_runs t i by blast
qed

text \<open>
  C14.  No needless restart: an iteration spawns a generation exactly when the interface is readable
  and no generation with the configuration read is running, and cancels one exactly when it is to
  be replaced.  So a change of endpoints, handshake times, counters or of the order of peers and
  networks disturbs nothing, and a generation that stopped is started again by the next reading.
\<close>

theorem supervisor_restarts_iff:
  assumes run: "supervisor_run ns supervisor_init inputs = (st, eff, None)"
    and turn: "supervisor_turn ns st i = (st', eff', r)"
  shows "(\<forall>s. SpawnGeneration s \<in> set eff' \<longleftrightarrow> si_snapshot i = Inr s
      \<and> \<not> (\<exists>g. sv_generation st = Some g \<and> same_configuration ns g s))
    \<and> (\<forall>g. CancelAndWait g \<in> set eff' \<longleftrightarrow> sv_generation st = Some g
      \<and> (\<exists>s. si_snapshot i = Inr s \<and> \<not> same_configuration ns g s))"
proof -
  have ok: "supervisor_ok ns st" using supervisor_run_ok [OF supervisor_init_ok run] by simp
  then show ?thesis
    using turn
    by (cases "sv_generation st"; cases "si_snapshot i")
      (auto simp: supervisor_ok_def supervisor_turn_def supervisor_update_def supervisor_reap_def Let_def
        generation_key_iff split: if_splits)
qed

section \<open>A supervisor at work\<close>

definition sample_reading :: "string list \<Rightarrow> bool \<Rightarrow> supervisor_input" where
  "sample_reading keys finished =
     \<lparr> si_snapshot = Inr \<lparr> s_public_key = ''alice'', s_listen_port = 51820,
         s_peers = map (\<lambda>k. sample_wg_peer k 0x0a000009) keys \<rparr>,
       si_finished = finished, si_management = None \<rparr>"

definition unreadable :: supervisor_input where
  "unreadable = \<lparr> si_snapshot = Inl (WireguardError WgShowFailed), si_finished = True, si_management = None \<rparr>"

abbreviation sample_inputs :: "supervisor_input list" where
  "sample_inputs \<equiv> [sample_reading [''bob'', ''hub''] False, unreadable, sample_reading [''hub'', ''bob''] False]"

lemma supervisor_run_goes_on:
  "list_all (\<lambda>i. si_management i = None) is \<Longrightarrow> \<exists>st' eff. supervisor_run ns st is = (st', eff, None)"
proof (induction "is" arbitrary: st)
  case (Cons i "is")
  obtain st1 eff1 r1 where t: "supervisor_turn ns st i = (st1, eff1, r1)" by (metis surj_pair)
  then have "r1 = None" using Cons.prems by (auto simp: supervisor_turn_def split: prod.splits)
  with t have "supervisor_turn ns st i = (st1, eff1, None)" by simp
  moreover obtain st2 eff2 where "supervisor_run ns st1 is = (st2, eff2, None)" using Cons.IH [of st1] Cons.prems by auto
  ultimately show ?case by simp
qed simp

lemma sample_inputs_go_on:
  "list_all (\<lambda>i. si_management i = None) sample_inputs"
  "list_all (\<lambda>i. si_management i = None) [sample_reading keys False]"
  by (simp_all add: sample_reading_def unreadable_def)

theorem supervisor_follows_configuration_witness:
  "\<exists>st eff g s. supervisor_run raw_net_string supervisor_init sample_inputs = (st, eff, None)
     \<and> si_snapshot (sample_reading [''hub'', ''bob''] False) = Inr s
     \<and> history None eff = Some (Some g) \<and> same_configuration raw_net_string g s"
proof -
  obtain st eff where run: "supervisor_run raw_net_string supervisor_init sample_inputs = (st, eff, None)"
    using supervisor_run_goes_on sample_inputs_go_on by blast
  obtain s where s: "si_snapshot (sample_reading [''hub'', ''bob''] False) = Inr s" by (simp add: sample_reading_def)
  have fin: "\<not> si_finished (sample_reading [''hub'', ''bob''] False)" by (simp add: sample_reading_def)
  note F = supervisor_follows_configuration [OF run]
  from F s fin obtain g where "sv_generation st = Some g" "same_configuration raw_net_string g s"
    by (metis append_Cons append_Nil)
  with F run s show ?thesis by auto
qed

theorem supervisor_restarts_iff_witness:
  "\<exists>st eff st' eff' r. supervisor_run raw_net_string supervisor_init [sample_reading [''bob'', ''hub''] False] = (st, eff, None)
     \<and> supervisor_turn raw_net_string st (sample_reading [''hub'', ''bob''] False) = (st', eff', r)
     \<and> sv_generation st \<noteq> None \<and> (\<forall>s. SpawnGeneration s \<notin> set eff')"
proof -
  let ?i = "sample_reading [''hub'', ''bob''] False"
  obtain st eff where run: "supervisor_run raw_net_string supervisor_init [sample_reading [''bob'', ''hub''] False] = (st, eff, None)"
    using supervisor_run_goes_on sample_inputs_go_on by blast
  obtain st' eff' r where turn: "supervisor_turn raw_net_string st ?i = (st', eff', r)" by (metis surj_pair)
  obtain g where g: "sv_generation st = Some g" "si_snapshot (sample_reading [''bob'', ''hub''] False) = Inr g"
    using run by (auto simp: supervisor_turn_def supervisor_update_def supervisor_reap_def Let_def sample_reading_def
        supervisor_init_def)
  have "same_configuration raw_net_string g s" if "si_snapshot ?i = Inr s" for s
    using that g by (auto simp: sample_reading_def same_configuration_def)
  with supervisor_restarts_iff [OF run turn] g have "SpawnGeneration s \<notin> set eff'" for s by auto
  with run turn g show ?thesis by auto
qed

section \<open>What a start leaves behind\<close>

lemma hm_insert_fresh: "k \<notin> fst ` set m \<Longrightarrow> hm_insert k v m = m @ [(k, v)]"
  by (induction m) auto

lemma start_brokers_spec:
  assumes "start_brokers env config snapshot ps h bs = Returned (bs', Inr u)"
    and "distinct (map p_public_key ps)"
    and "p_public_key ` set ps \<inter> (fst ` set (bs_paths bs) \<union> fst ` set (bs_inbound bs) \<union> fst ` set (bs_ports bs)) = {}"
  shows "\<exists>ports. length ports = length ps
    \<and> bs_paths bs' = bs_paths bs @ zip (map p_public_key ps) [h..<h + length ps]
    \<and> bs_inbound bs' = bs_inbound bs @ zip (map p_public_key ps) [h..<h + length ps]
    \<and> bs_ports bs' = bs_ports bs @ zip (map p_public_key ps) ports
    \<and> bs_tasks bs' = bs_tasks bs @ map (\<lambda>(p, port, h). \<lparr> bt_peer_key = p_public_key p, bt_peer_port = port,
         bt_wireguard_port = s_listen_port snapshot, bt_paths = h \<rparr>) (zip ps (zip ports [h..<h + length ps]))
    \<and> list_all2 (\<lambda>p port. set_endpoint (up_wg env) (cf_interface config) (p_public_key p) port = Inr ()) ps ports
    \<and> bs_store bs' = (\<lambda>j. if h \<le> j \<and> j < h + length ps then path_set_default else bs_store bs j)"
  using assms
proof (induction ps arbitrary: h bs)
  case (Cons p ps)
  let ?k = "p_public_key p"
  from Cons.prems(1) obtain port where c: "(case set_endpoint (up_wg env) (cf_interface config) ?k port of
         Inl e \<Rightarrow> Returned (bs, Inl e)
       | Inr _ \<Rightarrow> start_brokers env config snapshot ps (Suc h) (add_broker snapshot p port h bs)) = Returned (bs', Inr u)"
    by (auto simp: exec_bind_Returned)
  then have port: "set_endpoint (up_wg env) (cf_interface config) ?k port = Inr ()"
    and rest: "start_brokers env config snapshot ps (Suc h) (add_broker snapshot p port h bs) = Returned (bs', Inr u)"
    by (cases "set_endpoint (up_wg env) (cf_interface config) ?k port"; simp)+
  have new: "bs_paths (add_broker snapshot p port h bs) = bs_paths bs @ [(?k, h)]"
    "bs_inbound (add_broker snapshot p port h bs) = bs_inbound bs @ [(?k, h)]"
    "bs_ports (add_broker snapshot p port h bs) = bs_ports bs @ [(?k, port)]"
    using Cons.prems(3) by (auto simp: add_broker_def hm_insert_fresh)
  from Cons.IH [OF rest] Cons.prems(2,3) obtain ports where IH: "length ports = length ps"
    "bs_paths bs' = bs_paths bs @ [(?k, h)] @ zip (map p_public_key ps) [Suc h..<Suc h + length ps]"
    "bs_inbound bs' = bs_inbound bs @ [(?k, h)] @ zip (map p_public_key ps) [Suc h..<Suc h + length ps]"
    "bs_ports bs' = bs_ports bs @ [(?k, port)] @ zip (map p_public_key ps) ports"
    "bs_tasks bs' = bs_tasks (add_broker snapshot p port h bs) @ map (\<lambda>(p, port, h). \<lparr> bt_peer_key = p_public_key p, bt_peer_port = port,
         bt_wireguard_port = s_listen_port snapshot, bt_paths = h \<rparr>) (zip ps (zip ports [Suc h..<Suc h + length ps]))"
    "list_all2 (\<lambda>p port. set_endpoint (up_wg env) (cf_interface config) (p_public_key p) port = Inr ()) ps ports"
    "bs_store bs' = (\<lambda>j. if Suc h \<le> j \<and> j < Suc h + length ps then path_set_default
       else bs_store (add_broker snapshot p port h bs) j)"
    unfolding new by (auto simp: image_iff)
  have upt: "[h..<h + length (p # ps)] = h # [Suc h..<Suc h + length ps]" by (simp add: upt_rec)
  show ?case unfolding upt
    by (rule exI [of _ "port # ports"]) (use IH port in \<open>auto simp: add_broker_def fun_eq_iff\<close>)
qed (auto simp: fun_eq_iff)

text \<open>Attaching a relay to every peer: each path set gets the target once.\<close>

lemma register_path_get:
  "hm_get (register_path dflt reg peer path) x \<noteq> None \<longleftrightarrow> x = (peer, path) \<or> hm_get reg x \<noteq> None"
  by (auto simp: register_path_def with_path_def)

lemma attach_relay_spec:
  assumes "attach_relay env bs target ps store reg = Returned (store', reg')"
    and "distinct (map p_public_key ps)"
    and "inj_on (hm_get (bs_paths bs)) (p_public_key ` set ps)"
    and "\<forall>p\<in>set ps. hm_get (bs_paths bs) (p_public_key p) \<noteq> None"
  shows "store' = (\<lambda>j. if \<exists>p\<in>set ps. hm_get (bs_paths bs) (p_public_key p) = Some j then push_target target (store j) else store j)
    \<and> (\<forall>x. hm_get reg' x \<noteq> None \<longleftrightarrow> hm_get reg x \<noteq> None \<or> (\<exists>p\<in>set ps. x = (p_public_key p, pt_id target)))"
  using assms
proof (induction ps arbitrary: store reg)
  case (Cons p ps)
  from Cons.prems(4) obtain h where h: "hm_get (bs_paths bs) (p_public_key p) = Some h" by auto
  have other: "hm_get (bs_paths bs) (p_public_key q) \<noteq> Some h" if "q \<in> set ps" for q
  proof
    assume "hm_get (bs_paths bs) (p_public_key q) = Some h"
    with h Cons.prems(3) that have "p_public_key q = p_public_key p" by (auto simp: inj_on_def)
    with Cons.prems(2) that show False by (metis distinct.simps(2) image_eqI list.set_map list.simps(9))
  qed
  from Cons.prems(1) h have "attach_relay env bs target ps (store(h := push_target target (store h)))
      (register_path (up_metrics env) reg (p_public_key p) (pt_id target)) = Returned (store', reg')"
    by (auto split: option.splits)
  from Cons.IH [OF this] Cons.prems(2,3,4) have
    "store' = (\<lambda>j. if \<exists>q\<in>set ps. hm_get (bs_paths bs) (p_public_key q) = Some j
        then push_target target ((store(h := push_target target (store h))) j) else (store(h := push_target target (store h))) j)"
    "\<forall>x. hm_get reg' x \<noteq> None \<longleftrightarrow> hm_get (register_path (up_metrics env) reg (p_public_key p) (pt_id target)) x \<noteq> None
       \<or> (\<exists>p\<in>set ps. x = (p_public_key p, pt_id target))"
    by (auto simp: inj_on_insert)
  with h other show ?case unfolding register_path_get by (auto simp: fun_eq_iff)
qed simp

lemma start_relays_spec:
  assumes "start_relays env config snapshot bs index relays store reg = Returned (specs, targets, store', reg')"
    and "distinct (map p_public_key (s_peers snapshot))"
    and "inj_on (hm_get (bs_paths bs)) (p_public_key ` set (s_peers snapshot))"
    and "\<forall>p\<in>set (s_peers snapshot). hm_get (bs_paths bs) (p_public_key p) \<noteq> None"
  shows "map rs_relay specs = relays \<and> map rs_path_id specs = map pt_id targets
    \<and> store' = (\<lambda>j. if \<exists>p\<in>set (s_peers snapshot). hm_get (bs_paths bs) (p_public_key p) = Some j
         then (store j)\<lparr> ps_targets := ps_targets (store j) @ targets \<rparr> else store j)
    \<and> (\<forall>x. hm_get reg' x \<noteq> None \<longleftrightarrow> hm_get reg x \<noteq> None
         \<or> (\<exists>p\<in>set (s_peers snapshot). \<exists>t\<in>set targets. x = (p_public_key p, pt_id t)))"
  using assms
proof (induction relays arbitrary: index store reg specs targets)
  case Nil
  then show ?case by auto
next
  case (Cons relay relays)
  from Cons.prems(1) obtain path_id port store1 reg1 specs1 targets1 where
    at: "attach_relay env bs (relay_target env index relay path_id) (s_peers snapshot) store reg = Returned (store1, reg1)"
    and rest: "start_relays env config snapshot bs (Suc index) relays store1 reg1 = Returned (specs1, targets1, store', reg')"
    and res: "specs = \<lparr> rs_local_public_key = s_public_key snapshot, rs_path_id = path_id, rs_relay = relay,
           rs_listener_port = port, rs_peers = map p_public_key (s_peers snapshot) \<rparr> # specs1"
      "targets = relay_target env index relay path_id # targets1"
    by (auto simp: exec_bind_Returned)
  note A = attach_relay_spec [OF at Cons.prems(2,3,4)]
  note S1 = A [THEN conjunct1] and R1 = A [THEN conjunct2, rule_format]
  note IH = Cons.IH [OF rest Cons.prems(2,3,4)]
  note S2 = IH [THEN conjunct2, THEN conjunct2, THEN conjunct1] and R2 = IH [THEN conjunct2, THEN conjunct2, THEN conjunct2, rule_format]
  have pid: "pt_id (relay_target env index relay path_id) = path_id" by (simp add: relay_target_def)
  show ?case
  proof (intro conjI)
    show "map rs_relay specs = relay # relays" "map rs_path_id specs = map pt_id targets"
      using IH [THEN conjunct1] IH [THEN conjunct2, THEN conjunct1] by (simp_all add: res pid)
    show "\<forall>x. hm_get reg' x \<noteq> None \<longleftrightarrow> hm_get reg x \<noteq> None
         \<or> (\<exists>p\<in>set (s_peers snapshot). \<exists>t\<in>set targets. x = (p_public_key p, pt_id t))"
    proof
      fix x
      show "hm_get reg' x \<noteq> None \<longleftrightarrow> hm_get reg x \<noteq> None
         \<or> (\<exists>p\<in>set (s_peers snapshot). \<exists>t\<in>set targets. x = (p_public_key p, pt_id t))"
        unfolding res set_simps bex_simps R1 [of x] R2 [of x] by blast
    qed
    show "store' = (\<lambda>j. if \<exists>p\<in>set (s_peers snapshot). hm_get (bs_paths bs) (p_public_key p) = Some j
         then (store j)\<lparr> ps_targets := ps_targets (store j) @ targets \<rparr> else store j)"
      unfolding S2 S1 by (rule ext) (simp add: res push_target_def)
  qed
qed

text \<open>The hand-over: a selection of the previous generation survives where its path still exists.\<close>

fun managed_keys :: "(string, managed_peer) hashmap \<Rightarrow> string list" where
  "managed_keys [] = []"
| "managed_keys ((pid, peer) # m) = mp_peer_key peer # managed_keys m"

fun managed_handles :: "(string, managed_peer) hashmap \<Rightarrow> nat list" where
  "managed_handles [] = []"
| "managed_handles ((pid, peer) # m) = mp_paths peer # managed_handles m"

lemma managed_keys_set: "set (managed_keys m) = {mp_peer_key peer | pid peer. (pid, peer) \<in> set m}"
  by (induction m rule: managed_keys.induct) auto

lemma managed_handles_set: "set (managed_handles m) = {mp_paths peer | pid peer. (pid, peer) \<in> set m}"
  by (induction m rule: managed_handles.induct) auto

lemma managed_insert:
  "set (managed_keys (hm_insert pid peer m)) \<subseteq> insert (mp_peer_key peer) (set (managed_keys m))"
  "set (managed_handles (hm_insert pid peer m)) \<subseteq> insert (mp_paths peer) (set (managed_handles m))"
  "distinct (managed_keys m) \<Longrightarrow> mp_peer_key peer \<notin> set (managed_keys m) \<Longrightarrow> distinct (managed_keys (hm_insert pid peer m))"
  by (induction m rule: managed_keys.induct) auto

lemma manage_peers_managed:
  assumes "manage_peers hash hex previous ps paths managed = Returned (paths', managed')"
    and "distinct (map fst ps)" and "distinct (managed_keys managed)"
    and "fst ` set ps \<inter> set (managed_keys managed) = {}"
  shows "distinct (managed_keys managed') \<and> set (managed_handles managed') \<subseteq> set (managed_handles managed) \<union> snd ` set ps"
  using assms
proof (induction ps arbitrary: paths managed)
  case (Cons a rest)
  obtain key h where a: "a = (key, h)" by (rule prod.exhaust)
  define peer where "peer = \<lparr> mp_peer_key = key, mp_key_hint = take 12 key, mp_paths = h \<rparr>"
  from Cons.prems(1) obtain pid paths1 where rec:
    "manage_peers hash hex previous rest paths1 (hm_insert pid peer managed) = Returned (paths', managed')"
    by (auto simp: exec_bind_Returned Let_def a peer_def)
  have key: "mp_peer_key peer = key" "mp_paths peer = h" by (simp_all add: peer_def)
  note ins = managed_insert [where pid = pid and peer = peer and m = managed, unfolded key]
  have "key \<notin> set (managed_keys managed)" using Cons.prems(4) by (auto simp: a)
  with ins(3) Cons.prems(3) have d: "distinct (managed_keys (hm_insert pid peer managed))" by simp
  have "fst ` set rest \<inter> set (managed_keys (hm_insert pid peer managed)) = {}"
    using Cons.prems(2,4) ins(1) by (auto simp: a)
  from Cons.IH [OF rec _ d this] Cons.prems(2) ins(2) show ?case by (auto simp: a)
qed simp

lemma manage_peers_paths:
  assumes "manage_peers hash hex previous ps paths managed = Returned (paths', managed')"
    and "distinct (map snd ps)"
  shows "(\<forall>j. j \<notin> snd ` set ps \<longrightarrow> paths' j = paths j)
    \<and> (\<forall>(key, j)\<in>set ps. paths' j = (case hm_get previous key of None \<Rightarrow> paths j
         | Some sel \<Rightarrow> fst (path_select (paths j) (Some sel))))"
  using assms
proof (induction ps arbitrary: paths managed)
  case (Cons a rest)
  obtain key h where a: "a = (key, h)" by (rule prod.exhaust)
  define paths1 where "paths1 = (case hm_get previous key of None \<Rightarrow> paths
    | Some selected \<Rightarrow> paths(h := fst (path_select (paths h) (Some selected))))"
  from Cons.prems(1) obtain pid peer where
    rec: "manage_peers hash hex previous rest paths1 (hm_insert pid peer managed) = Returned (paths', managed')"
    by (auto simp: exec_bind_Returned Let_def a paths1_def)
  have same: "paths1 j = paths j" if "j \<noteq> h" for j using that by (simp add: paths1_def split: option.split)
  have here: "paths1 h = (case hm_get previous key of None \<Rightarrow> paths h | Some sel \<Rightarrow> fst (path_select (paths h) (Some sel)))"
    by (simp add: paths1_def split: option.split)
  from Cons.prems(2) have h: "h \<notin> snd ` set rest" "distinct (map snd rest)" by (auto simp: a)
  note IH = Cons.IH [OF rec h(2)]
  have "paths' h = paths1 h" using IH h(1) by blast
  moreover have "paths' j = (case hm_get previous k of None \<Rightarrow> paths j | Some sel \<Rightarrow> fst (path_select (paths j) (Some sel)))"
    if kj: "(k, j) \<in> set rest" for k j
  proof -
    have "j \<noteq> h" using kj h(1) by force
    then have e: "paths1 j = paths j" by (rule same)
    have "paths' j = (case hm_get previous k of None \<Rightarrow> paths1 j | Some sel \<Rightarrow> fst (path_select (paths1 j) (Some sel)))"
      using bspec [OF IH [THEN conjunct2] kj] by simp
    then show ?thesis unfolding e .
  qed
  ultimately show ?case using IH [THEN conjunct1] same here by (auto simp: a)
qed simp

lemma fold_insert_get:
  "distinct (map fst kvs) \<Longrightarrow> hm_get (fold (\<lambda>(k, v). hm_insert k v) kvs m) k
     = (case map_of kvs k of None \<Rightarrow> hm_get m k | Some v \<Rightarrow> Some v)"
  by (induction kvs arbitrary: m) (auto split: option.splits simp: map_of_eq_None_iff image_iff)

lemma collect_map_get: "distinct (map fst kvs) \<Longrightarrow> hm_get (collect_map kvs) k = map_of kvs k"
  by (simp add: collect_map_def fold_insert_get split: option.splits)

lemma previous_selections_get:
  assumes "distinct (managed_keys (mg_peers m))"
  shows "hm_get (previous_selections locked m) key = Some sel \<longleftrightarrow>
    (\<exists>pid peer. (pid, peer) \<in> set (mg_peers m) \<and> mp_peer_key peer = key \<and> \<not> locked (mp_paths peer)
       \<and> ps_selected (mg_paths m (mp_paths peer)) = Some sel)"
proof -
  define f where "f = (\<lambda>(_ :: string, peer :: managed_peer). if locked (mp_paths peer) then None
       else map_option (Pair (mp_peer_key peer)) (ps_selected (mg_paths m (mp_paths peer))))"
  have f: "f (pid, peer) = Some (k, s) \<longleftrightarrow> mp_peer_key peer = k \<and> \<not> locked (mp_paths peer)
      \<and> ps_selected (mg_paths m (mp_paths peer)) = Some s" for pid peer k s by (auto simp: f_def)
  have mem: "(k, s) \<in> set (filter_map f ps) \<longleftrightarrow> (\<exists>pid peer. (pid, peer) \<in> set ps \<and> mp_peer_key peer = k
      \<and> \<not> locked (mp_paths peer) \<and> ps_selected (mg_paths m (mp_paths peer)) = Some s)" for k s ps
    by (simp add: Bex_def split_paired_Ex f)
  have "distinct (map fst (filter_map f ps))" if "distinct (managed_keys ps)" for ps
    using that
  proof (induction ps rule: managed_keys.induct)
    case (2 pid peer ps)
    then have "(mp_peer_key peer, s) \<notin> set (filter_map f ps)" for s by (auto simp: managed_keys_set mem simp del: set_filter_map)
    with 2 show ?case by (cases "f (pid, peer)") (auto simp: f simp del: set_filter_map)
  qed simp
  from this [OF assms] show ?thesis
    by (simp add: previous_selections_def f_def [symmetric] collect_map_get mem del: set_filter_map)
qed

text \<open>The managed peers of a generation: no key twice, and no path set with a handle from \<open>h\<close> on.\<close>

definition managed_below :: "nat \<Rightarrow> ('f, 'c) management \<Rightarrow> bool" where
  "managed_below h m \<longleftrightarrow> distinct (managed_keys (mg_peers m)) \<and> list_all (\<lambda>j. j < h) (managed_handles (mg_peers m))"

lemma generation_start_steps:
  fixes sd :: "('k node_routes, 'w, 'c) started"
  assumes "generation_start env locked h config snapshot m k = Returned (m', k', Inr sd)"
  obtains u store reg where
    "start_brokers env config snapshot (s_peers snapshot) h
       \<lparr> bs_tasks = [], bs_paths = [], bs_inbound = [], bs_baselines = [], bs_ports = [], bs_store = mg_paths m \<rparr>
       = Returned (sd_brokers sd, Inr u)"
    "start_relays env config snapshot (sd_brokers sd) 0 (cf_relays config) (bs_store (sd_brokers sd)) (mg_metrics m)
       = Returned (sd_relays sd, sd_dynamic sd, store, reg)"
    "replace_generation (up_hash env) (up_hex env) locked (m\<lparr> mg_paths := store, mg_metrics := reg \<rparr>)
       (cf_interface config) (bs_paths (sd_brokers sd)) = Returned m'"
    "interface_addresses (up_ip env) (up_records env) (cf_interface config) = Inr (sd_addresses sd)"
    "start_shortcuts env snapshot (sd_addresses sd) k = (k', Inr (sd_policy sd, gn_controller (sd_generation sd), sd_control sd))"
proof -
  note G = assms [unfolded generation_start_def]
  from G obtain addresses where ad: "interface_addresses (up_ip env) (up_records env) (cf_interface config) = Inr addresses"
    by (cases "interface_addresses (up_ip env) (up_records env) (cf_interface config)") auto
  from G ad obtain bs r where bs: "start_brokers env config snapshot (s_peers snapshot) h
       \<lparr> bs_tasks = [], bs_paths = [], bs_inbound = [], bs_baselines = [], bs_ports = [], bs_store = mg_paths m \<rparr>
       = Returned (bs, r)" by (auto simp: exec_bind_Returned)
  from G ad bs obtain u where r: "r = Inr u" by (cases r) auto
  from G ad bs r obtain specs targets store reg where
    rel: "start_relays env config snapshot bs 0 (cf_relays config) (bs_store bs) (mg_metrics m) = Returned (specs, targets, store, reg)"
    by (auto simp: exec_bind_Returned)
  from G ad bs r rel obtain m1 where rep: "replace_generation (up_hash env) (up_hex env) locked
       (m\<lparr> mg_paths := store, mg_metrics := reg \<rparr>) (cf_interface config) (bs_paths bs) = Returned m1"
    by (auto simp: exec_bind_Returned)
  obtain k1 and q :: "(system_policy \<times> ('k node_routes, 'w, 'c) controller \<times> socket_addr list) res"
    where sh: "start_shortcuts env snapshot addresses k = (k1, q)" by (rule prod.exhaust)
  from G ad bs r rel rep sh obtain policy ct sockets where q: "q = Inr (policy, ct, sockets)" by (cases q) auto
  from G ad bs r rel rep sh q have "m1 = m'" "k1 = k'" "sd_brokers sd = bs" "sd_relays sd = specs" "sd_dynamic sd = targets"
    "sd_addresses sd = addresses" "sd_policy sd = policy" "sd_control sd = sockets" "gn_controller (sd_generation sd) = ct"
    by auto
  with ad bs r rel rep sh q show ?thesis by (intro that [of u store reg]) simp_all
qed

lemma start_shortcuts_controller:
  "start_shortcuts env snapshot addresses k = (k', Inr (policy, ct, sockets)) \<Longrightarrow>
     ct = controller_new (s_public_key snapshot) (manager_new (atomic_new device_routes_default k')) []"
  by (auto simp: start_shortcuts_def Let_def split: list.splits prod.splits sum.splits)

lemma start_shortcuts_clean:
  assumes tool: "ip_listing (up_kernel env) hash ns policy rules listing"
    and start: "start_shortcuts env snapshot addresses k = (k', Inr (policy, ct, sockets))"
  shows "rules k' = {}"
proof -
  from start obtain source where pol: "policy = policy_new_with_source SHORTCUT_TUN source"
    by (auto simp: start_shortcuts_def Let_def split: list.splits prod.splits sum.splits)
  with start obtain k1 v w where c: "cleanup_stale (up_kernel env) policy k = (k1, Inr v)"
    and e: "ensure_control_bypass (up_kernel env) k1 = (k', Inr w)"
    by (auto simp: start_shortcuts_def Let_def split: list.splits prod.splits sum.splits)
  show ?thesis
  proof (rule ip_listing.unmanaged_rules [OF tool])
    fix f
    assume "f \<in> set families"
    with ip_listing.cleanup_listing(1) [OF tool c] ip_listing.bypass_keeps(2) [OF tool e, of f]
    show "filter (managed_rule policy) (listing k' f) = []" by simp
  qed (simp add: pol policy_new_with_source_def)
qed

lemma zip_handle:
  assumes "distinct ks"
  shows "hm_get (zip ks [h..<h + length ks]) k = Some j \<longleftrightarrow> (\<exists>i < length ks. ks ! i = k \<and> j = h + i)"
proof -
  have "(k, j) \<in> set (zip ks [h..<h + length ks]) \<longleftrightarrow> (\<exists>i < length ks. ks ! i = k \<and> j = h + i)"
    by (auto simp: set_zip)
  moreover have "distinct (map fst (zip ks [h..<h + length ks]))" using assms by simp
  ultimately show ?thesis by simp
qed

lemma started_brokers:
  assumes bs: "start_brokers env config snapshot ps h
       \<lparr> bs_tasks = [], bs_paths = [], bs_inbound = [], bs_baselines = [], bs_ports = [], bs_store = store \<rparr>
       = Returned (bs, Inr u)" and keys: "distinct (map p_public_key ps)"
  shows "bs_paths bs = zip (map p_public_key ps) [h..<h + length ps]"
    and "bs_store bs = (\<lambda>j. if h \<le> j \<and> j < h + length ps then path_set_default else store j)"
    and "i < length ps \<Longrightarrow> \<exists>port. hm_get (bs_ports bs) (p_public_key (ps ! i)) = Some port
      \<and> set_endpoint (up_wg env) (cf_interface config) (p_public_key (ps ! i)) port = Inr ()
      \<and> \<lparr> bt_peer_key = p_public_key (ps ! i), bt_peer_port = port, bt_wireguard_port = s_listen_port snapshot,
          bt_paths = h + i \<rparr> \<in> set (bs_tasks bs)"
proof -
  from start_brokers_spec [OF bs keys] obtain ports where len: "length ports = length ps"
    and paths: "bs_paths bs = zip (map p_public_key ps) [h..<h + length ps]"
    and pt: "bs_ports bs = zip (map p_public_key ps) ports"
    and tasks: "bs_tasks bs = map (\<lambda>(p, port, h). \<lparr> bt_peer_key = p_public_key p, bt_peer_port = port,
         bt_wireguard_port = s_listen_port snapshot, bt_paths = h \<rparr>) (zip ps (zip ports [h..<h + length ps]))"
    and ok: "list_all2 (\<lambda>p port. set_endpoint (up_wg env) (cf_interface config) (p_public_key p) port = Inr ()) ps ports"
    and st: "bs_store bs = (\<lambda>j. if h \<le> j \<and> j < h + length ps then path_set_default else store j)"
    by (fastforce cong del: if_weak_cong)
  show "bs_paths bs = zip (map p_public_key ps) [h..<h + length ps]" by (rule paths)
  show "bs_store bs = (\<lambda>j. if h \<le> j \<and> j < h + length ps then path_set_default else store j)" by (rule st)
  assume i: "i < length ps"
  have "map_of (zip (map p_public_key ps) ports) (map p_public_key ps ! i) = Some (ports ! i)"
    by (rule map_of_zip_nth) (use i len keys in auto)
  moreover have "(ps ! i, ports ! i, h + i) \<in> set (zip ps (zip ports [h..<h + length ps]))"
    using i len by (auto simp: set_zip intro!: exI [of _ i])
  ultimately show "\<exists>port. hm_get (bs_ports bs) (p_public_key (ps ! i)) = Some port
      \<and> set_endpoint (up_wg env) (cf_interface config) (p_public_key (ps ! i)) port = Inr ()
      \<and> \<lparr> bt_peer_key = p_public_key (ps ! i), bt_peer_port = port, bt_wireguard_port = s_listen_port snapshot,
          bt_paths = h + i \<rparr> \<in> set (bs_tasks bs)"
    using i list_all2_nthD [OF ok i] by (intro exI [of _ "ports ! i"]) (force simp: pt tasks)
qed

lemma remove_peers_except_get:
  "hm_get (remove_peers_except reg keys) (peer, path) = (if peer \<in> set keys then hm_get reg (peer, path) else None)"
  unfolding remove_peers_except_def by (induction reg) auto

lemma replace_generation_spec:
  assumes rep: "replace_generation hash hex locked m interface peers = Returned m'"
    and "distinct (map fst peers)" and "distinct (map snd peers)"
  shows "distinct (managed_keys (mg_peers m'))" and "set (managed_handles (mg_peers m')) \<subseteq> snd ` set peers"
    and "(key, j) \<in> set peers \<Longrightarrow> mg_paths m' j = (case hm_get (previous_selections locked m) key of None \<Rightarrow> mg_paths m j
         | Some sel \<Rightarrow> fst (path_select (mg_paths m j) (Some sel)))"
    and "(key, j) \<in> set peers \<Longrightarrow> hm_get (mg_metrics m') (key, path) = hm_get (mg_metrics m) (key, path)"
proof -
  from rep obtain paths managed where
    mp: "manage_peers hash hex (previous_selections locked m) peers (mg_paths m) [] = Returned (paths, managed)"
    and m': "m' = m\<lparr> mg_interface := interface, mg_peers := managed, mg_paths := paths,
      mg_metrics := remove_peers_except (mg_metrics m) (map fst peers) \<rparr>"
    by (auto simp: replace_generation_def exec_bind_Returned Let_def)
  from manage_peers_managed [OF mp assms(2)]
  show "distinct (managed_keys (mg_peers m'))" "set (managed_handles (mg_peers m')) \<subseteq> snd ` set peers"
    by (simp_all add: m')
  assume kj: "(key, j) \<in> set peers"
  then have "key \<in> fst ` set peers" by force
  then show "hm_get (mg_metrics m') (key, path) = hm_get (mg_metrics m) (key, path)"
    by (simp add: m' remove_peers_except_get)
  show "mg_paths m' j = (case hm_get (previous_selections locked m) key of None \<Rightarrow> mg_paths m j
         | Some sel \<Rightarrow> fst (path_select (mg_paths m j) (Some sel)))"
    using bspec [OF conjunct2 [OF manage_peers_paths [OF mp assms(3)]] kj] by (simp add: m')
qed

lemma started_paths:
  fixes bs :: "'c brokers"
  assumes bs: "start_brokers env config snapshot (s_peers snapshot) h
       \<lparr> bs_tasks = [], bs_paths = [], bs_inbound = [], bs_baselines = [], bs_ports = [], bs_store = store0 \<rparr>
       = Returned (bs, Inr u)"
    and rel: "start_relays env config snapshot bs 0 relays (bs_store bs) reg0 = Returned (specs, targets, store, reg)"
    and keys: "distinct (map p_public_key (s_peers snapshot))"
  shows "i < length (s_peers snapshot) \<Longrightarrow> (p_public_key (s_peers snapshot ! i), h + i) \<in> set (bs_paths bs)"
    and "map rs_relay specs = relays" and "map rs_path_id specs = map pt_id targets"
    and "h \<le> j \<Longrightarrow> j < h + length (s_peers snapshot) \<Longrightarrow> store j = \<lparr> ps_targets = targets, ps_selected = None \<rparr>"
    and "j < h \<Longrightarrow> store j = store0 j"
    and "p \<in> set (s_peers snapshot) \<Longrightarrow> t \<in> set targets \<Longrightarrow> hm_get reg (p_public_key p, pt_id t) \<noteq> None"
proof -
  let ?n = "length (s_peers snapshot)"
  note B = started_brokers [OF bs keys]
  note handle = zip_handle [OF keys, of h, unfolded length_map, folded B(1)]
  have at: "hm_get (bs_paths bs) (p_public_key (s_peers snapshot ! i)) = Some (h + i)" if "i < ?n" for i
    using that by (auto simp: handle)
  then show "(p_public_key (s_peers snapshot ! i), h + i) \<in> set (bs_paths bs)" if "i < ?n"
    using that map_of_SomeD by fastforce
  have inj: "inj_on (hm_get (bs_paths bs)) (p_public_key ` set (s_peers snapshot))"
    using at by (auto simp: inj_on_def in_set_conv_nth)
  have some: "\<forall>p\<in>set (s_peers snapshot). hm_get (bs_paths bs) (p_public_key p) \<noteq> None"
    using at by (auto simp: in_set_conv_nth)
  note R = start_relays_spec [OF rel keys inj some]
  note S = R [THEN conjunct2, THEN conjunct2, THEN conjunct1]
  have own: "(\<exists>p\<in>set (s_peers snapshot). hm_get (bs_paths bs) (p_public_key p) = Some j) \<longleftrightarrow> h \<le> j \<and> j < h + ?n" for j
  proof -
    have "h \<le> j \<and> j < h + ?n \<longleftrightarrow> (\<exists>i < ?n. j = h + i)" by presburger
    then show ?thesis using at by (auto simp: in_set_conv_nth Bex_def)
  qed
  show "store j = \<lparr> ps_targets = targets, ps_selected = None \<rparr>" if "h \<le> j" "j < h + ?n"
    unfolding S own B(2) using that by (simp add: path_set_default_def)
  show "store j = store0 j" if "j < h" unfolding S own B(2) using that by simp
  show "map rs_relay specs = relays" "map rs_path_id specs = map pt_id targets" using R by simp_all
  show "hm_get reg (p_public_key p, pt_id t) \<noteq> None" if "p \<in> set (s_peers snapshot)" "t \<in> set targets"
    using R that by blast
qed

lemma selections_kept:
  assumes below: "managed_below h m" and old: "\<And>j. j < h \<Longrightarrow> store j = mg_paths m j"
  shows "hm_get (previous_selections locked (m\<lparr> mg_paths := store, mg_metrics := reg \<rparr>)) key = Some sel \<longleftrightarrow>
      (\<exists>pid peer. (pid, peer) \<in> set (mg_peers m) \<and> mp_peer_key peer = key \<and> \<not> locked (mp_paths peer)
         \<and> ps_selected (mg_paths m (mp_paths peer)) = Some sel)"
proof -
  have "mp_paths peer < h" if "(pid, peer) \<in> set (mg_peers m)" for pid peer
    using below that by (auto simp: managed_below_def list_all_iff managed_handles_set)
  with old have "store (mp_paths peer) = mg_paths m (mp_paths peer)" if "(pid, peer) \<in> set (mg_peers m)" for pid peer
    using that by blast
  then show ?thesis using below previous_selections_get [of "m\<lparr> mg_paths := store, mg_metrics := reg \<rparr>"]
    by (simp add: managed_below_def cong: conj_cong)
qed

lemma selection_carried:
  assumes "ps = (case prev of None \<Rightarrow> old | Some sel \<Rightarrow> fst (path_select old (Some sel)))"
    and "old = \<lparr> ps_targets = ts, ps_selected = None \<rparr>"
  shows "ps_targets ps = ts" and "ps_selected ps = Some x \<longleftrightarrow> x \<in> pt_id ` set ts \<and> prev = Some x"
  using assms by (auto simp: path_select_def list_ex_iff split: option.splits if_splits)

text \<open>
  C12.  A complete start: when a generation starts, every WireGuard peer has its own broker, which
  WireGuard was told to send to, and a path set with one path for each configured relay, in the
  order of the options and the same for every peer; every such path is in the registry of metrics;
  the operator's selection for a peer is carried over from the previous generation exactly where
  its path still exists and nobody held the lock of the old path set at the hand-over (it is read
  with \<open>try_read\<close>, so a selection under contention is lost); and the controller starts with no
  session and no route.  Premises: WireGuard lists every peer once, and the path sets of the new
  generation are new, that is their handles lie above all that the management state holds
  (\<open>managed_below\<close>), which the hand-over leaves true for the next start.
\<close>

theorem generation_start_complete:
  assumes start: "generation_start env locked h config snapshot m k = Returned (m', k', Inr sd)"
    and keys: "distinct (map p_public_key (s_peers snapshot))" and below: "managed_below h m"
  shows "map rs_relay (sd_relays sd) = cf_relays config \<and> map rs_path_id (sd_relays sd) = map pt_id (sd_dynamic sd)
    \<and> (\<forall>p. p \<in> set (s_peers snapshot) \<longrightarrow> (\<exists>j port.
         \<lparr> bt_peer_key = p_public_key p, bt_peer_port = port, bt_wireguard_port = s_listen_port snapshot, bt_paths = j \<rparr>
           \<in> set (bs_tasks (sd_brokers sd))
         \<and> hm_get (bs_ports (sd_brokers sd)) (p_public_key p) = Some port
         \<and> set_endpoint (up_wg env) (cf_interface config) (p_public_key p) port = Inr ()
         \<and> ps_targets (mg_paths m' j) = sd_dynamic sd
         \<and> (\<forall>t. t \<in> set (sd_dynamic sd) \<longrightarrow> hm_get (mg_metrics m') (p_public_key p, pt_id t) \<noteq> None)
         \<and> (\<forall>sel. ps_selected (mg_paths m' j) = Some sel \<longleftrightarrow> sel \<in> pt_id ` set (sd_dynamic sd)
              \<and> (\<exists>pid peer. (pid, peer) \<in> set (mg_peers m) \<and> mp_peer_key peer = p_public_key p
                   \<and> \<not> locked (mp_paths peer) \<and> ps_selected (mg_paths m (mp_paths peer)) = Some sel))))
    \<and> gn_controller (sd_generation sd)
        = controller_new (s_public_key snapshot) (manager_new (atomic_new device_routes_default k')) []
    \<and> managed_below (h + length (s_peers snapshot)) m'"
  (is "_ \<and> _ \<and> (\<forall>p. _ \<longrightarrow> (\<exists>j port. ?Q p j port)) \<and> _")
proof -
  let ?ks = "map p_public_key (s_peers snapshot)" and ?n = "length (s_peers snapshot)"
  obtain u store reg where
    bs: "start_brokers env config snapshot (s_peers snapshot) h
       \<lparr> bs_tasks = [], bs_paths = [], bs_inbound = [], bs_baselines = [], bs_ports = [], bs_store = mg_paths m \<rparr>
       = Returned (sd_brokers sd, Inr u)"
    and rel: "start_relays env config snapshot (sd_brokers sd) 0 (cf_relays config) (bs_store (sd_brokers sd)) (mg_metrics m)
       = Returned (sd_relays sd, sd_dynamic sd, store, reg)"
    and rep: "replace_generation (up_hash env) (up_hex env) locked (m\<lparr> mg_paths := store, mg_metrics := reg \<rparr>)
       (cf_interface config) (bs_paths (sd_brokers sd)) = Returned m'"
    and sh: "start_shortcuts env snapshot (sd_addresses sd) k = (k', Inr (sd_policy sd, gn_controller (sd_generation sd), sd_control sd))"
    by (rule generation_start_steps [OF start])
  note B = started_brokers [OF bs keys]
  note G = started_paths [OF bs rel keys]
  have "distinct (map fst (bs_paths (sd_brokers sd)))" "distinct (map snd (bs_paths (sd_brokers sd)))"
    using keys by (simp_all add: B(1))
  note P = replace_generation_spec [OF rep this]
  have prev: "hm_get (previous_selections locked (m\<lparr> mg_paths := store, mg_metrics := reg \<rparr>)) key = Some sel \<longleftrightarrow>
      (\<exists>pid peer. (pid, peer) \<in> set (mg_peers m) \<and> mp_peer_key peer = key \<and> \<not> locked (mp_paths peer)
         \<and> ps_selected (mg_paths m (mp_paths peer)) = Some sel)" for key sel
    by (rule selections_kept [OF below G(5)])
  have peer: "\<exists>j port. ?Q p j port" if p: "p \<in> set (s_peers snapshot)" for p
  proof -
    from p obtain i where i: "i < ?n" "s_peers snapshot ! i = p" by (auto simp: in_set_conv_nth)
    obtain port where port: "hm_get (bs_ports (sd_brokers sd)) (p_public_key p) = Some port"
      "set_endpoint (up_wg env) (cf_interface config) (p_public_key p) port = Inr ()"
      "\<lparr> bt_peer_key = p_public_key p, bt_peer_port = port, bt_wireguard_port = s_listen_port snapshot, bt_paths = h + i \<rparr>
         \<in> set (bs_tasks (sd_brokers sd))" using B(3) [OF i(1)] i(2) by auto
    have kj: "(p_public_key p, h + i) \<in> set (bs_paths (sd_brokers sd))" using G(1) [OF i(1)] i(2) by simp
    have st: "mg_paths (m\<lparr> mg_paths := store, mg_metrics := reg \<rparr>) (h + i) = \<lparr> ps_targets = sd_dynamic sd, ps_selected = None \<rparr>"
      using G(4) [of "h + i"] i(1) by simp
    have r: "hm_get (mg_metrics m') (p_public_key p, pt_id t) \<noteq> None" if "t \<in> set (sd_dynamic sd)" for t
      using P(4) [OF kj, of "pt_id t"] G(6) [OF p that] by simp
    show ?thesis using port r selection_carried [OF P(3) [OF kj] st, unfolded prev] by blast
  qed
  have "managed_below (h + ?n) m'" using P(1,2) by (auto simp: managed_below_def list_all_iff B(1) set_zip)
  with G(2,3) peer start_shortcuts_controller [OF sh] show ?thesis by blast
qed

section \<open>A start\<close>

definition sample_start_env :: "(int, string list list, nat) start_env" where
  "sample_start_env = \<lparr> up_hash = (\<lambda>b. [1, 2]), up_hex = (\<lambda>b. replicate 64 (CHR ''a'')),
     up_wg = (\<lambda>args. Inr tool_ok), up_ip = (\<lambda>args. Inr tool_ok),
     up_records = (\<lambda>text. Inr [[(V6 2, ''global'')]]), up_scheme = (\<lambda>url. Some ''tcp''), up_sender = id,
     up_metrics = path_metrics_default sample_f64 0 0, up_kernel = listing_ip, up_device = Inr (),
     up_bind = (\<lambda>a. Inr ()) \<rparr>"

definition sample_before :: "(int, nat) management" where
  "sample_before = \<lparr> mg_interface = ''wg0'',
     mg_peers = [(''id'', \<lparr> mp_peer_key = ''hub'', mp_key_hint = ''hub'', mp_paths = 0 \<rparr>)],
     mg_paths = (\<lambda>_. \<lparr> ps_targets = [], ps_selected = Some ''et-aaaaaaaaaaaa'' \<rparr>), mg_metrics = [] \<rparr>"

definition sample_options :: config where
  "sample_options = sample_config\<lparr> cf_relays := [''tcp://relay''] \<rparr>"

lemma sample_start_steps:
  "interface_addresses (up_ip sample_start_env) (up_records sample_start_env) interface = Inr [V6 2]"
  "set_endpoint (up_wg sample_start_env) interface key port = Inr ()"
  "relay_path_id sample_start_env relay = Returned ''et-aaaaaaaaaaaa''"
  "management_peer_id (up_hash sample_start_env) (up_hex sample_start_env) key = Returned ''aaaaaaaaaaaaaaaa''"
proof -
  show "interface_addresses (up_ip sample_start_env) (up_records sample_start_env) interface = Inr [V6 2]"
    by (simp add: sample_start_env_def interface_addresses_def tool_ok_def usable_addresses_def)
  have "slice (replicate 64 (CHR ''a'')) 0 12 = Returned ''aaaaaaaaaaaa''"
    "slice (replicate 64 (CHR ''a'')) 0 16 = Returned ''aaaaaaaaaaaaaaaa''" by code_simp+
  then show "relay_path_id sample_start_env relay = Returned ''et-aaaaaaaaaaaa''"
    "management_peer_id (up_hash sample_start_env) (up_hex sample_start_env) key = Returned ''aaaaaaaaaaaaaaaa''"
    by (simp_all add: sample_start_env_def relay_path_id_def management_peer_id_def)
qed (simp add: sample_start_env_def tool_ok_def set_endpoint_def)

lemma sample_start_shortcuts:
  obtains k' where "start_shortcuts sample_start_env snapshot [V6 2] k =
     (k', Inr (policy_new_with_source SHORTCUT_TUN (V6 2),
        controller_new (s_public_key snapshot) (manager_new (atomic_new device_routes_default k')) [],
        [SocketAddr (V6 2) CONTROL_PORT]))"
proof -
  let ?sp = "policy_new_with_source SHORTCUT_TUN (V6 2)"
  obtain k1 where "cleanup_stale listing_ip ?sp k = (k1, Inr ())" using listing_cleanup_succeeds by blast
  moreover obtain k2 where "ensure_control_bypass listing_ip k1 = (k2, Inr ())" using listing_bypass_succeeds(2) by blast
  ultimately show ?thesis
    by (intro that [of k2]) (simp add: sample_start_env_def start_shortcuts_def control_start_def Let_def)
qed

lemmas sample_start_defs = generation_start_def sample_start_steps derive_port_def Let_def sample_gen_def
  sample_wg_peer_def sample_options_def sample_config_def add_broker_def path_set_default_def replace_generation_def

lemma sample_starts:
  obtains m' k' and sd :: "(string list list node_routes, bytes list, nat) started" where
    "generation_start sample_start_env (\<lambda>_. False) 1 sample_options (gn_snapshot sample_gen) sample_before [] = Returned (m', k', Inr sd)"
    "map pt_id (sd_dynamic sd) = [''et-aaaaaaaaaaaa'']" "sd_policy sd = policy_new_with_source SHORTCUT_TUN (V6 2)"
    "gn_snapshot (sd_generation sd) = gn_snapshot sample_gen"
proof -
  obtain k' where k': "start_shortcuts sample_start_env (gn_snapshot sample_gen) [V6 2] [] =
     (k', Inr (policy_new_with_source SHORTCUT_TUN (V6 2),
        controller_new ''alice'' (manager_new (atomic_new device_routes_default k')) [] ::
          (string list list node_routes, bytes list, nat) controller, [SocketAddr (V6 2) CONTROL_PORT]))"
    by (rule sample_start_shortcuts [of "gn_snapshot sample_gen" "[]"]) (simp add: sample_gen_def)
  note k'' = k' [unfolded sample_gen_def generation.simps sample_wg_peer_def]
  from that show ?thesis by (auto simp: sample_start_defs k'' relay_target_def)
qed

theorem generation_start_complete_witness:
  "\<exists>m' k' (sd :: (string list list node_routes, bytes list, nat) started) j.
     generation_start sample_start_env (\<lambda>_. False) 1 sample_options (gn_snapshot sample_gen) sample_before [] = Returned (m', k', Inr sd)
     \<and> map rs_relay (sd_relays sd) = [''tcp://relay''] \<and> ps_targets (mg_paths m' j) = sd_dynamic sd
     \<and> ps_selected (mg_paths m' j) = Some ''et-aaaaaaaaaaaa''"
proof -
  obtain m' k' and sd :: "(string list list node_routes, bytes list, nat) started" where
    s: "generation_start sample_start_env (\<lambda>_. False) 1 sample_options (gn_snapshot sample_gen) sample_before [] = Returned (m', k', Inr sd)"
    and ids: "map pt_id (sd_dynamic sd) = [''et-aaaaaaaaaaaa'']" by (rule sample_starts)
  have keys: "distinct (map p_public_key (s_peers (gn_snapshot sample_gen)))" by (simp add: sample_gen_def)
  have below: "managed_below 1 sample_before" by (simp add: managed_below_def sample_before_def)
  have hub: "sample_wg_peer ''hub'' 0x0a000009 \<in> set (s_peers (gn_snapshot sample_gen))"
    "p_public_key (sample_wg_peer ''hub'' 0x0a000009) = ''hub''" by (simp_all add: sample_gen_def sample_wg_peer_def)
  note C = generation_start_complete [OF s keys below]
  have relays: "map rs_relay (sd_relays sd) = [''tcp://relay'']" using C by (simp add: sample_options_def)
  from ids have "''et-aaaaaaaaaaaa'' \<in> pt_id ` set (sd_dynamic sd)" by (metis list.set_intros(1) list.set_map)
  moreover have "\<exists>pid peer. (pid, peer) \<in> set (mg_peers sample_before) \<and> mp_peer_key peer = ''hub''
      \<and> ps_selected (mg_paths sample_before (mp_paths peer)) = Some ''et-aaaaaaaaaaaa''" by (simp add: sample_before_def)
  moreover from C hub obtain j where "ps_targets (mg_paths m' j) = sd_dynamic sd"
    "\<forall>sel. ps_selected (mg_paths m' j) = Some sel \<longleftrightarrow> sel \<in> pt_id ` set (sd_dynamic sd)
      \<and> (\<exists>pid peer. (pid, peer) \<in> set (mg_peers sample_before) \<and> mp_peer_key peer = ''hub''
           \<and> ps_selected (mg_paths sample_before (mp_paths peer)) = Some sel)" by fastforce
  ultimately have "ps_targets (mg_paths m' j) = sd_dynamic sd \<and> ps_selected (mg_paths m' j) = Some ''et-aaaaaaaaaaaa''"
    by simp
  with s relays show ?thesis by (intro exI conjI) auto
qed

end
