(* ===== verification/Transport.thy ===== *)
theory Transport
  imports Supervisor Lan
begin

text \<open>
  \<open>src/src/easytier.rs\<close>, the start of a relay task and of the public relay, \<open>src/src/discovery/lan.rs\<close>, a
  tick of the LAN discovery, and what the tasks of two nodes do to a packet together: from the
  WireGuard of one node through broker, relay, EasyTier and filter to the WireGuard, or the shortcut
  device, of the other.
\<close>

section \<open>A relay task starts\<close>

record 'c relay_setup =
  ru_network :: string
  ru_config :: string
  ru_context :: discovery_context
  ru_filter :: "'c wg_packet_filter"
  ru_state :: relay_state

text \<open>
  \<open>easytier\<close> parses the configuration and starts the instance.  \<open>routes\<close> are the peers of the \<open>RelaySpec\<close>
  with the inbound channels of their brokers.
\<close>

definition relay_start ::
    "(bytes \<Rightarrow> bytes) \<Rightarrow> (bytes \<Rightarrow> string) \<Rightarrow> (string \<Rightarrow> string) \<Rightarrow> (string \<Rightarrow> unit res) \<Rightarrow> config \<Rightarrow> relay_spec
     \<Rightarrow> (string \<times> 'c) list \<Rightarrow> u64 \<Rightarrow> 'c relay_setup res exec" where
  "relay_start hash hex quote easytier config spec routes period =
     exec_bind (transport_network hash hex) (\<lambda>network_name.
     exec_bind (build_config hash hex quote (cf_stun config) spec network_name period []) (\<lambda>config_text.
       Returned (case easytier config_text of
           Inl e \<Rightarrow> Inl e
         | Inr _ \<Rightarrow> Inr \<lparr> ru_network = network_name, ru_config = config_text,
             ru_context = \<lparr> dc_local_public_key = rs_local_public_key spec, dc_listener_port = rs_listener_port spec,
               dc_peer_public_keys = map fst routes \<rparr>,
             ru_filter = \<lparr> wf_local_public_key = rs_local_public_key spec, wf_peers = collect_map routes,
               wf_path_id = rs_path_id spec \<rparr>,
             ru_state = relay_init period \<rparr>)))"

section \<open>The public relay\<close>

definition build_public_relay_config :: "(string \<Rightarrow> string) \<Rightarrow> u16 \<Rightarrow> string \<Rightarrow> string \<Rightarrow> string \<Rightarrow> string" where
  "build_public_relay_config quote port network_name network_secret allowed_network =
     (let q = [CHR 0x22]; name = q @ ''wg-link-public-relay'' @ q in
      ''instance_name = '' @ name @ nl @ ''hostname = '' @ name @ nl @ ''dhcp = false'' @ nl
      @ ''listeners = ['' @ q @ ''udp://0.0.0.0:'' @ dec_string (unat port) @ q @ '', '' @ q @ ''tcp://0.0.0.0:''
        @ dec_string (unat port) @ q @ '']'' @ nl @ nl
      @ ''[network_identity]'' @ nl @ ''network_name = '' @ quote network_name @ nl
      @ ''network_secret = '' @ quote network_secret @ nl @ nl
      @ ''[flags]'' @ nl @ ''no_tun = true'' @ nl @ ''use_smoltcp = true'' @ nl @ ''private_mode = false'' @ nl
      @ ''relay_all_peer_rpc = true'' @ nl @ ''relay_network_whitelist = '' @ quote allowed_network @ nl
      @ ''disable_p2p = true'' @ nl @ ''disable_udp_hole_punching = true'' @ nl
      @ ''disable_tcp_hole_punching = true'' @ nl @ ''multi_thread = false'' @ nl)"

text \<open>The names drawn once when the service starts; \<open>hex32\<close> renders a random number with 32 digits.\<close>

definition public_relay_config ::
    "(bytes \<Rightarrow> bytes) \<Rightarrow> (bytes \<Rightarrow> string) \<Rightarrow> (string \<Rightarrow> string) \<Rightarrow> (128 word \<Rightarrow> string) \<Rightarrow> u16 \<Rightarrow> 128 word \<Rightarrow> 128 word \<Rightarrow> string exec" where
  "public_relay_config hash hex quote hex32 port r1 r2 =
     exec_bind (transport_network hash hex) (\<lambda>allowed_network.
       Returned (build_public_relay_config quote port (''__wg_link_relay_'' @ hex32 r1) (hex32 r2) allowed_network))"

text \<open>
  One turn of the service: \<open>parse\<close> loads the configuration, \<open>started\<close> is the result of running the
  instance.  The first component tells whether an instance served until it ended.
\<close>

definition public_relay_turn :: "(string \<Rightarrow> unit res) \<Rightarrow> unit res \<Rightarrow> string \<Rightarrow> bool \<times> flow" where
  "public_relay_turn parse started config_text =
     (case parse config_text of
        Inl e \<Rightarrow> (False, Stop (Inl e))
      | Inr _ \<Rightarrow> (is_ok started, Continue))"

text \<open>What \<open>main\<close> spawns before its loop.\<close>

datatype startup_effect = ServeManagement socket_addr | ServePublicRelay u16

definition main_start :: "config \<Rightarrow> startup_effect list" where
  "main_start config = ServeManagement (cf_management_listen config)
     # (if \<not> cf_disable_public_relay config then [ServePublicRelay (cf_public_relay_port config)] else [])"

section \<open>A tick of the LAN discovery\<close>

text \<open>
  The announcement is sent to every destination, then datagrams are taken until the deadline;
  \<open>open_rx\<close> tells whether the relay task still takes candidates.
\<close>

definition lan_turn ::
    "(bytes \<Rightarrow> bytes) \<Rightarrow> (bytes \<Rightarrow> string) \<Rightarrow> (ipnet \<Rightarrow> ip_addr \<Rightarrow> bool) \<Rightarrow> (ipnet \<Rightarrow> 32 word) \<Rightarrow> (32 word \<times> ipnet) list \<Rightarrow> string
     \<Rightarrow> string \<Rightarrow> u16 \<Rightarrow> u64 \<Rightarrow> u64 \<Rightarrow> u64 \<Rightarrow> (bytes \<times> socket_addr) list \<Rightarrow> bool
     \<Rightarrow> ((bytes \<times> socket_addr) list \<times> socket_addr list \<times> flow) exec" where
  "lan_turn hash hex contains broadcast interfaces network public_key port id_period field_period now datagrams open_rx =
     exec_bind (own_announcement hash hex public_key network port id_period field_period) (\<lambda>packet.
     exec_bind (receive_candidates hash hex contains interfaces network public_key now datagrams) (\<lambda>candidates.
       Returned (map (Pair packet) (announce_destinations broadcast interfaces),
         (if candidates \<noteq> [] \<and> open_rx then candidates else []),
         if candidates \<noteq> [] \<and> \<not> open_rx then Stop (Inr ()) else Continue)))"

section \<open>From node to node\<close>

text \<open>
  EasyTier's routing table names the node of a peer: under a name that was current less than an
  hour before \<open>t\<close>, and no other node bears one of the peer's names.
\<close>

definition knows_peer ::
    "(bytes \<Rightarrow> bytes) \<Rightarrow> (bytes \<Rightarrow> string) \<Rightarrow> (string, u32) hashmap \<Rightarrow> string \<Rightarrow> u32 \<Rightarrow> u64 \<Rightarrow> bool" where
  "knows_peer hash hex ids key dst t \<longleftrightarrow>
     (\<exists>t0. unat t0 \<le> unat t \<and> unat t < unat t0 + 3600 \<and> hm_get ids (node_name hash hex key (peer_id_period t0)) = Some dst)
     \<and> (\<forall>p. hm_get ids (node_name hash hex key p) \<in> {None, Some dst})"

lemma packet_crosses:
  assumes "hex16 hash hex" and "key_ok (rs_local_public_key spec)" and "key_ok (rp_peer_key packet)"
    and "rp_payload packet \<noteq> []" and "channel_ok (rp_channel packet)"
    and "knows_peer hash hex (rl_peer_ids st) (rp_peer_key packet) dst t"
  obtains frame and rest :: "'f relay_effect list" where
    "handle_outbound hash hex ty spec packet t sent now st = Returned (SendMsg (data_packet ty frame) dst # rest)"
    "decode_frame frame = Returned (Some \<lparr> df_source = rs_local_public_key spec, df_target = rp_peer_key packet,
        df_channel = rp_channel packet, df_payload = rp_payload packet \<rparr>)"
proof -
  from assms(6) obtain t0 where "unat t0 \<le> unat t" "unat t < unat t0 + 3600"
    "hm_get (rl_peer_ids st) (node_name hash hex (rp_peer_key packet) (peer_id_period t0)) = Some dst"
    "\<forall>p. hm_get (rl_peer_ids st) (node_name hash hex (rp_peer_key packet) p) \<in> {None, Some dst}"
    unfolding knows_peer_def by blast
  from outbound_reaches_peer [OF assms(1-5) this(3,4,1,2), of ty sent now] that show ?thesis by blast
qed

lemma relay_start_filter:
  assumes "relay_start hash hex quote easytier config spec routes period = Returned (Inr ru)" and "distinct (map fst routes)"
  shows "wf_local_public_key (ru_filter ru) = rs_local_public_key spec" and "wf_path_id (ru_filter ru) = rs_path_id spec"
    and "(key, c) \<in> set routes \<Longrightarrow> hm_get (wf_peers (ru_filter ru)) key = Some c"
proof -
  have "ru_filter ru = \<lparr> wf_local_public_key = rs_local_public_key spec, wf_peers = collect_map routes, wf_path_id = rs_path_id spec \<rparr>"
  proof -
    from assms(1) obtain network toml where "(case easytier toml of Inl e \<Rightarrow> Inl e
         | Inr _ \<Rightarrow> Inr \<lparr> ru_network = network, ru_config = toml,
             ru_context = \<lparr> dc_local_public_key = rs_local_public_key spec, dc_listener_port = rs_listener_port spec,
               dc_peer_public_keys = map fst routes \<rparr>,
             ru_filter = \<lparr> wf_local_public_key = rs_local_public_key spec, wf_peers = collect_map routes,
               wf_path_id = rs_path_id spec \<rparr>,
             ru_state = relay_init period \<rparr>) = Inr ru" by (auto simp: relay_start_def exec_bind_Returned)
    then show ?thesis by (cases "easytier toml") auto
  qed
  with assms(2) show "wf_local_public_key (ru_filter ru) = rs_local_public_key spec"
    "wf_path_id (ru_filter ru) = rs_path_id spec" "(key, c) \<in> set routes \<Longrightarrow> hm_get (wf_peers (ru_filter ru)) key = Some c"
    by (simp_all add: collect_map_get)
qed

text \<open>
  C8.  Packets arrive: a datagram that WireGuard sends to the broker of peer \<open>b\<close> on node \<open>a\<close> is relayed
  once, on a live path that no better live path precedes; the relay sends it as one EasyTier
  message to the node of \<open>b\<close>; when EasyTier hands that message to the filter of \<open>b\<close>'s relay task, the
  filter takes it out of the stream, counts its bytes for \<open>a\<close> and gives it to the broker of \<open>a\<close>, which
  sends the very same bytes to the WireGuard of \<open>b\<close>.  It is presupposed that EasyTier on \<open>a\<close> currently
  lists the node of \<open>b\<close> under one of its rotating names (\<open>knows_peer\<close>).
\<close>

theorem wireguard_packet_arrives:
  assumes hex: "hex16 hash hex" and keys: "key_ok (rs_local_public_key spec_a)" "key_ok (rs_local_public_key spec_b)"
    and payload: "payload \<noteq> []" and live: "alive_path open_a ps_a path"
    and knows: "knows_peer hash hex (rl_peer_ids st_a) (rs_local_public_key spec_b) dst t"
    and start_b: "relay_start hash hex quote easytier config spec_b routes_b period = Returned (Inr ru_b)"
    and route_b: "(rs_local_public_key spec_a, c) \<in> set routes_b" "distinct (map fst routes_b)"
    and send_b: "send_b payload = Inr ()"
  shows "\<exists>best frame rest.
      run_peer_step open_a send_a reg_a ps_a (rs_local_public_key spec_b) port_a (PeerReceived (Inr (payload, loopback port_a)))
        = ([Relayed (pt_sender best) \<lparr> rp_peer_key = rs_local_public_key spec_b, rp_channel = BaseWireGuard, rp_payload = payload \<rparr>], Continue)
    \<and> alive_path open_a ps_a best
    \<and> (\<forall>u. alive_path open_a ps_a u \<longrightarrow>
         target_class reg_a (rs_local_public_key spec_b) ps_a best \<le> target_class reg_a (rs_local_public_key spec_b) ps_a u)
    \<and> handle_outbound hash hex ty spec_a
        \<lparr> rp_peer_key = rs_local_public_key spec_b, rp_channel = BaseWireGuard, rp_payload = payload \<rparr> t sent now st_a
        = Returned (SendMsg (data_packet ty frame) dst # (rest :: 'f relay_effect list))
    \<and> try_process_packet ty (ru_filter ru_b) (data_packet ty frame)
        = Returned ([RecordRx (rs_local_public_key spec_a) (rs_path_id spec_b) (length payload), ToBroker c payload], None)
    \<and> run_peer_step open_b send_b reg_b ps_b (rs_local_public_key spec_a) port_b (PeerInbound (Some payload))
        = ([ToWireGuard (loopback port_b) payload], Continue)"
proof -
  let ?b = "rs_local_public_key spec_b"
  let ?pkt = "\<lparr> rp_peer_key = ?b, rp_channel = BaseWireGuard, rp_payload = payload \<rparr>"
  obtain eff fl where step: "run_peer_step open_a send_a reg_a ps_a ?b port_a (PeerReceived (Inr (payload, loopback port_a))) = (eff, fl)"
    by (rule prod.exhaust)
  from run_peer_relays_once [OF step] live obtain best where best: "alive_path open_a ps_a best"
    "eff = [Relayed (pt_sender best) ?pkt]" "fl = Continue"
    "\<forall>u. alive_path open_a ps_a u \<longrightarrow> target_class reg_a ?b ps_a best \<le> target_class reg_a ?b ps_a u" by blast
  obtain frame and rest :: "'f relay_effect list" where
    out: "handle_outbound hash hex ty spec_a ?pkt t sent now st_a = Returned (SendMsg (data_packet ty frame) dst # rest)"
    and dec: "decode_frame frame = Returned (Some \<lparr> df_source = rs_local_public_key spec_a, df_target = ?b,
        df_channel = BaseWireGuard, df_payload = payload \<rparr>)"
    by (rule packet_crosses [where packet = ?pkt and spec = spec_a and st = st_a and ty = ty and sent = sent and now = now
          and 'f = 'f]) (use hex keys payload knows in simp_all)
  note F = relay_start_filter [OF start_b route_b(2)]
  have "try_process_packet ty (ru_filter ru_b) (data_packet ty frame)
        = Returned ([RecordRx (rs_local_public_key spec_a) (rs_path_id spec_b) (length payload), ToBroker c payload], None)"
    using dec F(1,2) F(3) [OF route_b(1)] by (simp add: try_process_packet_def data_packet_def)
  with step best out send_b show ?thesis by (intro exI conjI) simp_all
qed

text \<open>
  C9.  Shortcut datagrams arrive: a datagram of a shortcut session that the device of node \<open>a\<close> hands to
  the dispatcher goes out once on a live path of its peer, or of the node when the peer is not one
  of its WireGuard peers; it reaches the filter of \<open>b\<close>'s relay task, and the loop of \<open>b\<close>'s
  generation gives the device exactly that session, the true sender and the same bytes.  It is
  presupposed that EasyTier on \<open>a\<close> currently lists the node of \<open>b\<close> (\<open>knows_peer\<close>) and that the device
  task of \<open>b\<close> runs.
\<close>

theorem shortcut_datagram_arrives:
  assumes hex: "hex16 hash hex" and keys: "key_ok (rs_local_public_key spec_a)" "key_ok (rs_local_public_key spec_b)"
    and payload: "payload \<noteq> []" and session: "length (id_bytes (sk_shortcut_id session)) = 16"
    and live: "path \<in> set (case hm_get paths_a (rs_local_public_key spec_b) of Some ps \<Rightarrow> ps_targets ps | None \<Rightarrow> dynamic_a)"
      "open_a (pt_sender path)"
    and knows: "knows_peer hash hex (rl_peer_ids st_a) (rs_local_public_key spec_b) dst t"
    and start_b: "relay_start hash hex quote easytier config spec_b routes_b period = Returned (Inr ru_b)" "distinct (map fst routes_b)"
    and running: "ge_device_running env_b"
  shows "\<exists>best frame rest inbound.
      run_dispatcher_step open_a reg_a paths_a dynamic_a
          (DispatcherInbound (Some \<lparr> rp_peer_key = rs_local_public_key spec_b, rp_channel = ShortcutWireGuard session, rp_payload = payload \<rparr>))
        = ([Relayed (pt_sender best) \<lparr> rp_peer_key = rs_local_public_key spec_b, rp_channel = ShortcutWireGuard session,
              rp_payload = payload \<rparr>], Continue)
    \<and> best \<in> set (case hm_get paths_a (rs_local_public_key spec_b) of Some ps \<Rightarrow> ps_targets ps | None \<Rightarrow> dynamic_a)
    \<and> open_a (pt_sender best)
    \<and> handle_outbound hash hex ty spec_a
        \<lparr> rp_peer_key = rs_local_public_key spec_b, rp_channel = ShortcutWireGuard session, rp_payload = payload \<rparr> t sent now st_a
        = Returned (SendMsg (data_packet ty frame) dst # (rest :: 'f relay_effect list))
    \<and> try_process_packet ty (ru_filter ru_b) (data_packet ty frame) = Returned ([ToShortcut inbound], None)
    \<and> generation_step act deact env_b st_b (GenInbound (Some inbound))
        = Returned (st_b, [DeviceSent (CmdReceive session (rs_local_public_key spec_a) payload)], GoOn)"
proof -
  let ?b = "rs_local_public_key spec_b"
  let ?pkt = "\<lparr> rp_peer_key = ?b, rp_channel = ShortcutWireGuard session, rp_payload = payload \<rparr>"
  let ?in = "\<lparr> irp_source_key = rs_local_public_key spec_a, irp_channel = ShortcutWireGuard session, irp_payload = payload \<rparr>"
  define ts where "ts = (case hm_get paths_a ?b of Some ps \<Rightarrow> ordered_healthy_targets reg_a ?b ps | None \<Rightarrow> dynamic_a)"
  have "path \<in> set ts" using live(1) by (auto simp: ts_def ordered_healthy_targets_def split: option.splits)
  with live(2) obtain best where best: "find (\<lambda>t. open_a (pt_sender t)) ts = Some best"
    by (cases "find (\<lambda>t. open_a (pt_sender t)) ts") (auto simp: find_None_iff)
  have "run_dispatcher_step open_a reg_a paths_a dynamic_a (DispatcherInbound (Some ?pkt)) = relay_to open_a ?pkt ts"
    by (auto simp: ts_def split: option.split)
  with best have disp: "run_dispatcher_step open_a reg_a paths_a dynamic_a (DispatcherInbound (Some ?pkt)) = ([Relayed (pt_sender best) ?pkt], Continue)"
    by (simp add: relay_to_spec)
  have op: "open_a (pt_sender best)" using find_first(2) [OF best] .
  have mem: "best \<in> set (case hm_get paths_a ?b of Some ps \<Rightarrow> ps_targets ps | None \<Rightarrow> dynamic_a)"
    using find_first(1) [OF best] by (auto simp: ts_def ordered_healthy_targets_def split: option.splits)
  obtain frame and rest :: "'f relay_effect list" where
    out: "handle_outbound hash hex ty spec_a ?pkt t sent now st_a = Returned (SendMsg (data_packet ty frame) dst # rest)"
    and dec: "decode_frame frame = Returned (Some \<lparr> df_source = rs_local_public_key spec_a, df_target = ?b,
        df_channel = ShortcutWireGuard session, df_payload = payload \<rparr>)"
    by (rule packet_crosses [where packet = ?pkt and spec = spec_a and st = st_a and ty = ty and sent = sent and now = now
          and 'f = 'f]) (use hex keys payload session knows in simp_all)
  have tp: "try_process_packet ty (ru_filter ru_b) (data_packet ty frame) = Returned ([ToShortcut ?in], None)"
    using dec relay_start_filter(1) [OF start_b] by (simp add: try_process_packet_def data_packet_def)
  have gs: "generation_step act deact env_b st_b (GenInbound (Some ?in))
      = Returned (st_b, [DeviceSent (CmdReceive session (rs_local_public_key spec_a) payload)], GoOn)"
    using running by simp
  show ?thesis
    by (rule exI [of _ best], rule exI [of _ frame], rule exI [of _ rest], rule exI [of _ ?in]) (intro conjI disp mem op out tp gs)
qed

section \<open>The public relay keeps to itself\<close>

text \<open>
  The public relay forwards for the network of the nodes without being a member: the name of its
  own network, whatever the random part, is never the one it admits.
\<close>

lemma public_relay_not_member:
  assumes "transport_network hash hex = Returned allowed"
  shows "''__wg_link_relay_'' @ x \<noteq> allowed"
  using assms by (auto simp: transport_network_def exec_bind_Returned)

text \<open>Once its configuration has been parsed the service survives every failed start.\<close>

lemma public_relay_survives: "snd (public_relay_turn parse started toml) = Continue \<longleftrightarrow> is_ok (parse toml)"
  by (cases "parse toml") (simp_all add: public_relay_turn_def)

text \<open>
  The error of \<open>public_address\<close> for an empty answer never occurs: it returns the least address that
  the servers reported, or the error of \<open>public_addresses\<close>.
\<close>

lemma public_address_least:
  "public_address lookup exchange rng server =
     (case public_addresses lookup exchange rng server of Inl e \<Rightarrow> Inl e | Inr as \<Rightarrow> Inr (Min (set as)))"
proof -
  have "as \<noteq> []" "sorted as" if "public_addresses lookup exchange rng server = Inr as" for as
    using that by (auto simp: public_addresses_def Let_def simp flip: set_empty split: sum.splits if_splits)
  then show ?thesis
    by (auto simp: public_address_def split: sum.split list.split intro!: Min_eqI [symmetric])
qed

section \<open>Two nodes\<close>

definition sample_digest :: "bytes \<Rightarrow> bytes" where "sample_digest b = [1, 2]"
definition sample_render :: "bytes \<Rightarrow> string" where "sample_render b = replicate 64 (CHR ''a'')"

lemma sample_render_hex16: "hex16 sample_digest sample_render"
  by (simp add: hex16_def sample_render_def)

lemma sample_relay_starts:
  "\<exists>ru. relay_start sample_digest sample_render quote (\<lambda>_. Inr ()) config spec routes period = Returned (Inr ru)"
proof -
  have s: "slice (sample_render b) m n = Returned (drop m (take n (sample_render b)))" if "m \<le> n" "n \<le> 64" for b m n
    using that by (simp add: slice_def sample_render_def)
  show ?thesis
    by (simp add: relay_start_def transport_network_def build_config_def rotating_node_name_def rotating_instance_id_def
        rotating_node_id_def Let_def s)
qed

lemma sample_knows: "knows_peer sample_digest sample_render [(node_name sample_digest sample_render ''bob'' 0, 7)] ''bob'' 7 100"
proof -
  have "node_name sample_digest sample_render key p = node_name sample_digest sample_render key 0" for key p
    by (simp add: node_name_def sample_digest_def sample_render_def digest_def)
  then show ?thesis unfolding knows_peer_def by (auto intro!: exI [of _ 100])
qed

lemma sample_keys: "key_ok ''alice''" "key_ok ''bob''"
proof -
  have "rust_str ''alice''" "rust_str ''bob''" by code_simp+
  then show "key_ok ''alice''" "key_ok ''bob''" by (simp_all add: key_ok_def)
qed

definition sample_member :: relay_state where
  "sample_member = (relay_init 0)\<lparr> rl_peer_ids := [(node_name sample_digest sample_render ''bob'' 0, 7)] \<rparr>"

lemma sample_member_knows: "knows_peer sample_digest sample_render (rl_peer_ids sample_member) ''bob'' 7 100"
  using sample_knows by (simp add: sample_member_def)

lemma sample_spec_key [simp]: "rs_local_public_key (sample_spec key ps) = key"
  by (simp add: sample_spec_def)

theorem wireguard_packet_arrives_witness:
  "\<exists>(ru :: nat relay_setup) frame (rest :: int relay_effect list).
     relay_start sample_digest sample_render id (\<lambda>_. Inr ()) sample_config (sample_spec ''bob'' [''alice'']) [(''alice'', 3)] 0
       = Returned (Inr ru)
     \<and> handle_outbound sample_digest sample_render 1 (sample_spec ''alice'' [''bob''])
         \<lparr> rp_peer_key = ''bob'', rp_channel = BaseWireGuard, rp_payload = [5] \<rparr> 100 (Inr ()) 0 sample_member
         = Returned (SendMsg (data_packet 1 frame) 7 # rest)
     \<and> try_process_packet 1 (ru_filter ru) (data_packet 1 frame)
         = Returned ([RecordRx ''alice'' (rs_path_id (sample_spec ''bob'' [''alice''])) 1, ToBroker 3 [5]], None)"
proof -
  obtain ru :: "nat relay_setup" where ru: "relay_start sample_digest sample_render id (\<lambda>_. Inr ()) sample_config
      (sample_spec ''bob'' [''alice'']) [(''alice'', 3)] 0 = Returned (Inr ru)" using sample_relay_starts by blast
  have live: "alive_path (\<lambda>_. True) sample_paths (hd (ps_targets sample_paths))"
    by (simp add: alive_path_def sample_paths_def)
  note A = wireguard_packet_arrives [where spec_a = "sample_spec ''alice'' [''bob'']" and spec_b = "sample_spec ''bob'' [''alice'']"
      and payload = "[5]" and open_a = "\<lambda>_. True" and ps_a = sample_paths and c = 3 and dst = 7 and t = 100 and ty = 1 and sent = "Inr ()"
      and now = 0 and st_a = sample_member and send_b = "\<lambda>_. Inr ()" and 'f = int,
      unfolded sample_spec_key, OF sample_render_hex16 sample_keys _ live sample_member_knows ru]
  then obtain frame and rest :: "int relay_effect list" where "handle_outbound sample_digest sample_render 1 (sample_spec ''alice'' [''bob''])
         \<lparr> rp_peer_key = ''bob'', rp_channel = BaseWireGuard, rp_payload = [5] \<rparr> 100 (Inr ()) 0 sample_member
         = Returned (SendMsg (data_packet 1 frame) 7 # rest)"
     "try_process_packet 1 (ru_filter ru) (data_packet 1 frame)
         = Returned ([RecordRx ''alice'' (rs_path_id (sample_spec ''bob'' [''alice''])) 1, ToBroker 3 [5]], None)" by simp blast
  with ru show ?thesis by auto
qed

theorem shortcut_datagram_arrives_witness:
  "\<exists>(ru :: nat relay_setup) frame (rest :: int relay_effect list) inbound.
     relay_start sample_digest sample_render id (\<lambda>_. Inr ()) sample_config (sample_spec ''bob'' [''alice'']) [(''alice'', 3)] 0
       = Returned (Inr ru)
     \<and> handle_outbound sample_digest sample_render 1 (sample_spec ''alice'' [''bob''])
         \<lparr> rp_peer_key = ''bob'', rp_channel = ShortcutWireGuard (sample_key 1), rp_payload = [5] \<rparr> 100 (Inr ()) 0 sample_member
         = Returned (SendMsg (data_packet 1 frame) 7 # rest)
     \<and> try_process_packet 1 (ru_filter ru) (data_packet 1 frame) = Returned ([ToShortcut inbound], None)
     \<and> sample_gen_step sample_gen (GenInbound (Some inbound))
         = Returned (sample_gen, [DeviceSent (CmdReceive (sample_key 1) ''alice'' [5])], GoOn)"
proof -
  obtain ru :: "nat relay_setup" where ru: "relay_start sample_digest sample_render id (\<lambda>_. Inr ()) sample_config
      (sample_spec ''bob'' [''alice'']) [(''alice'', 3)] 0 = Returned (Inr ru)" using sample_relay_starts by blast
  have id16: "length (id_bytes (sk_shortcut_id (sample_key 1))) = 16" by (simp add: sample_key_def)
  have live: "hd (ps_targets sample_paths) \<in> set (case hm_get [] ''bob'' of Some ps \<Rightarrow> ps_targets ps | None \<Rightarrow> ps_targets sample_paths)"
    by (simp add: sample_paths_def)
  have run: "ge_device_running sample_gen_env" by (simp add: sample_gen_env_def)
  note A = shortcut_datagram_arrives [where spec_a = "sample_spec ''alice'' [''bob'']" and spec_b = "sample_spec ''bob'' [''alice'']"
      and payload = "[5]" and session = "sample_key 1" and open_a = "\<lambda>_. True" and paths_a = "[]" and dynamic_a = "ps_targets sample_paths"
      and dst = 7 and t = 100 and ty = 1 and sent = "Inr ()" and now = 0 and st_a = sample_member and st_b = sample_gen and 'f = int,
      unfolded sample_spec_key, OF sample_render_hex16 sample_keys _ id16 live TrueI sample_member_knows ru _ run]
  then obtain frame and rest :: "int relay_effect list" and inbound where
    "handle_outbound sample_digest sample_render 1 (sample_spec ''alice'' [''bob''])
         \<lparr> rp_peer_key = ''bob'', rp_channel = ShortcutWireGuard (sample_key 1), rp_payload = [5] \<rparr> 100 (Inr ()) 0 sample_member
         = Returned (SendMsg (data_packet 1 frame) 7 # rest)"
     "try_process_packet 1 (ru_filter ru) (data_packet 1 frame) = Returned ([ToShortcut inbound], None)"
     "sample_gen_step sample_gen (GenInbound (Some inbound))
         = Returned (sample_gen, [DeviceSent (CmdReceive (sample_key 1) ''alice'' [5])], GoOn)"
    by simp blast
  with ru show ?thesis by blast
qed

end
