(* ===== verification/Establish.thy ===== *)
theory Establish
  imports Transport
begin

text \<open>
  A shortcut comes up: what the hub, the two spokes and their devices do together, from the tickets
  the hub sends to the routes of both spokes.  The crate \<open>boringtun\<close> is described by the locale
  \<open>noise_handshake\<close>, which adds to the contract of \<open>Engine\<close> that two tunnels made from matching keys
  complete a handshake.
\<close>

section \<open>The Noise handshake\<close>

text \<open>
  Two tunnels with the same preshared key, each made from its own private key and the public key of
  the other.  Each has been asked to encapsulate the empty packet, which starts a handshake.  The
  initiation of the first makes the second deliver a response, and that response makes the first
  deliver transport data; neither call fails and handshake messages carry no inner packet.
\<close>

locale noise_handshake = noise_tunnel "tunn_decapsulate api" pending
  for api :: "'w tunn_api" and pending :: "'w \<Rightarrow> nat" +
  fixes pub :: "bytes \<Rightarrow> bytes"
  assumes initiation: "tunn_encapsulate api (tunn_new api a b psk interval i) [] = (w, r) \<Longrightarrow>
      \<exists>init. r = WriteToNetwork init \<and> wireguard_message_type init = Some HANDSHAKE_INITIATION"
    and handshake: "tunn_encapsulate api (tunn_new api a (pub b) psk interval i) [] = (wa, WriteToNetwork init) \<Longrightarrow>
      tunn_encapsulate api (tunn_new api b (pub a) psk interval j) [] = (wb, rb) \<Longrightarrow>
      \<exists>rs wb' resp rs' wa' data.
        drains (tunn_decapsulate api) None wb init rs wb' \<and> TunnErr \<notin> set rs \<and> filter_map to_tunnel rs = []
        \<and> WriteToNetwork resp \<in> set rs \<and> wireguard_message_type resp = Some HANDSHAKE_RESPONSE
        \<and> drains (tunn_decapsulate api) None wa resp rs' wa' \<and> TunnErr \<notin> set rs' \<and> filter_map to_tunnel rs' = []
        \<and> WriteToNetwork data \<in> set rs' \<and> wireguard_message_type data = Some TRANSPORT_DATA"
begin

text \<open>The \<open>receive\<close> of the program turns such a run into an authenticated handshake.\<close>

lemma receive_authenticates:
  assumes run: "drains (tunn_decapsulate api) None w d rs w'" "TunnErr \<notin> set rs" "filter_map to_tunnel rs = []"
    and out: "WriteToNetwork p \<in> set rs"
    and types: "wireguard_message_type d = Some HANDSHAKE_INITIATION \<and> wireguard_message_type p = Some HANDSHAKE_RESPONSE
      \<or> wireguard_message_type d = Some HANDSHAKE_RESPONSE \<and> wireguard_message_type p = Some TRANSPORT_DATA"
  obtains out' where "tunnel_receive api w None d = Some (w', Inr out')" "authenticated_flag out'"
    "tunnel_packets out' = []" "p \<in> set (network_packets out')"
proof -
  have "last rs \<noteq> TunnErr" using run(2) last_in_set [OF drains_nonempty [OF run(1)]] by auto
  with receive_loop_drains [OF run(1), of empty_output] run(3)
  have "receive_loop (tunn_decapsulate api) None w d empty_output
      = Some (w', Inr \<lparr> network_packets = filter_map to_network rs, tunnel_packets = [], authenticated_flag = False \<rparr>)"
    by (simp add: loop_result_def empty_output_def)
  moreover have p: "p \<in> set (filter_map to_network rs)" using out by (auto intro: bexI [of _ "WriteToNetwork p"])
  moreover have "authenticates (wireguard_message_type d) (filter_map to_network rs)"
    using types p by (auto simp: authenticates_def list_ex_iff HANDSHAKE_INITIATION_def HANDSHAKE_RESPONSE_def)
  ultimately show ?thesis by (intro that) (auto simp: tunnel_receive_def)
qed

end

text \<open>
  A tunnel that knows its private key and the public key of its peer and checks that handshake
  messages are meant for it: the instance that evaluates examples.
\<close>

fun keyed_decapsulate :: "(bytes \<Rightarrow> bytes) \<Rightarrow> bytes \<times> bytes \<times> bytes list \<Rightarrow> ip_addr option \<Rightarrow> bytes
    \<Rightarrow> (bytes \<times> bytes \<times> bytes list) \<times> tunn_result" where
  "keyed_decapsulate pub (a, p, []) source [] = ((a, p, []), Done)"
| "keyed_decapsulate pub (a, p, x # q) source [] = ((a, p, q), WriteToNetwork x)"
| "keyed_decapsulate pub (a, p, q) source (x # xs) =
     (if drop 3 xs \<noteq> pub a then ((a, p, q), TunnErr)
      else if take 3 xs = [0, 0, 0] \<and> x = 1 then ((a, p, q), WriteToNetwork ([2, 0, 0, 0] @ p))
      else if take 3 xs = [0, 0, 0] \<and> x = 2 then ((a, p, q), WriteToNetwork [4, 0, 0, 0])
      else ((a, p, q), TunnErr))"

definition keyed_api :: "(bytes \<Rightarrow> bytes) \<Rightarrow> (bytes \<times> bytes \<times> bytes list) tunn_api" where
  "keyed_api pub = \<lparr> tunn_new = (\<lambda>a p _ _ _. (a, p, [])),
     tunn_encapsulate = (\<lambda>(a, p, q) x. ((a, p, q), WriteToNetwork ([1, 0, 0, 0] @ p))),
     tunn_decapsulate = keyed_decapsulate pub, tunn_update_timers = (\<lambda>w. (w, Done)) \<rparr>"

lemma message_types:
  "wireguard_message_type (1 # 0 # 0 # 0 # b) = Some HANDSHAKE_INITIATION"
  "wireguard_message_type (2 # 0 # 0 # 0 # b) = Some HANDSHAKE_RESPONSE"
  "wireguard_message_type (4 # 0 # 0 # 0 # b) = Some TRANSPORT_DATA"
  by (simp_all add: wireguard_message_type_def from_le_bytes_def from_be_bytes_def nat_of_be_def
      HANDSHAKE_INITIATION_def HANDSHAKE_RESPONSE_def TRANSPORT_DATA_def)

lemma keyed_drains:
  assumes "keyed_decapsulate pub (a, p, []) None d = ((a, p, []), WriteToNetwork x)"
  shows "drains (keyed_decapsulate pub) None (a, p, []) d [WriteToNetwork x, Done] (a, p, [])"
proof -
  have "drains (keyed_decapsulate pub) None (a, p, []) [] [Done] (a, p, [])" by (rule drains_stop) simp_all
  from drains_more [OF assms _ this] show ?thesis by simp
qed

interpretation keyed: noise_handshake "keyed_api pub" "\<lambda>(a, p, q). length q" pub
proof
  fix w source w' r
  show "(case w' of (a, p, q) \<Rightarrow> length q) < (case w of (a, p, q) \<Rightarrow> length q)"
    if "tunn_decapsulate (keyed_api pub) w source [] = (w', r)" "r \<notin> {Done, TunnErr}"
    using that by (cases "(pub, w, source, [] :: bytes)" rule: keyed_decapsulate.cases) (auto simp: keyed_api_def)
next
  fix a b psk interval i w r
  show "\<exists>init. r = WriteToNetwork init \<and> wireguard_message_type init = Some HANDSHAKE_INITIATION"
    if "tunn_encapsulate (keyed_api pub) (tunn_new (keyed_api pub) a b psk interval i) [] = (w, r)"
    using that by (auto simp: keyed_api_def message_types)
next
  fix a b psk interval i wa init j wb rb
  assume "tunn_encapsulate (keyed_api pub) (tunn_new (keyed_api pub) a (pub b) psk interval i) [] = (wa, WriteToNetwork init)"
    and "tunn_encapsulate (keyed_api pub) (tunn_new (keyed_api pub) b (pub a) psk interval j) [] = (wb, rb)"
  then have w: "wa = (a, pub b, [])" "wb = (b, pub a, [])" "init = [1, 0, 0, 0] @ pub b" by (auto simp: keyed_api_def)
  have "drains (keyed_decapsulate pub) None wb init [WriteToNetwork ([2, 0, 0, 0] @ pub a), Done] wb"
    "drains (keyed_decapsulate pub) None wa ([2, 0, 0, 0] @ pub a) [WriteToNetwork [4, 0, 0, 0], Done] wa"
    unfolding w by (rule keyed_drains; simp)+
  then show "\<exists>rs wb' resp rs' wa' data.
        drains (tunn_decapsulate (keyed_api pub)) None wb init rs wb' \<and> TunnErr \<notin> set rs \<and> filter_map to_tunnel rs = []
        \<and> WriteToNetwork resp \<in> set rs \<and> wireguard_message_type resp = Some HANDSHAKE_RESPONSE
        \<and> drains (tunn_decapsulate (keyed_api pub)) None wa resp rs' wa' \<and> TunnErr \<notin> set rs' \<and> filter_map to_tunnel rs' = []
        \<and> WriteToNetwork data \<in> set rs' \<and> wireguard_message_type data = Some TRANSPORT_DATA"
    by (intro exI conjI) (auto simp: keyed_api_def message_types)
qed

section \<open>A spoke\<close>

definition with_device :: "('r, 'w, 'c) generation \<Rightarrow> ('w, 'c) sessions \<Rightarrow> ('r, 'w, 'c) generation" where
  "with_device st dev = st\<lparr> gn_controller := (gn_controller st)\<lparr> ct_device := dev \<rparr> \<rparr>"

lemma with_device_simps [simp]:
  "ct_manager (gn_controller (with_device st dev)) = ct_manager (gn_controller st)"
  "ct_device (gn_controller (with_device st dev)) = dev"
  by (simp_all add: with_device_def)

text \<open>
  A spoke that can take a ticket of \<open>hub\<close> from the address \<open>source\<close> for the new session \<open>k\<close> at time
  \<open>now\<close>: its latest snapshot routes the address to the hub, with a recent handshake; the session is
  unknown; the device task runs, and its channels have receivers.
\<close>

definition spoke_ready ::
    "('w, 'c) gen_env \<Rightarrow> ('r, 'w, 'c) generation \<Rightarrow> string \<Rightarrow> ip_addr \<Rightarrow> session_key \<Rightarrow> u64 \<Rightarrow> bool" where
  "spoke_ready env st hub source k now \<longleftrightarrow>
     (\<exists>p. route_peer (ge_contains env) (gn_snapshot st) source None = Some p \<and> p_public_key p = hub
        \<and> fresh_handshake (p_latest_handshake p) now)
     \<and> hm_get (sm_sessions (ct_manager (gn_controller st))) k = None
     \<and> ge_device_running env \<and> env_events_open (ge_device env) \<and> env_outbound_open (ge_device env) (ge_outbound env)"

text \<open>The runtime that \<open>prepare\<close> leaves in the device.\<close>

definition prepared_runtime :: "('w, 'c) gen_env \<Rightarrow> shortcut_ticket \<Rightarrow> 'w \<Rightarrow> ('w, 'c) session_runtime" where
  "prepared_runtime env t w = \<lparr> sr_session = ticket_session t, sr_tunnel = w,
     sr_remote_public_key = t_remote_public_key t, sr_outbound = ge_outbound env \<rparr>"

lemma spoke_admits:
  assumes ready: "spoke_ready env st (t_issuer_public_key t) source (ticket_session t) now"
    and valid: "validate t now = Inr ()" and own: "t_recipient_public_key t = ct_local_public_key (gn_controller st)"
    and enc: "tunn_encapsulate (ge_tunn env) (tunnel_new (ge_tunn env) (derive_keys (ge_keyed_hash env) (ge_public env) t)
      (session_index (ge_hash env) (ticket_session t))) [] = (w, WriteToNetwork init)"
  obtains st' where
    "generation_step act deact env st (GenControl (Some \<lparr> rc_source = source, rc_message = Ticket t \<rparr>) now) = Returned (st',
       [DeviceDid (device_effect.Outbound (ge_outbound env) \<lparr> rp_peer_key = t_remote_public_key t,
          rp_channel = ShortcutWireGuard (ticket_session t), rp_payload = init \<rparr>),
        DeviceDid (Emitted (HandshakeStarted (ticket_session t)))], GoOn)"
    "ct_device (gn_controller st') = hm_insert (ticket_session t) (prepared_runtime env t w) (ct_device (gn_controller st))"
    "hm_get (sm_sessions (ct_manager (gn_controller st'))) (ticket_session t) = Some \<lparr> ms_ticket = t, ms_phase = Handshaking \<rparr>"
    "sm_routes (ct_manager (gn_controller st')) = sm_routes (ct_manager (gn_controller st))"
    "hm_wf (sm_sessions (ct_manager (gn_controller st))) \<Longrightarrow> hm_wf (sm_sessions (ct_manager (gn_controller st')))"
proof -
  from ready obtain p where p: "route_peer (ge_contains env) (gn_snapshot st) source None = Some p"
    "p_public_key p = t_issuer_public_key t" "fresh_handshake (p_latest_handshake p) now"
    unfolding spoke_ready_def by blast
  let ?m = "ct_manager (gn_controller st)"
  let ?m1 = "?m\<lparr> sm_sessions := hm_insert (ticket_session t) \<lparr> ms_ticket = t, ms_phase = Prepared \<rparr> (sm_sessions ?m) \<rparr>"
  let ?m2 = "?m1\<lparr> sm_sessions := hm_insert (ticket_session t) \<lparr> ms_ticket = t, ms_phase = Handshaking \<rparr> (sm_sessions ?m1) \<rparr>"
  let ?dev = "hm_insert (ticket_session t) (prepared_runtime env t w) (ct_device (gn_controller st))"
  have r: "manager_receive_ticket (ge_keyed_hash env) (ge_public env) ?m t (p_public_key p) (ct_local_public_key (gn_controller st)) now
    = (?m1, Inr \<lparr> ps_session = ticket_session t, ps_keys = derive_keys (ge_keyed_hash env) (ge_public env) t, ps_already_present = False \<rparr>)"
    using ready valid own p(2) by (simp add: manager_receive_ticket_def spoke_ready_def ticket_session_def Let_def)
  have h: "handle_prepare (ge_tunn env) (ge_hash env) (ge_device env) (ge_device_running env) (ticket_session t)
      (derive_keys (ge_keyed_hash env) (ge_public env) t) (t_remote_public_key t) (ge_outbound env) (ct_device (gn_controller st))
    = (?dev, [device_effect.Outbound (ge_outbound env) \<lparr> rp_peer_key = t_remote_public_key t,
          rp_channel = ShortcutWireGuard (ticket_session t), rp_payload = init \<rparr>, Emitted (HandshakeStarted (ticket_session t))], Inr ())"
    using ready enc by (simp add: handle_prepare_def prepare_session_def tunnel_encapsulate_def send_network_def emit_def
        empty_output_def prepared_runtime_def spoke_ready_def Let_def)
  have m: "mark_handshaking ?m1 (ticket_session t) = (?m2, Inr ())" by (simp add: mark_handshaking_def)
  show ?thesis
    by (rule that [of "st\<lparr> gn_controller := (gn_controller st)\<lparr> ct_manager := ?m2, ct_device := ?dev \<rparr> \<rparr>"])
      (use p r h m in \<open>simp_all add: gen_ticket_def controller_receive_ticket_def\<close>)
qed

text \<open>A handshake message from the peer that completes a handshake.\<close>

lemma spoke_receives:
  assumes rt: "hm_get ss k = Some rt" "sr_remote_public_key rt = source" "sr_session rt = k"
    and rec: "tunnel_receive api (sr_tunnel rt) None d = Some (w', Inr out)" "authenticated_flag out" "tunnel_packets out = []"
    and p: "p \<in> set (network_packets out)" and op: "env_events_open env" "env_outbound_open env (sr_outbound rt)"
  obtains eff where
    "device_step api hash contains env routes ss (DevCommand (Some (CmdReceive k source d)))
       = Some (hm_insert k (rt\<lparr> sr_tunnel := w' \<rparr>) ss, eff, Continue)"
    "Emitted (AuthenticatedHandshake k) \<in> set eff"
    "device_effect.Outbound (sr_outbound rt) \<lparr> rp_peer_key = source, rp_channel = ShortcutWireGuard k, rp_payload = p \<rparr> \<in> set eff"
proof -
  have sp: "\<exists>eff. send_packets env rt' ps = (eff, Inr ()) \<and> (\<forall>p. p \<in> set ps \<longrightarrow> device_effect.Outbound (sr_outbound rt')
      \<lparr> rp_peer_key = sr_remote_public_key rt', rp_channel = ShortcutWireGuard (sr_session rt'), rp_payload = p \<rparr> \<in> set eff)"
    if "env_outbound_open env (sr_outbound rt')" for rt' :: "('a, 'b) session_runtime" and ps
    using that by (induction ps) (auto split: prod.splits)
  obtain eff where e: "send_packets env (rt\<lparr> sr_tunnel := w' \<rparr>) (network_packets out) = (eff, Inr ())"
    "device_effect.Outbound (sr_outbound rt) \<lparr> rp_peer_key = source, rp_channel = ShortcutWireGuard k, rp_payload = p \<rparr> \<in> set eff"
    using sp [of "rt\<lparr> sr_tunnel := w' \<rparr>" "network_packets out"] op(2) p rt(2,3) by auto
  show ?thesis
    by (rule that [of "Emitted (AuthenticatedHandshake k) # eff"])
      (use rt(1,2) rec e op(1) in \<open>simp_all add: handle_receive_def emit_def continue_or_stop_def Let_def\<close>)
qed

text \<open>The generation takes the device's notice and installs the route.\<close>

lemma node_activates:
  assumes "\<not> dr_poisoned (ar_userspace a)" and "policy_install ip hash ns sp (ar_policy a) sel = (p, Inr ())"
  shows "\<exists>a'. node_activate ip hash ns sp a sel t = (a', Inr ())
    \<and> device_table (ar_userspace a') = (device_table (ar_userspace a))(sel \<mapsto> t)"
  using assms by (auto simp: atomic_activate_def device_replace_def Let_def fun_eq_iff)

lemma spoke_routes:
  fixes st :: "('k node_routes, 'w, 'c) generation"
  assumes s: "hm_get (sm_sessions (ct_manager (gn_controller st))) k = Some m" "ms_phase m \<noteq> Active"
      "hm_wf (sm_sessions (ct_manager (gn_controller st)))"
      "now < t_expires_at (ms_ticket m)"
    and run: "ge_device_running env"
    and act: "\<not> dr_poisoned (ar_userspace (sm_routes (ct_manager (gn_controller st))))"
      "policy_install ip hash ns sp (ar_policy (sm_routes (ct_manager (gn_controller st)))) (t_selector (ms_ticket m)) = (p, Inr ())"
  obtains st' where
    "generation_step (node_activate ip hash ns sp) deact env st (GenEvent (Some (AuthenticatedHandshake k)) now) = Returned (st', [], GoOn)"
    "node_table (ct_manager (gn_controller st')) (t_selector (ms_ticket m)) = Some (RouteTarget k)"
    "manager_phase (ct_manager (gn_controller st')) k = Some Active"
proof -
  let ?mgr = "ct_manager (gn_controller st)"
  obtain r where r: "node_activate ip hash ns sp (sm_routes ?mgr) (t_selector (ms_ticket m)) (RouteTarget k) = (r, Inr ())"
    "device_table (ar_userspace r) = (device_table (ar_userspace (sm_routes ?mgr)))(t_selector (ms_ticket m) \<mapsto> RouteTarget k)"
    using node_activates [OF act] by blast
  define drained where "drained = (case hm_get (sm_active_routes ?mgr) (t_selector (ms_ticket m)) of
      Some p \<Rightarrow> if p \<noteq> k then set_phase p Draining (sm_sessions ?mgr) else sm_sessions ?mgr | None \<Rightarrow> sm_sessions ?mgr)"
  have dk: "hm_get drained k = Some m" and dw: "hm_wf drained"
    using s(1,3) by (auto simp: drained_def set_phase_get set_phase_def split: option.splits)
  define mgr1 where "mgr1 = ?mgr\<lparr> sm_routes := r, sm_sessions := set_phase k Active drained,
      sm_active_routes := hm_insert (t_selector (ms_ticket m)) k (sm_active_routes ?mgr) \<rparr>"
  have au: "authenticated_handshake (node_activate ip hash ns sp) ?mgr k now = (mgr1, Inr True)"
    using s r(1) dk by (simp add: authenticated_handshake_def Let_def mgr1_def drained_def not_le)
  obtain mgr2 ks where rd: "retire_draining mgr1 = (mgr2, ks)" by (rule prod.exhaust)
  have ks: "k \<notin> set ks" using rd dk dw by (auto simp: retire_draining_def mgr1_def set_phase_def Let_def hm_get_in_set split: if_splits)
  have keep: "sm_routes mgr2 = r" "manager_phase mgr2 k = Some Active"
    using rd ks dk by (auto simp: retire_draining_def remove_sessions_def mgr1_def manager_phase_def fold_remove_get set_phase_get Let_def)
  have "snd (remove_all True ks ss) = Inr ()" for ss :: "('w, 'c) sessions"
    by (induction ks arbitrary: ss) (simp_all add: handle_remove_def)
  then obtain dev where dev: "remove_all True ks (ct_device (gn_controller st)) = (dev, Inr ())" by (metis prod.collapse)
  show ?thesis
    by (rule that [of "st\<lparr> gn_controller := (gn_controller st)\<lparr> ct_manager := mgr2, ct_device := dev \<rparr> \<rparr>"])
      (use run au rd dev keep r(2) in \<open>simp_all add: gen_event_def handle_device_event_def\<close>)
qed

section \<open>Two spokes\<close>

text \<open>The two tickets of one shortcut.\<close>

definition ticket_pair :: "shortcut_ticket \<Rightarrow> shortcut_ticket \<Rightarrow> bool" where
  "ticket_pair l r \<longleftrightarrow> t_shortcut_id l = t_shortcut_id r \<and> t_epoch l = t_epoch r
     \<and> t_master_secret l = t_master_secret r \<and> t_role l \<noteq> t_role r
     \<and> t_remote_public_key l = t_recipient_public_key r \<and> t_remote_public_key r = t_recipient_public_key l"

lemma ticket_pair_sym: "ticket_pair l r \<Longrightarrow> ticket_pair r l"
  by (auto simp: ticket_pair_def)

lemma paired_keys:
  assumes "ticket_pair l r"
  shows "remote_public (derive_keys kh pub l) = pub (local_private (derive_keys kh pub r))"
    and "preshared_key (derive_keys kh pub r) = preshared_key (derive_keys kh pub l)"
  using assms opposite_roles_agree [of r l kh pub] by (auto simp: ticket_pair_def)

lemma ticket_pair_session: "ticket_pair l r \<Longrightarrow> ticket_session r = ticket_session l"
  by (simp add: ticket_pair_def ticket_session_def)

text \<open>
  The handshake of two tunnels that were prepared from the tickets of one shortcut, as the tunnel
  engine of the program reports it on both sides.
\<close>

lemma prepared_tunnels_meet:
  assumes noise: "noise_handshake api pending pub" and pair: "ticket_pair l r"
    and enc: "tunn_encapsulate api (tunnel_new api (derive_keys kh pub l) i) [] = (wl, WriteToNetwork init)"
      "tunn_encapsulate api (tunnel_new api (derive_keys kh pub r) j) [] = (wr, rr)"
  obtains wr' out_r resp wl' out_l data where
    "tunnel_receive api wr None init = Some (wr', Inr out_r)" "authenticated_flag out_r" "tunnel_packets out_r = []"
    "resp \<in> set (network_packets out_r)"
    "tunnel_receive api wl None resp = Some (wl', Inr out_l)" "authenticated_flag out_l" "tunnel_packets out_l = []"
    "data \<in> set (network_packets out_l)"
proof -
  note k = paired_keys [OF pair] paired_keys(1) [OF ticket_pair_sym [OF pair]]
  note E = enc [unfolded tunnel_new_def k]
  have ty: "wireguard_message_type init = Some HANDSHAKE_INITIATION"
    using noise_handshake.initiation [OF noise E(1)] by blast
  from noise_handshake.handshake [OF noise E] obtain rs wr' resp rs' wl' data where
    H: "drains (tunn_decapsulate api) None wr init rs wr'" "TunnErr \<notin> set rs" "filter_map to_tunnel rs = []"
      "WriteToNetwork resp \<in> set rs" "wireguard_message_type resp = Some HANDSHAKE_RESPONSE"
      "drains (tunn_decapsulate api) None wl resp rs' wl'" "TunnErr \<notin> set rs'" "filter_map to_tunnel rs' = []"
      "WriteToNetwork data \<in> set rs'" "wireguard_message_type data = Some TRANSPORT_DATA" by blast
  note N = noise_handshake.receive_authenticates [OF noise]
  obtain out_r where R: "tunnel_receive api wr None init = Some (wr', Inr out_r)" "authenticated_flag out_r"
    "tunnel_packets out_r = []" "resp \<in> set (network_packets out_r)" by (rule N [OF H(1-4)]) (use ty H(5) in simp_all)
  obtain out_l where L: "tunnel_receive api wl None resp = Some (wl', Inr out_l)" "authenticated_flag out_l"
    "tunnel_packets out_l = []" "data \<in> set (network_packets out_l)" by (rule N [OF H(6-9)]) (use H(5,10) in simp_all)
  from that [OF R L] show ?thesis .
qed

text \<open>What a spoke needs to install the route: its table is usable and the kernel takes the rule.\<close>

definition can_route ::
    "'k ip_fn \<Rightarrow> (bytes \<Rightarrow> bytes) \<Rightarrow> (ipnet \<Rightarrow> string) \<Rightarrow> system_policy \<Rightarrow> ('k node_routes, 'w, 'c) generation \<Rightarrow> ipnet \<Rightarrow> bool" where
  "can_route ip hash ns sp st sel \<longleftrightarrow> hm_wf (sm_sessions (ct_manager (gn_controller st)))
     \<and> \<not> dr_poisoned (ar_userspace (sm_routes (ct_manager (gn_controller st))))
     \<and> (\<exists>p. policy_install ip hash ns sp (ar_policy (sm_routes (ct_manager (gn_controller st)))) sel = (p, Inr ()))"

text \<open>A spoke between the admission of the ticket \<open>t\<close> and the end of its handshake.\<close>

definition awaiting :: "('w, 'c) gen_env \<Rightarrow> ('k node_routes, 'w, 'c) generation \<Rightarrow> ('k node_routes, 'w, 'c) generation
    \<Rightarrow> shortcut_ticket \<Rightarrow> 'w \<Rightarrow> bool" where
  "awaiting env st0 st t w \<longleftrightarrow>
     hm_get (ct_device (gn_controller st)) (ticket_session t) = Some (prepared_runtime env t w)
     \<and> hm_get (sm_sessions (ct_manager (gn_controller st))) (ticket_session t) = Some \<lparr> ms_ticket = t, ms_phase = Handshaking \<rparr>
     \<and> sm_routes (ct_manager (gn_controller st)) = sm_routes (ct_manager (gn_controller st0))
     \<and> (hm_wf (sm_sessions (ct_manager (gn_controller st0))) \<longrightarrow> hm_wf (sm_sessions (ct_manager (gn_controller st))))"

lemma awaiting_routes:
  assumes w: "awaiting env st0 st t w" and run: "ge_device_running env"
    and can: "can_route ip hash ns sp st0 (t_selector t)" and time: "now < t_expires_at t"
  obtains st' where
    "generation_step (node_activate ip hash ns sp) deact env (with_device st dev)
       (GenEvent (Some (AuthenticatedHandshake (ticket_session t))) now) = Returned (st', [], GoOn)"
    "node_table (ct_manager (gn_controller st')) (t_selector t) = Some (RouteTarget (ticket_session t))"
    "manager_phase (ct_manager (gn_controller st')) (ticket_session t) = Some Active"
proof -
  from can obtain p where "policy_install ip hash ns sp (ar_policy (sm_routes (ct_manager (gn_controller st0)))) (t_selector t) = (p, Inr ())"
    unfolding can_route_def by blast
  with w can have F: "hm_get (sm_sessions (ct_manager (gn_controller (with_device st dev)))) (ticket_session t)
      = Some \<lparr> ms_ticket = t, ms_phase = Handshaking \<rparr>"
    "hm_wf (sm_sessions (ct_manager (gn_controller (with_device st dev))))"
    "\<not> dr_poisoned (ar_userspace (sm_routes (ct_manager (gn_controller (with_device st dev)))))"
    "policy_install ip hash ns sp (ar_policy (sm_routes (ct_manager (gn_controller (with_device st dev)))))
      (t_selector (ms_ticket \<lparr> ms_ticket = t, ms_phase = Handshaking \<rparr>)) = (p, Inr ())"
    unfolding awaiting_def can_route_def with_device_simps by simp_all
  show ?thesis
    by (rule spoke_routes [OF F(1) _ F(2) _ run F(3,4), of now deact]) (use time that in simp_all)
qed

lemma awaiting_receives:
  assumes w: "awaiting env st0 st t w"
    and rec: "tunnel_receive (ge_tunn env) w None d = Some (w', Inr out)" "authenticated_flag out" "tunnel_packets out = []"
      "p \<in> set (network_packets out)"
    and op: "env_events_open (ge_device env)" "env_outbound_open (ge_device env) (ge_outbound env)"
  obtains dev eff where
    "device_step (ge_tunn env) hash contains (ge_device env) routes (ct_device (gn_controller st))
       (DevCommand (Some (CmdReceive (ticket_session t) (t_remote_public_key t) d))) = Some (dev, eff, Continue)"
    "Emitted (AuthenticatedHandshake (ticket_session t)) \<in> set eff"
    "device_effect.Outbound (ge_outbound env) \<lparr> rp_peer_key = t_remote_public_key t,
       rp_channel = ShortcutWireGuard (ticket_session t), rp_payload = p \<rparr> \<in> set eff"
proof -
  have "sr_remote_public_key (prepared_runtime env t w) = t_remote_public_key t" "sr_session (prepared_runtime env t w) = ticket_session t"
    "sr_tunnel (prepared_runtime env t w) = w" "sr_outbound (prepared_runtime env t w) = ge_outbound env"
    by (simp_all add: prepared_runtime_def)
  note R = this
  from w have g: "hm_get (ct_device (gn_controller st)) (ticket_session t) = Some (prepared_runtime env t w)"
    by (simp add: awaiting_def)
  show ?thesis
    by (rule spoke_receives [OF g R(1,2), of "ge_tunn env" d w' out p "ge_device env" hash contains routes])
      (use R rec op that in simp_all)
qed

lemma spoke_awaits:
  assumes noise: "noise_handshake (ge_tunn env) pending pub" and ready: "spoke_ready env st (t_issuer_public_key t) source (ticket_session t) now"
    and valid: "validate t now = Inr ()" and own: "t_recipient_public_key t = ct_local_public_key (gn_controller st)"
  obtains st' w init eff where
    "generation_step act deact env st (GenControl (Some \<lparr> rc_source = source, rc_message = Ticket t \<rparr>) now) = Returned (st', eff, GoOn)"
    "DeviceDid (device_effect.Outbound (ge_outbound env) \<lparr> rp_peer_key = t_remote_public_key t,
       rp_channel = ShortcutWireGuard (ticket_session t), rp_payload = init \<rparr>) \<in> set eff"
    "awaiting env st st' t w"
    "tunn_encapsulate (ge_tunn env) (tunnel_new (ge_tunn env) (derive_keys (ge_keyed_hash env) (ge_public env) t)
      (session_index (ge_hash env) (ticket_session t))) [] = (w, WriteToNetwork init)"
proof -
  obtain w r where e: "tunn_encapsulate (ge_tunn env) (tunnel_new (ge_tunn env) (derive_keys (ge_keyed_hash env) (ge_public env) t)
      (session_index (ge_hash env) (ticket_session t))) [] = (w, r)" by (rule prod.exhaust)
  from noise_handshake.initiation [OF noise e [unfolded tunnel_new_def]] obtain init where r: "r = WriteToNetwork init" by blast
  obtain st' where S: "generation_step act deact env st (GenControl (Some \<lparr> rc_source = source, rc_message = Ticket t \<rparr>) now) = Returned (st',
       [DeviceDid (device_effect.Outbound (ge_outbound env) \<lparr> rp_peer_key = t_remote_public_key t,
          rp_channel = ShortcutWireGuard (ticket_session t), rp_payload = init \<rparr>),
        DeviceDid (Emitted (HandshakeStarted (ticket_session t)))], GoOn)"
    "awaiting env st st' t w"
    by (rule spoke_admits [OF ready valid own e [unfolded r], where act = act and deact = deact], rule that, assumption)
      (simp add: awaiting_def)
  show ?thesis by (rule that [OF S(1) _ S(2) e [unfolded r]]) simp
qed

text \<open>
  Two spokes \<open>a\<close> and \<open>b\<close> with the tickets \<open>l\<close> and \<open>r\<close> of one shortcut: admission on both, the
  initiation of \<open>a\<close> at the device of \<open>b\<close>, the response at the device of \<open>a\<close>, and the notices in the
  generations.
\<close>

lemma spokes_meet:
  fixes st_a :: "('k node_routes, 'w, 'c) generation" and st_b :: "('j node_routes, 'w, 'd) generation"
  assumes noise: "noise_handshake (ge_tunn env_a) pending (ge_public env_a)"
    and same: "ge_tunn env_b = ge_tunn env_a" "ge_public env_b = ge_public env_a" "ge_keyed_hash env_b = ge_keyed_hash env_a"
    and pair: "ticket_pair l r" and k: "k = ticket_session l"
    and own: "t_recipient_public_key l = ct_local_public_key (gn_controller st_a)" "t_recipient_public_key r = ct_local_public_key (gn_controller st_b)"
    and ready: "spoke_ready env_a st_a (t_issuer_public_key l) src_a k ta" "spoke_ready env_b st_b (t_issuer_public_key r) src_b k tb"
    and valid: "validate l ta = Inr ()" "validate r tb = Inr ()" and time: "ta' < t_expires_at l" "tb' < t_expires_at r"
    and can: "can_route ip_a hash_a ns_a sp_a st_a (t_selector l)" "can_route ip_b hash_b ns_b sp_b st_b (t_selector r)"
  shows "\<exists>a1 ea1 b1 eb1 init resp da ea2 db eb2 a2 b2.
      generation_step (node_activate ip_a hash_a ns_a sp_a) deact_a env_a st_a
        (GenControl (Some \<lparr> rc_source = src_a, rc_message = Ticket l \<rparr>) ta) = Returned (a1, ea1, GoOn)
    \<and> generation_step (node_activate ip_b hash_b ns_b sp_b) deact_b env_b st_b
        (GenControl (Some \<lparr> rc_source = src_b, rc_message = Ticket r \<rparr>) tb) = Returned (b1, eb1, GoOn)
    \<and> DeviceDid (device_effect.Outbound (ge_outbound env_a) \<lparr> rp_peer_key = t_recipient_public_key r,
        rp_channel = ShortcutWireGuard k, rp_payload = init \<rparr>) \<in> set ea1
    \<and> device_step (ge_tunn env_b) (ge_hash env_b) (ge_contains env_b) (ge_device env_b) routes_b (ct_device (gn_controller b1))
        (DevCommand (Some (CmdReceive k (t_recipient_public_key l) init))) = Some (db, eb2, Continue)
    \<and> Emitted (AuthenticatedHandshake k) \<in> set eb2
    \<and> device_effect.Outbound (ge_outbound env_b) \<lparr> rp_peer_key = t_recipient_public_key l,
        rp_channel = ShortcutWireGuard k, rp_payload = resp \<rparr> \<in> set eb2
    \<and> device_step (ge_tunn env_a) (ge_hash env_a) (ge_contains env_a) (ge_device env_a) routes_a (ct_device (gn_controller a1))
        (DevCommand (Some (CmdReceive k (t_recipient_public_key r) resp))) = Some (da, ea2, Continue)
    \<and> Emitted (AuthenticatedHandshake k) \<in> set ea2
    \<and> generation_step (node_activate ip_a hash_a ns_a sp_a) deact_a env_a (with_device a1 da)
        (GenEvent (Some (AuthenticatedHandshake k)) ta') = Returned (a2, [], GoOn)
    \<and> generation_step (node_activate ip_b hash_b ns_b sp_b) deact_b env_b (with_device b1 db)
        (GenEvent (Some (AuthenticatedHandshake k)) tb') = Returned (b2, [], GoOn)
    \<and> node_table (ct_manager (gn_controller a2)) (t_selector l) = Some (RouteTarget k)
    \<and> node_table (ct_manager (gn_controller b2)) (t_selector r) = Some (RouteTarget k)
    \<and> manager_phase (ct_manager (gn_controller a2)) k = Some Active \<and> manager_phase (ct_manager (gn_controller b2)) k = Some Active"
proof -
  have kr: "ticket_session r = k" using ticket_pair_session [OF pair] k by simp
  have rem: "t_remote_public_key l = t_recipient_public_key r" "t_remote_public_key r = t_recipient_public_key l"
    using pair by (simp_all add: ticket_pair_def)
  have noise_b: "noise_handshake (ge_tunn env_b) pending (ge_public env_a)" using noise same by simp
  have up: "ge_device_running env_a" "env_events_open (ge_device env_a)" "env_outbound_open (ge_device env_a) (ge_outbound env_a)"
    "ge_device_running env_b" "env_events_open (ge_device env_b)" "env_outbound_open (ge_device env_b) (ge_outbound env_b)"
    using ready by (simp_all add: spoke_ready_def)
  obtain a1 wa init ea1 where A: "generation_step (node_activate ip_a hash_a ns_a sp_a) deact_a env_a st_a
        (GenControl (Some \<lparr> rc_source = src_a, rc_message = Ticket l \<rparr>) ta) = Returned (a1, ea1, GoOn)"
      "DeviceDid (device_effect.Outbound (ge_outbound env_a) \<lparr> rp_peer_key = t_remote_public_key l,
        rp_channel = ShortcutWireGuard (ticket_session l), rp_payload = init \<rparr>) \<in> set ea1" "awaiting env_a st_a a1 l wa"
      "tunn_encapsulate (ge_tunn env_a) (tunnel_new (ge_tunn env_a) (derive_keys (ge_keyed_hash env_a) (ge_public env_a) l)
        (session_index (ge_hash env_a) (ticket_session l))) [] = (wa, WriteToNetwork init)"
    by (rule spoke_awaits [OF noise ready(1) [unfolded k] valid(1) own(1)])
  obtain b1 wb init' eb1 where B: "generation_step (node_activate ip_b hash_b ns_b sp_b) deact_b env_b st_b
        (GenControl (Some \<lparr> rc_source = src_b, rc_message = Ticket r \<rparr>) tb) = Returned (b1, eb1, GoOn)"
      "awaiting env_b st_b b1 r wb"
      "tunn_encapsulate (ge_tunn env_b) (tunnel_new (ge_tunn env_b) (derive_keys (ge_keyed_hash env_b) (ge_public env_b) r)
        (session_index (ge_hash env_b) (ticket_session r))) [] = (wb, WriteToNetwork init')"
    by (rule spoke_awaits [OF noise_b ready(2) [folded kr] valid(2) own(2)])
  obtain wb' out_b resp wa' out_a data where H:
    "tunnel_receive (ge_tunn env_a) wb None init = Some (wb', Inr out_b)" "authenticated_flag out_b" "tunnel_packets out_b = []"
    "resp \<in> set (network_packets out_b)"
    "tunnel_receive (ge_tunn env_a) wa None resp = Some (wa', Inr out_a)" "authenticated_flag out_a" "tunnel_packets out_a = []"
    "data \<in> set (network_packets out_a)"
    by (rule prepared_tunnels_meet [OF noise pair A(4) B(3) [unfolded same]])
  obtain db eb2 where RB: "device_step (ge_tunn env_b) (ge_hash env_b) (ge_contains env_b) (ge_device env_b) routes_b (ct_device (gn_controller b1))
        (DevCommand (Some (CmdReceive (ticket_session r) (t_remote_public_key r) init))) = Some (db, eb2, Continue)"
      "Emitted (AuthenticatedHandshake (ticket_session r)) \<in> set eb2"
      "device_effect.Outbound (ge_outbound env_b) \<lparr> rp_peer_key = t_remote_public_key r,
        rp_channel = ShortcutWireGuard (ticket_session r), rp_payload = resp \<rparr> \<in> set eb2"
    by (rule awaiting_receives [OF B(2) H(1) [folded same(1)] H(2-4) up(5,6)])
  obtain da ea2 where RA: "device_step (ge_tunn env_a) (ge_hash env_a) (ge_contains env_a) (ge_device env_a) routes_a (ct_device (gn_controller a1))
        (DevCommand (Some (CmdReceive (ticket_session l) (t_remote_public_key l) resp))) = Some (da, ea2, Continue)"
      "Emitted (AuthenticatedHandshake (ticket_session l)) \<in> set ea2"
    by (rule awaiting_receives [OF A(3) H(5-8) up(2,3)])
  obtain a2 where EA: "generation_step (node_activate ip_a hash_a ns_a sp_a) deact_a env_a (with_device a1 da)
        (GenEvent (Some (AuthenticatedHandshake (ticket_session l))) ta') = Returned (a2, [], GoOn)"
      "node_table (ct_manager (gn_controller a2)) (t_selector l) = Some (RouteTarget (ticket_session l))"
      "manager_phase (ct_manager (gn_controller a2)) (ticket_session l) = Some Active"
    by (rule awaiting_routes [OF A(3) up(1) can(1) time(1)])
  obtain b2 where EB: "generation_step (node_activate ip_b hash_b ns_b sp_b) deact_b env_b (with_device b1 db)
        (GenEvent (Some (AuthenticatedHandshake (ticket_session r))) tb') = Returned (b2, [], GoOn)"
      "node_table (ct_manager (gn_controller b2)) (t_selector r) = Some (RouteTarget (ticket_session r))"
      "manager_phase (ct_manager (gn_controller b2)) (ticket_session r) = Some Active"
    by (rule awaiting_routes [OF B(2) up(4) can(2) time(2)])
  from A(1,2) B(1) RA RB EA EB show ?thesis unfolding kr rem k [symmetric] by blast
qed

section \<open>From the hub to the routes\<close>

lemma issued_pair:
  assumes hex: "hex16 hash hex" and keys: "p_public_key left \<noteq> []" "p_public_key right \<noteq> []"
    and issue: "issue_peer_pair hash hex (rid, secret) send issuer l left la right ra now = Returned (sends, Inr next_issue)"
  obtains t u where "sends = [(l, la, Ticket t), (l, ra, Ticket u)]" "ticket_pair t u"
    "ticket_session t = SessionKey (ShortcutId rid) 1" "t_issuer_public_key t = issuer" "t_issuer_public_key u = issuer"
    "t_recipient_public_key t = p_public_key left" "t_recipient_public_key u = p_public_key right"
    "t_selector t = hub_host_selector ra" "t_selector u = hub_host_selector la"
    "t_expires_at t = plan_expires_at (hub_request hash hex issuer left la right ra now)" "t_expires_at u = t_expires_at t"
    "\<And>later. now \<le> later \<Longrightarrow> later < t_expires_at t \<Longrightarrow> validate t later = Inr () \<and> validate u later = Inr ()"
proof -
  let ?req = "hub_request hash hex issuer left la right ra now"
  from issue obtain pair where p: "plan hash rid secret ?req = Inr pair"
    and sends: "sends = [(l, la, Ticket (tp_upstream pair)), (l, ra, Ticket (tp_downstream pair))]"
    by (auto simp: issue_peer_pair_def plan_peer_pair_returns [OF hex] send_two_def split: sum.splits prod.splits)
  from p obtain deleg where
    up: "tp_upstream pair = common_ticket ?req rid secret deleg Left (cr_upstream_selector ?req) (cr_upstream ?req) (cr_downstream ?req)"
    and down: "tp_downstream pair = common_ticket ?req rid secret deleg Right (cr_downstream_selector ?req) (cr_downstream ?req) (cr_upstream ?req)"
    by (rule plan_SomeD)
  have valid: "validate (tp_upstream pair) later = Inr () \<and> validate (tp_downstream pair) later = Inr ()"
    if "now \<le> later" "later < t_expires_at (tp_upstream pair)" for later using hub_ticket_ok [OF p keys that] by simp
  show ?thesis
    by (rule that [OF sends _ _ _ _ _ _ _ _ _ _ valid])
      (simp_all add: up down common_ticket_def hub_request_def ticket_pair_def ticket_session_def)
qed

text \<open>
  C7.  A shortcut comes up: when the hub has issued a pair, the tickets go to the two host addresses.
  If both spokes can take a ticket from the hub (the hub is a peer with a fresh handshake, the session
  is new, the device runs) and their kernels take the rule and the route for the selector, both admit
  theirs; the handshake message that the
  first one's device sends on admission makes the second one's device announce an authenticated
  handshake and answer, and the answer makes the first one announce it too; when the generations
  take these notices before the tickets expire, each spoke routes the host address of the
  other to the common session, which is active on both.
\<close>

theorem hub_shortcut_comes_up:
  fixes st_a :: "('k node_routes, 'w, 'c) generation" and st_b :: "('j node_routes, 'w, 'd) generation"
  assumes hex: "hex16 hash hex" and keys: "p_public_key left \<noteq> []" "p_public_key right \<noteq> []"
    and issue: "issue_peer_pair hash hex (rid, secret) send issuer l left la right ra now = Returned (sends, Inr next_issue)"
    and k: "k = SessionKey (ShortcutId rid) 1" and expiry: "te = plan_expires_at (hub_request hash hex issuer left la right ra now)"
    and noise: "noise_handshake (ge_tunn env_a) pending (ge_public env_a)"
    and same: "ge_tunn env_b = ge_tunn env_a" "ge_public env_b = ge_public env_a" "ge_keyed_hash env_b = ge_keyed_hash env_a"
    and own: "ct_local_public_key (gn_controller st_a) = p_public_key left" "ct_local_public_key (gn_controller st_b) = p_public_key right"
    and ready: "spoke_ready env_a st_a issuer l k ta" "spoke_ready env_b st_b issuer l k tb"
    and can: "can_route ip_a hash_a ns_a sp_a st_a (hub_host_selector ra)" "can_route ip_b hash_b ns_b sp_b st_b (hub_host_selector la)"
    and time: "now \<le> ta" "ta < te" "now \<le> tb" "tb < te" "ta' < te" "tb' < te"
  shows "\<exists>t u a1 ea1 b1 eb1 init resp da ea2 db eb2 a2 b2.
      sends = [(l, la, Ticket t), (l, ra, Ticket u)]
    \<and> generation_step (node_activate ip_a hash_a ns_a sp_a) deact_a env_a st_a
        (GenControl (Some \<lparr> rc_source = l, rc_message = Ticket t \<rparr>) ta) = Returned (a1, ea1, GoOn)
    \<and> generation_step (node_activate ip_b hash_b ns_b sp_b) deact_b env_b st_b
        (GenControl (Some \<lparr> rc_source = l, rc_message = Ticket u \<rparr>) tb) = Returned (b1, eb1, GoOn)
    \<and> DeviceDid (device_effect.Outbound (ge_outbound env_a) \<lparr> rp_peer_key = p_public_key right,
        rp_channel = ShortcutWireGuard k, rp_payload = init \<rparr>) \<in> set ea1
    \<and> device_step (ge_tunn env_b) (ge_hash env_b) (ge_contains env_b) (ge_device env_b) routes_b (ct_device (gn_controller b1))
        (DevCommand (Some (CmdReceive k (p_public_key left) init))) = Some (db, eb2, Continue)
    \<and> Emitted (AuthenticatedHandshake k) \<in> set eb2
    \<and> device_effect.Outbound (ge_outbound env_b) \<lparr> rp_peer_key = p_public_key left,
        rp_channel = ShortcutWireGuard k, rp_payload = resp \<rparr> \<in> set eb2
    \<and> device_step (ge_tunn env_a) (ge_hash env_a) (ge_contains env_a) (ge_device env_a) routes_a (ct_device (gn_controller a1))
        (DevCommand (Some (CmdReceive k (p_public_key right) resp))) = Some (da, ea2, Continue)
    \<and> Emitted (AuthenticatedHandshake k) \<in> set ea2
    \<and> generation_step (node_activate ip_a hash_a ns_a sp_a) deact_a env_a (with_device a1 da)
        (GenEvent (Some (AuthenticatedHandshake k)) ta') = Returned (a2, [], GoOn)
    \<and> generation_step (node_activate ip_b hash_b ns_b sp_b) deact_b env_b (with_device b1 db)
        (GenEvent (Some (AuthenticatedHandshake k)) tb') = Returned (b2, [], GoOn)
    \<and> node_table (ct_manager (gn_controller a2)) (hub_host_selector ra) = Some (RouteTarget k)
    \<and> node_table (ct_manager (gn_controller b2)) (hub_host_selector la) = Some (RouteTarget k)
    \<and> manager_phase (ct_manager (gn_controller a2)) k = Some Active \<and> manager_phase (ct_manager (gn_controller b2)) k = Some Active"
proof -
  obtain t u where P: "sends = [(l, la, Ticket t), (l, ra, Ticket u)]" "ticket_pair t u"
    "ticket_session t = k" "t_issuer_public_key t = issuer" "t_issuer_public_key u = issuer"
    "t_recipient_public_key t = p_public_key left" "t_recipient_public_key u = p_public_key right"
    "t_selector t = hub_host_selector ra" "t_selector u = hub_host_selector la" "t_expires_at t = te" "t_expires_at u = te"
    "\<And>later. now \<le> later \<Longrightarrow> later < te \<Longrightarrow> validate t later = Inr () \<and> validate u later = Inr ()"
    unfolding k expiry by (rule issued_pair [OF hex keys issue]) auto
  note M = spokes_meet [OF noise same P(2) P(3) [symmetric], unfolded P(4-11), OF own [symmetric] ready _ _ time(5,6) can]
  from M [of deact_a deact_b routes_b routes_a] P(12) time(1-4) P(1) show ?thesis by blast
qed

section \<open>A hub and two spokes\<close>

definition spoke_env :: "(bytes \<times> bytes \<times> bytes list, nat) gen_env" where
  "spoke_env = \<lparr> ge_addresses = [], ge_ports = [], ge_outbound = 1,
     ge_set_endpoint = (\<lambda>_ _. Inr ()), ge_send = (\<lambda>_ _ _. Inr ()), ge_rng = (\<lambda>_. ([], [])),
     ge_contains = cidr_contains, ge_hash = (\<lambda>b. b), ge_hex = (\<lambda>b. []), ge_keyed_hash = (\<lambda>k m. take 32 (m @ k)),
     ge_public = rev, ge_tunn = keyed_api rev, ge_device = sample_env, ge_device_running = True \<rparr>"

definition spoke :: "string \<Rightarrow> (string list list node_routes, bytes \<times> bytes \<times> bytes list, nat) generation" where
  "spoke key = \<lparr> gn_controller = controller_new key sample_new [],
     gn_snapshot = \<lparr> s_public_key = key, s_listen_port = 51820, s_peers = [sample_wg_peer ''hub'' 1] \<rparr>,
     gn_hub_issues = [], gn_baselines = [] \<rparr>"

lemma spoke_is_ready: "spoke_ready spoke_env (spoke key) ''hub'' (V4 1) k 7200"
proof -
  have "route_peer cidr_contains (gn_snapshot (spoke key)) (V4 1) None = Some (sample_wg_peer ''hub'' 1)"
    by (simp add: route_peer_def longest_matching_prefix_def best_prefix_def spoke_def sample_wg_peer_def)
  moreover have "fresh_handshake (p_latest_handshake (sample_wg_peer ''hub'' 1)) 7200"
    using sample_renewable by (simp add: renewable_handshake_def sample_wg_peer_def)
  ultimately show ?thesis
    by (simp add: spoke_ready_def spoke_env_def spoke_def controller_new_def manager_new_def sample_env_def sample_wg_peer_def)
qed

lemma spoke_can_route: "can_route list_ip sample_hash raw_net_string sample_policy (spoke key) sel"
  by (simp add: can_route_def spoke_def controller_new_def manager_new_def atomic_new_def device_routes_default_def hm_wf_def
      policy_install_def policy_prepare_def run_ip_def list_ip_prepare list_ip_rule tool_ok_def)

theorem hub_shortcut_comes_up_witness:
  "\<exists>t u a1 a2 da b1 b2 db. issue_peer_pair id sample_node_hex (replicate 16 1, replicate 32 2) (\<lambda>_ _ _. Inr ()) ''hub'' (V4 1)
      (sample_wg_peer ''left'' 2) (V4 2) (sample_wg_peer ''right'' 3) (V4 3) 7200
      = Returned ([(V4 1, V4 2, Ticket t), (V4 1, V4 3, Ticket u)], Inr 7290)
    \<and> generation_step (node_activate list_ip sample_hash raw_net_string sample_policy)
        (node_deactivate list_ip sample_hash raw_net_string sample_policy) spoke_env (with_device a1 da)
        (GenEvent (Some (AuthenticatedHandshake (SessionKey (ShortcutId (replicate 16 1)) 1))) 7200) = Returned (a2, [], GoOn)
    \<and> generation_step (node_activate list_ip sample_hash raw_net_string sample_policy)
        (node_deactivate list_ip sample_hash raw_net_string sample_policy) spoke_env (with_device b1 db)
        (GenEvent (Some (AuthenticatedHandshake (SessionKey (ShortcutId (replicate 16 1)) 1))) 7200) = Returned (b2, [], GoOn)
    \<and> node_table (ct_manager (gn_controller a2)) (hub_host_selector (V4 3)) = Some (RouteTarget (SessionKey (ShortcutId (replicate 16 1)) 1))
    \<and> node_table (ct_manager (gn_controller b2)) (hub_host_selector (V4 2)) = Some (RouteTarget (SessionKey (ShortcutId (replicate 16 1)) 1))"
proof -
  let ?l = "sample_wg_peer ''left'' 2" and ?r = "sample_wg_peer ''right'' 3"
  let ?act = "node_activate list_ip sample_hash raw_net_string sample_policy"
  let ?deact = "node_deactivate list_ip sample_hash raw_net_string sample_policy"
  have e: "7200 < plan_expires_at (hub_request id sample_node_hex ''hub'' ?l (V4 2) ?r (V4 3) 7200)"
    using hub_plan_expiry(1) [of ?l 7200 ?r id sample_node_hex "''hub''" "V4 2" "V4 3"]
    by (simp add: sample_wg_peer_def sample_renewable word_less_nat_alt)
  obtain pair where "plan_peer_pair id sample_node_hex (replicate 16 1, replicate 32 2) ''hub'' ?l (V4 2) ?r (V4 3) 7200 = Returned (Inr (pair, 7290))"
    using hub_plan_in_time_witness by blast
  then obtain sends where i: "issue_peer_pair id sample_node_hex (replicate 16 1, replicate 32 2) (\<lambda>_ _ _. Inr ()) ''hub'' (V4 1)
      ?l (V4 2) ?r (V4 3) 7200 = Returned (sends, Inr 7290)" by (auto simp: issue_peer_pair_def send_two_def)
  have pk: "p_public_key (sample_wg_peer key a) = key" for key a by (simp add: sample_wg_peer_def)
  have ck: "ct_local_public_key (gn_controller (spoke key)) = key" for key by (simp add: spoke_def controller_new_def)
  have tn: "noise_handshake (ge_tunn spoke_env) (\<lambda>(a, p, q). length q) (ge_public spoke_env)"
    by (simp add: spoke_env_def keyed.noise_handshake_axioms)
  have ne: "''left'' \<noteq> []" "''right'' \<noteq> []" by simp_all
  note C = hub_shortcut_comes_up [where st_a = "spoke ''left''" and st_b = "spoke ''right''" and env_a = spoke_env and env_b = spoke_env
      and deact_a = ?deact and deact_b = ?deact and ip_a = list_ip and ip_b = list_ip
      and routes_a = device_routes_default and routes_b = device_routes_default, OF sample_node_hex16 _ _ i refl refl tn refl refl refl _ _ _ _ spoke_can_route spoke_can_route,
      unfolded pk ck, OF ne refl refl spoke_is_ready spoke_is_ready order_refl e order_refl e e e]
  from C show ?thesis unfolding i by (elim exE conjE, intro exI conjI; (assumption | simp))
qed

end
