(* ===== verification/Tasks.thy ===== *)
theory Tasks
  imports Transport Management
begin

text \<open>
  The tasks around the handlers: what happens before the first turn of a loop and after the last.
  src/src/discovery/lan.rs (\<open>bind_socket\<close>, \<open>run_loop\<close>), src/src/easytier.rs (\<open>run_discovery_loop\<close> and the end of
  \<open>run_relay\<close>), src/src/shortcut/base_control.rs (the socket tasks and \<open>capture_interface\<close>) and
  src/src/management.rs (\<open>run\<close>).  A task is a function of what its \<open>select!\<close> or its blocking call delivers,
  in order; a list that ends before the task does describes a task that is still waiting.
\<close>

section \<open>LAN discovery\<close>

text \<open>The calls that \<open>bind_socket\<close> makes on its socket; \<open>call\<close> gives their results.\<close>

datatype lan_socket_call =
    CreateUdpSocket
  | SetReuseAddress
  | SetReusePort
  | SetBroadcast
  | BindTo socket_addr
  | JoinMulticast "32 word" "32 word"
  | SetMulticastLoop
  | SetNonblocking
  | FromStd

fun try_calls :: "('a \<Rightarrow> unit res) \<Rightarrow> 'a list \<Rightarrow> 'a list \<times> unit res" where
  "try_calls call [] = ([], Inr ())"
| "try_calls call (c # cs) =
     (case call c of
        Inl e \<Rightarrow> ([c], Inl e)
      | Inr _ \<Rightarrow> (case try_calls call cs of (made, r) \<Rightarrow> (c # made, r)))"

definition bind_socket ::
    "(lan_socket_call \<Rightarrow> unit res) \<Rightarrow> (32 word \<times> ipnet) list \<Rightarrow> lan_socket_call list \<times> unit res" where
  "bind_socket call interfaces =
     try_calls call ([CreateUdpSocket, SetReuseAddress, SetReusePort, SetBroadcast, BindTo (SocketAddr (V4 0) DISCOVERY_PORT)]
       @ map (\<lambda>(address, _). JoinMulticast DISCOVERY_GROUP address) interfaces
       @ [SetMulticastLoop, SetNonblocking, FromStd])"

text \<open>What one turn reads: the period, twice, the clock, the datagrams until the deadline, the receiver.\<close>

record lan_tick =
  lt_id_period :: u64
  lt_field_period :: u64
  lt_now :: u64
  lt_datagrams :: "(bytes \<times> socket_addr) list"
  lt_open :: bool

datatype lan_input = LanCancelled | LanTick lan_tick

record lan_env =
  le_hash :: "bytes \<Rightarrow> bytes"
  le_hex :: "bytes \<Rightarrow> string"
  le_contains :: "ipnet \<Rightarrow> ip_addr \<Rightarrow> bool"
  le_broadcast :: "ipnet \<Rightarrow> 32 word"
  le_interfaces :: "lan_interface list"
  le_call :: "lan_socket_call \<Rightarrow> unit res"

text \<open>The datagrams sent and the candidates handed to the relay task.\<close>

fun lan_loop ::
    "lan_env \<Rightarrow> (32 word \<times> ipnet) list \<Rightarrow> string \<Rightarrow> string \<Rightarrow> u16 \<Rightarrow> lan_input list
     \<Rightarrow> ((bytes \<times> socket_addr) list \<times> socket_addr list list) exec" where
  "lan_loop env interfaces public_key network port [] = Returned ([], [])"
| "lan_loop env interfaces public_key network port (LanCancelled # xs) = Returned ([], [])"
| "lan_loop env interfaces public_key network port (LanTick t # xs) =
     exec_bind (lan_turn (le_hash env) (le_hex env) (le_contains env) (le_broadcast env) interfaces network public_key port
         (lt_id_period t) (lt_field_period t) (lt_now t) (lt_datagrams t) (lt_open t)) (\<lambda>(sent, candidates, fl).
       let handed = (if candidates = [] then [] else [candidates]) in
       case fl of
         Stop _ \<Rightarrow> Returned (sent, handed)
       | Continue \<Rightarrow> exec_bind (lan_loop env interfaces public_key network port xs) (\<lambda>(sent', handed').
           Returned (sent @ sent', handed @ handed')))"

definition lan_run_loop ::
    "lan_env \<Rightarrow> string \<Rightarrow> string \<Rightarrow> u16 \<Rightarrow> lan_input list
     \<Rightarrow> (lan_socket_call list \<times> (bytes \<times> socket_addr) list \<times> socket_addr list list) exec" where
  "lan_run_loop env public_key network port inputs =
     (let interfaces = local_lan_interfaces (le_interfaces env) in
      if interfaces = [] then Returned ([], [], [])
      else case bind_socket (le_call env) interfaces of
             (calls, Inl e) \<Rightarrow> Returned (calls, [], [])
           | (calls, Inr _) \<Rightarrow> exec_bind (lan_loop env interfaces public_key network port inputs) (\<lambda>(sent, handed).
               Returned (calls, sent, handed)))"

section \<open>The discovery loop\<close>

text \<open>
  One turn: the services as they answer now, the clock, whether the receiver still exists when the
  candidates are sent, and whether the token is cancelled during the sleep that follows.
\<close>

record disc_turn =
  dt_env :: disc_env
  dt_now :: u64
  dt_open :: bool
  dt_cancelled :: bool

fun discovery_loop ::
    "(bytes \<Rightarrow> bytes) \<Rightarrow> config \<Rightarrow> discovery_context \<Rightarrow> bool \<times> ip_addr set \<Rightarrow> disc_turn list \<Rightarrow> socket_addr list list" where
  "discovery_loop sha1 config ctx st [] = []"
| "discovery_loop sha1 config ctx st (t # ts) =
     (case discovery_turn (dt_env t) sha1 config ctx (dt_now t) st of (st', candidates) \<Rightarrow>
        if \<not> dt_open t then []
        else candidates # (if dt_cancelled t then [] else discovery_loop sha1 config ctx st' ts))"

definition run_discovery_loop ::
    "(bytes \<Rightarrow> bytes) \<Rightarrow> config \<Rightarrow> discovery_context \<Rightarrow> disc_turn list \<Rightarrow> socket_addr list list" where
  "run_discovery_loop sha1 config ctx ts = discovery_loop sha1 config ctx (True, {}) ts"

section \<open>The relay task\<close>

datatype relay_teardown =
    CancelDiscovery
  | AwaitDiscovery
  | AbortLanDiscovery
  | AwaitLanDiscovery
  | AbortProbeSends "(u64 \<times> string) option list"
  | ClearResources

text \<open>The end of \<open>run_relay\<close>: a \<open>break\<close> cleans up, an error returned from inside the loop does not.\<close>

definition relay_finish :: "relay_state \<Rightarrow> unit res \<Rightarrow> relay_teardown list \<times> unit res" where
  "relay_finish st r =
     (case r of
        Inl e \<Rightarrow> ([], Inl e)
      | Inr _ \<Rightarrow> ([CancelDiscovery, AwaitDiscovery, AbortLanDiscovery, AwaitLanDiscovery, AbortProbeSends (rl_sends st),
                   ClearResources], Inr ()))"

fun relay_task ::
    "(bytes \<Rightarrow> bytes) \<Rightarrow> (bytes \<Rightarrow> string) \<Rightarrow> (string \<Rightarrow> string res) \<Rightarrow> u8 \<Rightarrow> relay_spec \<Rightarrow> relay_state \<Rightarrow> 'f relay_input list
     \<Rightarrow> (relay_state \<times> 'f relay_effect list \<times> (relay_teardown list \<times> unit res) option) exec" where
  "relay_task hash hex parse_url data_type spec st [] = Returned (st, [], None)"
| "relay_task hash hex parse_url data_type spec st (x # xs) =
     exec_bind (relay_step hash hex parse_url data_type spec st x) (\<lambda>(st1, eff1, fl).
       case fl of
         Stop r \<Rightarrow> Returned (st1, eff1, Some (relay_finish st1 r))
       | Continue \<Rightarrow> exec_bind (relay_task hash hex parse_url data_type spec st1 xs) (\<lambda>(st2, eff2, fin).
           Returned (st2, eff1 @ eff2, fin)))"

section \<open>Control datagrams\<close>

text \<open>The task of a control socket; the flag tells whether the receiver of the channel still exists.\<close>

datatype control_socket_input = SocketCancelled | SocketReceived "(bytes \<times> socket_addr) res" bool

fun control_socket_task ::
    "(bytes \<Rightarrow> control_message res) \<Rightarrow> control_socket_input list \<Rightarrow> received_control list \<times> unit res option" where
  "control_socket_task from_json [] = ([], None)"
| "control_socket_task from_json (SocketCancelled # xs) = ([], Some (Inr ()))"
| "control_socket_task from_json (SocketReceived r open_rx # xs) =
     (case control_socket_step from_json r of
        None \<Rightarrow> control_socket_task from_json xs
      | Some m \<Rightarrow>
          if \<not> open_rx then ([], Some (Inl (TransportError ChannelClosed)))
          else (case control_socket_task from_json xs of (ms, fin) \<Rightarrow> (m # ms, fin)))"

text \<open>
  \<open>capture_interface\<close>: the interfaces pnet reports, the channel it opens, and then, for every turn,
  whether the token is cancelled and what \<open>next\<close> returns.
\<close>

datatype capture_channel = EthernetChannel | OtherChannel

record capture_turn =
  ca_cancelled :: bool
  ca_packet :: "bytes res"
  ca_open :: bool

fun capture_loop :: "(bytes \<Rightarrow> control_message res) \<Rightarrow> capture_turn list \<Rightarrow> (received_control list \<times> unit res option) exec" where
  "capture_loop from_json [] = Returned ([], None)"
| "capture_loop from_json (t # ts) =
     (if ca_cancelled t then Returned ([], Some (Inr ()))
      else case ca_packet t of
        Inl _ \<Rightarrow> capture_loop from_json ts
      | Inr packet \<Rightarrow>
          exec_bind (capture_packet from_json packet) (\<lambda>r.
            case r of
              None \<Rightarrow> capture_loop from_json ts
            | Some m \<Rightarrow>
                if \<not> ca_open t then Returned ([], Some (Inr ()))
                else exec_bind (capture_loop from_json ts) (\<lambda>(ms, fin). Returned (m # ms, fin))))"

definition capture_interface ::
    "(bytes \<Rightarrow> control_message res) \<Rightarrow> string list \<Rightarrow> (string \<Rightarrow> capture_channel res) \<Rightarrow> string \<Rightarrow> capture_turn list
     \<Rightarrow> (received_control list \<times> unit res option) exec" where
  "capture_interface from_json interfaces channel interface_name turns =
     (case find (\<lambda>i. i = interface_name) interfaces of
        None \<Rightarrow> Returned ([], Some (Inl (ControlError InterfaceNotVisible)))
      | Some interface \<Rightarrow>
          (case channel interface of
             Inl e \<Rightarrow> Returned ([], Some (Inl e))
           | Inr OtherChannel \<Rightarrow> Returned ([], Some (Inl (ControlError UnsupportedChannel)))
           | Inr EthernetChannel \<Rightarrow> capture_loop from_json turns))"

section \<open>The management listener\<close>

text \<open>
  Every accepted connection runs in a task of its own over the shared state; here they run in the
  order of acceptance.  A connection that fails, or whose task panics, does not end the listener.
\<close>

fun serve ::
    "'f web_env \<Rightarrow> ('f, 'c) management \<Rightarrow> (bytes res list) res list \<Rightarrow> ('f, 'c) management \<times> bytes res exec list \<times> unit res option" where
  "serve we st [] = (st, [], None)"
| "serve we st (Inl e # cs) = (st, [], Some (Inl e))"
| "serve we st (Inr reads # cs) =
     (case handle_connection we st reads of
        Panicked \<Rightarrow> (case serve we st cs of (st2, rs, fin) \<Rightarrow> (st2, Panicked # rs, fin))
      | Returned (st1, r) \<Rightarrow> (case serve we st1 cs of (st2, rs, fin) \<Rightarrow> (st2, Returned r # rs, fin)))"

definition management_run ::
    "'f web_env \<Rightarrow> (socket_addr \<Rightarrow> unit res) \<Rightarrow> socket_addr \<Rightarrow> ('f, 'c) management \<Rightarrow> (bytes res list) res list
     \<Rightarrow> ('f, 'c) management \<times> bytes res exec list \<times> unit res option" where
  "management_run we bind_tcp listen st connections =
     (case bind_tcp listen of
        Inl e \<Rightarrow> (st, [], Some (Inl e))
      | Inr _ \<Rightarrow> serve we st connections)"

section \<open>Starting and stopping\<close>

text \<open>A sequence of calls runs to the end exactly when all of them succeed; else up to the first failure.\<close>

lemma try_calls_ok: "try_calls call cs = (made, Inr u) \<longleftrightarrow> made = cs \<and> (\<forall>c \<in> set cs. is_ok (call c))"
proof (induction cs arbitrary: made)
  case (Cons c cs)
  obtain m r where m: "try_calls call cs = (m, r)" by (rule prod.exhaust)
  with Cons.IH [of m] Cons.IH [of cs] show ?case by (cases r; cases "call c") auto
qed auto

lemma try_calls_failed:
  "try_calls call cs = (made, Inl e) \<Longrightarrow> \<exists>ok c rest. made = ok @ [c] \<and> cs = made @ rest \<and> (\<forall>x \<in> set ok. is_ok (call x)) \<and> call c = Inl e"
proof (induction cs arbitrary: made)
  case (Cons x xs)
  show ?case
  proof (cases "call x")
    case (Inl e')
    with Cons.prems have "made = [] @ [x] \<and> x # xs = made @ xs \<and> (\<forall>y \<in> set []. is_ok (call y)) \<and> call x = Inl e" by simp
    then show ?thesis by blast
  next
    case (Inr u)
    with Cons.prems obtain made' where m: "try_calls call xs = (made', Inl e)" "made = x # made'" by (auto split: prod.splits)
    from Cons.IH [OF m(1)] obtain ok c rest where "made' = ok @ [c]" "xs = made' @ rest" "\<forall>y \<in> set ok. is_ok (call y)" "call c = Inl e" by blast
    with m(2) Inr have "made = (x # ok) @ [c] \<and> x # xs = made @ rest \<and> (\<forall>y \<in> set (x # ok). is_ok (call y)) \<and> call c = Inl e" by simp
    then show ?thesis by blast
  qed
qed simp

text \<open>What one turn of the LAN loop sends and hands on.\<close>

lemma lan_turn_effects:
  assumes hx: "hex16 hash hex"
    and turn: "lan_turn hash hex contains broadcast interfaces network key port p1 p2 now ds open_rx = Returned (sent, cs, fl)"
  shows "d \<in> set sent \<Longrightarrow> snd d = SocketAddr (V4 DISCOVERY_GROUP) DISCOVERY_PORT
      \<or> (\<exists>i \<in> set interfaces. snd d = SocketAddr (V4 (broadcast (snd i))) DISCOVERY_PORT)"
    and "c \<in> set cs \<Longrightarrow> open_rx \<and> (\<exists>d \<in> set ds. neighbour hash hex contains interfaces network key (active_peer_id_periods now) d c)"
proof -
  obtain packet where own: "own_announcement hash hex key network port p1 p2 = Returned packet"
    using turn by (cases "own_announcement hash hex key network port p1 p2") (auto simp: lan_turn_def)
  obtain found where f: "receive_candidates hash hex contains interfaces network key now ds = Returned found"
    "\<forall>c. c \<in> set found \<longleftrightarrow> (\<exists>d \<in> set ds. neighbour hash hex contains interfaces network key (active_peer_id_periods now) d c)"
    unfolding receive_candidates_def
    using lan_receive_loop_spec [of "accept_announcement hash hex contains interfaces network key (active_peer_id_periods now)"
        "neighbour hash hex contains interfaces network key (active_peer_id_periods now)" ds, OF accept_announcement_spec [OF hx]] by blast
  have e: "sent = map (Pair packet) (announce_destinations broadcast interfaces)" "cs = (if found \<noteq> [] \<and> open_rx then found else [])"
    using turn own f(1) by (auto simp: lan_turn_def)
  show "d \<in> set sent \<Longrightarrow> snd d = SocketAddr (V4 DISCOVERY_GROUP) DISCOVERY_PORT
      \<or> (\<exists>i \<in> set interfaces. snd d = SocketAddr (V4 (broadcast (snd i))) DISCOVERY_PORT)"
  proof -
    assume "d \<in> set sent"
    then have "snd d \<in> set (announce_destinations broadcast interfaces)" by (auto simp: e(1))
    then show ?thesis unfolding announce_destinations_def set_remdups by force
  qed
  show "c \<in> set cs \<Longrightarrow> open_rx \<and> (\<exists>d \<in> set ds. neighbour hash hex contains interfaces network key (active_peer_id_periods now) d c)"
    using f(2) by (auto simp: e(2) split: if_splits)
qed

lemma lan_loop_effects:
  assumes hx: "hex16 (le_hash env) (le_hex env)" and "lan_loop env interfaces key network port xs = Returned (sent, handed)"
  shows "(\<forall>d \<in> set sent. snd d = SocketAddr (V4 DISCOVERY_GROUP) DISCOVERY_PORT
      \<or> (\<exists>i \<in> set interfaces. snd d = SocketAddr (V4 (le_broadcast env (snd i))) DISCOVERY_PORT))
    \<and> (\<forall>cs \<in> set handed. \<forall>c \<in> set cs. \<exists>t. LanTick t \<in> set xs \<and> lt_open t
        \<and> (\<exists>d \<in> set (lt_datagrams t). neighbour (le_hash env) (le_hex env) (le_contains env) interfaces network key (active_peer_id_periods (lt_now t)) d c))"
  using assms
proof (induction env interfaces key network port xs arbitrary: sent handed rule: lan_loop.induct)
  case (3 env interfaces key network port t xs)
  let ?P = "\<lambda>sent. \<forall>d \<in> set sent. snd d = SocketAddr (V4 DISCOVERY_GROUP) DISCOVERY_PORT
      \<or> (\<exists>i \<in> set interfaces. snd d = SocketAddr (V4 (le_broadcast env (snd i))) DISCOVERY_PORT)"
  let ?C = "\<lambda>t c. lt_open t \<and> (\<exists>d \<in> set (lt_datagrams t).
      neighbour (le_hash env) (le_hex env) (le_contains env) interfaces network key (active_peer_id_periods (lt_now t)) d c)"
  obtain s1 c1 fl where turn: "lan_turn (le_hash env) (le_hex env) (le_contains env) (le_broadcast env) interfaces network key port
      (lt_id_period t) (lt_field_period t) (lt_now t) (lt_datagrams t) (lt_open t) = Returned (s1, c1, fl)"
    using "3.prems" by (cases "lan_turn (le_hash env) (le_hex env) (le_contains env) (le_broadcast env) interfaces network key port
      (lt_id_period t) (lt_field_period t) (lt_now t) (lt_datagrams t) (lt_open t)") auto
  have one: "?P s1" "\<forall>c \<in> set c1. ?C t c" using lan_turn_effects [OF "3.prems"(1) turn] by blast+
  show ?case
  proof (cases fl)
    case (Stop r)
    with "3.prems"(2) turn have "sent = s1" "handed = (if c1 = [] then [] else [c1])" by auto
    with one show ?thesis by auto
  next
    case Continue
    with "3.prems"(2) turn obtain s2 h2 where rest: "lan_loop env interfaces key network port xs = Returned (s2, h2)"
      "sent = s1 @ s2" "handed = (if c1 = [] then [] else [c1]) @ h2"
      by (cases "lan_loop env interfaces key network port xs") (auto simp: Let_def)
    from "3.IH" [OF refl refl "3.prems"(1) rest(1)]
    have "?P s2" "\<forall>cs \<in> set h2. \<forall>c \<in> set cs. \<exists>t. LanTick t \<in> set xs \<and> ?C t c" by blast+
    moreover have "\<exists>u. LanTick u \<in> set (LanTick t # xs) \<and> ?C u c" if "cs \<in> set handed" "c \<in> set cs" for cs c
    proof (cases "cs \<in> set h2")
      case True
      with calculation(2) that(2) obtain u where "LanTick u \<in> set xs" "?C u c" by blast
      then show ?thesis by (intro exI [of _ u]) simp
    next
      case False
      with that rest(3) one(2) show ?thesis by (intro exI [of _ t]) (auto split: if_splits)
    qed
    ultimately show ?thesis using one(1) rest(2) by (intro conjI ballI) auto
  qed
qed auto

text \<open>
  The node speaks on the LAN only after it has joined the group on every interface, and then only
  to the group and to the broadcast addresses of its interfaces.
\<close>

lemma lan_silent_until_joined:
  assumes hx: "hex16 (le_hash env) (le_hex env)"
    and run: "lan_run_loop env key network port xs = Returned (calls, sent, handed)" and some: "sent \<noteq> [] \<or> handed \<noteq> []"
    and i: "(address, subnet) \<in> set (local_lan_interfaces (le_interfaces env))"
  shows "JoinMulticast DISCOVERY_GROUP address \<in> set calls \<and> is_ok (le_call env (JoinMulticast DISCOVERY_GROUP address))"
    and "d \<in> set sent \<Longrightarrow> snd d = SocketAddr (V4 DISCOVERY_GROUP) DISCOVERY_PORT
      \<or> (\<exists>i \<in> set (local_lan_interfaces (le_interfaces env)). snd d = SocketAddr (V4 (le_broadcast env (snd i))) DISCOVERY_PORT)"
proof -
  let ?is = "local_lan_interfaces (le_interfaces env)"
  obtain u where b: "bind_socket (le_call env) ?is = (calls, Inr u)"
    and l: "lan_loop env ?is key network port xs = Returned (sent, handed)"
    using run some i
    by (cases "bind_socket (le_call env) ?is"; cases "snd (bind_socket (le_call env) ?is)";
        cases "lan_loop env ?is key network port xs") (auto simp: lan_run_loop_def Let_def split: if_splits)
  from b have "calls = [CreateUdpSocket, SetReuseAddress, SetReusePort, SetBroadcast, BindTo (SocketAddr (V4 0) DISCOVERY_PORT)]
       @ map (\<lambda>(address, _). JoinMulticast DISCOVERY_GROUP address) ?is @ [SetMulticastLoop, SetNonblocking, FromStd]"
    "\<forall>c \<in> set calls. is_ok (le_call env c)"
    unfolding bind_socket_def try_calls_ok by auto
  with i show "JoinMulticast DISCOVERY_GROUP address \<in> set calls \<and> is_ok (le_call env (JoinMulticast DISCOVERY_GROUP address))"
    by force
  show "d \<in> set sent \<Longrightarrow> snd d = SocketAddr (V4 DISCOVERY_GROUP) DISCOVERY_PORT
      \<or> (\<exists>i \<in> set ?is. snd d = SocketAddr (V4 (le_broadcast env (snd i))) DISCOVERY_PORT)"
    using lan_loop_effects [OF hx l] by blast
qed

text \<open>The discovery loop announces its start in the first turn and never again.\<close>

lemma discovery_loop_nth:
  "i < length (discovery_loop sha1 config ctx (first, ips) ts) \<Longrightarrow>
    \<exists>ips'. ips \<subseteq> ips' \<and> discovery_loop sha1 config ctx (first, ips) ts ! i =
      snd (discover_candidates (dt_env (ts ! i)) sha1 config ctx (first \<and> i = 0) (dt_now (ts ! i)) ips')"
proof (induction ts arbitrary: first ips i)
  case (Cons t ts)
  obtain ips1 cs where d: "discover_candidates (dt_env t) sha1 config ctx first (dt_now t) ips = (ips1, cs)" by (rule prod.exhaust)
  then have sub: "ips \<subseteq> ips1" by (auto simp: discover_candidates_def Let_def split: sum.splits)
  show ?case
  proof (cases i)
    case 0
    with Cons.prems d show ?thesis by (intro exI [of _ ips]) (auto simp: discovery_turn_def split: if_splits)
  next
    case (Suc j)
    with Cons.prems d have "j < length (discovery_loop sha1 config ctx (False, ips1) ts)" by (auto simp: discovery_turn_def split: if_splits)
    from Cons.IH [OF this] Suc Cons.prems d sub show ?thesis by (auto simp: discovery_turn_def split: if_splits)
  qed
qed simp

lemma discovery_announces_start_once:
  assumes "i < length (run_discovery_loop sha1 config ctx ts)"
  shows "\<exists>ips. run_discovery_loop sha1 config ctx ts ! i =
    snd (discover_candidates (dt_env (ts ! i)) sha1 config ctx (i = 0) (dt_now (ts ! i)) ips)"
  using discovery_loop_nth [of i sha1 config ctx True "{}" ts] assms by (auto simp: run_discovery_loop_def)

text \<open>
  The relay task: it goes through the states of \<open>relay_run\<close>; when it ends it has stopped both
  discovery tasks, the probe sends and the EasyTier instance, unless a candidate address did not
  parse as a URL, which ends it with that error and no clean-up.
\<close>

lemma relay_task_run:
  "relay_task hash hex parse_url ty spec st xs = Returned (st', eff, fin) \<Longrightarrow> relay_run hash hex parse_url ty spec st xs = Returned (st', eff)"
proof (induction xs arbitrary: st st' eff)
  case (Cons x xs)
  obtain st1 eff1 fl where step: "relay_step hash hex parse_url ty spec st x = Returned (st1, eff1, fl)"
    using Cons.prems by (cases "relay_step hash hex parse_url ty spec st x") auto
  show ?case
  proof (cases fl)
    case Continue
    with Cons.prems step obtain eff2 where "relay_task hash hex parse_url ty spec st1 xs = Returned (st', eff2, fin)" "eff = eff1 @ eff2"
      by (cases "relay_task hash hex parse_url ty spec st1 xs") auto
    with Cons.IH step Continue show ?thesis by simp
  next
    case (Stop r)
    with Cons.prems step show ?thesis by simp
  qed
qed simp

definition unparsed :: "(string \<Rightarrow> string res) \<Rightarrow> socket_addr list \<Rightarrow> error \<Rightarrow> bool" where
  "unparsed parse_url cs e \<longleftrightarrow> (\<exists>c \<in> set cs. parse_url (''udp://'' @ socket_addr_string c) = Inl e)"

lemma add_candidates_stops:
  fixes eff :: "'f relay_effect list"
  shows "add_candidates parse_url urls cs = (urls', eff, Stop r) \<Longrightarrow> \<exists>e. unparsed parse_url cs e \<and> r = Inl e"
proof (induction cs arbitrary: urls urls' eff)
  case (Cons c cs)
  show ?case
  proof (cases "parse_url (''udp://'' @ socket_addr_string c)")
    case (Inr url)
    have "\<exists>u (eff2 :: 'f relay_effect list). add_candidates parse_url (if url \<in> set urls then urls else url # urls) cs = (u, eff2, Stop r)"
      using Inr Cons.prems by (auto split: if_splits prod.splits)
    then obtain u and eff2 :: "'f relay_effect list" where
      "add_candidates parse_url (if url \<in> set urls then urls else url # urls) cs = (u, eff2, Stop r)" by blast
    from Cons.IH [OF this] show ?thesis by (auto simp: unparsed_def)
  qed (use Cons.prems in \<open>auto simp: unparsed_def\<close>)
qed simp

lemma continue_not_stop:
  "exec_bind m (\<lambda>(st', eff). Returned (st', eff, Continue)) \<noteq> Returned (a, b, Stop r)"
  "exec_bind m' (\<lambda>eff. Returned (st, eff, Continue)) \<noteq> Returned (a, b, Stop r)"
  by (cases m; auto) (cases m'; auto)

lemma relay_step_stops:
  assumes "relay_step hash hex parse_url ty spec st x = Returned (st1, eff1, Stop r)"
  shows "r = Inr () \<or> (\<exists>cs e. x = Candidates (Some cs) \<and> unparsed parse_url cs e \<and> r = Inl e)"
proof (cases x)
  case (Candidates c)
  with assms show ?thesis by (cases c) (auto split: prod.splits dest: add_candidates_stops)
next
  case (Probe p now u)
  with assms show ?thesis by (cases p) (auto simp: continue_not_stop)
next
  case (Outbound p u sent now)
  with assms show ?thesis by (cases p) (auto simp: continue_not_stop)
qed (use assms in \<open>auto simp: continue_not_stop split: prod.splits\<close>)

lemma relay_task_ends:
  assumes "relay_task hash hex parse_url ty spec st xs = Returned (st', eff, Some (steps, r))"
  shows "r = Inr () \<and> steps = [CancelDiscovery, AwaitDiscovery, AbortLanDiscovery, AwaitLanDiscovery, AbortProbeSends (rl_sends st'), ClearResources]
    \<or> (\<exists>cs e. Candidates (Some cs) \<in> set xs \<and> unparsed parse_url cs e \<and> r = Inl e \<and> steps = [])"
  using assms
proof (induction xs arbitrary: st eff)
  case (Cons x xs)
  obtain st1 eff1 fl where step: "relay_step hash hex parse_url ty spec st x = Returned (st1, eff1, fl)"
    using Cons.prems by (cases "relay_step hash hex parse_url ty spec st x") auto
  show ?case
  proof (cases fl)
    case Continue
    with Cons.prems step obtain eff2 where "relay_task hash hex parse_url ty spec st1 xs = Returned (st', eff2, Some (steps, r))"
      by (cases "relay_task hash hex parse_url ty spec st1 xs") auto
    from Cons.IH [OF this] show ?thesis by auto
  next
    case (Stop q)
    with Cons.prems step have e: "st1 = st'" "relay_finish st1 q = (steps, r)" by auto
    show ?thesis
    proof (cases q)
      case (Inl e')
      with relay_step_stops [OF step [unfolded Stop]] obtain cs where "x = Candidates (Some cs)" "unparsed parse_url cs e'" by auto
      with e Inl show ?thesis by (intro disjI2 exI [of _ cs] exI [of _ e']) (simp add: relay_finish_def)
    qed (use e in \<open>simp add: relay_finish_def\<close>)
  qed
qed simp

text \<open>
  A control socket that is not cancelled delivers exactly the messages of its valid datagrams, in
  order; receive errors and junk do not end it.
\<close>

lemma control_socket_delivers:
  "control_socket_task from_json (map (\<lambda>r. SocketReceived r True) rs) = (filter_map (control_socket_step from_json) rs, None)"
  by (induction rs) (auto split: option.splits)

text \<open>The capture does the same with the packets of its interface, when no packet makes it panic.\<close>

lemma capture_delivers:
  assumes "\<And>p. Inr p \<in> set ps \<Longrightarrow> capture_packet from_json p \<noteq> Panicked"
  shows "capture_loop from_json (map (\<lambda>p. \<lparr> ca_cancelled = False, ca_packet = p, ca_open = True \<rparr>) ps) =
    Returned (filter_map (\<lambda>p. case p of Inl _ \<Rightarrow> None | Inr packet \<Rightarrow>
      (case capture_packet from_json packet of Panicked \<Rightarrow> None | Returned r \<Rightarrow> r)) ps, None)"
  using assms
proof (induction ps)
  case (Cons p ps)
  show ?case
  proof (cases p)
    case (Inr packet)
    with Cons.prems obtain r where "capture_packet from_json packet = Returned r" by (cases "capture_packet from_json packet") auto
    with Cons Inr show ?thesis by (cases r) auto
  qed (use Cons in simp)
qed simp

text \<open>No request ends the management listener: only a failing \<open>accept\<close> does.\<close>

lemma serve_goes_on:
  "snd (snd (serve we st (map Inr requests))) = None \<and> length (fst (snd (serve we st (map Inr requests)))) = length requests"
proof (induction requests arbitrary: st)
  case (Cons c cs)
  show ?case
  proof (cases "handle_connection we st c")
    case (Returned a)
    with Cons.IH [of "fst a"] show ?thesis by (cases a) (auto split: prod.splits)
  qed (use Cons.IH [of st] in \<open>auto split: prod.splits\<close>)
qed simp

end
