(* ===== verification/Shortcut_Tests.thy ===== *)
theory Shortcut_Tests
  imports Establish Renewal Cascade Transit
begin

text \<open>
  The unit tests of \<open>src/src/shortcut\<close>, replayed on the model.  Every test function is a definition of
  the same name, true exactly when all its assertions hold: \<open>unwrap\<close> continues with the value of a
  result and fails the test on an error, as the method of that name panics.  Cryptographic
  functions are arguments, so a test that passes here passes for all of them.  The lemmas \<open>_passes\<close>
  say that the model agrees with the expectations the authors wrote down.
\<close>

unbundle bit_operations_syntax

definition unwrap :: "'s \<times> 'a res \<Rightarrow> ('s \<Rightarrow> 'a \<Rightarrow> bool) \<Rightarrow> bool" where
  "unwrap x f = (case x of (s, Inr a) \<Rightarrow> f s a | (s, Inl e) \<Rightarrow> False)"

lemma unwrap_simps [simp]: "unwrap (s, Inr a) f = f s a" "unwrap (s, Inl e) f = False"
  by (simp_all add: unwrap_def)

definition net4 :: "u8 \<Rightarrow> u8 \<Rightarrow> u8 \<Rightarrow> u8 \<Rightarrow> u8 \<Rightarrow> ipnet" where
  "net4 a b c d len = IpNet (v4_of_octets [a, b, c, d]) len"

section \<open>state.rs\<close>

record mock_routes =
  activations :: "(ipnet \<times> route_target) list"
  deactivations :: "ipnet list"

definition mock_default :: mock_routes where
  "mock_default = \<lparr> activations = [], deactivations = [] \<rparr>"

definition mock_activate :: "mock_routes activate_fn" where
  "mock_activate r selector target = (r\<lparr> activations := activations r @ [(selector, target)] \<rparr>, Inr ())"

definition mock_deactivate :: "mock_routes deactivate_fn" where
  "mock_deactivate r selector = (r\<lparr> deactivations := deactivations r @ [selector] \<rparr>, Inr ())"

definition state_ticket :: "u64 \<Rightarrow> shortcut_ticket" where
  "state_ticket epoch = \<lparr> t_version = CONTROL_VERSION, t_shortcut_id = ShortcutId (replicate 16 5), t_epoch = epoch,
     t_role = Left, t_issued_at = 1000, t_renew_at = 1120, t_expires_at = 1180, t_selector = net4 198 51 100 7 32,
     t_issuer_public_key = ''issuer'', t_recipient_public_key = ''recipient'', t_remote_public_key = ''remote'',
     t_remote_peer_id = ''peer-id'', t_endpoint_candidates = [], t_delegation = None,
     t_master_secret = replicate 32 (ucast epoch) \<rparr>"

type_synonym crypto = "(bytes \<Rightarrow> bytes \<Rightarrow> bytes) \<times> (bytes \<Rightarrow> bytes)"

definition receive_for :: "crypto \<Rightarrow> mock_routes shortcut_manager \<Rightarrow> shortcut_ticket \<Rightarrow> string \<Rightarrow> string \<Rightarrow> u64
    \<Rightarrow> mock_routes shortcut_manager \<times> prepared_shortcut res" where
  "receive_for c m t sender recipient now = manager_receive_ticket (fst c) (snd c) m t sender recipient now"

abbreviation mock_manager :: "mock_routes shortcut_manager" where
  "mock_manager \<equiv> manager_new mock_default"

definition route_is_not_installed_before_authenticated_handshake :: "crypto \<Rightarrow> bool" where
  "route_is_not_installed_before_authenticated_handshake c \<longleftrightarrow>
     unwrap (receive_for c mock_manager (state_ticket 1) ''issuer'' ''recipient'' 1001) (\<lambda>m prepared.
       activations (sm_routes m) = []
       \<and> unwrap (mark_handshaking m (ps_session prepared)) (\<lambda>m _.
           activations (sm_routes m) = [] \<and> manager_phase m (ps_session prepared) = Some Handshaking
           \<and> unwrap (authenticated_handshake mock_activate m (ps_session prepared) 1002) (\<lambda>m activated.
               activated \<and> length (activations (sm_routes m)) = 1
               \<and> manager_phase m (ps_session prepared) = Some Active)))"

definition renewal_does_not_replace_route_until_new_epoch_authenticates :: "crypto \<Rightarrow> bool" where
  "renewal_does_not_replace_route_until_new_epoch_authenticates c \<longleftrightarrow>
     unwrap (receive_for c mock_manager (state_ticket 1) ''issuer'' ''recipient'' 1001) (\<lambda>m first.
     unwrap (authenticated_handshake mock_activate m (ps_session first) 1002) (\<lambda>m _.
     unwrap (receive_for c m (state_ticket 2) ''issuer'' ''recipient'' 1003) (\<lambda>m second.
     unwrap (mark_handshaking m (ps_session second)) (\<lambda>m _.
       length (activations (sm_routes m)) = 1 \<and> manager_phase m (ps_session first) = Some Active
       \<and> unwrap (authenticated_handshake mock_activate m (ps_session second) 1004) (\<lambda>m _.
           length (activations (sm_routes m)) = 2
           \<and> manager_phase m (ps_session first) = Some Draining \<and> manager_phase m (ps_session second) = Some Active
           \<and> (case retire_draining m of (m, retired) \<Rightarrow>
                retired = [ps_session first] \<and> manager_phase m (ps_session first) = None
                \<and> manager_phase m (ps_session second) = Some Active))))))"

definition duplicate_ticket_does_not_reset_active_session :: "crypto \<Rightarrow> bool" where
  "duplicate_ticket_does_not_reset_active_session c \<longleftrightarrow>
     unwrap (receive_for c mock_manager (state_ticket 1) ''issuer'' ''recipient'' 1001) (\<lambda>m first.
     unwrap (authenticated_handshake mock_activate m (ps_session first) 1002) (\<lambda>m _.
     unwrap (receive_for c m (state_ticket 1) ''issuer'' ''recipient'' 1003) (\<lambda>m duplicate.
       ps_already_present duplicate \<and> manager_phase m (ps_session first) = Some Active
       \<and> length (activations (sm_routes m)) = 1)))"

definition failing_active_session_removes_its_route :: "crypto \<Rightarrow> bool" where
  "failing_active_session_removes_its_route c \<longleftrightarrow>
     unwrap (receive_for c mock_manager (state_ticket 1) ''issuer'' ''recipient'' 1001) (\<lambda>m prepared.
     unwrap (authenticated_handshake mock_activate m (ps_session prepared) 1002) (\<lambda>m _.
     unwrap (manager_fail mock_deactivate m (ps_session prepared)) (\<lambda>m failed.
       failed \<and> length (deactivations (sm_routes m)) = 1 \<and> manager_phase m (ps_session prepared) = None)))"

definition failing_old_session_keeps_new_active_route :: "crypto \<Rightarrow> bool" where
  "failing_old_session_keeps_new_active_route c \<longleftrightarrow>
     unwrap (receive_for c mock_manager (state_ticket 1) ''issuer'' ''recipient'' 1001) (\<lambda>m first.
     unwrap (authenticated_handshake mock_activate m (ps_session first) 1002) (\<lambda>m _.
     unwrap (receive_for c m (state_ticket 2) ''issuer'' ''recipient'' 1003) (\<lambda>m second.
     unwrap (authenticated_handshake mock_activate m (ps_session second) 1004) (\<lambda>m _.
     unwrap (manager_fail mock_deactivate m (ps_session first)) (\<lambda>m failed.
       failed \<and> deactivations (sm_routes m) = [] \<and> manager_phase m (ps_session second) = Some Active)))))"

definition expiry_removes_only_the_current_active_route :: "crypto \<Rightarrow> bool" where
  "expiry_removes_only_the_current_active_route c \<longleftrightarrow>
     unwrap (receive_for c mock_manager (state_ticket 1) ''issuer'' ''recipient'' 1001) (\<lambda>m prepared.
     unwrap (authenticated_handshake mock_activate m (ps_session prepared) 1002) (\<lambda>m _.
     unwrap (manager_expire mock_deactivate m 1180) (\<lambda>m _. length (deactivations (sm_routes m)) = 1)))"

definition rejects_ticket_from_wrong_authenticated_sender :: "crypto \<Rightarrow> bool" where
  "rejects_ticket_from_wrong_authenticated_sender c \<longleftrightarrow>
     (case receive_for c mock_manager (state_ticket 1) ''different-issuer'' ''recipient'' 1001 of
        (m, r) \<Rightarrow> \<not> is_ok r \<and> activations (sm_routes m) = [])"

definition rejects_ticket_for_another_recipient :: "crypto \<Rightarrow> bool" where
  "rejects_ticket_for_another_recipient c \<longleftrightarrow>
     (case receive_for c mock_manager (state_ticket 1) ''issuer'' ''another-node'' 1001 of
        (m, r) \<Rightarrow> \<not> is_ok r \<and> activations (sm_routes m) = [])"

lemma state_ticket_valid: "e \<noteq> 0 \<Longrightarrow> now = 1001 \<or> now = 1003 \<Longrightarrow> validate (state_ticket e) now = Inr ()"
  by (auto simp: validate_ok_iff ticket_ok_def state_ticket_def control_consts sat_sub_def)

lemma state_receive:
  assumes "validate (state_ticket e) now = Inr ()"
  shows "hm_get (sm_sessions m) (SessionKey (ShortcutId (replicate 16 5)) e) = None \<Longrightarrow>
      receive_for c m (state_ticket e) ''issuer'' ''recipient'' now
      = (m\<lparr> sm_sessions := hm_insert (SessionKey (ShortcutId (replicate 16 5)) e)
            \<lparr> ms_ticket = state_ticket e, ms_phase = Prepared \<rparr> (sm_sessions m) \<rparr>,
         Inr \<lparr> ps_session = SessionKey (ShortcutId (replicate 16 5)) e,
           ps_keys = derive_keys (fst c) (snd c) (state_ticket e), ps_already_present = False \<rparr>)"
    and "hm_get (sm_sessions m) (SessionKey (ShortcutId (replicate 16 5)) e) = Some \<lparr> ms_ticket = state_ticket e, ms_phase = p \<rparr> \<Longrightarrow>
      receive_for c m (state_ticket e) ''issuer'' ''recipient'' now
      = (m, Inr \<lparr> ps_session = SessionKey (ShortcutId (replicate 16 5)) e,
           ps_keys = derive_keys (fst c) (snd c) (state_ticket e), ps_already_present = True \<rparr>)"
  using assms by (simp_all add: receive_for_def manager_receive_ticket_def state_ticket_def Let_def)

lemmas state_run = state_receive [OF state_ticket_valid] manager_new_def mock_default_def authenticated_handshake_def mark_handshaking_def
  manager_phase_def mock_activate_def mock_deactivate_def set_phase_def Let_def

lemma state_ticket_fields: "t_expires_at (state_ticket e) = 1180" "t_selector (state_ticket e) = net4 198 51 100 7 32"
  by (simp_all add: state_ticket_def)

lemma state_tests_pass:
  "route_is_not_installed_before_authenticated_handshake c" "renewal_does_not_replace_route_until_new_epoch_authenticates c"
  "duplicate_ticket_does_not_reset_active_session c" "failing_active_session_removes_its_route c"
  "failing_old_session_keeps_new_active_route c" "expiry_removes_only_the_current_active_route c"
  "rejects_ticket_from_wrong_authenticated_sender c" "rejects_ticket_for_another_recipient c"
proof -
  show "route_is_not_installed_before_authenticated_handshake c"
    by (simp add: route_is_not_installed_before_authenticated_handshake_def state_run state_ticket_fields)
  show "renewal_does_not_replace_route_until_new_epoch_authenticates c"
    by (simp add: renewal_does_not_replace_route_until_new_epoch_authenticates_def state_run state_ticket_fields
        retire_draining_def remove_sessions_def)
  show "duplicate_ticket_does_not_reset_active_session c"
    by (simp add: duplicate_ticket_does_not_reset_active_session_def state_run state_ticket_fields)
  show "failing_active_session_removes_its_route c"
    by (simp add: failing_active_session_removes_its_route_def state_run state_ticket_fields manager_fail_def)
  show "failing_old_session_keeps_new_active_route c"
    by (simp add: failing_old_session_keeps_new_active_route_def state_run state_ticket_fields manager_fail_def)
  show "expiry_removes_only_the_current_active_route c"
    by (simp add: expiry_removes_only_the_current_active_route_def state_run state_ticket_fields manager_expire_def
        expired_sessions_def remove_sessions_def)
  show "rejects_ticket_from_wrong_authenticated_sender c"
    by (simp add: rejects_ticket_from_wrong_authenticated_sender_def receive_for_def manager_receive_ticket_def state_ticket_valid
        state_run, simp add: state_ticket_def)
  show "rejects_ticket_for_another_recipient c"
    by (simp add: rejects_ticket_for_another_recipient_def receive_for_def manager_receive_ticket_def state_ticket_valid
        state_run, simp add: state_ticket_def)
qed

section \<open>policy.rs\<close>

definition parses_only_managed_rules_for_dedicated_table :: bool where
  "parses_only_managed_rules_for_dedicated_table \<longleftrightarrow>
     (let rng = (11000, 21000) in
      parse_managed_rule ''11042: from all to 192.168.38.2 lookup 51820'' 51820 rng = Some 11042
      \<and> parse_managed_rule ''100: from all lookup 51820'' 51820 rng = None
      \<and> parse_managed_rule ''11042: from all lookup main'' 51820 rng = None
      \<and> parse_managed_rule ''11042: from all lookup 51821'' 51820 rng = None)"

lemma digit_chars:
  "digit_char 0 = CHR ''0''" "digit_char 1 = CHR ''1''" "digit_char 2 = CHR ''2''" "digit_char 3 = CHR ''3''"
  "digit_char 4 = CHR ''4''" "digit_char 5 = CHR ''5''" "digit_char 6 = CHR ''6''" "digit_char 7 = CHR ''7''"
  "digit_char 8 = CHR ''8''" "digit_char 9 = CHR ''9''" "digit_char (Suc 0) = CHR ''1''"
  by code_simp+

lemmas text_run = split_whitespace_def is_ws_def parse_word_def parse_uint_def digit_val_def trim_end_by_def u32_string_def
  dec_string.simps digit_chars Let_def of_char_def

lemma parses_only_managed_rules_passes: "parses_only_managed_rules_for_dedicated_table"
  unfolding parses_only_managed_rules_for_dedicated_table_def by (simp add: parse_managed_rule_def text_run)

section \<open>renewal.rs\<close>

definition renewal_issue :: "string \<Rightarrow> ipnet \<Rightarrow> issue_key" where
  "renewal_issue peer selector = IssueKey peer selector"

definition renewal_session :: "u8 \<Rightarrow> session_key" where
  "renewal_session value = SessionKey (ShortcutId (replicate 16 value)) 1"

definition selectors_for_one_peer_have_independent_renewals :: bool where
  "selectors_for_one_peer_have_independent_renewals \<longleftrightarrow>
     (let first = renewal_issue ''peer'' (net4 192 0 2 2 32); second = renewal_issue ''peer'' (net4 192 0 2 3 32) in
      case begin_issue scheduler_default first 1000 of (s, attempt) \<Rightarrow>
      attempt = Some (IssueAttempt None)
      \<and> (let s = scheduler_issued s first (renewal_session 1) 1120 1000 in
      case begin_issue s second 1000 of (s, attempt) \<Rightarrow>
      attempt = Some (IssueAttempt None)
      \<and> (let s = scheduler_issued s second (renewal_session 2) 1120 1000 in
      case scheduler_authenticated s (renewal_session 1) 1002 of (s, at) \<Rightarrow>
      at = Some 1030
      \<and> (case begin_issue s second 1011 of (s, attempt) \<Rightarrow>
         attempt = Some (IssueAttempt (Some (renewal_session 2)))
         \<and> (case begin_issue s first 1029 of (s, attempt) \<Rightarrow>
            attempt = None \<and> snd (begin_issue s first 1030) = Some (IssueAttempt None))))))"

definition renewal_is_scheduled_from_ticket_time_not_authentication_time :: bool where
  "renewal_is_scheduled_from_ticket_time_not_authentication_time \<longleftrightarrow>
     (let k = renewal_issue ''peer'' (net4 192 0 2 2 32);
          s = fst (begin_issue scheduler_default k 1000);
          s = scheduler_issued s k (renewal_session 1) 1120 1000 in
      case scheduler_authenticated s (renewal_session 1) 1015 of (s, at) \<Rightarrow>
      at = Some 1030
      \<and> (case begin_issue s k 1029 of (s, attempt) \<Rightarrow>
         attempt = None \<and> snd (begin_issue s k 1030) = Some (IssueAttempt None)))"

definition old_session_removal_does_not_interrupt_authenticated_replacement :: bool where
  "old_session_removal_does_not_interrupt_authenticated_replacement \<longleftrightarrow>
     (let k = renewal_issue ''peer'' (net4 192 0 2 2 32);
          s = fst (begin_issue scheduler_default k 1000);
          s = scheduler_issued s k (renewal_session 1) 1120 1000;
          s = fst (scheduler_authenticated s (renewal_session 1) 1002);
          s = fst (begin_issue s k 1030);
          s = scheduler_issued s k (renewal_session 2) 1240 1030;
          s = fst (scheduler_authenticated s (renewal_session 2) 1122);
          s = scheduler_removed s (renewal_session 1) 1180 in
      case begin_issue s k 1149 of (s, attempt) \<Rightarrow>
      attempt = None \<and> snd (begin_issue s k 1150) = Some (IssueAttempt None))"

definition failed_pending_replacement_retries_without_waiting_for_old_expiry :: bool where
  "failed_pending_replacement_retries_without_waiting_for_old_expiry \<longleftrightarrow>
     (let k = renewal_issue ''peer'' (net4 192 0 2 2 32);
          s = fst (begin_issue scheduler_default k 1000);
          s = scheduler_issued s k (renewal_session 1) 1120 1000;
          s = fst (scheduler_authenticated s (renewal_session 1) 1002);
          s = fst (begin_issue s k 1030);
          s = scheduler_issued s k (renewal_session 2) 1240 1030;
          s = scheduler_removed s (renewal_session 2) 1123 in
      case begin_issue s k 1127 of (s, attempt) \<Rightarrow>
      attempt = Some (IssueAttempt None) \<and> snd (begin_issue s k 1128) = None)"

definition only_an_active_lease_can_renew_after_base_handshake_goes_stale :: bool where
  "only_an_active_lease_can_renew_after_base_handshake_goes_stale \<longleftrightarrow>
     (let k = renewal_issue ''peer'' (net4 192 0 2 2 32) in
      \<not> has_active scheduler_default k
      \<and> (let s = fst (begin_issue scheduler_default k 1000);
             s = scheduler_issued s k (renewal_session 1) 1120 1000 in
         \<not> has_active s k
         \<and> has_active (fst (scheduler_authenticated s (renewal_session 1) 1002)) k))"

lemma renewal_keys:
  "net4 192 0 2 2 32 \<noteq> net4 192 0 2 3 32" "renewal_session a = renewal_session b \<longleftrightarrow> a = b"
  by (simp_all add: net4_def v4_of_octets_def from_be_bytes_def nat_of_be_def renewal_session_def)

lemmas renewal_run = renewal_issue_def begin_issue_def scheduler_issued_def scheduler_authenticated_def scheduler_removed_def
  issue_entry_def issue_state_default_def scheduler_default_def has_active_def renewal_consts renewal_keys
  renewal_keys(1) [symmetric] Let_def sat_add_def sat_sub_def

lemma renewal_tests_pass:
  "selectors_for_one_peer_have_independent_renewals" "renewal_is_scheduled_from_ticket_time_not_authentication_time"
  "old_session_removal_does_not_interrupt_authenticated_replacement"
  "failed_pending_replacement_retries_without_waiting_for_old_expiry"
  "only_an_active_lease_can_renew_after_base_handshake_goes_stale"
proof -
  show "selectors_for_one_peer_have_independent_renewals"
    by (simp add: selectors_for_one_peer_have_independent_renewals_def renewal_run)
  show "renewal_is_scheduled_from_ticket_time_not_authentication_time"
    by (simp add: renewal_is_scheduled_from_ticket_time_not_authentication_time_def renewal_run)
  show "old_session_removal_does_not_interrupt_authenticated_replacement"
    by (simp add: old_session_removal_does_not_interrupt_authenticated_replacement_def renewal_run)
  show "failed_pending_replacement_retries_without_waiting_for_old_expiry"
    by (simp add: failed_pending_replacement_retries_without_waiting_for_old_expiry_def renewal_run)
  show "only_an_active_lease_can_renew_after_base_handshake_goes_stale"
    by (simp add: only_an_active_lease_can_renew_after_base_handshake_goes_stale_def renewal_run)
qed

section \<open>cascade.rs\<close>

definition cascade_peer_of :: "string \<Rightarrow> string \<Rightarrow> cascade_peer" where
  "cascade_peer_of public_key name =
     \<lparr> cp_public_key = public_key, cp_peer_id = name, cp_endpoint_candidates = [] \<rparr>"

definition middle_request :: "active_lease \<Rightarrow> cascade_request" where
  "middle_request parent = \<lparr> cr_issuer_public_key = ''middle'', cr_upstream = cascade_peer_of ''left'' ''left-peer'',
     cr_downstream = cascade_peer_of ''right'' ''right-peer'', cr_upstream_selector = net4 198 51 100 7 32,
     cr_downstream_selector = net4 203 0 113 1 32, cr_parent = Some parent, cr_expires_at_limit = None,
     cr_renew_after_seconds = None, cr_now = 1000 \<rparr>"

definition delegated_pair_shares_secret_and_is_bounded_by_parent_lease :: "(bytes \<Rightarrow> bytes) \<Rightarrow> bytes \<Rightarrow> bytes \<Rightarrow> bool" where
  "delegated_pair_shares_secret_and_is_bounded_by_parent_lease hash rid secret \<longleftrightarrow>
     (let parent = \<lparr> al_session = SessionKey (ShortcutId (replicate 16 1)) 4, al_expires_at = 1150, al_delegation = None \<rparr> in
      case plan hash rid secret (middle_request parent) of
        Inl e \<Rightarrow> False
      | Inr pair \<Rightarrow>
          t_master_secret (tp_upstream pair) = t_master_secret (tp_downstream pair)
          \<and> t_shortcut_id (tp_upstream pair) = t_shortcut_id (tp_downstream pair)
          \<and> t_expires_at (tp_upstream pair) = al_expires_at parent \<and> t_expires_at (tp_downstream pair) = al_expires_at parent
          \<and> t_role (tp_upstream pair) = Left \<and> t_role (tp_downstream pair) = Right
          \<and> (case t_delegation (tp_upstream pair) of None \<Rightarrow> False | Some d \<Rightarrow> depth d = 1))"

definition repeated_issuer_is_rejected_as_a_loop :: "(bytes \<Rightarrow> bytes) \<Rightarrow> bytes \<Rightarrow> bytes \<Rightarrow> bool" where
  "repeated_issuer_is_rejected_as_a_loop hash rid secret \<longleftrightarrow>
     (let issuer = peer_fingerprint hash ''middle'';
          parent = \<lparr> al_session = SessionKey (ShortcutId (replicate 16 1)) 4, al_expires_at = 1180,
            al_delegation = Some \<lparr> root_shortcut_id = ShortcutId (replicate 16 9), parent_shortcut_id = ShortcutId (replicate 16 8),
              depth = 1, remaining_delegations = 7, visited_issuers = [issuer] \<rparr> \<rparr> in
      \<not> is_ok (plan hash rid secret (middle_request parent)))"

lemmas cascade_run = plan_def delegation_def middle_request_def cascade_peer_of_def plan_expires_at_def common_ticket_def
  control_consts sat_add_def Let_def min_def

lemma cascade_tests_pass:
  "delegated_pair_shares_secret_and_is_bounded_by_parent_lease hash rid secret" "repeated_issuer_is_rejected_as_a_loop hash rid secret"
  by (simp_all add: delegated_pair_shares_secret_and_is_bounded_by_parent_lease_def repeated_issuer_is_rejected_as_a_loop_def cascade_run)

section \<open>control.rs\<close>

definition control_ticket :: "shortcut_role \<Rightarrow> shortcut_ticket" where
  "control_ticket role = \<lparr> t_version = CONTROL_VERSION, t_shortcut_id = ShortcutId (replicate 16 7), t_epoch = 1,
     t_role = role, t_issued_at = 1000, t_renew_at = 1120, t_expires_at = 1180, t_selector = net4 198 51 100 7 32,
     t_issuer_public_key = ''issuer'', t_recipient_public_key = ''recipient'', t_remote_public_key = ''remote'',
     t_remote_peer_id = ''peer-id'', t_endpoint_candidates = [], t_delegation = None, t_master_secret = replicate 32 9 \<rparr>"

definition opposite_roles_derive_matching_key_pair :: "crypto \<Rightarrow> bool" where
  "opposite_roles_derive_matching_key_pair c \<longleftrightarrow>
     (let left = derive_keys (fst c) (snd c) (control_ticket Left); right = derive_keys (fst c) (snd c) (control_ticket Right) in
      local_public left = remote_public right \<and> local_public right = remote_public left
      \<and> preshared_key left = preshared_key right \<and> local_private left \<noteq> local_private right)"

definition rejects_expired_ticket :: bool where
  "rejects_expired_ticket \<longleftrightarrow> \<not> is_ok (validate (control_ticket Left) 1180)"

definition control_frame_round_trip :: "(control_message \<Rightarrow> bytes res) \<Rightarrow> (bytes \<Rightarrow> control_message res) \<Rightarrow> bool" where
  "control_frame_round_trip to_json from_json \<longleftrightarrow>
     (case encode_control to_json (Ticket (control_ticket Left)) of
        Inl e \<Rightarrow> False
      | Inr encoded \<Rightarrow>
          (case decode_control from_json encoded of
             Inr (Ticket t) \<Rightarrow> t_shortcut_id t = ShortcutId (replicate 16 7) \<and> t_master_secret t = replicate 32 9
           | _ \<Rightarrow> False))"

definition rejects_frame_without_magic :: "(bytes \<Rightarrow> control_message res) \<Rightarrow> bool" where
  "rejects_frame_without_magic from_json \<longleftrightarrow> \<not> is_ok (decode_control from_json (as_bytes ''not-wg-link''))"

text \<open>
  The hash must tell the labels of the two roles apart, also after clamping, and the JSON
  conversion must be invertible on this message and fit a frame.
\<close>

lemma control_tests_pass:
  shows "derive_private (fst c) (replicate 32 9) (ShortcutId (replicate 16 7)) 1 (local_label Left)
      \<noteq> derive_private (fst c) (replicate 32 9) (ShortcutId (replicate 16 7)) 1 (local_label Right) \<Longrightarrow>
      opposite_roles_derive_matching_key_pair c"
    and rejects_expired_ticket
    and "to_json (Ticket (control_ticket Left)) = Inr json \<Longrightarrow> json \<noteq> [] \<Longrightarrow> length json + 8 \<le> MAX_CONTROL_FRAME_SIZE \<Longrightarrow>
      from_json json = Inr (Ticket (control_ticket Left)) \<Longrightarrow> control_frame_round_trip to_json from_json"
    and "rejects_frame_without_magic from_json"
proof -
  show "opposite_roles_derive_matching_key_pair c" if "derive_private (fst c) (replicate 32 9) (ShortcutId (replicate 16 7)) 1 (local_label Left)
      \<noteq> derive_private (fst c) (replicate 32 9) (ShortcutId (replicate 16 7)) 1 (local_label Right)"
    using that by (simp add: opposite_roles_derive_matching_key_pair_def derive_keys_def control_ticket_def Let_def)
  show rejects_expired_ticket
    by (simp add: rejects_expired_ticket_def validate_def control_ticket_def Let_def control_consts)
  show "control_frame_round_trip to_json from_json"
    if "to_json (Ticket (control_ticket Left)) = Inr json" "json \<noteq> []" "length json + 8 \<le> MAX_CONTROL_FRAME_SIZE"
      "from_json json = Inr (Ticket (control_ticket Left))"
    using that by (simp add: control_frame_round_trip_def encode_control_def decode_control_def CONTROL_MAGIC_def starts_with_def
        control_ticket_def)
  show "rejects_frame_without_magic from_json"
    by (simp add: rejects_frame_without_magic_def decode_control_def CONTROL_MAGIC_def starts_with_def as_bytes_def char_byte_def of_char_def)
qed

section \<open>transit.rs\<close>

definition transit_peer :: "string \<Rightarrow> ipnet \<Rightarrow> u64 \<Rightarrow> peer" where
  "transit_peer public_key allowed_ip latest_handshake = \<lparr> p_public_key = public_key, p_endpoint = None,
     p_allowed_ips = [allowed_ip], p_latest_handshake = latest_handshake, p_receive_bytes = 1, p_transmit_bytes = 1 \<rparr>"

definition transit_snapshot :: "u64 \<Rightarrow> snapshot" where
  "transit_snapshot handshake = \<lparr> s_public_key = ''middle'', s_listen_port = 51820,
     s_peers = [transit_peer ''upstream'' (net4 203 0 113 0 24) 950, transit_peer ''downstream'' (net4 198 51 100 0 24) handshake] \<rparr>"

definition shortcut_ingress_can_trigger_next_cascade_segment :: bool where
  "shortcut_ingress_can_trigger_next_cascade_segment \<longleftrightarrow>
     (let parent = SessionKey (ShortcutId (replicate 16 4)) 2 in
      case observe cidr_contains [] (transit_snapshot 990) (IngressShortcut ''left'' parent)
             (v4_of_octets [203, 0, 113, 9]) (v4_of_octets [198, 51, 100, 7]) 1000 of
        (_, None) \<Rightarrow> False
      | (_, Some opportunity) \<Rightarrow>
          to_upstream_public_key opportunity = ''left'' \<and> to_downstream_public_key opportunity = ''downstream''
          \<and> to_upstream_selector opportunity = net4 198 51 100 7 32 \<and> to_downstream_selector opportunity = net4 203 0 113 9 32
          \<and> to_parent_session opportunity = Some parent)"

definition repeated_flow_is_suppressed_without_blocking_forwarding :: bool where
  "repeated_flow_is_suppressed_without_blocking_forwarding \<longleftrightarrow>
     (let source = v4_of_octets [203, 0, 113, 9]; destination = v4_of_octets [198, 51, 100, 7] in
      case observe cidr_contains [] (transit_snapshot 990) (IngressBase ''upstream'') source destination 1000 of
        (detector, first) \<Rightarrow> first \<noteq> None
          \<and> snd (observe cidr_contains detector (transit_snapshot 990) (IngressBase ''upstream'') source destination 1005) = None)"

definition stale_base_handshake_does_not_authorize_ticket :: bool where
  "stale_base_handshake_does_not_authorize_ticket \<longleftrightarrow>
     snd (observe cidr_contains [] (transit_snapshot 700) (IngressBase ''upstream'')
       (v4_of_octets [203, 0, 113, 9]) (v4_of_octets [198, 51, 100, 7]) 1000) = None"

lemmas transit_run = observe_def transit_snapshot_def transit_peer_def net4_def v4_of_octets_def from_be_bytes_def nat_of_be_def
  route_peer_def longest_matching_prefix_def best_prefix_def snapshot_peer_def handshake_is_fresh_def suppressed_def host_selector_def
  AUTHENTICATED_PATH_SECONDS_def SUPPRESSION_SECONDS_def sat_sub_def Let_def

lemma transit_tests_pass:
  "shortcut_ingress_can_trigger_next_cascade_segment" "repeated_flow_is_suppressed_without_blocking_forwarding"
  "stale_base_handshake_does_not_authorize_ticket"
proof -
  show "shortcut_ingress_can_trigger_next_cascade_segment"
    by (simp add: shortcut_ingress_can_trigger_next_cascade_segment_def transit_run)
  show "repeated_flow_is_suppressed_without_blocking_forwarding"
    by (simp add: repeated_flow_is_suppressed_without_blocking_forwarding_def transit_run)
  show "stale_base_handshake_does_not_authorize_ticket"
    by (simp add: stale_base_handshake_does_not_authorize_ticket_def transit_run)
qed

section \<open>device.rs\<close>

definition device_target :: "u64 \<Rightarrow> route_target" where
  "device_target epoch = RouteTarget (SessionKey (ShortcutId (replicate 16 2)) epoch)"

definition userspace_routes_use_longest_prefix_match :: bool where
  "userspace_routes_use_longest_prefix_match \<longleftrightarrow>
     unwrap (device_replace device_routes_default (net4 198 51 100 0 24) (device_target 1)) (\<lambda>routes _.
     unwrap (device_replace routes (net4 198 51 100 7 32) (device_target 2)) (\<lambda>routes _.
       device_lookup cidr_contains routes (v4_of_octets [198, 51, 100, 7]) = Some (device_target 2)))"

definition parses_ipv4_and_ipv6_addresses :: bool where
  "parses_ipv4_and_ipv6_addresses \<longleftrightarrow>
     (let ipv4 = 0x45 # replicate 11 0 @ [198, 51, 100, 1] @ [198, 51, 100, 7];
          ipv6 = 0x60 # replicate 22 0 @ [1] @ replicate 15 0 @ [7] in
      packet_addresses ipv4 = Returned (Some (v4_of_octets [198, 51, 100, 1], v4_of_octets [198, 51, 100, 7]))
      \<and> (case packet_addresses ipv6 of Returned (Some _) \<Rightarrow> True | _ \<Rightarrow> False))"

definition session_index_is_stable_and_uses_twenty_four_bits :: "(bytes \<Rightarrow> bytes) \<Rightarrow> bool" where
  "session_index_is_stable_and_uses_twenty_four_bits hash \<longleftrightarrow>
     (let index = session_index hash (SessionKey (ShortcutId (replicate 16 3)) 4) in
      index = session_index hash (SessionKey (ShortcutId (replicate 16 3)) 4) \<and> index AND 0xff000000 = 0)"

lemma device_tests_pass:
  "userspace_routes_use_longest_prefix_match" "parses_ipv4_and_ipv6_addresses" "session_index_is_stable_and_uses_twenty_four_bits hash"
proof -
  show "userspace_routes_use_longest_prefix_match"
    by (simp add: userspace_routes_use_longest_prefix_match_def device_replace_def device_routes_default_def device_lookup_def
        net4_def v4_of_octets_def from_be_bytes_def nat_of_be_def)
  show "parses_ipv4_and_ipv6_addresses"
    by (simp add: parses_ipv4_and_ipv6_addresses_def packet_addresses_def exec_simps Let_def)
  show "session_index_is_stable_and_uses_twenty_four_bits hash"
    by (simp add: session_index_is_stable_and_uses_twenty_four_bits_def session_index_def Let_def and.assoc)
qed

end
