(* ===== verification/Chain_Test.thy ===== *)
theory Chain_Test
  imports Shortcut_Tests
begin

text \<open>
  The test of src/shortcut/mod.rs, the one test that runs the parts of the shortcut together: the
  cascade planner, two session managers with a recording route manager, the tunnels of both ends and
  the transit detector.  The random numbers that \<open>plan\<close> draws, the hash functions and the tunnel are
  parameters, and the test passes for every tunnel in which the two ends of a ticket pair authenticate.
\<close>

section \<open>mod.rs\<close>

record test_routes =
  tr_active :: "(ipnet \<times> route_target) list"

definition test_activate :: "test_routes activate_fn" where
  "test_activate r selector target = (r\<lparr> tr_active := tr_active r @ [(selector, target)] \<rparr>, Inr ())"

definition test_packet :: bytes where
  "test_packet = [0x45, 0, 0, 20, 0, 0, 0, 0, 64, 1, 0, 0, 203, 0, 113, 9, 198, 51, 100, 7]"

text \<open>\<open>None\<close> when one of the calls fails or does not return, or when it delivers no packet.\<close>

definition authenticate :: "'w tunn_api \<Rightarrow> 'w \<Rightarrow> 'w \<Rightarrow> (bool \<times> bool) option" where
  "authenticate api left right =
     (case tunnel_encapsulate api left test_packet of
        (left, Inr initiation) \<Rightarrow>
          (case network_packets initiation of
             [] \<Rightarrow> None
           | p # _ \<Rightarrow>
               (case tunnel_receive api right None p of
                  Some (right, Inr response) \<Rightarrow>
                    (case network_packets response of
                       [] \<Rightarrow> None
                     | q # _ \<Rightarrow>
                         (case tunnel_receive api left None q of
                            Some (left, Inr established) \<Rightarrow> Some (authenticated_flag established, authenticated_flag response)
                          | _ \<Rightarrow> None))
                | _ \<Rightarrow> None))
      | _ \<Rightarrow> None)"

definition chain_request :: "string \<Rightarrow> cascade_peer \<Rightarrow> cascade_peer \<Rightarrow> ipnet \<Rightarrow> ipnet \<Rightarrow> active_lease option \<Rightarrow> u64 \<Rightarrow> cascade_request" where
  "chain_request issuer upstream downstream up_sel down_sel parent now =
     \<lparr> cr_issuer_public_key = issuer, cr_upstream = upstream, cr_downstream = downstream, cr_upstream_selector = up_sel,
       cr_downstream_selector = down_sel, cr_parent = parent, cr_expires_at_limit = None, cr_renew_after_seconds = None, cr_now = now \<rparr>"

definition middle_snapshot :: snapshot where
  "middle_snapshot = \<lparr> s_public_key = ''middle'', s_listen_port = 51820, s_peers = [\<lparr> p_public_key = ''right'', p_endpoint = None,
     p_allowed_ips = [net4 198 51 100 0 24], p_latest_handshake = 1001, p_receive_bytes = 1, p_transmit_bytes = 1 \<rparr>] \<rparr>"

text \<open>
  One segment: both ends take their tickets and mark the handshake, the tunnels authenticate, both
  managers are told.  \<open>before\<close> and \<open>after\<close> are the numbers of active routes the test expects.
\<close>

definition chain_segment :: "crypto \<Rightarrow> 'w tunn_api \<Rightarrow> shortcut_ticket_pair \<Rightarrow> string \<Rightarrow> u64 \<Rightarrow> u64
    \<Rightarrow> test_routes shortcut_manager \<times> string \<times> u32 \<times> nat \<times> nat \<Rightarrow> test_routes shortcut_manager \<times> string \<times> u32 \<times> nat \<times> nat
    \<Rightarrow> (test_routes shortcut_manager \<Rightarrow> test_routes shortcut_manager \<Rightarrow> session_key \<Rightarrow> session_key \<Rightarrow> bool) \<Rightarrow> bool" where
  "chain_segment c api pair issuer now at = (\<lambda>(l, lk, li, l0, l1) (r, rk, ri, r0, r1) cont.
     unwrap (manager_receive_ticket (fst c) (snd c) l (tp_upstream pair) issuer lk now) (\<lambda>l lp.
     unwrap (manager_receive_ticket (fst c) (snd c) r (tp_downstream pair) issuer rk now) (\<lambda>r rp.
     unwrap (mark_handshaking l (ps_session lp)) (\<lambda>l _.
     unwrap (mark_handshaking r (ps_session rp)) (\<lambda>r _.
       length (tr_active (sm_routes l)) = l0 \<and> length (tr_active (sm_routes r)) = r0
       \<and> authenticate api (tunnel_new api (ps_keys lp) li) (tunnel_new api (ps_keys rp) ri) = Some (True, True)
       \<and> unwrap (authenticated_handshake test_activate l (ps_session lp) at) (\<lambda>l _.
         unwrap (authenticated_handshake test_activate r (ps_session rp) at) (\<lambda>r _.
           length (tr_active (sm_routes l)) = l1 \<and> length (tr_active (sm_routes r)) = r1
           \<and> cont l r (ps_session lp) (ps_session rp))))))))"

definition chained_shortcut_converges_only_after_each_authenticated_handshake ::
    "crypto \<Rightarrow> (bytes \<Rightarrow> bytes) \<Rightarrow> 'w tunn_api \<Rightarrow> bytes \<times> bytes \<Rightarrow> bytes \<times> bytes \<Rightarrow> bool" where
  "chained_shortcut_converges_only_after_each_authenticated_handshake c hash api rnd1 rnd2 \<longleftrightarrow>
     (let left = cascade_peer_of ''left'' ''left-peer''; middle = cascade_peer_of ''middle'' ''middle-peer'';
          right = cascade_peer_of ''right'' ''right-peer''; fresh = manager_new \<lparr> tr_active = [] \<rparr> in
      case plan hash (fst rnd1) (snd rnd1) (chain_request ''first-router'' left middle (net4 198 51 100 7 32) (net4 203 0 113 9 32) None 1000) of
        Inl e \<Rightarrow> False
      | Inr pair1 \<Rightarrow>
          chain_segment c api pair1 ''first-router'' 1001 1002 (fresh, ''left'', 1, 0, 1) (fresh, ''middle'', 2, 0, 1)
            (\<lambda>left_manager middle_manager left_session session.
             case snd (observe cidr_contains [] middle_snapshot (IngressShortcut ''left'' session)
                    (v4_of_octets [203, 0, 113, 9]) (v4_of_octets [198, 51, 100, 7]) 1003) of
               None \<Rightarrow> False
             | Some opportunity \<Rightarrow>
                 (case manager_active_lease middle_manager session of
                    None \<Rightarrow> False
                  | Some parent \<Rightarrow>
                      (case plan hash (fst rnd2) (snd rnd2) (chain_request ''middle'' left right
                              (to_upstream_selector opportunity) (to_downstream_selector opportunity) (Some parent) 1003) of
                         Inl e \<Rightarrow> False
                       | Inr child \<Rightarrow>
                           (case t_delegation (tp_upstream child) of
                              None \<Rightarrow> False
                            | Some d \<Rightarrow> parent_shortcut_id d = sk_shortcut_id session)
                           \<and> chain_segment c api child ''middle'' 1004 1005 (left_manager, ''left'', 3, 1, 2) (fresh, ''right'', 4, 0, 1)
                               (\<lambda>_ _ child_session _. sk_shortcut_id child_session \<noteq> ShortcutId (replicate 16 0))))))"

text \<open>One end of a segment, and both ends together.\<close>

lemma test_route_activates:
  fixes m :: "test_routes shortcut_manager"
  assumes held: "hm_get (sm_sessions m) k = Some \<lparr> ms_ticket = t, ms_phase = Handshaking \<rparr>" and time: "at < t_expires_at t"
  obtains m' where "authenticated_handshake test_activate m k at = (m', Inr True)"
    "length (tr_active (sm_routes m')) = Suc (length (tr_active (sm_routes m)))"
    "hm_get (sm_sessions m') k = Some \<lparr> ms_ticket = t, ms_phase = Active \<rparr>"
    "\<And>j. j \<noteq> k \<Longrightarrow> hm_get (sm_sessions m') j = None \<longleftrightarrow> hm_get (sm_sessions m) j = None"
proof -
  define drained where "drained = (case hm_get (sm_active_routes m) (t_selector t) of
      Some p \<Rightarrow> if p \<noteq> k then set_phase p Draining (sm_sessions m) else sm_sessions m | None \<Rightarrow> sm_sessions m)"
  have dk: "hm_get drained k = Some \<lparr> ms_ticket = t, ms_phase = Handshaking \<rparr>"
    using held by (auto simp: drained_def set_phase_get split: option.splits)
  have dj: "hm_get drained j = None \<longleftrightarrow> hm_get (sm_sessions m) j = None" if "j \<noteq> k" for j
    using that by (auto simp: drained_def set_phase_get split: option.splits)
  let ?m' = "m\<lparr> sm_routes := fst (test_activate (sm_routes m) (t_selector t) (RouteTarget k)), sm_sessions := set_phase k Active drained,
      sm_active_routes := hm_insert (t_selector t) k (sm_active_routes m) \<rparr>"
  have "authenticated_handshake test_activate m k at = (?m', Inr True)"
    using held time dk by (simp add: authenticated_handshake_def test_activate_def Let_def drained_def not_le)
  then show ?thesis using dk dj by (intro that [of ?m']) (simp_all add: test_activate_def set_phase_get)
qed

lemma segment_end:
  fixes m :: "test_routes shortcut_manager"
  assumes "validate t now = Inr ()" and "t_issuer_public_key t = issuer" and "t_recipient_public_key t = key"
    and "hm_get (sm_sessions m) (ticket_session t) = None" and "at < t_expires_at t"
  obtains m1 m2 m3 where
    "manager_receive_ticket kh pub m t issuer key now = (m1, Inr \<lparr> ps_session = ticket_session t, ps_keys = derive_keys kh pub t, ps_already_present = False \<rparr>)"
    "mark_handshaking m1 (ticket_session t) = (m2, Inr ())" "sm_routes m2 = sm_routes m"
    "authenticated_handshake test_activate m2 (ticket_session t) at = (m3, Inr True)"
    "length (tr_active (sm_routes m3)) = Suc (length (tr_active (sm_routes m)))"
    "hm_get (sm_sessions m3) (ticket_session t) = Some \<lparr> ms_ticket = t, ms_phase = Active \<rparr>"
    "\<And>j. j \<noteq> ticket_session t \<Longrightarrow> hm_get (sm_sessions m3) j = None \<longleftrightarrow> hm_get (sm_sessions m) j = None"
proof -
  let ?k = "ticket_session t"
  define m1 where "m1 = m\<lparr> sm_sessions := hm_insert ?k \<lparr> ms_ticket = t, ms_phase = Prepared \<rparr> (sm_sessions m) \<rparr>"
  define m2 where "m2 = m1\<lparr> sm_sessions := hm_insert ?k \<lparr> ms_ticket = t, ms_phase = Handshaking \<rparr> (sm_sessions m1) \<rparr>"
  have recv: "manager_receive_ticket kh pub m t issuer key now = (m1, Inr \<lparr> ps_session = ?k, ps_keys = derive_keys kh pub t, ps_already_present = False \<rparr>)"
    using assms(1-4) by (simp add: manager_receive_ticket_def ticket_session_def Let_def m1_def)
  have mark: "mark_handshaking m1 ?k = (m2, Inr ())" by (simp add: mark_handshaking_def m2_def) (simp add: m1_def)
  have s2: "sm_routes m2 = sm_routes m" "hm_get (sm_sessions m2) ?k = Some \<lparr> ms_ticket = t, ms_phase = Handshaking \<rparr>"
    "\<And>j. j \<noteq> ?k \<Longrightarrow> hm_get (sm_sessions m2) j = hm_get (sm_sessions m) j"
    by (simp_all add: m2_def m1_def)
  show ?thesis
  proof (rule test_route_activates [OF s2(2) assms(5)])
    fix m3
    assume "authenticated_handshake test_activate m2 ?k at = (m3, Inr True)"
      "length (tr_active (sm_routes m3)) = Suc (length (tr_active (sm_routes m2)))"
      "hm_get (sm_sessions m3) ?k = Some \<lparr> ms_ticket = t, ms_phase = Active \<rparr>"
      "\<And>j. j \<noteq> ?k \<Longrightarrow> hm_get (sm_sessions m3) j = None \<longleftrightarrow> hm_get (sm_sessions m2) j = None"
    with s2 show ?thesis by (intro that [of m1 m2 m3] recv mark) simp_all
  qed
qed

lemma segment_runs:
  fixes l r :: "test_routes shortcut_manager"
  assumes plan: "plan hash rid secret req = Inr pair" and parent: "parent_ok (cr_parent req)" and renew: "cr_renew_after_seconds req = None"
    and named: "cp_public_key (cr_upstream req) \<noteq> []" "cp_public_key (cr_downstream req) \<noteq> []"
    and time: "cr_now req \<le> now" "now < plan_expires_at req" "at < plan_expires_at req"
    and new: "hm_get (sm_sessions l) (SessionKey (ShortcutId rid) 1) = None" "hm_get (sm_sessions r) (SessionKey (ShortcutId rid) 1) = None"
    and hs: "\<And>t u. ticket_pair t u \<Longrightarrow> authenticate api (tunnel_new api (derive_keys (fst c) (snd c) t) li)
      (tunnel_new api (derive_keys (fst c) (snd c) u) ri) = Some (True, True)"
    and parties: "issuer = cr_issuer_public_key req" "lk = cp_public_key (cr_upstream req)" "rk = cp_public_key (cr_downstream req)"
    and counts: "length (tr_active (sm_routes l)) = l0" "length (tr_active (sm_routes r)) = r0"
    and rest: "\<And>l' r'. length (tr_active (sm_routes l')) = Suc l0 \<Longrightarrow>
      (\<And>j. j \<noteq> SessionKey (ShortcutId rid) 1 \<Longrightarrow> hm_get (sm_sessions l') j = None \<longleftrightarrow> hm_get (sm_sessions l) j = None) \<Longrightarrow>
      hm_get (sm_sessions r') (SessionKey (ShortcutId rid) 1) = Some \<lparr> ms_ticket = tp_downstream pair, ms_phase = Active \<rparr> \<Longrightarrow>
      cont l' r' (SessionKey (ShortcutId rid) 1) (SessionKey (ShortcutId rid) 1)"
  shows "chain_segment c api pair issuer now at (l, lk, li, l0, Suc l0) (r, rk, ri, r0, Suc r0) cont"
proof -
  let ?k = "SessionKey (ShortcutId rid) 1"
  from plan obtain deleg where
    up: "tp_upstream pair = common_ticket req rid secret deleg Left (cr_upstream_selector req) (cr_upstream req) (cr_downstream req)"
    and down: "tp_downstream pair = common_ticket req rid secret deleg Right (cr_downstream_selector req) (cr_downstream req) (cr_upstream req)"
    by (rule plan_SomeD)
  have k: "ticket_session (tp_upstream pair) = ?k" "ticket_session (tp_downstream pair) = ?k"
    by (simp_all add: up down common_ticket_def ticket_session_def)
  have f: "t_issuer_public_key (tp_upstream pair) = cr_issuer_public_key req" "t_issuer_public_key (tp_downstream pair) = cr_issuer_public_key req"
    "t_recipient_public_key (tp_upstream pair) = cp_public_key (cr_upstream req)"
    "t_recipient_public_key (tp_downstream pair) = cp_public_key (cr_downstream req)"
    "t_expires_at (tp_upstream pair) = plan_expires_at req" "t_expires_at (tp_downstream pair) = plan_expires_at req"
    by (simp_all add: up down common_ticket_def)
  have pair: "ticket_pair (tp_upstream pair) (tp_downstream pair)" by (simp add: up down common_ticket_def ticket_pair_def)
  have v: "validate (tp_upstream pair) now = Inr ()" "validate (tp_downstream pair) now = Inr ()"
    using plan_ticket_ok [OF plan parent _ named] renew time f by (simp_all add: validate_ok_iff ticket_ok_later)
  obtain l1 l2 l3 where L: "manager_receive_ticket (fst c) (snd c) l (tp_upstream pair) (cr_issuer_public_key req) (cp_public_key (cr_upstream req)) now
      = (l1, Inr \<lparr> ps_session = ?k, ps_keys = derive_keys (fst c) (snd c) (tp_upstream pair), ps_already_present = False \<rparr>)"
    "mark_handshaking l1 ?k = (l2, Inr ())" "sm_routes l2 = sm_routes l" "authenticated_handshake test_activate l2 ?k at = (l3, Inr True)"
    "length (tr_active (sm_routes l3)) = Suc (length (tr_active (sm_routes l)))"
    "\<And>j. j \<noteq> ?k \<Longrightarrow> hm_get (sm_sessions l3) j = None \<longleftrightarrow> hm_get (sm_sessions l) j = None"
    by (rule segment_end [OF v(1) f(1,3), of l at, unfolded k]) (use new(1) time(3) f(5) in auto)
  obtain r1 r2 r3 where R: "manager_receive_ticket (fst c) (snd c) r (tp_downstream pair) (cr_issuer_public_key req) (cp_public_key (cr_downstream req)) now
      = (r1, Inr \<lparr> ps_session = ?k, ps_keys = derive_keys (fst c) (snd c) (tp_downstream pair), ps_already_present = False \<rparr>)"
    "mark_handshaking r1 ?k = (r2, Inr ())" "sm_routes r2 = sm_routes r" "authenticated_handshake test_activate r2 ?k at = (r3, Inr True)"
    "length (tr_active (sm_routes r3)) = Suc (length (tr_active (sm_routes r)))"
    "hm_get (sm_sessions r3) ?k = Some \<lparr> ms_ticket = tp_downstream pair, ms_phase = Active \<rparr>"
    by (rule segment_end [OF v(2) f(2,4), of r at, unfolded k]) (use new(2) time(3) f(6) in auto)
  have "cont l3 r3 ?k ?k" using L(5,6) R(6) counts by (intro rest) auto
  then show ?thesis using L R hs [OF pair] counts by (simp add: chain_segment_def parties)
qed

lemma chain_observes:
  "snd (observe cidr_contains [] middle_snapshot (IngressShortcut ''left'' k)
      (v4_of_octets [203, 0, 113, 9]) (v4_of_octets [198, 51, 100, 7]) 1003) =
   Some \<lparr> to_upstream_public_key = ''left'', to_downstream_public_key = ''right'',
     to_upstream_selector = net4 198 51 100 7 32, to_downstream_selector = net4 203 0 113 9 32, to_parent_session = Some k \<rparr>"
  by (simp add: middle_snapshot_def transit_run)

lemma chain_plans:
  "\<exists>pair. plan hash rid secret (chain_request ''first-router'' (cascade_peer_of ''left'' ''left-peer'')
      (cascade_peer_of ''middle'' ''middle-peer'') up down None 1000) = Inr pair
    \<and> t_delegation (tp_downstream pair) = None \<and> t_expires_at (tp_downstream pair) = 1180"
  by (simp add: cascade_run chain_request_def)

lemma chain_delegates:
  assumes "al_expires_at parent = 1180" "al_delegation parent = None"
  shows "\<exists>pair d. plan hash rid secret (chain_request ''middle'' (cascade_peer_of ''left'' ''left-peer'')
      (cascade_peer_of ''right'' ''right-peer'') up down (Some parent) 1003) = Inr pair
    \<and> t_delegation (tp_upstream pair) = Some d \<and> parent_shortcut_id d = sk_shortcut_id (al_session parent)"
  using assms by (simp add: cascade_run chain_request_def)

lemmas chain_first = chain_request_def cascade_peer_of_def

lemma chain_second:
  fixes l :: "test_routes shortcut_manager"
  assumes rnd: "fst rnd2 \<noteq> replicate 16 0"
    and hs: "\<And>t u i j. ticket_pair t u \<Longrightarrow> authenticate api (tunnel_new api (derive_keys (fst c) (snd c) t) i)
      (tunnel_new api (derive_keys (fst c) (snd c) u) j) = Some (True, True)"
    and left: "hm_get (sm_sessions l) (SessionKey (ShortcutId (fst rnd2)) 1) = None" "length (tr_active (sm_routes l)) = 1"
    and parent: "al_expires_at parent = 1180" "al_delegation parent = None"
    and child: "plan hash (fst rnd2) (snd rnd2) (chain_request ''middle'' (cascade_peer_of ''left'' ''left-peer'')
      (cascade_peer_of ''right'' ''right-peer'') up down (Some parent) 1003) = Inr pair"
  shows "chain_segment c api pair ''middle'' 1004 1005 (l, ''left'', 3, 1, 2) (manager_new \<lparr> tr_active = [] \<rparr>, ''right'', 4, 0, 1)
    (\<lambda>_ _ child_session _. sk_shortcut_id child_session \<noteq> ShortcutId (replicate 16 0))"
  unfolding numeral_2_eq_2 One_nat_def
  by (rule segment_runs [OF child])
    (use rnd left parent in \<open>simp_all add: chain_first parent_ok_def plan_expires_at_def sat_add_def control_consts manager_new_def hs\<close>)

theorem chained_shortcut_passes:
  assumes rnd: "fst rnd1 \<noteq> fst rnd2" "fst rnd2 \<noteq> replicate 16 0"
    and hs: "\<And>t u i j. ticket_pair t u \<Longrightarrow> authenticate api (tunnel_new api (derive_keys (fst c) (snd c) t) i)
      (tunnel_new api (derive_keys (fst c) (snd c) u) j) = Some (True, True)"
  shows "chained_shortcut_converges_only_after_each_authenticated_handshake c hash api rnd1 rnd2"
proof -
  let ?first = "chain_request ''first-router'' (cascade_peer_of ''left'' ''left-peer'') (cascade_peer_of ''middle'' ''middle-peer'')
    (net4 198 51 100 7 32) (net4 203 0 113 9 32) None 1000"
  obtain pair where p1: "plan hash (fst rnd1) (snd rnd1) ?first = Inr pair"
    and t1: "t_delegation (tp_downstream pair) = None" "t_expires_at (tp_downstream pair) = 1180" using chain_plans by blast
  show ?thesis
    unfolding chained_shortcut_converges_only_after_each_authenticated_handshake_def Let_def p1 sum.case chain_observes option.case One_nat_def
  proof (rule segment_runs [OF p1], goal_cases)
    case (16 l r)
    let ?k = "SessionKey (ShortcutId (fst rnd1)) 1"
    let ?parent = "\<lparr> al_session = ?k, al_expires_at = 1180, al_delegation = None \<rparr>"
    from 16 t1 have lease: "manager_active_lease r ?k = Some ?parent" by (simp add: manager_active_lease_def)
    have new: "hm_get (sm_sessions l) (SessionKey (ShortcutId (fst rnd2)) 1) = None" "length (tr_active (sm_routes l)) = 1"
      using 16(1,2) rnd(1) by (simp_all add: manager_new_def)
    obtain child d where "plan hash (fst rnd2) (snd rnd2) (chain_request ''middle'' (cascade_peer_of ''left'' ''left-peer'')
        (cascade_peer_of ''right'' ''right-peer'') (net4 198 51 100 7 32) (net4 203 0 113 9 32) (Some ?parent) 1003) = Inr child"
      "t_delegation (tp_upstream child) = Some d" "parent_shortcut_id d = sk_shortcut_id ?k"
      using chain_delegates [of ?parent] by (metis (no_types) active_lease.select_convs)
    with chain_second [OF rnd(2) hs new _ _ this(1)] lease show ?case by simp
  qed (simp_all add: chain_first parent_ok_def plan_expires_at_def sat_add_def control_consts manager_new_def hs)
qed

text \<open>The tunnel of the examples authenticates both ends of every ticket pair, so the test passes with it.\<close>

lemma keyed_receives:
  assumes "keyed_decapsulate pub (a, p, []) None d = ((a, p, []), WriteToNetwork x)"
  shows "tunnel_receive (keyed_api pub) (a, p, []) None d = Some ((a, p, []), Inr \<lparr> network_packets = [x], tunnel_packets = [],
    authenticated_flag = authenticates (wireguard_message_type d) [x] \<rparr>)"
  using receive_loop_drains [OF keyed_drains [OF assms], of empty_output]
  by (simp add: tunnel_receive_def keyed_api_def loop_result_def empty_output_def)

lemma keyed_authenticates:
  assumes "ticket_pair t u"
  shows "authenticate (keyed_api pub) (tunnel_new (keyed_api pub) (derive_keys kh pub t) i)
    (tunnel_new (keyed_api pub) (derive_keys kh pub u) j) = Some (True, True)"
proof -
  obtain a p b q where k: "local_private (derive_keys kh pub t) = a" "remote_public (derive_keys kh pub t) = p"
    "local_private (derive_keys kh pub u) = b" "remote_public (derive_keys kh pub u) = q" by blast
  have "p = pub b" "q = pub a"
    using k paired_keys(1) [OF assms, of kh pub] paired_keys(1) [OF ticket_pair_sym [OF assms], of kh pub] by simp_all
  moreover have "tunnel_new (keyed_api pub) (derive_keys kh pub t) i = (a, p, [])" "tunnel_new (keyed_api pub) (derive_keys kh pub u) j = (b, q, [])"
    by (simp_all add: tunnel_new_def keyed_api_def k)
  moreover have "tunnel_encapsulate (keyed_api pub) w test_packet = (w, Inr (empty_output\<lparr> network_packets := [[1, 0, 0, 0] @ fst (snd w)] \<rparr>))" for w
    by (cases w) (simp add: tunnel_encapsulate_def keyed_api_def empty_output_def)
  ultimately show ?thesis
    by (simp add: authenticate_def keyed_receives authenticates_def message_types HANDSHAKE_INITIATION_def HANDSHAKE_RESPONSE_def)
qed

end
