(* ===== verification/Path_Tests.thy ===== *)
theory Path_Tests
  imports Complex_Main Shortcut_Tests
begin

text \<open>
  The unit tests outside src/src/shortcut, replayed on the model in the way of \<open>Shortcut_Tests\<close>: frames and
  peer names of easytier.rs, the broker, the metrics, the identities, WireGuard inspection, discovery,
  the management interface and the hub.  A call that panics fails the test (\<open>returned\<close>).  Where the
  outcome of a test hangs on a hash function, on floating point or on the clock, the lemma says
  what it needs of them.
\<close>

definition returned :: "'a exec \<Rightarrow> ('a \<Rightarrow> bool) \<Rightarrow> bool" where
  "returned r f = (case r of Panicked \<Rightarrow> False | Returned a \<Rightarrow> f a)"

lemma returned_simps [simp]: "returned (Returned a) f = f a" "returned Panicked f = False"
  by (simp_all add: returned_def)

definition sock4 :: "u8 \<Rightarrow> u8 \<Rightarrow> u8 \<Rightarrow> u8 \<Rightarrow> u16 \<Rightarrow> socket_addr" where
  "sock4 a b c d port = SocketAddr (v4_of_octets [a, b, c, d]) port"

lemmas address_run = sock4_def net4_def v4_of_octets_def from_be_bytes_def nat_of_be_def

text \<open>\<open>slice::windows\<close>, and \<open>str::contains\<close> with a string that is not empty.\<close>

definition windows :: "nat \<Rightarrow> 'a list \<Rightarrow> 'a list list" where
  "windows n xs = map (\<lambda>i. take n (drop i xs)) [0..<length xs + 1 - n]"

definition contains_str :: "string \<Rightarrow> string \<Rightarrow> bool" where
  "contains_str s pat \<longleftrightarrow> pat \<in> set (windows (length pat) s)"

lemma windows_members: "w \<in> set (windows n xs) \<Longrightarrow> set w \<subseteq> set xs"
  by (auto simp: windows_def dest: in_set_takeD in_set_dropD)

lemma be_nat_numeral: "be_nat (numeral n) v = be_nat (pred_numeral n) (v div 256) @ [word_of_nat v]"
  by (simp only: numeral_eq_Suc be_nat.simps)

section \<open>main.rs\<close>

definition hub_peer :: "string \<Rightarrow> ipnet \<Rightarrow> peer" where
  "hub_peer public_key address = \<lparr> p_public_key = public_key, p_endpoint = None, p_allowed_ips = [address],
     p_latest_handshake = 7200, p_receive_bytes = 0, p_transmit_bytes = 0 \<rparr>"

definition hub_pair_tickets_connect_endpoints_without_hub_as_remote ::
    "(bytes \<Rightarrow> bytes) \<Rightarrow> (bytes \<Rightarrow> string) \<Rightarrow> (ipnet \<Rightarrow> string) \<Rightarrow> bytes \<times> bytes \<Rightarrow> bool" where
  "hub_pair_tickets_connect_endpoints_without_hub_as_remote hash hex to_string rnd \<longleftrightarrow>
     (let left = hub_peer ''left-public-key'' (net4 192 168 38 2 32); right = hub_peer ''right-public-key'' (net4 192 168 38 3 32) in
      returned (plan_peer_pair hash hex rnd ''hub-public-key'' left (v4_of_octets [192, 168, 38, 2])
          right (v4_of_octets [192, 168, 38, 3]) 7200) (\<lambda>r.
        case r of
          Inl e \<Rightarrow> False
        | Inr (pair, next_issue) \<Rightarrow>
            t_shortcut_id (tp_upstream pair) = t_shortcut_id (tp_downstream pair)
            \<and> t_issuer_public_key (tp_upstream pair) = ''hub-public-key''
            \<and> t_recipient_public_key (tp_upstream pair) = ''left-public-key''
            \<and> t_remote_public_key (tp_upstream pair) = ''right-public-key''
            \<and> to_string (t_selector (tp_upstream pair)) = ''192.168.38.3/32''
            \<and> t_recipient_public_key (tp_downstream pair) = ''right-public-key''
            \<and> t_remote_public_key (tp_downstream pair) = ''left-public-key''
            \<and> to_string (t_selector (tp_downstream pair)) = ''192.168.38.2/32''
            \<and> \<not> contains_str (t_remote_peer_id (tp_upstream pair)) ''hub''
            \<and> t_renew_at (tp_upstream pair) = 7320 \<and> t_expires_at (tp_upstream pair) = 7380 \<and> next_issue = 7290))"

definition hub_issue_key_is_order_independent :: bool where
  "hub_issue_key_is_order_independent \<longleftrightarrow> ordered_hub_issue_key ''left'' ''right'' = ordered_hub_issue_key ''right'' ''left''"

definition hub_does_not_reissue_near_handshake_deadline :: bool where
  "hub_does_not_reissue_near_handshake_deadline \<longleftrightarrow>
     renewable_handshake 7200 7200 \<and> \<not> renewable_handshake 7200 7260 \<and> fresh_handshake 7200 7350"

lemma no_hub_in_hex:
  assumes "\<And>b. set (hex b) \<subseteq> set ''0123456789abcdef''"
  shows "\<not> contains_str (''wgl-'' @ take n (hex b)) ''hub''"
proof
  assume "contains_str (''wgl-'' @ take n (hex b)) ''hub''"
  then have "set ''hub'' \<subseteq> set (''wgl-'' @ take n (hex b))" unfolding contains_str_def by (rule windows_members)
  then have "CHR ''h'' \<in> set (hex b)" by (auto dest: in_set_takeD)
  with assms [of b] show False by auto
qed

lemma hub_tests_pass:
  assumes "hex16 hash hex" and "\<And>b. set (hex b) \<subseteq> set ''0123456789abcdef''"
    and "to_string (net4 192 168 38 3 32) = ''192.168.38.3/32''" "to_string (net4 192 168 38 2 32) = ''192.168.38.2/32''"
  shows "hub_pair_tickets_connect_endpoints_without_hub_as_remote hash hex to_string rnd"
    and "hub_issue_key_is_order_independent" and "hub_does_not_reissue_near_handshake_deadline"
proof -
  show "hub_issue_key_is_order_independent" unfolding hub_issue_key_is_order_independent_def ordered_hub_issue_key_def by auto
  show "hub_does_not_reissue_near_handshake_deadline"
    by (simp add: hub_does_not_reissue_near_handshake_deadline_def renewable_handshake_def fresh_handshake_def
        BASE_HANDSHAKE_LIFETIME_SECONDS_def control_consts sat_add_def sat_sub_def)
  show "hub_pair_tickets_connect_endpoints_without_hub_as_remote hash hex to_string rnd"
    using assms(3,4) no_hub_in_hex [OF assms(2)]
    by (simp add: hub_pair_tickets_connect_endpoints_without_hub_as_remote_def plan_peer_pair_def rotating_node_name_returns [OF assms(1)]
        node_name_def hub_peer_def cascade_run plan_renew_at_def hub_consts hub_host_selector_def address_run sat_sub_def max_def)
qed

section \<open>discovery\<close>

definition filters_non_public_candidates :: bool where
  "filters_non_public_candidates \<longleftrightarrow>
     retain_public_candidates [sock4 8 8 8 8 443, sock4 10 0 0 1 443, sock4 100 64 0 1 443, sock4 127 0 0 1 443, sock4 192 0 2 1 443,
       SocketAddr (V6 0x20010db8000000000000000000000001) 443, SocketAddr (V6 0xfc000000000000000000000000000001) 443]
     = [sock4 8 8 8 8 443]"

definition stun_test_response :: "bytes \<Rightarrow> bytes" where
  "stun_test_response attribute =
     to_be_bytes (0x0101 :: u16) @ [0, 0, 0, 0, 0, 0] @ [1, 2, 3, 4, 5, 6, 7, 8, 9, 10, 11, 12]
     @ to_be_bytes (0x0020 :: u16) @ to_be_bytes (word_of_nat (length attribute) :: u16) @ attribute"

definition parses_xor_mapped_ipv4 :: bool where
  "parses_xor_mapped_ipv4 \<longleftrightarrow>
     (let port = 51820 XOR ucast (drop_bit 16 MAGIC_COOKIE) :: u16; cookie = to_be_bytes MAGIC_COOKIE;
          attribute = [0, 1, ucast (drop_bit 8 port), ucast port, 1 XOR cookie ! 0, 2 XOR cookie ! 1, 3 XOR cookie ! 2, 4 XOR cookie ! 3] in
      parse_xor_mapped (stun_test_response attribute) = Returned (Inr (sock4 1 2 3 4 51820)))"

definition rejects_missing_xor_mapped_address :: bool where
  "rejects_missing_xor_mapped_address \<longleftrightarrow> returned (parse_xor_mapped (replicate 20 0)) (\<lambda>r. \<not> is_ok r)"

definition compact_peers_ignores_incomplete_tail :: bool where
  "compact_peers_ignores_incomplete_tail \<longleftrightarrow> compact_peers_v4 [8, 8, 8, 8, 0x01, 0xbb, 1, 2] = [sock4 8 8 8 8 443]"

definition compact_ipv6_peers_ignore_incomplete_tail :: bool where
  "compact_ipv6_peers_ignore_incomplete_tail \<longleftrightarrow>
     compact_peers_v6 (v6_octets 1 @ to_be_bytes (443 :: u16) @ [1]) = [SocketAddr (V6 1) 443]"

definition percent_encoding_is_byte_safe :: bool where
  "percent_encoding_is_byte_safe \<longleftrightarrow> percent_bytes [0, 0xab, 0xff] = ''%00%AB%FF''"

definition tracker_event_values_match_bep_15 :: bool where
  "tracker_event_values_match_bep_15 \<longleftrightarrow> udp_value Update = 0 \<and> udp_value Started = 2 \<and> udp_value Stopped = 3"

lemma hex_digit_chars:
  "upper_hex_digit 0 = CHR ''0''" "upper_hex_digit 10 = CHR ''A''" "upper_hex_digit 11 = CHR ''B''" "upper_hex_digit 15 = CHR ''F''"
  by code_simp+

lemma tracker_tests_pass:
  "compact_peers_ignores_incomplete_tail" "percent_encoding_is_byte_safe" "tracker_event_values_match_bep_15"
proof -
  show "compact_peers_ignores_incomplete_tail"
    by (simp add: compact_peers_ignores_incomplete_tail_def compact_peers_v4_def chunks_exact.simps address_run)
  show "percent_encoding_is_byte_safe"
    by (simp add: percent_encoding_is_byte_safe_def percent_bytes_def percent_byte_def hex_digit_chars)
  show "tracker_event_values_match_bep_15" by (simp add: tracker_event_values_match_bep_15_def)
qed

lemma compact_ipv6_passes: "compact_ipv6_peers_ignore_incomplete_tail"
  by (simp add: compact_ipv6_peers_ignore_incomplete_tail_def compact_peers_v6_def chunks_exact.simps v6_octets_def v6_of_octets_def)

lemma stun_tests_pass: "parses_xor_mapped_ipv4" "rejects_missing_xor_mapped_address"
proof -
  show "rejects_missing_xor_mapped_address"
    by (simp add: rejects_missing_xor_mapped_address_def parse_xor_mapped_def xor_mapped_from.simps)
  show "parses_xor_mapped_ipv4"
    by (simp add: parses_xor_mapped_ipv4_def stun_test_response_def parse_xor_mapped_def xor_mapped_from.simps attribute_at_def
        xor_address_at_def xor_bytes_def slice_def index_at_def MAGIC_COOKIE_def to_be_bytes_def be_nat_numeral address_run Let_def)
qed

lemma filters_non_public_passes: "filters_non_public_candidates"
  by (simp add: filters_non_public_candidates_def retain_public_candidates_def address_run
      is_public_ipv4_def is_public_ipv6_def v4_octets_def v6_segments_head v6_segments_head [simplified] to_be_bytes_def be_nat_numeral)

definition announcement_round_trips_without_relay_address :: bool where
  "announcement_round_trips_without_relay_address \<longleftrightarrow>
     (let announcement = \<lparr> an_node_id = ''0123456789abcdef'', an_network = ''wglr-test'', an_period = 42, an_listener_port = 43210 \<rparr> in
      exec_bind (encode_announcement announcement) decode_announcement = Returned (Some announcement))"

definition malformed_announcement_is_rejected :: bool where
  "malformed_announcement_is_rejected \<longleftrightarrow>
     decode_announcement (as_bytes ''bad'') = Returned None
     \<and> returned (encode_announcement \<lparr> an_node_id = ''0123456789abcdef'', an_network = ''network'', an_period = 1, an_listener_port = 1 \<rparr>)
         (\<lambda>packet. decode_announcement (packet[8 := 99]) = Returned None)"

definition announcement_uses_rotating_node_id_instead_of_relay_or_public_key ::
    "(bytes \<Rightarrow> bytes) \<Rightarrow> (bytes \<Rightarrow> string) \<Rightarrow> bool" where
  "announcement_uses_rotating_node_id_instead_of_relay_or_public_key hash hex \<longleftrightarrow>
     (let public_key = ''wg-peer-public-key''; period = 42 in
      returned (rotating_node_id hash hex public_key period) (\<lambda>i.
      returned (encode_announcement \<lparr> an_node_id = i, an_network = ''wglr-test'', an_period = period, an_listener_port = 43210 \<rparr>) (\<lambda>encoded.
        as_bytes public_key \<notin> set (windows (length public_key) encoded)
        \<and> as_bytes ''59.110.138.44'' \<notin> set (windows (length ''59.110.138.44'') encoded))))"

definition virtual_interfaces_are_not_lan_discovery_sources :: bool where
  "virtual_interfaces_are_not_lan_discovery_sources \<longleftrightarrow>
     is_virtual_interface ''wg-link0'' \<and> is_virtual_interface ''tun0'' \<and> is_virtual_interface ''wgls0'' \<and> is_virtual_interface ''docker0''
     \<and> is_virtual_interface ''br-deadbeef'' \<and> \<not> is_virtual_interface ''eno1'' \<and> \<not> is_virtual_interface ''eth0''"

definition rotating_id_does_not_require_a_preconfigured_wireguard_peer ::
    "(bytes \<Rightarrow> bytes) \<Rightarrow> (bytes \<Rightarrow> string) \<Rightarrow> bool" where
  "rotating_id_does_not_require_a_preconfigured_wireguard_peer hash hex \<longleftrightarrow>
     (let public_key = ''shortcut-peer-learned-after-ticket''; period = 42 in
      returned (rotating_node_id hash hex public_key period) (\<lambda>i.
        let announcement = \<lparr> an_node_id = i, an_network = ''wglr-test'', an_period = period, an_listener_port = 43210 \<rparr> in
        an_node_id announcement \<noteq> public_key \<and> an_listener_port announcement \<noteq> DISCOVERY_PORT))"

lemma lan_tests_pass:
  "announcement_round_trips_without_relay_address" "malformed_announcement_is_rejected" "virtual_interfaces_are_not_lan_discovery_sources"
proof -
  let ?a = "\<lparr> an_node_id = ''0123456789abcdef'', an_network = ''wglr-test'', an_period = 42, an_listener_port = 43210 \<rparr>"
  have "rust_str ''0123456789abcdef''" "rust_str ''wglr-test''" by code_simp+
  then have "wf_announcement ?a" by (simp add: wf_announcement_def lan_consts)
  moreover obtain p where "encode_announcement ?a = Returned p" by (simp add: encode_announcement_def Let_def lan_consts)
  ultimately show "announcement_round_trips_without_relay_address"
    using decode_encode [of ?a p] by (simp add: announcement_round_trips_without_relay_address_def)
  show "malformed_announcement_is_rejected"
    by (simp add: malformed_announcement_is_rejected_def encode_announcement_def decode_announcement_def Let_def lan_consts index_at_def
        nth_append list_update_append)
  show "virtual_interfaces_are_not_lan_discovery_sources"
    unfolding virtual_interfaces_are_not_lan_discovery_sources_def by code_simp
qed

lemma rotating_id_passes:
  assumes "hex16 hash hex"
  shows "rotating_id_does_not_require_a_preconfigured_wireguard_peer hash hex"
proof -
  have "node_id hash hex key 42 \<noteq> ''shortcut-peer-learned-after-ticket''" for key
    using length_node_id [OF assms, of key 42] by auto
  then show ?thesis
    by (simp add: rotating_id_does_not_require_a_preconfigured_wireguard_peer_def rotating_node_id_returns [OF assms] DISCOVERY_PORT_def)
qed

lemma windows_iff: "w \<in> set (windows n xs) \<longleftrightarrow> (\<exists>i < length xs + 1 - n. take n (drop i xs) = w)"
  by (auto simp: windows_def)

lemma announcement_windows:
  fixes k :: bytes
  assumes "length k = 16" and dot: "46 \<notin> set k"
  defines "encoded \<equiv> [87, 71, 76, 65, 78, 48, 49, 0, 1, 0, 16] @ k @ [0, 0, 0, 0, 0, 0, 0, 42, 168, 202, 9, 119, 103, 108, 114, 45, 116, 101, 115, 116]"
  shows "[119, 103, 45, 112, 101, 101, 114, 45, 112, 117, 98, 108, 105, 99, 45, 107, 101, 121] \<notin> set (windows 18 encoded)"
    and "[53, 57, 46, 49, 49, 48, 46, 49, 51, 56, 46, 52, 52] \<notin> set (windows 13 encoded)"
proof -
  have "length k = Suc (Suc (Suc (Suc (Suc (Suc (Suc (Suc (Suc (Suc (Suc (Suc (Suc (Suc (Suc (Suc 0)))))))))))))))"
    using assms(1) by simp
  then obtain a b c d e f g h a' b' c' d' e' f' g' h' where
    k: "k = [a, b, c, d, e, f, g, h, a', b', c', d', e', f', g', h']" by (auto simp: length_Suc_conv)
  show "[119, 103, 45, 112, 101, 101, 114, 45, 112, 117, 98, 108, 105, 99, 45, 107, 101, 121] \<notin> set (windows 18 encoded)"
    by (simp add: encoded_def k windows_def upt_rec_numeral)
  show "[53, 57, 46, 49, 49, 48, 46, 49, 51, 56, 46, 52, 52] \<notin> set (windows 13 encoded)"
    using dot by (simp add: encoded_def k windows_def upt_rec_numeral)
qed

lemma rotating_announcement_passes:
  assumes hx: "hex16 hash hex" and digits: "\<And>b. set (hex b) \<subseteq> set ''0123456789abcdef''"
  shows "announcement_uses_rotating_node_id_instead_of_relay_or_public_key hash hex"
proof -
  define i where "i = node_id hash hex ''wg-peer-public-key'' 42"
  have len: "length i = 16" using length_node_id [OF hx] by (simp add: i_def)
  have "CHR ''.'' \<notin> set i"
    using digits by (auto simp: i_def node_id_def dest!: in_set_takeD)
  moreover have "char_byte (CHR ''.'') = 46" by code_simp
  ultimately have dot: "46 \<notin> set (as_bytes i)"
    by (metis as_bytes_def byte_char_char_byte imageE image_set)
  have "encode_announcement \<lparr> an_node_id = i, an_network = ''wglr-test'', an_period = 42, an_listener_port = 43210 \<rparr>
    = Returned ([87, 71, 76, 65, 78, 48, 49, 0, 1, 0, 16] @ as_bytes i @ [0, 0, 0, 0, 0, 0, 0, 42, 168, 202, 9, 119, 103, 108, 114, 45, 116, 101, 115, 116])"
    using len by (simp add: encode_announcement_def LAN_MAGIC_def lan_consts to_be_bytes_def be_nat_numeral as_bytes_def [of "_ # _"]
      as_bytes_def [of "[]"] char_byte_def of_char_def)
  moreover have "length ''wg-peer-public-key'' = 18" "length ''59.110.138.44'' = 13" by simp_all
  ultimately show ?thesis
    using announcement_windows [of "as_bytes i"] len dot
    by (simp add: announcement_uses_rotating_node_id_instead_of_relay_or_public_key_def rotating_node_id_returns [OF hx]
       as_bytes_def [of "_ # _"] as_bytes_def [of "[]"] char_byte_def of_char_def del: list.size flip: i_def)
qed

section \<open>wireguard.rs\<close>

definition allowed_peer :: "string \<Rightarrow> ipnet list \<Rightarrow> peer" where
  "allowed_peer public_key allowed_ips = \<lparr> p_public_key = public_key, p_endpoint = None, p_allowed_ips = allowed_ips,
     p_latest_handshake = 0, p_receive_bytes = 0, p_transmit_bytes = 0 \<rparr>"

definition longest_allowed_prefix_selects_more_specific_peer :: bool where
  "longest_allowed_prefix_selects_more_specific_peer \<longleftrightarrow>
     map_option p_public_key (longest_matching_prefix cidr_contains
       [allowed_peer ''broad'' [net4 198 51 100 0 24], allowed_peer ''specific'' [net4 198 51 100 7 32]] (v4_of_octets [198, 51, 100, 7]) None)
     = Some ''specific''"

definition route_lookup_can_exclude_ingress_peer :: bool where
  "route_lookup_can_exclude_ingress_peer \<longleftrightarrow>
     map_option p_public_key (longest_matching_prefix cidr_contains
       [allowed_peer ''ingress'' [net4 198 51 100 0 24], allowed_peer ''next'' [net4 198 51 100 7 32]] (v4_of_octets [198, 51, 100, 7])
       (Some ''ingress''))
     = Some ''next''"

definition parses_comma_separated_allowed_ips :: "(string \<Rightarrow> ipnet option) \<Rightarrow> bool" where
  "parses_comma_separated_allowed_ips parse_net \<longleftrightarrow>
     length (parse_allowed_ips parse_net (Some ''198.51.100.7/32, 2001:db8::7/128'')) = 2"

lemma wireguard_tests_pass:
  "longest_allowed_prefix_selects_more_specific_peer" "route_lookup_can_exclude_ingress_peer"
  by (simp_all add: longest_allowed_prefix_selects_more_specific_peer_def route_lookup_can_exclude_ingress_peer_def allowed_peer_def transit_run)

lemma parses_allowed_ips_passes:
  assumes "parse_net ''198.51.100.7/32'' \<noteq> None" "parse_net ''2001:db8::7/128'' \<noteq> None"
  shows "parses_comma_separated_allowed_ips parse_net"
proof -
  have "split_chars (\<lambda>c. c = CHR '','' \<or> c = CHR '' '' \<or> c = char_of (9 :: nat)) ''198.51.100.7/32, 2001:db8::7/128''
      = [''198.51.100.7/32'', [], ''2001:db8::7/128'']" by code_simp
  with assms show ?thesis by (auto simp: parses_comma_separated_allowed_ips_def parse_allowed_ips_def)
qed

section \<open>broker.rs\<close>

definition broker_target :: "'c \<Rightarrow> string \<Rightarrow> 'c path_target" where
  "broker_target sender name = \<lparr> pt_id = name, pt_label = name, pt_protocol = ''udp'', pt_sender = sender \<rparr>"

definition selected_path_is_ordered_first :: "'c \<Rightarrow> bool" where
  "selected_path_is_ordered_first sender \<longleftrightarrow>
     (let paths = \<lparr> ps_targets = [broker_target sender ''one'', broker_target sender ''two''], ps_selected = None \<rparr> in
      case path_select paths (Some ''two'') of (paths, selected) \<Rightarrow>
        selected \<and> pt_id (ordered_targets paths ! 0) = ''two''
        \<and> (case path_select paths (Some ''missing'') of (paths, selected) \<Rightarrow>
             \<not> selected
             \<and> (case path_select paths None of (paths, selected) \<Rightarrow> selected \<and> pt_id (ordered_targets paths ! 0) = ''one'')))"

text \<open>The channels: the one sender of the test is open, and what is relayed to it is received.\<close>

definition dynamic_peer_uses_shared_easytier_target :: "'c \<Rightarrow> bool" where
  "dynamic_peer_uses_shared_easytier_target sender \<longleftrightarrow>
     (let packet = \<lparr> rp_peer_key = ''dynamic-peer'',
            rp_channel = ShortcutWireGuard (SessionKey (ShortcutId (replicate 16 1)) 1), rp_payload = [1, 2, 3] \<rparr>;
          step = run_dispatcher_step (\<lambda>c. c = sender) ([] :: (string \<times> string, int path_metrics) hashmap) [] [broker_target sender ''dynamic''] in
      (case step (DispatcherInbound (Some packet)) of
         ([Relayed c received], Continue) \<Rightarrow> c = sender \<and> rp_peer_key received = ''dynamic-peer''
       | _ \<Rightarrow> False)
      \<and> step DispatcherCancelled = ([], Stop (Inr ())))"

lemma broker_tests_pass: "selected_path_is_ordered_first sender" "dynamic_peer_uses_shared_easytier_target sender"
  by (simp_all add: selected_path_is_ordered_first_def dynamic_peer_uses_shared_easytier_target_def broker_target_def path_select_def
      ordered_targets_def swap_at_def relay_to_def)

section \<open>identity.rs\<close>

definition rotating_identity_changes_each_hour :: "(bytes \<Rightarrow> bytes) \<Rightarrow> (bytes \<Rightarrow> string) \<Rightarrow> bool" where
  "rotating_identity_changes_each_hour hash hex \<longleftrightarrow>
     returned (rotating_node_id hash hex ''wg-public-key'' 10) (\<lambda>first.
       returned (rotating_node_id hash hex ''wg-public-key'' 11) (\<lambda>i. first \<noteq> i)
       \<and> returned (rotating_node_id hash hex ''other-key'' 10) (\<lambda>i. first \<noteq> i)
       \<and> returned (rotating_node_id hash hex ''wg-public-key'' 10) (\<lambda>i. first = i))"

definition rotating_instance_ids_are_stable_per_node_and_hour :: "(bytes \<Rightarrow> bytes) \<Rightarrow> (bytes \<Rightarrow> string) \<Rightarrow> bool" where
  "rotating_instance_ids_are_stable_per_node_and_hour hash hex \<longleftrightarrow>
     returned (rotating_instance_id hash hex ''wg-public-key'' 10) (\<lambda>first.
       returned (rotating_instance_id hash hex ''wg-public-key'' 10) (\<lambda>i. first = i)
       \<and> returned (rotating_instance_id hash hex ''wg-public-key'' 11) (\<lambda>i. first \<noteq> i)
       \<and> returned (rotating_instance_id hash hex ''other-key'' 10) (\<lambda>i. first \<noteq> i))"

definition peer_ids_have_a_two_hour_sliding_window :: bool where
  "peer_ids_have_a_two_hour_sliding_window \<longleftrightarrow>
     peer_id_period 0 = 0 \<and> peer_id_period 3599 = 0 \<and> peer_id_period 3600 = 1
     \<and> active_peer_id_periods 7200 = [2, 1] \<and> active_peer_id_periods 0 = [0, 0]"

definition transport_network_is_not_relay_scoped :: "(bytes \<Rightarrow> bytes) \<Rightarrow> (bytes \<Rightarrow> string) \<Rightarrow> bool" where
  "transport_network_is_not_relay_scoped hash hex \<longleftrightarrow>
     returned (transport_network hash hex) (\<lambda>a. returned (transport_network hash hex) (\<lambda>b. a = b) \<and> starts_with a ''wglr-'')"

definition tracker_hashes_are_stable_and_scope_specific :: "(bytes \<Rightarrow> bytes) \<Rightarrow> bool" where
  "tracker_hashes_are_stable_and_scope_specific sha1 \<longleftrightarrow>
     (let first = info_hash sha1 ''wg-public-key'' ''hour-10|tracker-a'' in
      first = info_hash sha1 ''wg-public-key'' ''hour-10|tracker-a''
      \<and> first \<noteq> info_hash sha1 ''wg-public-key'' ''hour-10|tracker-b''
      \<and> first \<noteq> Identity.peer_id sha1 ''wg-public-key'' ''hour-10|tracker-a'')"

text \<open>
  The hash functions enter through their collisions: none between the inputs of one test, among the
  digits that are used.
\<close>

definition hour_input :: "string \<Rightarrow> string \<Rightarrow> u64 \<Rightarrow> bytes" where
  "hour_input label key period = digest_input [as_bytes label, as_bytes key, to_be_bytes period]"

lemma hour_input_inj:
  assumes "length label < 2 ^ 64" "length key < 2 ^ 64" "length key' < 2 ^ 64" and "hour_input label key period = hour_input label key' period'"
  shows "as_bytes key = as_bytes key'" and "period = period'"
proof -
  have "[as_bytes label, as_bytes key, to_be_bytes period] = [as_bytes label, as_bytes key', to_be_bytes period']"
    by (rule digest_input_inj) (use assms in \<open>auto simp: hour_input_def\<close>)
  then show "as_bytes key = as_bytes key'" and "period = period'" by (simp_all add: to_be_bytes_inj_u64)
qed

lemma hour_inputs_differ:
  assumes "length label < 2 ^ 64"
  shows "hour_input label ''wg-public-key'' 10 \<noteq> hour_input label ''wg-public-key'' 11"
    and "hour_input label ''wg-public-key'' 10 \<noteq> hour_input label ''other-key'' 10"
proof -
  show "hour_input label ''wg-public-key'' 10 \<noteq> hour_input label ''wg-public-key'' 11"
    using hour_input_inj(2) [OF assms, of "''wg-public-key''" "''wg-public-key''" 10 11] by auto
  have "length (as_bytes ''wg-public-key'') \<noteq> length (as_bytes ''other-key'')" by simp
  then show "hour_input label ''wg-public-key'' 10 \<noteq> hour_input label ''other-key'' 10"
    using hour_input_inj(1) [OF assms, of "''wg-public-key''" "''other-key''" 10 10] by auto
qed

lemma period_tests_pass: "peer_ids_have_a_two_hour_sliding_window"
  by (simp add: peer_ids_have_a_two_hour_sliding_window_def active_peer_id_periods_def peer_id_period_def PEER_ID_PERIOD_SECONDS_def
      sat_sub_def Let_def)

lemma rotating_identity_passes:
  assumes hx: "hex16 hash hex"
    and no_collision: "inj_on (\<lambda>b. take 16 (hex (hash b))) (case_prod (hour_input ''wg-link/hourly-node/v2'') ` {(''wg-public-key'', 10), (''wg-public-key'', 11), (''other-key'', 10)})"
  shows "rotating_identity_changes_each_hour hash hex"
proof -
  have n: "node_id hash hex key period = take 16 (hex (hash (hour_input ''wg-link/hourly-node/v2'' key period)))" for key period
    by (simp add: node_id_def digest_def hour_input_def)
  show ?thesis
    using inj_onD [OF no_collision] hour_inputs_differ [of "''wg-link/hourly-node/v2''"]
    by (auto simp: rotating_identity_changes_each_hour_def rotating_node_id_returns [OF hx] n)
qed

lemma rotating_instance_passes:
  assumes hx: "\<And>b. 32 \<le> length (hex (hash b))"
    and no_collision: "inj_on (\<lambda>b. take 32 (hex (hash b))) (case_prod (hour_input ''wg-link/hourly-instance/v1'') ` {(''wg-public-key'', 10), (''wg-public-key'', 11), (''other-key'', 10)})"
  shows "rotating_instance_ids_are_stable_per_node_and_hour hash hex"
proof -
  define dashed :: "string \<Rightarrow> string" where
    "dashed h = take 8 h @ ''-'' @ take 4 (drop 8 h) @ ''-'' @ take 4 (drop 12 h) @ ''-'' @ take 4 (drop 16 h) @ ''-'' @ take 12 (drop 20 h)" for h
  have n: "rotating_instance_id hash hex key period = Returned (dashed (hex (hash (hour_input ''wg-link/hourly-instance/v1'' key period))))"
    for key period
    using hx [of "hour_input ''wg-link/hourly-instance/v1'' key period"]
    by (simp add: rotating_instance_id_def slice_def digest_def dashed_def Let_def flip: hour_input_def)
  have parts: "take 32 h = take 8 h @ take 4 (drop 8 h) @ take 4 (drop 12 h) @ take 4 (drop 16 h) @ take 12 (drop 20 h)" for h :: string
    using take_add [of 8 24 h] take_add [of 4 20 "drop 8 h"] take_add [of 4 16 "drop 12 h"] take_add [of 4 12 "drop 16 h"] by (simp add: add.commute)
  have d: "take 32 h = take 32 h'" if "dashed h = dashed h'" "32 \<le> length h" "32 \<le> length h'" for h h'
    using that by (simp add: dashed_def parts)
  show ?thesis
    using inj_onD [OF no_collision d [OF _ hx hx]] hour_inputs_differ [of "''wg-link/hourly-instance/v1''"]
    by (auto simp: rotating_instance_ids_are_stable_per_node_and_hour_def n)
qed

definition scope_input :: "string \<Rightarrow> string \<Rightarrow> bytes" where
  "scope_input key provider = as_bytes ''wg-link/discovery/v1'' @ to_be_bytes (word_of_nat (length (as_bytes key)) :: u64) @ as_bytes key
     @ to_be_bytes (word_of_nat (length (as_bytes provider)) :: u64) @ as_bytes provider"

lemma scope_input_inj: "scope_input key p = scope_input key p' \<Longrightarrow> as_bytes p = as_bytes p'"
  by (simp add: scope_input_def)

lemma tracker_hashes_pass:
  assumes no_collision: "inj_on sha1 (scope_input ''wg-public-key'' ` {''hour-10|tracker-a'', ''hour-10|tracker-b'', ''peer-id|hour-10|tracker-a''})"
  shows "tracker_hashes_are_stable_and_scope_specific sha1"
proof -
  have i: "info_hash sha1 key provider = sha1 (scope_input key provider)" for key provider by (simp add: info_hash_def scope_input_def)
  have "as_bytes ''hour-10|tracker-a'' \<noteq> as_bytes ''hour-10|tracker-b''" "as_bytes ''hour-10|tracker-a'' \<noteq> as_bytes ''peer-id|hour-10|tracker-a''"
    by (simp_all add: as_bytes_def char_byte_def of_char_def)
  then have "scope_input ''wg-public-key'' ''hour-10|tracker-a'' \<noteq> scope_input ''wg-public-key'' ''hour-10|tracker-b''"
    "scope_input ''wg-public-key'' ''hour-10|tracker-a'' \<noteq> scope_input ''wg-public-key'' ''peer-id|hour-10|tracker-a''"
    using scope_input_inj by metis+
  then have "sha1 (scope_input ''wg-public-key'' ''hour-10|tracker-a'') \<noteq> sha1 (scope_input ''wg-public-key'' ''hour-10|tracker-b'')"
    "sha1 (scope_input ''wg-public-key'' ''hour-10|tracker-a'') \<noteq> sha1 (scope_input ''wg-public-key'' ''peer-id|hour-10|tracker-a'')"
    using inj_on_eq_iff [OF no_collision] by simp_all
  then show ?thesis by (simp add: tracker_hashes_are_stable_and_scope_specific_def Identity.peer_id_def i)
qed

lemma transport_network_passes: "20 \<le> length (hex (hash (digest_input [as_bytes ''wg-link/easytier-network/v2'']))) \<Longrightarrow> transport_network_is_not_relay_scoped hash hex"
  by (simp add: transport_network_is_not_relay_scoped_def transport_network_def slice_def digest_def starts_with_def)

section \<open>easytier.rs\<close>

definition filters_self_candidate_across_stun_address_families :: bool where
  "filters_self_candidate_across_stun_address_families \<longleftrightarrow>
     (let local_public_ips = {v4_of_octets [203, 0, 113, 44], V6 0x20014860000000000000000000000001} in
      is_local_candidate (sock4 203 0 113 44 42413) local_public_ips 42413
      \<and> is_local_candidate (SocketAddr (V6 0x20014860000000000000000000000001) 42413) local_public_ips 42413
      \<and> \<not> is_local_candidate (sock4 203 0 113 44 42414) local_public_ips 42413
      \<and> \<not> is_local_candidate (sock4 8 8 8 8 42413) local_public_ips 42413)"

definition frame_returns :: "relay_channel \<Rightarrow> bytes \<Rightarrow> bool" where
  "frame_returns channel payload \<longleftrightarrow>
     returned (decode_frame (encode_frame ''source'' ''target'' channel payload)) (\<lambda>r.
       case r of
         None \<Rightarrow> False
       | Some decoded \<Rightarrow> df_source decoded = ''source'' \<and> df_target decoded = ''target'' \<and> df_channel decoded = channel \<and> df_payload decoded = payload)"

definition frame_round_trip :: bool where
  "frame_round_trip \<longleftrightarrow> frame_returns BaseWireGuard (as_bytes ''wireguard'')"

definition shortcut_frame_round_trip :: bool where
  "shortcut_frame_round_trip \<longleftrightarrow> frame_returns (ShortcutWireGuard (SessionKey (ShortcutId (replicate 16 7)) 9)) (as_bytes ''shortcut'')"

definition probe_frame_round_trip :: bool where
  "probe_frame_round_trip \<longleftrightarrow> frame_returns (PathProbe 42 123456 True) (as_bytes ''p'')"

definition truncated_typed_frames_are_rejected :: bool where
  "truncated_typed_frames_are_rejected \<longleftrightarrow>
     list_all (\<lambda>channel. decode_frame (TYPED_FRAME_MAGIC @ [channel] @ replicate (28 - 9) 0) = Returned None)
       [SHORTCUT_CHANNEL, PROBE_REQUEST_CHANNEL, PROBE_RESPONSE_CHANNEL]"

definition invalid_frame_is_not_consumed :: bool where
  "invalid_frame_is_not_consumed \<longleftrightarrow>
     decode_frame (as_bytes ''not wg-link'') = Returned None
     \<and> decode_frame (encode_frame ''source'' ''target'' BaseWireGuard []) = Returned None"

definition peer_resolution_prefers_current_hour :: "(bytes \<Rightarrow> bytes) \<Rightarrow> (bytes \<Rightarrow> string) \<Rightarrow> bool" where
  "peer_resolution_prefers_current_hour hash hex \<longleftrightarrow>
     returned (rotating_node_name hash hex ''peer-public-key'' 2) (\<lambda>current.
     returned (rotating_node_name hash hex ''peer-public-key'' 1) (\<lambda>previous.
       resolve_peer_id hash hex (hm_insert current 22 (hm_insert previous 11 [])) ''peer-public-key'' 7200 = Returned (Some (2, current, 22))))"

definition peer_resolution_accepts_previous_hour_only :: "(bytes \<Rightarrow> bytes) \<Rightarrow> (bytes \<Rightarrow> string) \<Rightarrow> bool" where
  "peer_resolution_accepts_previous_hour_only hash hex \<longleftrightarrow>
     returned (rotating_node_name hash hex ''peer-public-key'' 1) (\<lambda>previous.
     returned (rotating_node_name hash hex ''peer-public-key'' 0) (\<lambda>expired.
       resolve_peer_id hash hex (hm_insert expired 33 (hm_insert previous 11 [])) ''peer-public-key'' 7200 = Returned (Some (1, previous, 11))))"

definition peer_resolution_rejects_expired_hour :: "(bytes \<Rightarrow> bytes) \<Rightarrow> (bytes \<Rightarrow> string) \<Rightarrow> bool" where
  "peer_resolution_rejects_expired_hour hash hex \<longleftrightarrow>
     returned (rotating_node_name hash hex ''peer-public-key'' 0) (\<lambda>expired.
       resolve_peer_id hash hex (hm_insert expired 33 []) ''peer-public-key'' 7200 = Returned None)"

lemma frame_returns_ok:
  assumes "payload \<noteq> []" and "channel_ok channel"
  shows "frame_returns channel payload"
proof -
  have "rust_str ''source''" "rust_str ''target''" by code_simp+
  then have "key_ok ''source''" "key_ok ''target''" by (simp_all add: key_ok_def)
  from decode_frame_encoded [OF this assms] show ?thesis by (simp add: frame_returns_def)
qed

lemma frame_tests_pass: "frame_round_trip" "shortcut_frame_round_trip" "probe_frame_round_trip"
  unfolding frame_round_trip_def shortcut_frame_round_trip_def probe_frame_round_trip_def
  by (rule frame_returns_ok; simp add: as_bytes_def)+

lemma frame_rejections_pass: "truncated_typed_frames_are_rejected" "invalid_frame_is_not_consumed"
proof -
  show "truncated_typed_frames_are_rejected"
    by (simp add: truncated_typed_frames_are_rejected_def decode_frame_def starts_with_def frame_consts as_bytes_def char_byte_def of_char_def)
  have "decode_frame (encode_frame ''source'' ''target'' BaseWireGuard []) = Returned None"
    by (simp add: encode_legacy_frame_def keys_and_payload_def len_u16_def decode_frame_def with_keys_def decode_keys_and_payload_def index_at_def
        starts_with_def frame_consts to_be_bytes_def be_nat_numeral from_be_bytes_def nat_of_be_def as_bytes_def char_byte_def of_char_def)
  moreover have "decode_frame (as_bytes ''not wg-link'') = Returned None"
    by (simp add: decode_frame_def starts_with_def frame_consts as_bytes_def char_byte_def of_char_def)
  ultimately show "invalid_frame_is_not_consumed" by (simp add: invalid_frame_is_not_consumed_def)
qed

lemma candidate_test_passes: "filters_self_candidate_across_stun_address_families"
  by (simp add: filters_self_candidate_across_stun_address_families_def is_local_candidate_def address_run)

lemma peer_resolution_tests_pass:
  assumes hx: "hex16 hash hex" and names: "distinct (map (node_name hash hex ''peer-public-key'') [0, 1, 2])"
  shows "peer_resolution_prefers_current_hour hash hex" "peer_resolution_accepts_previous_hour_only hash hex"
    "peer_resolution_rejects_expired_hour hash hex"
  using names
  by (auto simp: peer_resolution_prefers_current_hour_def peer_resolution_accepts_previous_hour_only_def
      peer_resolution_rejects_expired_hour_def rotating_node_name_returns [OF hx] resolve_peer_id_def active_peer_id_periods_def
      peer_id_period_def PEER_ID_PERIOD_SECONDS_def sat_sub_def Let_def)

definition public_relay_config_is_valid_and_isolated :: "(string \<Rightarrow> string) \<Rightarrow> (string \<Rightarrow> 'cfg res) \<Rightarrow> bool" where
  "public_relay_config_is_valid_and_isolated quote new_from_str \<longleftrightarrow>
     (let config = build_public_relay_config quote 11020 ''isolated-network'' ''secret'' ''allowed-network'' in
      is_ok (new_from_str config) \<and> \<not> contains_str config ''[[peer]]'' \<and> contains_str config ''no_tun = true''
      \<and> contains_str config ''relay_all_peer_rpc = true''
      \<and> contains_str config (''relay_network_whitelist = '' @ [CHR 0x22] @ ''allowed-network'' @ [CHR 0x22]))"

lemma contains_str_rec:
  "contains_str [] (p # ps) = False"
  "contains_str (c # s) (p # ps) \<longleftrightarrow> c = p \<and> starts_with s ps \<or> contains_str s (p # ps)"
proof -
  show "contains_str [] (p # ps) = False" by (simp add: contains_str_def windows_def)
  have "contains_str (c # s) (p # ps) \<longleftrightarrow> (\<exists>i < Suc (length s) - length ps. take (Suc (length ps)) (drop i (c # s)) = p # ps)"
    by (simp add: contains_str_def windows_iff)
  also have "\<dots> \<longleftrightarrow> take (Suc (length ps)) (c # s) = p # ps
      \<or> (\<exists>i < length s - length ps. take (Suc (length ps)) (drop i s) = p # ps)"
  proof (cases "length ps \<le> length s")
    case True
    then show ?thesis by (simp add: Suc_diff_le Ex_less_Suc2)
  next
    case False
    then have "take (length ps) s \<noteq> ps" by (metis length_take min.cobounded1 min_def)
    with False show ?thesis by simp
  qed
  also have "\<dots> \<longleftrightarrow> c = p \<and> starts_with s ps \<or> contains_str s (p # ps)"
    by (auto simp: contains_str_def windows_iff starts_with_def)
  finally show "contains_str (c # s) (p # ps) \<longleftrightarrow> c = p \<and> starts_with s ps \<or> contains_str s (p # ps)" .
qed

lemma starts_with_rec: "starts_with s []" "starts_with (c # s) (p # ps) \<longleftrightarrow> c = p \<and> starts_with s ps" "\<not> starts_with [] (p # ps)"
  by (simp_all add: starts_with_def)

lemma public_relay_config_passes:
  assumes q: "quote ''isolated-network'' = [CHR 0x22] @ ''isolated-network'' @ [CHR 0x22]"
      "quote ''secret'' = [CHR 0x22] @ ''secret'' @ [CHR 0x22]" "quote ''allowed-network'' = [CHR 0x22] @ ''allowed-network'' @ [CHR 0x22]"
    and valid: "is_ok (new_from_str (build_public_relay_config quote 11020 ''isolated-network'' ''secret'' ''allowed-network''))"
  shows "public_relay_config_is_valid_and_isolated quote new_from_str"
  unfolding public_relay_config_is_valid_and_isolated_def Let_def
  by (intro conjI valid) (simp_all add: build_public_relay_config_def q nl_def dec_string.simps digit_chars contains_str_rec starts_with_rec)

section \<open>management.rs\<close>

definition unavailable_path_cannot_be_selected :: "(bytes \<Rightarrow> bytes) \<Rightarrow> (bytes \<Rightarrow> string) \<Rightarrow> 'f metrics_env \<Rightarrow> 'c \<Rightarrow> bool" where
  "unavailable_path_cannot_be_selected hash hex me sender \<longleftrightarrow>
     (let target = \<lparr> pt_id = ''path'', pt_label = ''relay-1'', pt_protocol = ''udp'', pt_sender = sender \<rparr>;
          state = \<lparr> mg_interface = [], mg_peers = [], mg_paths = (\<lambda>_. \<lparr> ps_targets = [target], ps_selected = None \<rparr>), mg_metrics = [] \<rparr> in
      returned (replace_generation hash hex (\<lambda>_. False) state ''wg0'' [(''peer-key'', 0)]) (\<lambda>state.
      returned (management_peer_id hash hex ''peer-key'') (\<lambda>i.
        case select_path me state i (Some ''path'') of (state, refused) \<Rightarrow>
          refused = Inl PathUnavailable
          \<and> (let state = state\<lparr> mg_metrics := set_available (me_default me) (mg_metrics state) ''peer-key'' ''path'' True \<rparr> in
             case select_path me state i (Some ''path'') of (state, selected) \<Rightarrow>
               selected = Inr () \<and> ps_selected (mg_paths state 0) = Some ''path''))))"

lemma snapshot_available:
  "ss_available (snd (metrics_snapshot F dflt reg peer path now)) = pm_available (entry_or_default dflt reg (peer, path))"
  by (simp add: metrics_snapshot_def Let_def split: prod.splits)

lemma select_path_known:
  assumes "hm_get (mg_peers st) i = Some peer" "list_ex (\<lambda>t. pt_id t = x) (ps_targets (mg_paths st (mp_paths peer)))"
  shows "select_path me st i (Some x) =
    (let reg = fst (metrics_snapshot (me_ops me) (me_default me) (mg_metrics st) (mp_peer_key peer) x (me_now me (mp_peer_key peer) x)) in
     if pm_available (entry_or_default (me_default me) (mg_metrics st) (mp_peer_key peer, x))
     then commit_selection (st\<lparr> mg_metrics := reg \<rparr>) (mp_paths peer) (Some x) else (st\<lparr> mg_metrics := reg \<rparr>, Inl PathUnavailable))"
  using assms by (simp add: select_path_def snapshot_available Let_def case_prod_beta)

lemma management_test_passes:
  assumes "16 \<le> length (hex (hash (as_bytes ''peer-key'')))" and default: "\<not> pm_available (me_default me)"
  shows "unavailable_path_cannot_be_selected hash hex me sender"
proof -
  let ?ps = "\<lambda>_ :: nat. \<lparr> ps_targets = [\<lparr> pt_id = ''path'', pt_label = ''relay-1'', pt_protocol = ''udp'', pt_sender = sender \<rparr>], ps_selected = None \<rparr>"
  let ?i = "take 16 (hex (hash (as_bytes ''peer-key'')))" and ?peer = "\<lparr> mp_peer_key = ''peer-key'', mp_key_hint = ''peer-key'', mp_paths = 0 \<rparr>"
  let ?old = "\<lparr> mg_interface = [], mg_peers = [], mg_paths = ?ps, mg_metrics = [] \<rparr>"
  let ?new = "\<lparr> mg_interface = ''wg0'', mg_peers = [(?i, ?peer)], mg_paths = ?ps, mg_metrics = [] \<rparr>"
  have i: "management_peer_id hash hex ''peer-key'' = Returned ?i" using assms(1) by (simp add: management_peer_id_def slice_def)
  have r: "replace_generation hash hex (\<lambda>_. False) ?old ''wg0'' [(''peer-key'', 0)] = Returned ?new"
    by (simp add: replace_generation_def previous_selections_def i remove_peers_except_def collect_map_def)
  define reg where "reg = fst (metrics_snapshot (me_ops me) (me_default me) [] ''peer-key'' ''path'' (me_now me ''peer-key'' ''path''))"
  have s: "select_path me ?new ?i (Some ''path'') = (?new\<lparr> mg_metrics := reg \<rparr>, Inl PathUnavailable)"
    using default by (subst select_path_known [of _ _ ?peer]) (simp_all add: entry_or_default_def reg_def)
  define st where "st = ?new\<lparr> mg_metrics := set_available (me_default me) reg ''peer-key'' ''path'' True \<rparr>"
  have "pm_available (entry_or_default (me_default me) (mg_metrics st) (''peer-key'', ''path''))"
    by (simp add: st_def set_available_def with_path_def entry_or_default_def)
  then have "snd (select_path me st ?i (Some ''path'')) = Inr ()
    \<and> ps_selected (mg_paths (fst (select_path me st ?i (Some ''path''))) 0) = Some ''path''"
    by (subst (1 2) select_path_known [of _ _ ?peer]) (simp_all add: st_def commit_selection_def path_select_def Let_def)
  then show ?thesis
    by (simp add: unavailable_path_cannot_be_selected_def r i s case_prod_beta Let_def st_def)
qed

section \<open>metrics.rs\<close>

text \<open>
  The clock readings are parameters: \<open>clock i\<close> when the probe \<open>i\<close> is recorded, \<open>now\<close> for the snapshot.
  Arithmetic is that of the real numbers; \<open>f64\<close> is exact on the values of the first test.
\<close>

definition real_ops :: "real f64_ops" where
  "real_ops = \<lparr> f_of_nat = real, f_secs = (\<lambda>n. real n / 1000000000), f_zero = 0, f_add = (+),
     f_mul = (*), f_div = (/), f_neg = uminus, f_exp = exp, f_less = (<) \<rparr>"

fun record_probes :: "'f f64_ops \<Rightarrow> 'f path_metrics \<Rightarrow> (nat \<Rightarrow> instant) \<Rightarrow> nat \<Rightarrow> 'f metrics_registry" where
  "record_probes F dflt clock 0 = []"
| "record_probes F dflt clock (Suc i) = record_probe F dflt (record_probes F dflt clock i) ''peer'' ''path''
     (if i mod 2 = 0 then Some 5000000 else None) (clock i)"

definition loss_window_is_bounded_to_one_hundred_samples ::
    "'f f64_ops \<Rightarrow> 'f path_metrics \<Rightarrow> 'f \<Rightarrow> (nat \<Rightarrow> instant) \<Rightarrow> instant \<Rightarrow> bool" where
  "loss_window_is_bounded_to_one_hundred_samples F dflt fifty clock now \<longleftrightarrow>
     (let snapshot = snd (metrics_snapshot F dflt (record_probes F dflt clock 120) ''peer'' ''path'' now) in
      ss_probe_samples snapshot = 100 \<and> ss_loss_percent snapshot = Some fifty)"

definition traffic_updates_all_ewma_windows :: "'f f64_ops \<Rightarrow> 'f path_metrics \<Rightarrow> instant \<Rightarrow> instant \<Rightarrow> bool" where
  "traffic_updates_all_ewma_windows F dflt tx_now now \<longleftrightarrow>
     (let snapshot = snd (metrics_snapshot F dflt (record_tx F dflt [] ''peer'' ''path'' 1000 tx_now) ''peer'' ''path'' now) in
      case ss_tx_bps snapshot of (bps_5s, bps_1m, bps_1h) \<Rightarrow>
        f_less F bps_1m bps_5s \<and> f_less F bps_1h bps_1m \<and> ss_tx_bytes snapshot = 1000)"

lemma traffic_test_passes: "traffic_updates_all_ewma_windows real_ops (path_metrics_default real_ops now now) now now"
  by (simp add: traffic_updates_all_ewma_windows_def metrics_snapshot_def record_tx_def with_path_def entry_or_default_def
      path_metrics_default_def rates_new_def ewma_new_def rates_add_def ewma_add_def ewma_decay_def rates_snapshot_def ewma_value_def
      real_ops_def secs_def sat_add_def Let_def)

lemma trim_fresh: "\<forall>s \<in> set ps. now - pr_at s \<le> secs 60 \<Longrightarrow> trim_probes ps now = drop (length ps - 100) ps"
  by (induction ps) (auto simp: drop_Cons' Suc_diff_le not_less)

definition test_probe :: "(nat \<Rightarrow> instant) \<Rightarrow> nat \<Rightarrow> probe_sample" where
  "test_probe clock i = \<lparr> pr_at = clock i, pr_success = (i mod 2 = 0) \<rparr>"

lemma record_probe_probes:
  "pm_probes (entry_or_default d (record_probe F d reg p q rtt now) (p, q)) =
    trim_probes (pm_probes (entry_or_default d reg (p, q)) @ [\<lparr> pr_at = now, pr_success = (rtt \<noteq> None) \<rparr>]) now"
  by (cases rtt) (simp_all add: record_probe_def with_path_def entry_or_default_def Let_def)

lemma record_probes_window:
  assumes "pm_probes dflt = []" and "\<And>i j. i \<le> j \<Longrightarrow> j < n \<Longrightarrow> clock j - clock i \<le> secs 60"
  shows "pm_probes (entry_or_default dflt (record_probes F dflt clock n) (''peer'', ''path'')) = drop (n - 100) (map (test_probe clock) [0..<n])"
  using assms(2)
proof (induction n)
  case 0
  with assms(1) show ?case by (simp add: entry_or_default_def)
next
  case (Suc n)
  let ?old = "drop (n - 100) (map (test_probe clock) [0..<n])"
  have IH: "pm_probes (entry_or_default dflt (record_probes F dflt clock n) (''peer'', ''path'')) = ?old" using Suc by simp
  have "\<forall>s \<in> set (?old @ [test_probe clock n]). clock n - pr_at s \<le> secs 60"
    using Suc.prems by (auto simp: test_probe_def dest!: in_set_dropD)
  then have "trim_probes (?old @ [test_probe clock n]) (clock n) = drop (Suc n - 100) (map (test_probe clock) [0..<Suc n])"
    by (subst trim_fresh) (auto simp: drop_map drop_drop intro!: arg_cong [where f = "\<lambda>k. map (test_probe clock) [k..<n]"])
  moreover have "\<lparr> pr_at = clock n, pr_success = ((if n mod 2 = 0 then Some (5000000 :: nat) else None) \<noteq> None) \<rparr> = test_probe clock n"
    by (simp add: test_probe_def)
  ultimately show ?case by (simp only: record_probes.simps record_probe_probes IH)
qed

lemma loss_window_passes:
  assumes "\<And>i j. i \<le> j \<Longrightarrow> j < 120 \<Longrightarrow> clock j - clock i \<le> secs 60" and "\<And>i. i < 120 \<Longrightarrow> now - clock i \<le> secs 60"
  shows "loss_window_is_bounded_to_one_hundred_samples real_ops (path_metrics_default real_ops a b) 50 clock now"
proof -
  let ?d = "path_metrics_default real_ops a b"
  let ?w = "map (test_probe clock) [20..<120]"
  have p: "pm_probes (entry_or_default ?d (record_probes real_ops ?d clock 120) (''peer'', ''path'')) = ?w"
    using record_probes_window [of ?d 120 clock real_ops] assms(1) by (simp add: path_metrics_default_def drop_map)
  have "trim_probes ?w now = ?w" using assms(2) by (subst trim_fresh) (auto simp: test_probe_def)
  moreover have "length (filter (\<lambda>s. \<not> pr_success s) ?w) = 50"
    by (simp add: test_probe_def filter_map comp_def upt_rec_numeral)
  ultimately show ?thesis
    using p by (simp add: loss_window_is_bounded_to_one_hundred_samples_def metrics_snapshot_def real_ops_def Let_def split: prod.splits)
qed

end
