(* ===== verification/Spec2Isabelle.thy ===== *)
theory Spec2Isabelle
  imports Route_Stack Device_Channels Controller Wireguard Relay Base_Control Renewal Cascade Transit Hub Generation
    Management Discovery Lan Cleanup Supervisor Transport Establish Tasks Shortcut_Tests Chain_Test Path_Tests
begin

text \<open>
  \<^bold>\<open>wg-link\<close> keeps the peers of a WireGuard interface connected.  Every peer's WireGuard endpoint is a
  local \<^emph>\<open>broker\<close>, which sends the peer's packets over one of several EasyTier \<^emph>\<open>relays\<close>; a
  \<^emph>\<open>discovery\<close> finds direct addresses for the relays to try; the nodes of a hub build \<^emph>\<open>shortcuts\<close>,
  short-lived userspace WireGuard tunnels between two spokes, from tickets the hub issues; a
  \<^emph>\<open>supervisor\<close> runs all this for the current configuration of the interface; and a small \<^emph>\<open>management\<close>
  web server shows the paths and lets an operator choose one.  The sources are under
  \<open>src/src\<close>; file names below are relative to it.

  \<^bold>\<open>Foundations.\<close>  \<open>Rust_Prelude\<close> has machine integers as words, saturating arithmetic, hash maps as
  association lists with distinct keys, results (\<open>error + 'a\<close>, one constructor per error of the
  program) and \<open>exec\<close>, whose \<open>Panicked\<close> is a panic.  \<open>Rust_Text\<close> has byte orders, UTF-8, lines, words
  and decimal numbers.  \<open>Net_Types\<close> has addresses, networks and their printed forms, and the
  locale \<open>ipnet_crate\<close> for the prefix test of the \<open>ipnet\<close> crate.

  \<^bold>\<open>Shortcuts.\<close>
  \<^item> \<open>Control\<close> (\<open>shortcut/control.rs\<close>): tickets, \<open>validate\<close>, key derivation, control frames.
  \<^item> \<open>Shortcut_State\<close> (\<open>shortcut/state.rs\<close>): the session manager over a \<open>RouteManager\<close>, whose contract is
    the locale \<open>route_manager\<close>; invariant and step relation.  \<open>Lease_Table\<close>: the histories of a manager,
    refused removals included, their invariant, and the refinement of a table of leases.
  \<^item> \<open>Policy\<close> (\<open>shortcut/policy.rs\<close>): the atomic route manager and the \<open>ip\<close> commands; the locales
    \<open>userspace_routes\<close>, \<open>policy_rules\<close> and \<open>ip_tool\<close> are its interfaces.  \<open>Cleanup\<close> extends the contract of
    the tool by its listing and shows what \<open>cleanup_stale\<close> leaves.
  \<^item> \<open>Engine\<close> and \<open>Device\<close> (\<open>shortcut/engine.rs\<close>, \<open>shortcut/device.rs\<close>): tunnels over an abstract WireGuard
    state machine, the device's routes and its task, one branch of the \<open>select!\<close> at a time.
    \<open>Device_Channels\<close>: the bounded channels between that task and the main loop, and when the two
    tasks block each other.
  \<^item> \<open>Route_Stack\<close> puts manager, policy and device routes together as the node has them, interprets the
    locales for it, and holds the properties of its routing.
  \<^item> \<open>Controller\<close> (\<open>shortcut/controller.rs\<close>), \<open>Base_Control\<close> (\<open>shortcut/base_control.rs\<close>), \<open>Cascade\<close>, \<open>Renewal\<close>
    and \<open>Transit\<close> (the files of those names): admission of tickets, control datagrams, planning of
    ticket pairs, renewal and the detection of forwarded traffic.

  \<^bold>\<open>Paths.\<close>  \<open>Broker\<close> (\<open>broker.rs\<close>), \<open>Metrics\<close> (\<open>metrics.rs\<close>), \<open>Frame\<close> and \<open>Relay\<close> (\<open>easytier.rs\<close>): path sets and
  their order, health, the frames on the wire, and the relay task with its probes as a step
  function over its inputs.  \<open>Identity\<close> (\<open>identity.rs\<close>): rotating names, derived ports, info hashes.
  \<open>Wireguard\<close> (\<open>wireguard.rs\<close>): reading the interface and choosing peers by longest prefix.  \<open>Transport\<close>
  (\<open>easytier.rs\<close>, \<open>discovery/lan.rs\<close>, \<open>main.rs\<close>): the start of a relay task, the public relay, a tick of
  the LAN discovery, and the way of a packet through the tasks of two nodes.  \<open>Establish\<close> follows a
  shortcut through hub, spokes and devices; its locale \<open>noise_handshake\<close> extends the contract of the
  tunnel crate by the handshake of two tunnels with matching keys.

  \<^bold>\<open>Discovery.\<close>  \<open>Discovery\<close> (\<open>discovery/mod.rs\<close>, \<open>stun.rs\<close>, \<open>tracker.rs\<close>, \<open>dht.rs\<close>, \<open>config.rs\<close> and the discovery
  pass of \<open>easytier.rs\<close>): the public-address filter, STUN, trackers, one pass.  \<open>Lan\<close>
  (\<open>discovery/lan.rs\<close>): announcements on the local network.

  \<^bold>\<open>The process.\<close>  \<open>Hub\<close>, \<open>Generation\<close> and \<open>Supervisor\<close> (\<open>main.rs\<close>): issuing tickets, the loop of a
  generation with its shutdown, the start of a generation, and the loop of \<open>main\<close>.  \<open>Management\<close>
  (\<open>management.rs\<close>): its state, the selection of a path, the HTTP requests.  \<open>Tasks\<close>: the tasks around the
  handlers, from the first call to the last: the LAN socket and loop, the discovery loop, the end of
  a relay task, the control socket and capture tasks, the management listener.

  \<^bold>\<open>Validation.\<close>  \<open>Shortcut_Tests\<close>, \<open>Path_Tests\<close> and \<open>Chain_Test\<close> replay the unit tests of the sources on the
  model: a definition per test, of the same name, and a lemma that it holds, so the model meets the
  expectations the authors wrote down.  Tests that hang on a hash or on the clock pass under the
  stated condition.  Left out are the three tests of \<open>policy.rs\<close> that compare a log shared by the two
  halves of the route manager (their order is in the definition of \<open>atomic_activate\<close>), the test of
  \<open>engine.rs\<close>, which runs the WireGuard crate itself, and the one of \<open>device.rs\<close> that opens a TUN device.

  \<^bold>\<open>What is shown.\<close>  The routing of a node: a selector is routed exactly to the session that is active
  for it, only after a handshake, renewal never leaves a gap, expiry removes exactly what has
  expired; these hold in every state reached by calls that succeed or change nothing, for the whole
  node from its start, in this theory.  After a removal whose rule could not be deleted, which the
  program only logs, the invariant and the refinement still hold with that session named as the
  exception.
  Admission: only authenticated, valid tickets addressed to the node make sessions, and admission
  happens entirely or not at all.  Both ends of a shortcut derive matching keys; planned pairs are
  accepted; delegation ends.  A pair of tickets that the hub has sent leads, over a network that
  delivers, to an active session and a route on both spokes.  Frames, control frames, announcements, STUN and probes are read back
  as written, in the presence of arbitrary other bytes where the code has to cope with them.  Probe
  accounting balances.  A packet that the WireGuard or the shortcut device of a node hands over is
  sent once, on a live path, and reaches the WireGuard or the device of the peer unchanged and under
  the true sender, whenever EasyTier delivers the message.  A discovery pass returns exactly the public, foreign, distinct candidates.
  The LAN discovery is silent until it has joined the group on every interface; a relay task that
  ends normally has stopped all it started; junk never ends a control socket or the web server.
  The parsers return for every input, or panic exactly where stated.  An iteration of the device
  computes its outcome for every input; its sends wait for room, and it is shown exactly when the
  device and the main loop wait for each other for ever.  A start gives
  every peer a broker and every relay's path and hands the operator's choices over; recovery
  removes the rules of a crashed run and no others; the supervisor has one generation, for the
  configuration in force.

  \<^bold>\<open>Time, channels, fuel.\<close>  A clock reading is an argument or part of an input.  A task's \<open>select!\<close> loop
  is a step function from a state and an input to a state, effects and a flow; a theorem about all
  executions quantifies over the sequences of inputs.  Channels are lists where their order matters
  (the event channel of \<open>Generation\<close>); a closed channel is an argument.  A send to a channel that has
  room for 256 entries waits when it is full: \<open>Device_Channels\<close> models this for the two channels of the
  device, all other theories take such a send as accepted, so what they say of the order of steps
  leaves out the time spent waiting.  Services (clock, random numbers, network, tools) are functions
  in an environment record, fixed for a run or a pass and universally quantified in the theorems.  Loops over data are
  structural recursions or have a measure.  The drain loop of \<open>Engine\<close> is a partial function, \<open>None\<close>
  when it does not return, and is proved to return when the tunnel's queue is finite.  The only fuel
  is the first argument of \<open>trim_start_matches\<close>, the length of the text, which bounds its rounds.
  The capacity 256 of \<open>Device_Channels\<close> is that of the code.

  \<^bold>\<open>Not modelled.\<close>  EasyTier, boringtun, the DHT client, the HTTP client, JSON, bencode and TOML are
  parameters, with what the code relies on as hypotheses.  Sockets and the TUN device are reduced to
  the results of their operations.  White space is that of ASCII.  The page served by the management interface, log messages,
  zeroizing of secrets and the memory of tasks that were cancelled have no counterpart.  An EasyTier
  instance is a parameter of \<open>relay_start\<close> and \<open>public_relay_turn\<close>; the creation of the TUN device is a
  sequence of library calls without decisions of the program's own and is left out, as is the
  fixed pause after a generation.
\<close>

section \<open>From the start of a node\<close>

text \<open>
  C6.  No black hole: take a node whose generation was started on a kernel with any rules an earlier
  run may have left.  In every state it can reach, with its loop, its device task and the event
  channel interleaved in any order, a selector is routed to a session exactly when that session is
  active for it; the kernel diverts only selectors that are routed; and every session the node
  knows, so every routed one, has a live tunnel in the device or the notice of its failure is
  waiting in the channel.  Rules can be deleted throughout, the device task has not stopped, and its
  commands are applied when they are sent (the channel is first in, first out).
\<close>

theorem started_node_no_black_hole:
  assumes tool: "ip_listing (up_kernel env) hash ns (sd_policy sd) rules listing"
    and start: "generation_start env locked h config snapshot m k = Returned (m', k', Inr sd)"
    and del: "\<And>k s. \<exists>k'. policy_remove (up_kernel env) hash ns (sd_policy sd) k s = (k', Inr ())"
    and ev: "env_events_open (ge_device genv)"
    and reach: "generation_reachable (node_activate (up_kernel env) hash ns (sd_policy sd))
      (node_deactivate (up_kernel env) hash ns (sd_policy sd)) genv (sd_generation sd) st q"
    and mgr: "mgr = ct_manager (gn_controller st)"
  shows "(\<forall>sel k. node_table mgr sel = Some (RouteTarget k) \<longleftrightarrow>
      (\<exists>s. hm_get (sm_sessions mgr) k = Some s \<and> ms_phase s = Active \<and> t_selector (ms_ticket s) = sel))
    \<and> node_rules rules mgr \<subseteq> dom (node_table mgr)
    \<and> (\<forall>k. hm_get (sm_sessions mgr) k \<noteq> None \<longrightarrow>
         hm_get (ct_device (gn_controller st)) k \<noteq> None \<or> SessionFailed k \<in> set q)"
proof (rule generation_start_steps [OF start])
  assume sh: "start_shortcuts env snapshot (sd_addresses sd) k
    = (k', Inr (sd_policy sd, gn_controller (sd_generation sd), sd_control sd))"
  show ?thesis
    by (rule generation_no_black_hole [OF ip_listing.axioms(1) [OF tool] start_shortcuts_clean [OF tool sh] del ev
          start_shortcuts_controller [OF sh] reach mgr])
qed

theorem started_node_no_black_hole_witness:
  "\<exists>m' k' (sd :: (string list list node_routes, bytes list, nat) started) st q.
     generation_start sample_start_env (\<lambda>_. False) 1 sample_options (gn_snapshot sample_gen) sample_before [] = Returned (m', k', Inr sd)
     \<and> generation_reachable (node_activate listing_ip sample_hash raw_net_string (sd_policy sd))
         (node_deactivate listing_ip sample_hash raw_net_string (sd_policy sd)) sample_gen_env (sd_generation sd) st q
     \<and> hm_get (sm_sessions (ct_manager (gn_controller st))) (sample_key 1) \<noteq> None
     \<and> (hm_get (ct_device (gn_controller st)) (sample_key 1) \<noteq> None \<or> SessionFailed (sample_key 1) \<in> set q)"
proof -
  obtain m' k' and sd :: "(string list list node_routes, bytes list, nat) started" where
    s: "generation_start sample_start_env (\<lambda>_. False) 1 sample_options (gn_snapshot sample_gen) sample_before [] = Returned (m', k', Inr sd)"
    and snap: "gn_snapshot (sd_generation sd) = gn_snapshot sample_gen" by (rule sample_starts)
  let ?act = "node_activate listing_ip sample_hash raw_net_string (sd_policy sd)"
  let ?deact = "node_deactivate listing_ip sample_hash raw_net_string (sd_policy sd)"
  have env: "up_kernel sample_start_env = listing_ip" by (simp add: sample_start_env_def)
  have tool: "ip_listing (up_kernel sample_start_env) sample_hash raw_net_string (sd_policy sd)
      (list_rules sample_hash (sd_policy sd)) entries" unfolding env by (rule listing_kernel.ip_listing_axioms)
  have del: "\<exists>k'. policy_remove (up_kernel sample_start_env) sample_hash raw_net_string (sd_policy sd) k x = (k', Inr ())" for k x
    unfolding env by (rule listing_remove_succeeds)
  have ev: "env_events_open (ge_device sample_gen_env)" by (simp add: sample_gen_env_def sample_env_def)
  have ct: "gn_controller (sd_generation sd) = controller_new ''alice'' (manager_new (atomic_new device_routes_default k')) []"
  proof (rule generation_start_steps [OF s])
    assume "start_shortcuts sample_start_env (gn_snapshot sample_gen) (sd_addresses sd) []
      = (k', Inr (sd_policy sd, gn_controller (sd_generation sd), sd_control sd))"
    from start_shortcuts_controller [OF this] show ?thesis by (simp add: sample_gen_def)
  qed
  obtain st eff where step: "generation_step ?act ?deact sample_gen_env (sd_generation sd) sample_gen_ticket = Returned (st, eff, GoOn)"
    and in_st: "hm_get (sm_sessions (ct_manager (gn_controller st))) (sample_key 1) \<noteq> None"
    by (rule sample_ticket_admitted [OF ct snap])
  have reach: "generation_reachable ?act ?deact sample_gen_env (sd_generation sd) st (emitted (device_part eff))"
    using generation_reachable.gen_iterate [OF generation_reachable.gen_start, of sample_gen_ticket] step by fastforce
  from started_node_no_black_hole [OF tool s del ev reach [folded env] refl] s reach in_st show ?thesis by blast
qed

end
